(* ===== verification/Prelude.thy ===== *)
theory Prelude
  imports Main "HOL-Library.Word" "HOL-Library.Char_ord" "HOL-Library.List_Lexorder"
    "HOL-Library.Finite_Map"
begin

text \<open>
  What every component of the development shares: Go's error-returning style (an
  \<open>error\<close> result is \<open>'e option\<close> with \<open>None\<close> for nil, a value with an error is a sum), the
  byte-string functions of the standard library the code calls (a Go string is a list of
  bytes, here \<open>string\<close>), the digest and identifier patterns, and the ordered-prefix
  relation on string slices that both activation journals use for their progress.
\<close>

named_theorems go_defs "definitions of small helpers that proofs unfold together"
named_theorems err_simps "decomposition of error chains"

section \<open>Errors\<close>

definition check :: "bool \<Rightarrow> 'e \<Rightarrow> 'e option" where
  "check b e = (if b then Some e else None)"

definition first_err :: "'e option \<Rightarrow> 'e option \<Rightarrow> 'e option" where
  "first_err a b = (case a of None \<Rightarrow> b | Some e \<Rightarrow> Some e)"

definition ebind :: "'e + 'a \<Rightarrow> ('a \<Rightarrow> 'e + 'b) \<Rightarrow> 'e + 'b" where
  "ebind m f = (case m of Inl e \<Rightarrow> Inl e | Inr a \<Rightarrow> f a)"

definition guard_err :: "bool \<Rightarrow> 'e \<Rightarrow> 'e + unit" where
  "guard_err b e = (if b then Inl e else Inr ())"

definition lift_err :: "('e \<Rightarrow> 'f) \<Rightarrow> 'e option \<Rightarrow> 'f + unit" where
  "lift_err w m = (case m of None \<Rightarrow> Inr () | Some e \<Rightarrow> Inl (w e))"

lemma check_None [simp, err_simps]: "check b e = None \<longleftrightarrow> \<not> b"
  by (simp add: check_def)

lemma check_Some [simp, err_simps]: "check b e = Some x \<longleftrightarrow> b \<and> x = e"
  by (auto simp: check_def)

lemma check_simps [simp]:
  "check True e = Some e"
  "check False e = None"
  by (simp_all add: check_def)

lemma first_err_None [simp, err_simps]: "first_err a b = None \<longleftrightarrow> a = None \<and> b = None"
  by (simp add: first_err_def split: option.splits)

lemma first_err_Some [err_simps]:
  "first_err a b = Some e \<longleftrightarrow> a = Some e \<or> (a = None \<and> b = Some e)"
  by (auto simp: first_err_def split: option.splits)

lemma first_err_simps [simp]:
  "first_err None b = b"
  "first_err (Some e) b = Some e"
  by (simp_all add: first_err_def)

lemma ebind_Inr [simp, err_simps]:
  "ebind m f = Inr b \<longleftrightarrow> (\<exists>a. m = Inr a \<and> f a = Inr b)"
  by (cases m) (simp_all add: ebind_def)

lemma ebind_simps [simp]:
  "ebind (Inl e) f = Inl e"
  "ebind (Inr a) f = f a"
  by (simp_all add: ebind_def)

lemma ebind_Inl [err_simps]:
  "ebind m f = Inl e \<longleftrightarrow> m = Inl e \<or> (\<exists>a. m = Inr a \<and> f a = Inl e)"
  by (cases m) (simp_all add: ebind_def)

lemma guard_err_Inr [simp, err_simps]: "guard_err b e = Inr u \<longleftrightarrow> \<not> b"
  by (simp add: guard_err_def)

lemma guard_err_Inl [simp, err_simps]: "guard_err b e = Inl x \<longleftrightarrow> b \<and> x = e"
  by (auto simp: guard_err_def)

lemma guard_err_simps [simp]:
  "guard_err True e = Inl e"
  "guard_err False e = Inr ()"
  by (simp_all add: guard_err_def)

lemma lift_err_Inr [simp, err_simps]: "lift_err w m = Inr u \<longleftrightarrow> m = None"
  by (simp add: lift_err_def split: option.splits)

lemma lift_err_simps [simp]:
  "lift_err w None = Inr ()"
  "lift_err w (Some e) = Inl (w e)"
  by (simp_all add: lift_err_def)

text \<open>A loop that returns the first error of its body.\<close>

fun first_err_list :: "('a \<Rightarrow> 'e option) \<Rightarrow> 'a list \<Rightarrow> 'e option" where
  "first_err_list f [] = None"
| "first_err_list f (x # xs) = first_err (f x) (first_err_list f xs)"

lemma first_err_list_None [simp, err_simps]:
  "first_err_list f xs = None \<longleftrightarrow> (\<forall>x \<in> set xs. f x = None)"
  by (induction xs) auto

section \<open>Strings\<close>

definition has_prefix :: "string \<Rightarrow> string \<Rightarrow> bool" where
  "has_prefix s p \<longleftrightarrow> take (length p) s = p"

lemma has_prefix_append [simp]: "has_prefix (p @ s) p"
  by (simp add: has_prefix_def)

lemma has_prefix_iff: "has_prefix s p \<longleftrightarrow> (\<exists>t. s = p @ t)"
  by (metis append_take_drop_id has_prefix_append has_prefix_def)

definition has_suffix :: "string \<Rightarrow> string \<Rightarrow> bool" where
  "has_suffix s p \<longleftrightarrow> has_prefix (rev s) (rev p)"

text \<open>
  \<open>strings.TrimSpace\<close>: the UTF-8 encodings of the code points of \<open>unicode.IsSpace\<close>.
\<close>

definition space_runes :: "string list" where
  "space_runes =
     [[CHR 0x09], [CHR 0x0A], [CHR 0x0B], [CHR 0x0C], [CHR 0x0D], [CHR 0x20],
      [CHR 0xC2, CHR 0x85], [CHR 0xC2, CHR 0xA0], [CHR 0xE1, CHR 0x9A, CHR 0x80],
      [CHR 0xE2, CHR 0x80, CHR 0x80], [CHR 0xE2, CHR 0x80, CHR 0x81],
      [CHR 0xE2, CHR 0x80, CHR 0x82], [CHR 0xE2, CHR 0x80, CHR 0x83],
      [CHR 0xE2, CHR 0x80, CHR 0x84], [CHR 0xE2, CHR 0x80, CHR 0x85],
      [CHR 0xE2, CHR 0x80, CHR 0x86], [CHR 0xE2, CHR 0x80, CHR 0x87],
      [CHR 0xE2, CHR 0x80, CHR 0x88], [CHR 0xE2, CHR 0x80, CHR 0x89],
      [CHR 0xE2, CHR 0x80, CHR 0x8A], [CHR 0xE2, CHR 0x80, CHR 0xA8],
      [CHR 0xE2, CHR 0x80, CHR 0xA9], [CHR 0xE2, CHR 0x80, CHR 0xAF],
      [CHR 0xE2, CHR 0x81, CHR 0x9F], [CHR 0xE3, CHR 0x80, CHR 0x80]]"

definition strip_rune :: "string list \<Rightarrow> string \<Rightarrow> string option" where
  "strip_rune rs s =
     (case find (has_prefix s) rs of None \<Rightarrow> None | Some r \<Rightarrow> Some (drop (length r) s))"

lemma strip_rune_shorter:
  assumes "[] \<notin> set rs" and "strip_rune rs s = Some t"
  shows "length t < length s"
proof -
  from assms(2) obtain r where r: "find (has_prefix s) rs = Some r" "t = drop (length r) s"
    by (auto simp: strip_rune_def split: option.splits)
  then have "r \<in> set rs" "has_prefix s r"
    by (auto simp: find_Some_iff)
  with assms(1) have "r \<noteq> []" "length r \<le> length s"
    by (auto simp: has_prefix_iff)
  with r(2) show ?thesis
    by (cases r) auto
qed

lemma space_runes_nonempty: "[] \<notin> set space_runes" "[] \<notin> set (map rev space_runes)"
  by (simp_all add: space_runes_def)

function strip_all :: "string list \<Rightarrow> string \<Rightarrow> string" where
  "strip_all rs s =
     (if [] \<in> set rs then s
      else case strip_rune rs s of None \<Rightarrow> s | Some t \<Rightarrow> strip_all rs t)"
  by pat_completeness auto
termination
  by (relation "measure (\<lambda>(rs, s). length s)") (auto intro: strip_rune_shorter)

declare strip_all.simps [simp del]

definition trim_space :: "string \<Rightarrow> string" where
  "trim_space s = rev (strip_all (map rev space_runes) (rev (strip_all space_runes s)))"

definition blank :: "string \<Rightarrow> bool" where
  "blank s \<longleftrightarrow> trim_space s = []"

lemma strip_all_Nil [simp]: "strip_all rs [] = []"
proof (cases "strip_rune rs []")
  case (Some t)
  then show ?thesis
    by (auto simp: strip_all.simps [of rs "[]"] dest: strip_rune_shorter)
qed (simp add: strip_all.simps)

lemma trim_space_Nil [simp]: "trim_space [] = []"
  by (simp add: trim_space_def)

lemma blank_Nil [simp]: "blank []"
  by (simp add: blank_def)

text \<open>\<open>strings.ToLower\<close> on ASCII bytes.\<close>

definition ascii_lower :: "char \<Rightarrow> char" where
  "ascii_lower c =
     (if CHR ''A'' \<le> c \<and> c \<le> CHR ''Z'' then char_of (of_char c + 32 :: nat) else c)"

section \<open>Digests and identifiers\<close>

definition is_hex :: "char \<Rightarrow> bool" where
  "is_hex c \<longleftrightarrow> (CHR ''0'' \<le> c \<and> c \<le> CHR ''9'') \<or> (CHR ''a'' \<le> c \<and> c \<le> CHR ''f'')
     \<or> (CHR ''A'' \<le> c \<and> c \<le> CHR ''F'')"

definition is_lower_hex :: "char \<Rightarrow> bool" where
  "is_lower_hex c \<longleftrightarrow> (CHR ''0'' \<le> c \<and> c \<le> CHR ''9'') \<or> (CHR ''a'' \<le> c \<and> c \<le> CHR ''f'')"

definition is_lower_alnum :: "char \<Rightarrow> bool" where
  "is_lower_alnum c \<longleftrightarrow> (CHR ''a'' \<le> c \<and> c \<le> CHR ''z'') \<or> (CHR ''0'' \<le> c \<and> c \<le> CHR ''9'')"

definition is_alnum :: "char \<Rightarrow> bool" where
  "is_alnum c \<longleftrightarrow> is_lower_alnum c \<or> (CHR ''A'' \<le> c \<and> c \<le> CHR ''Z'')"

text \<open>A digest \<open>sha256:\<close> of 64 lower-case hexadecimal digits.\<close>

definition sha256_prefix :: string where
  "sha256_prefix = ''sha256:''"

lemma length_sha256_prefix [simp]: "length sha256_prefix = 7"
  by (simp add: sha256_prefix_def)

text \<open>Sample values that the witnesses use.\<close>

definition sample_hex :: "char \<Rightarrow> string" where
  "sample_hex c = replicate 64 c"

definition sample_digest :: "char \<Rightarrow> string" where
  "sample_digest c = sha256_prefix @ sample_hex c"

definition lower_hex64 :: "string \<Rightarrow> bool" where
  "lower_hex64 s \<longleftrightarrow> length s = 64 \<and> list_all is_lower_hex s"

text \<open>The pattern \<open>^sha256:[a-f0-9]{64}$\<close>.\<close>

definition digest_pattern :: "string \<Rightarrow> bool" where
  "digest_pattern s \<longleftrightarrow> has_prefix s sha256_prefix \<and> lower_hex64 (drop 7 s)"

text \<open>
  \<open>canonicalDigest\<close>: 71 bytes, the prefix, 64 hexadecimal digits (\<open>hex.DecodeString\<close> takes both
  cases), and nothing that \<open>strings.ToLower\<close> changes.
\<close>

definition canonicalDigest :: "string \<Rightarrow> bool" where
  "canonicalDigest v \<longleftrightarrow>
     length v = 71 \<and> has_prefix v sha256_prefix \<and> list_all is_hex (drop 7 v) \<and> v = map ascii_lower v"

lemma lower_hex64_sample [simp]: "is_lower_hex c \<Longrightarrow> lower_hex64 (sample_hex c)"
  by (simp add: lower_hex64_def sample_hex_def list_all_iff)

lemma digest_pattern_sample [simp]: "is_lower_hex c \<Longrightarrow> digest_pattern (sample_digest c)"
  by (simp add: digest_pattern_def sample_digest_def)

section \<open>Slices and maps\<close>

text \<open>
  A slice that may be nil, where the code tells nil from empty (\<open>== nil\<close>, \<open>reflect.DeepEqual\<close>).
\<close>

type_synonym 'a slice = "'a list option"

definition items :: "'a slice \<Rightarrow> 'a list" where
  "items s = (case s of None \<Rightarrow> [] | Some xs \<Rightarrow> xs)"

lemma items_simps [simp]: "items None = []" "items (Some xs) = xs"
  by (simp_all add: items_def)

text \<open>A map that may be nil; the zero value of a missing string entry is the empty string.\<close>

type_synonym ('k, 'v) gomap = "('k, 'v) fmap option"

definition entry :: "('k, 'a list) gomap \<Rightarrow> 'k \<Rightarrow> 'a list" where
  "entry m k = (case m of None \<Rightarrow> [] | Some f \<Rightarrow> (case fmlookup f k of None \<Rightarrow> [] | Some v \<Rightarrow> v))"

definition map_len :: "('k, 'v) gomap \<Rightarrow> nat" where
  "map_len m = (case m of None \<Rightarrow> 0 | Some f \<Rightarrow> fcard (fmdom f))"

section \<open>Ordered prefixes\<close>

text \<open>
  The index loop of \<open>orderedPrefix\<close>: a length test, then one comparison per index.
\<close>

definition orderedPrefix :: "string list \<Rightarrow> string list \<Rightarrow> bool" where
  "orderedPrefix pre vs \<longleftrightarrow>
     length pre \<le> length vs \<and> list_all (\<lambda>i. pre ! i = vs ! i) [0 ..< length pre]"

definition equalStrings :: "string list \<Rightarrow> string list \<Rightarrow> bool" where
  "equalStrings l r \<longleftrightarrow> length l = length r \<and> orderedPrefix l r"

definition appendedExact :: "string list \<Rightarrow> string list \<Rightarrow> string \<Rightarrow> bool" where
  "appendedExact before after v \<longleftrightarrow>
     length after = length before + 1 \<and> orderedPrefix before after \<and> after ! length before = v"

definition removedExactTail :: "string list \<Rightarrow> string list \<Rightarrow> string \<Rightarrow> bool" where
  "removedExactTail before after v \<longleftrightarrow>
     length before = length after + 1 \<and> orderedPrefix after before \<and> before ! length after = v"

lemma orderedPrefix_iff_take: "orderedPrefix pre vs \<longleftrightarrow> pre = take (length pre) vs"
proof
  assume *: "orderedPrefix pre vs"
  then have "length pre \<le> length vs" "\<And>i. i < length pre \<Longrightarrow> pre ! i = vs ! i"
    by (auto simp: orderedPrefix_def list_all_iff)
  then show "pre = take (length pre) vs"
    by (intro nth_equalityI) auto
next
  assume *: "pre = take (length pre) vs"
  then have "length pre \<le> length vs"
    by (metis length_take min.cobounded1)
  with * show "orderedPrefix pre vs"
    unfolding orderedPrefix_def list_all_iff
    by (metis (no_types, lifting) atLeastLessThan_iff nth_take set_upt)
qed

lemma orderedPrefix_append: "orderedPrefix pre vs \<longleftrightarrow> (\<exists>rest. vs = pre @ rest)"
  by (metis append_eq_conv_conj append_take_drop_id orderedPrefix_iff_take)

lemma equalStrings_iff [simp]: "equalStrings l r \<longleftrightarrow> l = r"
  by (auto simp: equalStrings_def orderedPrefix_append)

lemma appendedExact_iff [simp]: "appendedExact before after v \<longleftrightarrow> after = before @ [v]"
proof
  assume a: "appendedExact before after v"
  then obtain rest where "after = before @ rest" "length rest = 1"
    by (auto simp: appendedExact_def orderedPrefix_append)
  with a show "after = before @ [v]"
    by (cases rest) (auto simp: appendedExact_def)
qed (auto simp: appendedExact_def orderedPrefix_append)

lemma removedExactTail_iff [simp]: "removedExactTail before after v \<longleftrightarrow> before = after @ [v]"
  using appendedExact_iff [of after before v]
  unfolding removedExactTail_def appendedExact_def by blast

lemma orderedPrefix_Nil [simp]: "orderedPrefix [] vs"
  by (simp add: orderedPrefix_append)

lemma orderedPrefix_extend:
  "orderedPrefix pre vs \<Longrightarrow> length pre < length vs \<Longrightarrow> orderedPrefix (pre @ [vs ! length pre]) vs"
  by (metis append_take_drop_id orderedPrefix_append orderedPrefix_iff_take take_Suc_conv_app_nth)

lemma orderedPrefix_butlast: "orderedPrefix (pre @ [v]) vs \<Longrightarrow> orderedPrefix pre vs"
  by (auto simp: orderedPrefix_append)

lemma orderedPrefix_length: "orderedPrefix pre vs \<Longrightarrow> length pre \<le> length vs"
  by (simp add: orderedPrefix_def)

lemma orderedPrefix_full: "orderedPrefix pre vs \<Longrightarrow> length pre = length vs \<Longrightarrow> pre = vs"
  by (auto simp: orderedPrefix_append)

lemma orderedPrefix_nth: "orderedPrefix pre vs \<Longrightarrow> i < length pre \<Longrightarrow> pre ! i = vs ! i"
  by (auto simp: orderedPrefix_append nth_append)

section \<open>Chains of states\<close>

text \<open>
  Both control procedures and the lifecycle journal move one value by admitted steps. A chain lists
  the values after a first one, each a step after the one before; the locale is the contract of such
  a step relation, that a step keeps a value valid, and its client lemmas carry validity along
  chains and runs.
\<close>

fun chain :: "('s \<Rightarrow> 's \<Rightarrow> bool) \<Rightarrow> 's \<Rightarrow> 's list \<Rightarrow> bool" where
  "chain R x [] = True"
| "chain R x (y # ys) = (R x y \<and> chain R y ys)"

definition chain_end :: "'s \<Rightarrow> 's list \<Rightarrow> 's" where
  "chain_end x ys = (if ys = [] then x else last ys)"

lemma chain_end_simps [simp]:
  "chain_end x [] = x"
  "chain_end x (y # ys) = chain_end y ys"
  "chain_end x (ys @ zs) = chain_end (chain_end x ys) zs"
  by (auto simp: chain_end_def)

lemma chain_end_in: "chain_end x ys \<in> set (x # ys)"
  by (simp add: chain_end_def)

lemma chain_append [simp]: "chain R x (ys @ zs) \<longleftrightarrow> chain R x ys \<and> chain R (chain_end x ys) zs"
  by (induction ys arbitrary: x) auto

lemma chain_mono: "chain R x ys \<Longrightarrow> (\<And>x y. R x y \<Longrightarrow> S x y) \<Longrightarrow> chain S x ys"
  by (induction ys arbitrary: x) auto

locale guarded_steps =
  fixes valid :: "'s \<Rightarrow> bool" and step :: "'s \<Rightarrow> 's \<Rightarrow> bool"
  assumes step_valid: "valid x \<Longrightarrow> step x y \<Longrightarrow> valid y"
begin

lemma chain_valid: "chain step x ys \<Longrightarrow> valid x \<Longrightarrow> y \<in> set (x # ys) \<Longrightarrow> valid y"
  by (induction ys arbitrary: x) (auto dest: step_valid)

lemma chain_end_valid: "chain step x ys \<Longrightarrow> valid x \<Longrightarrow> valid (chain_end x ys)"
  by (rule chain_valid [OF _ _ chain_end_in])

lemma run_valid: "step\<^sup>*\<^sup>* x y \<Longrightarrow> valid x \<Longrightarrow> valid y"
  by (induction rule: rtranclp_induct) (auto dest: step_valid)

end

locale started_steps = guarded_steps valid step
  for valid :: "'s \<Rightarrow> bool" and step :: "'s \<Rightarrow> 's \<Rightarrow> bool" +
  fixes origin :: 's
  assumes origin_valid: "valid origin"
begin

lemma reached_valid: "step\<^sup>*\<^sup>* origin y \<Longrightarrow> valid y"
  by (rule run_valid [OF _ origin_valid])

end

end
