(* ===== verification/RuntimeControls.thy ===== *)
theory RuntimeControls
  imports Prelude
begin

text \<open>
  The per-container power controls of a snapshot or a restore activation
  (\<open>internal/backuplifecycle/runtime_control.go\<close>): their data, their validity, and the two
  procedures that move one control forward against a manager driver, \<open>AdvanceRuntimeControl\<close>
  and \<open>SettleRuntimeControl\<close>.

  The journal, the observer and the driver are interfaces of the Go code. They are the record
  \<open>control_env\<close> here: each of their answers is an arbitrary function of the events so far, so
  a statement about every environment covers every behaviour of the journal, of the container
  host and of the manager, including lost replies and failing writes. A run of a procedure
  returns the events it caused, the control it ends with and its error.
\<close>

section \<open>Data\<close>

text \<open>Effect states and actions are strings in the code; other strings are kept.\<close>

datatype control_state =
    NoState | ControlPreparing | ControlPrepared | ControlDispatched | ControlObserved
  | ControlAdopted | ControlNegativeAdopted | ControlFailed | OtherState string

datatype control_action = Stop | Start | RollbackStop | RollbackStart

record runtime_control_effect =
  eff_handle :: string
  eff_state :: control_state

record runtime_control =
  rc_component :: string
  rc_container :: string
  rc_was_running :: bool
  rc_stop :: runtime_control_effect
  rc_start :: runtime_control_effect
  rc_rollback_stop :: runtime_control_effect
  rc_rollback_start :: runtime_control_effect

datatype control_error =
    ControlIdentityInvalid | EffectStateInvalid | HandleDiffersFromState
  | ChangesStoppedComponent | StartsBeforeStop | ErrControlUnresolved
  | ControlBindingsMissing | StoppedComponentChanged | ContainerGenerationChanged
  | PowerChangedAfterControl | PowerChangedBeforeDispatch | EffectChangedIdentity
  | CompletedChangedIdentity | ExternalError string | JoinedError control_error control_error

primrec runtimeControlEffect :: "runtime_control \<Rightarrow> control_action \<Rightarrow> runtime_control_effect" where
  "runtimeControlEffect c Stop = rc_stop c"
| "runtimeControlEffect c Start = rc_start c"
| "runtimeControlEffect c RollbackStop = rc_rollback_stop c"
| "runtimeControlEffect c RollbackStart = rc_rollback_start c"

text \<open>Writing through the pointer that the Go function returns.\<close>

primrec set_effect :: "control_action \<Rightarrow> runtime_control_effect \<Rightarrow> runtime_control \<Rightarrow> runtime_control" where
  "set_effect Stop e c = c\<lparr>rc_stop := e\<rparr>"
| "set_effect Start e c = c\<lparr>rc_start := e\<rparr>"
| "set_effect RollbackStop e c = c\<lparr>rc_rollback_stop := e\<rparr>"
| "set_effect RollbackStart e c = c\<lparr>rc_rollback_start := e\<rparr>"

definition set_state :: "control_action \<Rightarrow> control_state \<Rightarrow> runtime_control \<Rightarrow> runtime_control" where
  "set_state a s c = set_effect a ((runtimeControlEffect c a)\<lparr>eff_state := s\<rparr>) c"

definition all_actions :: "control_action list" where
  "all_actions = [Stop, Start, RollbackStop, RollbackStart]"

definition controlStarts :: "control_action \<Rightarrow> bool" where
  "controlStarts a \<longleftrightarrow> a = Start \<or> a = RollbackStart"

lemma effect_set_effect [simp]:
  "runtimeControlEffect (set_effect a e c) b = (if a = b then e else runtimeControlEffect c b)"
  by (cases a; cases b) simp_all

lemma set_effect_frame [simp]:
  "rc_component (set_effect a e c) = rc_component c"
  "rc_container (set_effect a e c) = rc_container c"
  "rc_was_running (set_effect a e c) = rc_was_running c"
  by (cases a; simp)+

lemma effect_set_state [simp]:
  "runtimeControlEffect (set_state a s c) b =
     (if a = b then (runtimeControlEffect c b)\<lparr>eff_state := s\<rparr> else runtimeControlEffect c b)"
  by (simp add: set_state_def)

lemma set_state_frame [simp]:
  "rc_component (set_state a s c) = rc_component c"
  "rc_container (set_state a s c) = rc_container c"
  "rc_was_running (set_state a s c) = rc_was_running c"
  by (simp_all add: set_state_def)

lemma set_all_actions [simp]: "set all_actions = UNIV"
  using control_action.nchotomy by (auto simp: all_actions_def)

section \<open>Validity\<close>

definition validate_effect :: "runtime_control \<Rightarrow> control_action \<Rightarrow> control_error option" where
  "validate_effect c a =
     (let e = runtimeControlEffect c a; s = eff_state e in
      first_err (check (s \<notin> {NoState, ControlPreparing, ControlPrepared, ControlDispatched,
                            ControlObserved}) EffectStateInvalid)
     (first_err (check (((s = NoState \<or> s = ControlPreparing) \<and> eff_handle e \<noteq> []) \<or>
                        (s \<noteq> NoState \<and> s \<noteq> ControlPreparing \<and> eff_handle e = []))
                  HandleDiffersFromState)
                (check (\<not> rc_was_running c \<and> s \<noteq> NoState) ChangesStoppedComponent)))"

definition validate_control :: "runtime_control \<Rightarrow> control_error option" where
  "validate_control c =
     first_err (first_err_list (validate_effect c) all_actions)
       (check ((eff_state (rc_start c) \<noteq> NoState \<and> eff_state (rc_stop c) \<noteq> ControlObserved) \<or>
               (eff_state (rc_rollback_start c) \<noteq> NoState \<and>
                eff_state (rc_rollback_stop c) \<noteq> ControlObserved)) StartsBeforeStop)"

fun validate_controls_from :: "string list \<Rightarrow> runtime_control list \<Rightarrow> control_error option" where
  "validate_controls_from seen [] = None"
| "validate_controls_from seen (c # cs) =
     first_err (check (rc_component c = [] \<or> rc_container c = [] \<or> rc_container c \<in> set seen)
                  ControlIdentityInvalid)
    (first_err (validate_control c)
               (validate_controls_from (rc_container c # seen) cs))"

definition ValidateRuntimeControls :: "runtime_control list \<Rightarrow> control_error option" where
  "ValidateRuntimeControls cs = validate_controls_from [] cs"

definition control_ok :: "runtime_control \<Rightarrow> bool" where
  "control_ok c \<longleftrightarrow> rc_component c \<noteq> [] \<and> rc_container c \<noteq> [] \<and> validate_control c = None"

lemma validate_controls_from_None:
  "validate_controls_from seen cs = None \<longleftrightarrow>
     (\<forall>c \<in> set cs. control_ok c \<and> rc_container c \<notin> set seen) \<and> distinct (map rc_container cs)"
proof (induction cs arbitrary: seen)
  case (Cons c cs)
  have "validate_controls_from seen (c # cs) = None \<longleftrightarrow>
      control_ok c \<and> rc_container c \<notin> set seen \<and>
      validate_controls_from (rc_container c # seen) cs = None"
    by (auto simp: control_ok_def)
  then show ?case
    unfolding Cons.IH
    by (simp del: validate_controls_from.simps add: image_iff) metis
qed simp

text \<open>The loop over the list with its \<open>seen\<close> set, as a predicate on the whole list.\<close>

lemma ValidateRuntimeControls_None:
  "ValidateRuntimeControls cs = None \<longleftrightarrow>
     (\<forall>c \<in> set cs. control_ok c) \<and> distinct (map rc_container cs)"
  by (simp add: ValidateRuntimeControls_def validate_controls_from_None)

lemma ValidateRuntimeControls_single: "ValidateRuntimeControls [c] = None \<longleftrightarrow> control_ok c"
  by (simp add: ValidateRuntimeControls_None)

lemma validate_effect_None:
  "validate_effect c a = None \<longleftrightarrow>
     (let e = runtimeControlEffect c a; s = eff_state e in
      s \<in> {NoState, ControlPreparing, ControlPrepared, ControlDispatched, ControlObserved} \<and>
      (eff_handle e = [] \<longleftrightarrow> s = NoState \<or> s = ControlPreparing) \<and>
      (s \<noteq> NoState \<longrightarrow> rc_was_running c))"
  by (auto simp: validate_effect_def Let_def)

lemma control_ok_iff:
  "control_ok c \<longleftrightarrow> rc_component c \<noteq> [] \<and> rc_container c \<noteq> [] \<and>
     (\<forall>a. validate_effect c a = None) \<and>
     (eff_state (rc_start c) \<noteq> NoState \<longrightarrow> eff_state (rc_stop c) = ControlObserved) \<and>
     (eff_state (rc_rollback_start c) \<noteq> NoState \<longrightarrow> eff_state (rc_rollback_stop c) = ControlObserved)"
  by (auto simp: control_ok_def validate_control_def)

section \<open>The environment\<close>

datatype control_event =
    EvPersist runtime_control | EvObserve | EvValidate control_action | EvPrepare control_action
  | EvDispatch string control_action | EvComplete string control_action

record control_env =
  env_bound :: bool
  env_persist :: "control_event list \<Rightarrow> runtime_control \<Rightarrow> control_error option"
  env_observe :: "control_event list \<Rightarrow> control_error + string \<times> bool"
  env_validator :: "(control_event list \<Rightarrow> control_action \<Rightarrow> control_error option) option"
  env_prepare :: "control_event list \<Rightarrow> control_action \<Rightarrow> control_error + string"
  env_dispatch :: "control_event list \<Rightarrow> string \<Rightarrow> control_action \<Rightarrow> control_error option"
  env_complete :: "control_event list \<Rightarrow> string \<Rightarrow> control_action \<Rightarrow> control_error + bool"

type_synonym control_run = "control_event list \<times> runtime_control \<times> control_error option"

definition joined :: "control_error \<Rightarrow> control_error" where
  "joined e = JoinedError ErrControlUnresolved e"

section \<open>Settling earlier dispatches\<close>

fun settle_effects ::
  "control_env \<Rightarrow> control_action option \<Rightarrow> control_action list \<Rightarrow> control_event list \<Rightarrow>
   runtime_control \<Rightarrow> control_run" where
  "settle_effects E req [] tr c = (tr, c, None)"
| "settle_effects E req (a # as) tr c =
     (let e = runtimeControlEffect c a in
      if eff_state e = ControlPreparing \<or> (eff_state e = ControlPrepared \<and> Some a \<noteq> req)
      then (tr, c, Some ErrControlUnresolved)
      else if eff_state e \<noteq> ControlDispatched then settle_effects E req as tr c
      else let tr1 = tr @ [EvComplete (eff_handle e) a] in
        case env_complete E tr (eff_handle e) a of
          Inl x \<Rightarrow> (tr1, c, Some (joined x))
        | Inr False \<Rightarrow> (tr1, c, Some ErrControlUnresolved)
        | Inr True \<Rightarrow>
           (let tr2 = tr1 @ [EvObserve] in
            case env_observe E tr1 of
              Inl x \<Rightarrow> (tr2, c, Some x)
            | Inr (i, running) \<Rightarrow>
                if i \<noteq> rc_container c \<or> running \<noteq> controlStarts a
                then (tr2, c, Some CompletedChangedIdentity)
                else let c' = set_state a ControlObserved c; tr3 = tr2 @ [EvPersist c'] in
                  case env_persist E tr2 c' of
                    Some x \<Rightarrow> (tr3, c', Some x)
                  | None \<Rightarrow> settle_effects E req as tr3 c'))"

definition settleRuntimeControl ::
  "control_env \<Rightarrow> control_action option \<Rightarrow> control_event list \<Rightarrow> runtime_control \<Rightarrow> control_run" where
  "settleRuntimeControl E req tr c = settle_effects E req all_actions tr c"

definition SettleRuntimeControl :: "control_env \<Rightarrow> runtime_control \<Rightarrow> control_run" where
  "SettleRuntimeControl E c =
     (if \<not> env_bound E then ([], c, Some ControlBindingsMissing)
      else case ValidateRuntimeControls [c] of
        Some x \<Rightarrow> ([], c, Some x)
      | None \<Rightarrow> settleRuntimeControl E None [] c)"

section \<open>Advancing one control\<close>

text \<open>From the durable dispatch intent to the verified effect.\<close>

definition dispatch_control ::
  "control_env \<Rightarrow> control_action \<Rightarrow> control_event list \<Rightarrow> runtime_control \<Rightarrow> control_run" where
  "dispatch_control E a tr c0 =
     (let c = set_state a ControlDispatched c0; h = eff_handle (runtimeControlEffect c a);
          tr1 = tr @ [EvPersist c] in
      case env_persist E tr c of
        Some x \<Rightarrow> (tr1, c, Some x)
      | None \<Rightarrow>
       (let tr2 = tr1 @ [EvDispatch h a] in
        case env_dispatch E tr1 h a of
          Some x \<Rightarrow> (tr2, c, Some (joined x))
        | None \<Rightarrow>
         (let tr3 = tr2 @ [EvComplete h a] in
          case env_complete E tr2 h a of
            Inl x \<Rightarrow> (tr3, c, Some (joined x))
          | Inr False \<Rightarrow> (tr3, c, Some ErrControlUnresolved)
          | Inr True \<Rightarrow>
           (let tr4 = tr3 @ [EvObserve] in
            case env_observe E tr3 of
              Inl x \<Rightarrow> (tr4, c, Some x)
            | Inr (i, running) \<Rightarrow>
                if i \<noteq> rc_container c \<or> running \<noteq> controlStarts a
                then (tr4, c, Some EffectChangedIdentity)
                else let c' = set_state a ControlObserved c in
                  (tr4 @ [EvPersist c'], c', env_persist E tr4 c')))))"

text \<open>The durable preparation of a fresh handle, when no effect is recorded yet.\<close>

definition prepare_control ::
  "control_env \<Rightarrow> control_action \<Rightarrow> control_event list \<Rightarrow> runtime_control \<Rightarrow> control_run" where
  "prepare_control E a tr c0 =
     (let c = set_state a ControlPreparing c0; tr1 = tr @ [EvPersist c] in
      case env_persist E tr c of
        Some x \<Rightarrow> (tr1, c, Some x)
      | None \<Rightarrow>
       (let tr2 = tr1 @ [EvPrepare a] in
        case env_prepare E tr1 a of
          Inl x \<Rightarrow> (tr2, c, Some (joined x))
        | Inr h \<Rightarrow>
            if h = [] then (tr2, c, Some ErrControlUnresolved)
            else let c' = set_effect a \<lparr>eff_handle = h, eff_state = ControlPrepared\<rparr> c;
                     tr3 = tr2 @ [EvPersist c'] in
              case env_persist E tr2 c' of
                Some x \<Rightarrow> (tr3, c', Some x)
              | None \<Rightarrow> dispatch_control E a tr3 c'))"

definition validate_binding ::
  "control_env \<Rightarrow> control_action \<Rightarrow> control_event list \<Rightarrow> control_event list \<times> control_error option" where
  "validate_binding E a tr =
     (case env_validator E of
        None \<Rightarrow> (tr, None)
      | Some v \<Rightarrow> (tr @ [EvValidate a], v tr a))"

text \<open>After the settlement: the early returns, the observation, then prepare and dispatch.\<close>

definition advance_settled ::
  "control_env \<Rightarrow> control_action \<Rightarrow> control_event list \<Rightarrow> runtime_control \<Rightarrow> control_run" where
  "advance_settled E a tr c =
     (if a = RollbackStop \<and> eff_state (rc_start c) = NoState \<and> eff_state (rc_stop c) = ControlObserved
      then (tr, c, None)
      else if a = Start \<and> eff_state (rc_stop c) = NoState then (tr, c, None)
      else if (a = Start \<and> eff_state (rc_stop c) \<noteq> ControlObserved) \<or>
              (a = RollbackStart \<and> eff_state (rc_rollback_stop c) \<noteq> ControlObserved)
      then (tr, c, Some ErrControlUnresolved)
      else let e = runtimeControlEffect c a; tr1 = tr @ [EvObserve] in
        case env_observe E tr of
          Inl x \<Rightarrow> (tr1, c, Some x)
        | Inr (i, running) \<Rightarrow>
            if i \<noteq> rc_container c then (tr1, c, Some ContainerGenerationChanged)
            else if eff_state e = ControlObserved
            then (tr1, c, check (running \<noteq> controlStarts a) PowerChangedAfterControl)
            else let (tr2, invalid) =
                   (if eff_state e = NoState \<or> eff_state e = ControlPrepared
                    then validate_binding E a tr1 else (tr1, None)) in
              case invalid of
                Some x \<Rightarrow> (tr2, c, Some x)
              | None \<Rightarrow>
                  if eff_state e = NoState
                  then if running = controlStarts a
                       then (tr2, c, Some PowerChangedBeforeDispatch)
                       else prepare_control E a tr2 c
                  else dispatch_control E a tr2 c)"

definition AdvanceRuntimeControl ::
  "control_env \<Rightarrow> runtime_control \<Rightarrow> control_action option \<Rightarrow> control_run" where
  "AdvanceRuntimeControl E original action =
     (if \<not> env_bound E then ([], original, Some ControlBindingsMissing)
      else case action of
        None \<Rightarrow> ([], original, Some ControlBindingsMissing)
      | Some a \<Rightarrow>
       (case ValidateRuntimeControls [original] of
          Some x \<Rightarrow> ([], original, Some x)
        | None \<Rightarrow>
           if \<not> rc_was_running original
           then (case env_observe E [] of
                   Inl x \<Rightarrow> ([EvObserve], original, Some x)
                 | Inr (i, running) \<Rightarrow>
                     ([EvObserve], original,
                      check (i \<noteq> rc_container original \<or> running) StoppedComponentChanged))
           else case settleRuntimeControl E (Some a) [] original of
                  (tr, c, Some x) \<Rightarrow> (tr, c, Some x)
                | (tr, c, None) \<Rightarrow> advance_settled E a tr c))"

section \<open>Steps of one effect\<close>

text \<open>
  The writes the procedures make to the journal: one effect moves, from no state to preparing,
  from preparing to prepared with its handle, and on to dispatched and observed.
\<close>

definition state_rank :: "control_state \<Rightarrow> nat option" where
  "state_rank s =
     (case s of NoState \<Rightarrow> Some 0 | ControlPreparing \<Rightarrow> Some 1 | ControlPrepared \<Rightarrow> Some 2
      | ControlDispatched \<Rightarrow> Some 3 | ControlObserved \<Rightarrow> Some 4 | _ \<Rightarrow> None)"

inductive control_step :: "control_action \<Rightarrow> runtime_control \<Rightarrow> runtime_control \<Rightarrow> bool" where
  preparing: "eff_state (runtimeControlEffect c a) = NoState \<Longrightarrow>
     (a = Start \<longrightarrow> eff_state (rc_stop c) = ControlObserved) \<Longrightarrow>
     (a = RollbackStart \<longrightarrow> eff_state (rc_rollback_stop c) = ControlObserved) \<Longrightarrow>
     rc_was_running c \<Longrightarrow>
     control_step a c (set_state a ControlPreparing c)"
| prepared: "eff_state (runtimeControlEffect c a) = ControlPreparing \<Longrightarrow> h \<noteq> [] \<Longrightarrow>
     control_step a c (set_effect a \<lparr>eff_handle = h, eff_state = ControlPrepared\<rparr> c)"
| dispatched: "eff_state (runtimeControlEffect c a) = ControlPrepared \<Longrightarrow>
     control_step a c (set_state a ControlDispatched c)"
| observed: "eff_state (runtimeControlEffect c a) = ControlDispatched \<Longrightarrow>
     control_step a c (set_state a ControlObserved c)"

lemma all_actions_iff: "(\<forall>a. P a) \<longleftrightarrow> P Stop \<and> P Start \<and> P RollbackStop \<and> P RollbackStart"
  by (metis control_action.exhaust)

lemma control_step_frame:
  assumes "control_step a c d"
  shows "rc_component d = rc_component c" "rc_container d = rc_container c"
    "rc_was_running d = rc_was_running c" "b \<noteq> a \<Longrightarrow> runtimeControlEffect d b = runtimeControlEffect c b"
  using assms by (induction rule: control_step.induct) auto

lemma control_step_ok: "control_step a c d \<Longrightarrow> control_ok c \<Longrightarrow> control_ok d"
proof (induction rule: control_step.induct)
  case (preparing c a)
  then show ?case
    by (cases a) (auto simp: control_ok_iff validate_effect_None all_actions_iff Let_def set_state_def)
next
  case (prepared c a h)
  then show ?case
    by (cases a) (auto simp: control_ok_iff validate_effect_None all_actions_iff Let_def set_state_def)
next
  case (dispatched c a)
  then show ?case
    by (cases a) (auto simp: control_ok_iff validate_effect_None all_actions_iff Let_def set_state_def)
next
  case (observed c a)
  then show ?case
    by (cases a) (auto simp: control_ok_iff validate_effect_None all_actions_iff Let_def set_state_def)
qed

text \<open>The values a run persists, in order.\<close>

fun persisted :: "control_event list \<Rightarrow> runtime_control list" where
  "persisted [] = []"
| "persisted (EvPersist c # evs) = c # persisted evs"
| "persisted (_ # evs) = persisted evs"

lemma persisted_append [simp]: "persisted (xs @ ys) = persisted xs @ persisted ys"
  by (induction xs rule: persisted.induct) auto

fun is_dispatch :: "control_event \<Rightarrow> bool" where
  "is_dispatch (EvDispatch h a) = True"
| "is_dispatch _ = False"

fun is_prepare :: "control_event \<Rightarrow> bool" where
  "is_prepare (EvPrepare a) = True"
| "is_prepare _ = False"

text \<open>A list of control values is a chain of steps that starts at a given value.\<close>

definition step_chain :: "(control_action \<Rightarrow> bool) \<Rightarrow> runtime_control \<Rightarrow> runtime_control list \<Rightarrow> bool" where
  "step_chain A = chain (\<lambda>c d. \<exists>a. A a \<and> control_step a c d)"

lemma step_chain_simps [simp]:
  "step_chain A c []"
  "step_chain A c (d # ds) \<longleftrightarrow> (\<exists>a. A a \<and> control_step a c d) \<and> step_chain A d ds"
  "step_chain A c (ds @ es) \<longleftrightarrow> step_chain A c ds \<and> step_chain A (chain_end c ds) es"
  by (simp_all add: step_chain_def)

interpretation control_writes: guarded_steps control_ok "\<lambda>c d. \<exists>a. A a \<and> control_step a c d" for A
  by unfold_locales (auto dest: control_step_ok)

lemma step_chain_ok: "step_chain A c ds \<Longrightarrow> control_ok c \<Longrightarrow> d \<in> set (c # ds) \<Longrightarrow> control_ok d"
  unfolding step_chain_def by (rule control_writes.chain_valid)

lemma step_chain_mono: "step_chain A c ds \<Longrightarrow> (\<And>a. A a \<Longrightarrow> B a) \<Longrightarrow> step_chain B c ds"
  unfolding step_chain_def by (erule chain_mono) blast

lemma step_chain_frame:
  "step_chain A c ds \<Longrightarrow> rc_container (chain_end c ds) = rc_container c"
  "step_chain A c ds \<Longrightarrow> rc_was_running (chain_end c ds) = rc_was_running c"
  by (induction ds arbitrary: c) (auto dest: control_step_frame)

section \<open>Runs\<close>

text \<open>
  What a piece of a run guarantees: it only appends events, its writes are a chain of steps
  that ends at the control it returns, and every write but the last succeeded.
\<close>

definition run_ok ::
  "(control_event \<Rightarrow> bool) \<Rightarrow> (control_action \<Rightarrow> bool) \<Rightarrow> control_event list \<Rightarrow> runtime_control \<Rightarrow>
   control_run \<Rightarrow> bool" where
  "run_ok P A tr c run \<longleftrightarrow>
     (\<exists>new. fst run = tr @ new \<and> list_all P new \<and> step_chain A c (persisted new) \<and>
            fst (snd run) = chain_end c (persisted new))"

lemma run_ok_new [simp]:
  "run_ok P A tr c (tr @ new, d, r) \<longleftrightarrow>
     list_all P new \<and> step_chain A c (persisted new) \<and> d = chain_end c (persisted new)"
  by (auto simp: run_ok_def)

lemma run_ok_refl [simp]: "run_ok P A tr c (tr, d, r) \<longleftrightarrow> d = c"
  using run_ok_new [of P A tr c "[]" d r] by simp

lemma run_ok_extend:
  assumes "run_ok P A (tr @ new) d run" and "list_all P new" and "step_chain A c (persisted new)"
    and "d = chain_end c (persisted new)"
  shows "run_ok P A tr c run"
  using assms by (auto simp: run_ok_def)

lemma run_ok_mono:
  "run_ok P A tr c run \<Longrightarrow> (\<And>a. A a \<Longrightarrow> B a) \<Longrightarrow> (\<And>ev. P ev \<Longrightarrow> Q ev) \<Longrightarrow> run_ok Q B tr c run"
  unfolding run_ok_def by (metis list.pred_mono_strong step_chain_mono)

definition quiet_event :: "control_event \<Rightarrow> bool" where
  "quiet_event ev \<longleftrightarrow> \<not> is_dispatch ev \<and> \<not> is_prepare ev"

lemma quiet_event_simps [simp]:
  "quiet_event (EvPersist d)" "quiet_event EvObserve" "quiet_event (EvComplete h a)"
  "\<not> quiet_event (EvDispatch h a)" "\<not> quiet_event (EvPrepare a)"
  by (simp_all add: quiet_event_def)

definition settleable :: "control_action list \<Rightarrow> runtime_control \<Rightarrow> control_action \<Rightarrow> bool" where
  "settleable as c b \<longleftrightarrow> b \<in> set as \<and> eff_state (runtimeControlEffect c b) = ControlDispatched"

lemma settle_effects_run: "run_ok quiet_event (settleable as c) tr c (settle_effects E req as tr c)"
proof (induction as arbitrary: tr c)
  case (Cons a as)
  let ?e = "runtimeControlEffect c a" and ?d = "set_state a ControlObserved c"
  let ?A = "settleable (a # as) c"
  have same: "run_ok quiet_event ?A tr c (settle_effects E req as tr c)"
    using Cons.IH by (rule run_ok_mono) (simp_all add: settleable_def)
  show ?case
  proof (cases "eff_state ?e = ControlDispatched")
    case False
    then show ?thesis by (simp add: Let_def same)
  next
    case True
    have step: "?A a" "control_step a c ?d"
      using True by (auto intro: control_step.observed simp: settleable_def)
    then have chain: "\<exists>b. ?A b \<and> control_step b c ?d"
      by blast
    have "run_ok quiet_event ?A (tr @ [EvComplete (eff_handle ?e) a, EvObserve, EvPersist ?d]) ?d
        (settle_effects E req as (tr @ [EvComplete (eff_handle ?e) a, EvObserve, EvPersist ?d]) ?d)"
      by (rule run_ok_mono [OF Cons.IH]) (auto simp: settleable_def split: if_splits)
    then have rec: "run_ok quiet_event ?A tr c
        (settle_effects E req as (tr @ [EvComplete (eff_handle ?e) a, EvObserve, EvPersist ?d]) ?d)"
      by (rule run_ok_extend) (simp_all add: chain)
    with chain True show ?thesis
      by (simp add: Let_def split: sum.split bool.split option.split prod.split)
  qed
qed simp

lemma settle_effects_Cons_None:
  assumes "settle_effects E req (a # as) tr c = (tr', d, None)"
  obtains tr1 where "eff_state (runtimeControlEffect c a) = ControlDispatched"
      "settle_effects E req as tr1 (set_state a ControlObserved c) = (tr', d, None)"
  | "eff_state (runtimeControlEffect c a) \<noteq> ControlDispatched"
      "eff_state (runtimeControlEffect c a) \<noteq> ControlPreparing"
      "eff_state (runtimeControlEffect c a) = ControlPrepared \<longrightarrow> Some a = req"
      "settle_effects E req as tr c = (tr', d, None)"
  using assms by (auto simp: Let_def split: if_splits sum.splits bool.splits option.splits)

lemma settle_effects_states:
  assumes "settle_effects E req as tr c = (tr', d, None)"
  shows "(\<forall>a \<in> set as. eff_state (runtimeControlEffect c a) \<noteq> ControlPreparing \<and>
            (eff_state (runtimeControlEffect c a) = ControlPrepared \<longrightarrow> Some a = req)) \<and>
         (\<forall>b. runtimeControlEffect d b =
           (if settleable as c b then (runtimeControlEffect c b)\<lparr>eff_state := ControlObserved\<rparr>
            else runtimeControlEffect c b))"
  using assms
proof (induction as arbitrary: tr c)
  case (Cons a as)
  from Cons.prems show ?case
  proof (cases rule: settle_effects_Cons_None)
    case (1 tr1)
    from Cons.IH [OF 1(2)] 1(1) show ?thesis
      by (auto simp: settleable_def split: if_splits)
  next
    case 2
    from Cons.IH [OF 2(4)] 2(1-3) show ?thesis
      by (auto simp: settleable_def)
  qed
qed (simp add: settleable_def)

lemma dispatch_control_run:
  assumes "eff_state (runtimeControlEffect c a) = ControlPrepared"
  shows "run_ok (\<lambda>_. True) (\<lambda>b. b = a) tr c (dispatch_control E a tr c)"
proof -
  have "control_step a c (set_state a ControlDispatched c)"
    "control_step a (set_state a ControlDispatched c) (set_state a ControlObserved (set_state a ControlDispatched c))"
    using assms by (auto intro: control_step.intros)
  then show ?thesis
    by (simp add: dispatch_control_def Let_def split: sum.split bool.split option.split prod.split)
qed

lemma prepare_control_run:
  assumes "eff_state (runtimeControlEffect c a) = NoState" "rc_was_running c"
    "a = Start \<longrightarrow> eff_state (rc_stop c) = ControlObserved"
    "a = RollbackStart \<longrightarrow> eff_state (rc_rollback_stop c) = ControlObserved"
  shows "run_ok (\<lambda>_. True) (\<lambda>b. b = a) tr c (prepare_control E a tr c)"
proof -
  let ?c = "set_state a ControlPreparing c"
  let ?d = "\<lambda>h. set_effect a \<lparr>eff_handle = h, eff_state = ControlPrepared\<rparr> ?c"
  have steps: "control_step a c ?c" "h \<noteq> [] \<Longrightarrow> control_step a ?c (?d h)" for h
    using assms by (auto intro: control_step.intros)
  have "run_ok (\<lambda>_. True) (\<lambda>b. b = a) tr c (dispatch_control E a (tr @ [EvPersist ?c, EvPrepare a, EvPersist (?d h)]) (?d h))"
    if "h \<noteq> []" for h
    using steps that by (intro run_ok_extend [OF dispatch_control_run]) simp_all
  with steps show ?thesis
    by (simp add: prepare_control_def Let_def split: sum.split bool.split option.split prod.split)
qed

lemma advance_settled_run:
  assumes "eff_state (runtimeControlEffect c a) \<in> {NoState, ControlPrepared, ControlObserved}"
    and "rc_was_running c"
  shows "run_ok (\<lambda>_. True) (\<lambda>b. b = a) tr c (advance_settled E a tr c)"
proof -
  have "run_ok (\<lambda>_. True) (\<lambda>b. b = a) tr c (dispatch_control E a (tr @ new) c)"
    if "eff_state (runtimeControlEffect c a) = ControlPrepared" "persisted new = []" for new
    by (rule run_ok_extend [OF dispatch_control_run [OF that(1)]]) (simp_all add: that list_all_iff)
  moreover have "run_ok (\<lambda>_. True) (\<lambda>b. b = a) tr c (prepare_control E a (tr @ new) c)"
    if "eff_state (runtimeControlEffect c a) = NoState" "persisted new = []"
      "a = Start \<longrightarrow> eff_state (rc_stop c) = ControlObserved"
      "a = RollbackStart \<longrightarrow> eff_state (rc_rollback_stop c) = ControlObserved" for new
    by (rule run_ok_extend [OF prepare_control_run [OF that(1) assms(2) that(3,4)]])
      (simp_all add: that list_all_iff)
  ultimately show ?thesis
    using assms
    by (auto simp: advance_settled_def validate_binding_def Let_def split: sum.split option.split)
qed

text \<open>The pieces of a run of \<open>AdvanceRuntimeControl\<close> on a running container.\<close>

lemma advance_cases:
  assumes "AdvanceRuntimeControl E c (Some a) = (evs, d, r)"
  obtains (quiet) "list_all quiet_event evs" "persisted evs = []" "d = c" "rc_was_running c \<longrightarrow> r \<noteq> None"
  | (unsettled) x where "rc_was_running c" "control_ok c" "r = Some x"
      "settleRuntimeControl E (Some a) [] c = (evs, d, Some x)"
  | (settled) tr c1 where "rc_was_running c" "control_ok c"
      "settleRuntimeControl E (Some a) [] c = (tr, c1, None)"
      "advance_settled E a tr c1 = (evs, d, r)"
proof (cases "env_bound E \<and> ValidateRuntimeControls [c] = None \<and> rc_was_running c")
  case True
  then have "control_ok c"
    by (simp add: ValidateRuntimeControls_single)
  with True show thesis
    using assms unsettled settled
    by (auto simp: AdvanceRuntimeControl_def split: prod.splits option.splits)
next
  case False
  then have "list_all quiet_event evs \<and> persisted evs = [] \<and> d = c \<and> (rc_was_running c \<longrightarrow> r \<noteq> None)"
    using assms
    by (cases "ValidateRuntimeControls [c]")
      (auto simp: AdvanceRuntimeControl_def dest!: sym [of "Some _"] split: sum.splits if_splits)
  then show thesis
    using quiet by blast
qed

lemma settled_states:
  assumes "settleRuntimeControl E (Some a) [] c = (tr, c1, None)" and "control_ok c"
  shows "eff_state (runtimeControlEffect c1 a) \<in> {NoState, ControlPrepared, ControlObserved}"
    and "eff_state (runtimeControlEffect c b) = ControlDispatched \<Longrightarrow>
         runtimeControlEffect c1 b = (runtimeControlEffect c b)\<lparr>eff_state := ControlObserved\<rparr>"
    and "eff_state (runtimeControlEffect c b) \<noteq> ControlDispatched \<Longrightarrow>
         runtimeControlEffect c1 b = runtimeControlEffect c b"
    and "eff_state (runtimeControlEffect c b) \<noteq> ControlPreparing"
    and "eff_state (runtimeControlEffect c b) = ControlPrepared \<Longrightarrow> b = a"
    and "rc_was_running c1 = rc_was_running c"
proof -
  note st = settle_effects_states [OF assms(1) [unfolded settleRuntimeControl_def]]
  show "eff_state (runtimeControlEffect c b) = ControlDispatched \<Longrightarrow>
         runtimeControlEffect c1 b = (runtimeControlEffect c b)\<lparr>eff_state := ControlObserved\<rparr>"
    "eff_state (runtimeControlEffect c b) \<noteq> ControlDispatched \<Longrightarrow>
         runtimeControlEffect c1 b = runtimeControlEffect c b"
    "eff_state (runtimeControlEffect c b) \<noteq> ControlPreparing"
    "eff_state (runtimeControlEffect c b) = ControlPrepared \<Longrightarrow> b = a"
    using st by (auto simp: settleable_def)
  have "eff_state (runtimeControlEffect c a) \<in>
      {NoState, ControlPreparing, ControlPrepared, ControlDispatched, ControlObserved}"
    using assms(2) by (auto simp: control_ok_iff validate_effect_None Let_def)
  with st show "eff_state (runtimeControlEffect c1 a) \<in> {NoState, ControlPrepared, ControlObserved}"
    by (auto simp: settleable_def)
  show "rc_was_running c1 = rc_was_running c"
    using settle_effects_run [of all_actions c "[]" E "Some a"] assms(1)
    by (auto simp: run_ok_def settleRuntimeControl_def step_chain_frame)
qed

text \<open>The actions whose effects one call may move.\<close>

definition movable :: "runtime_control \<Rightarrow> control_action \<Rightarrow> control_action \<Rightarrow> bool" where
  "movable c a b \<longleftrightarrow> b = a \<or> eff_state (runtimeControlEffect c b) = ControlDispatched"

lemma advance_run:
  assumes "AdvanceRuntimeControl E c (Some a) = (evs, d, r)"
  shows "step_chain (movable c a) c (persisted evs)" and "d = chain_end c (persisted evs)"
proof -
  have "step_chain (movable c a) c (persisted evs) \<and> d = chain_end c (persisted evs)"
    using assms
  proof (cases rule: advance_cases)
    case (unsettled x)
    then show ?thesis
      using settle_effects_run [of all_actions c "[]" E "Some a"]
      by (auto simp: run_ok_def settleRuntimeControl_def settleable_def movable_def elim!: step_chain_mono)
  next
    case (settled tr c1)
    have "run_ok quiet_event (settleable all_actions c) [] c (tr, c1, None)"
      using settle_effects_run [of all_actions c "[]" E "Some a"] settled(3)
      by (simp add: settleRuntimeControl_def)
    then have 1: "step_chain (movable c a) c (persisted tr)" "c1 = chain_end c (persisted tr)"
      by (auto simp: run_ok_def settleable_def movable_def elim!: step_chain_mono)
    have "run_ok (\<lambda>_. True) (\<lambda>b. b = a) tr c1 (evs, d, r)"
      using advance_settled_run [of c1 a tr E] settled_states [OF settled(3,2)] settled by simp
    then obtain new where "evs = tr @ new" "step_chain (\<lambda>b. b = a) c1 (persisted new)"
      "d = chain_end c1 (persisted new)"
      by (auto simp: run_ok_def)
    with 1 show ?thesis
      by (auto simp: movable_def elim!: step_chain_mono)
  qed simp
  then show "step_chain (movable c a) c (persisted evs)" "d = chain_end c (persisted evs)"
    by simp_all
qed

section \<open>The order of events\<close>

definition no_dispatch :: "control_event list \<Rightarrow> bool" where
  "no_dispatch evs \<longleftrightarrow> \<not> list_ex is_dispatch evs"

lemma no_dispatch_append [simp]: "no_dispatch (xs @ ys) \<longleftrightarrow> no_dispatch xs \<and> no_dispatch ys"
  by (simp add: no_dispatch_def)

lemma no_dispatch_simps [simp]:
  "no_dispatch []" "no_dispatch (ev # evs) \<longleftrightarrow> \<not> is_dispatch ev \<and> no_dispatch evs"
  by (simp_all add: no_dispatch_def)

text \<open>At most one dispatch, right after its durable intent.\<close>

definition intent_first :: "control_env \<Rightarrow> control_action \<Rightarrow> control_event list \<Rightarrow> control_event list \<Rightarrow> bool" where
  "intent_first E a tr new \<longleftrightarrow> no_dispatch new \<or>
     (\<exists>pre d post. new = pre @ [EvPersist d, EvDispatch (eff_handle (runtimeControlEffect d a)) a] @ post \<and>
        no_dispatch pre \<and> no_dispatch post \<and>
        eff_state (runtimeControlEffect d a) = ControlDispatched \<and> env_persist E (tr @ pre) d = None)"

lemma intent_first_append:
  assumes "intent_first E a (tr @ xs) new" and "no_dispatch xs"
  shows "intent_first E a tr (xs @ new)"
proof (cases "no_dispatch new")
  case True
  with assms(2) show ?thesis by (simp add: intent_first_def)
next
  case False
  with assms obtain pre d post where "new = pre @ [EvPersist d, EvDispatch (eff_handle (runtimeControlEffect d a)) a] @ post"
    "no_dispatch pre" "no_dispatch post"
    "eff_state (runtimeControlEffect d a) = ControlDispatched" "env_persist E ((tr @ xs) @ pre) d = None"
    by (auto simp: intent_first_def)
  with assms(2) show ?thesis
    unfolding intent_first_def by (intro disjI2 exI [of _ "xs @ pre"] exI [of _ d] exI [of _ post]) simp
qed

lemma dispatch_control_intent:
  assumes "dispatch_control E a tr c = (tr', d, r)"
  shows "\<exists>new. tr' = tr @ new \<and> intent_first E a tr new"
proof -
  let ?c = "set_state a ControlDispatched c" let ?h = "eff_handle (runtimeControlEffect c a)"
  have *: "intent_first E a tr (EvPersist ?c # EvDispatch ?h a # post)"
    if "env_persist E tr ?c = None" "no_dispatch post" for post
    unfolding intent_first_def using that
    by (intro disjI2 exI [of _ "[]"] exI [of _ ?c] exI [of _ post]) simp
  have "intent_first E a tr [EvPersist ?c]"
    by (simp add: intent_first_def)
  with assms * show ?thesis
    by (auto simp: dispatch_control_def Let_def split: option.splits sum.splits bool.splits if_splits)
qed

lemma prepare_control_intent:
  assumes "prepare_control E a tr c = (tr', d, r)"
  shows "\<exists>new. tr' = tr @ new \<and> intent_first E a tr new"
proof -
  let ?c = "set_state a ControlPreparing c"
  let ?d = "\<lambda>h. set_effect a \<lparr>eff_handle = h, eff_state = ControlPrepared\<rparr> ?c"
  let ?new = "\<lambda>h. [EvPersist ?c, EvPrepare a, EvPersist (?d h)]"
  have quiet: "intent_first E a tr [EvPersist ?c]" "intent_first E a tr [EvPersist ?c, EvPrepare a]"
    "intent_first E a tr (?new h)" for h
    by (simp_all add: intent_first_def)
  have "\<exists>new. tr' = tr @ new \<and> intent_first E a tr new"
    if "dispatch_control E a (tr @ ?new h) (?d h) = (tr', d, r)" for h
    using dispatch_control_intent [OF that] intent_first_append [of E a tr "?new h"] by auto
  with assms quiet show ?thesis
    by (auto simp: prepare_control_def Let_def split: option.splits sum.splits if_splits)
qed

lemma advance_settled_intent:
  assumes "advance_settled E a tr c = (tr', d, r)"
  shows "\<exists>new. tr' = tr @ new \<and> intent_first E a tr new"
proof -
  have quiet: "intent_first E a tr []" "intent_first E a tr [EvObserve]"
    "intent_first E a tr [EvObserve, EvValidate a]"
    by (simp_all add: intent_first_def)
  have "\<exists>new. tr' = tr @ new \<and> intent_first E a tr new"
    if "dispatch_control E a (tr @ xs) c = (tr', d, r) \<or> prepare_control E a (tr @ xs) c = (tr', d, r)"
      "no_dispatch xs" for xs
    using that dispatch_control_intent [of E a "tr @ xs" c tr' d r] prepare_control_intent [of E a "tr @ xs" c tr' d r]
      intent_first_append [of E a tr xs] by auto
  note go = this
  show ?thesis
    using assms quiet go [of "[EvObserve]"] go [of "[EvObserve, EvValidate a]"]
    by (auto simp: advance_settled_def validate_binding_def Let_def
        split: if_splits option.splits sum.splits prod.splits)
qed

lemma no_dispatch_mem: "no_dispatch xs \<Longrightarrow> EvDispatch h b \<notin> set xs"
  by (force simp: no_dispatch_def list_ex_iff)

lemma quiet_no_dispatch: "list_all quiet_event evs \<Longrightarrow> no_dispatch evs"
  by (auto simp: no_dispatch_def list_all_iff list_ex_iff quiet_event_def)

lemma settle_no_dispatch:
  assumes "settleRuntimeControl E req [] c = (evs, d, r)"
  shows "no_dispatch evs"
  using settle_effects_run [of all_actions c "[]" E req] assms
  by (auto simp: run_ok_def settleRuntimeControl_def intro: quiet_no_dispatch)

lemma advance_intent_first:
  assumes "AdvanceRuntimeControl E c (Some a) = (evs, d, r)"
  shows "intent_first E a [] evs"
  using assms
proof (cases rule: advance_cases)
  case quiet
  then show ?thesis by (simp add: intent_first_def quiet_no_dispatch)
next
  case (unsettled x)
  then show ?thesis by (simp add: intent_first_def settle_no_dispatch)
next
  case (settled tr c1)
  then show ?thesis
    using advance_settled_intent [OF settled(4)] settle_no_dispatch [OF settled(3)]
      intent_first_append [of E a "[]" tr] by auto
qed

lemma advance_settled_dispatch:
  assumes "advance_settled E a tr c = (tr', d, r)" and "no_dispatch tr" and "\<not> no_dispatch tr'"
  shows "eff_state (runtimeControlEffect c a) \<noteq> ControlObserved"
  using assms
  by (auto simp: advance_settled_def Let_def split: if_splits sum.splits prod.splits)

section \<open>Properties of advancing one control\<close>

text \<open>
  C3. Write-ahead. One call of \<open>AdvanceRuntimeControl\<close> sends at most one dispatch to the manager,
  and the event right before it is the write of the control with that action in state
  dispatched and with the dispatched handle, which the journal accepted.
\<close>

theorem advance_dispatches_once_after_intent:
  assumes "AdvanceRuntimeControl E c (Some a) = (evs, d, r)" and "\<exists>h b. EvDispatch h b \<in> set evs"
  shows "\<exists>pre c1 h post. evs = pre @ [EvPersist c1, EvDispatch h a] @ post \<and>
    runtimeControlEffect c1 a = \<lparr>eff_handle = h, eff_state = ControlDispatched\<rparr> \<and>
    env_persist E pre c1 = None \<and> (\<forall>h' b. EvDispatch h' b \<notin> set (pre @ post))"
proof -
  have "\<not> no_dispatch evs"
    using assms(2) by (auto dest: no_dispatch_mem)
  then obtain pre c1 post where *: "evs = pre @ [EvPersist c1, EvDispatch (eff_handle (runtimeControlEffect c1 a)) a] @ post"
    "no_dispatch pre" "no_dispatch post" "eff_state (runtimeControlEffect c1 a) = ControlDispatched"
    "env_persist E ([] @ pre) c1 = None"
    using advance_intent_first [OF assms(1)] unfolding intent_first_def by blast
  then show ?thesis
    by (intro exI [of _ pre] exI [of _ c1]
        exI [of _ "eff_handle (runtimeControlEffect c1 a)"] exI [of _ post]) (simp add: no_dispatch_mem)
qed

text \<open>
  No replay. A call that dispatches started from a control on which no effect was being
  prepared, no other action was prepared, and the requested action itself was neither dispatched
  nor observed: a handle whose dispatch may already have happened is only ever inspected.
\<close>

theorem advance_never_replays_dispatch:
  assumes "AdvanceRuntimeControl E c (Some a) = (evs, d, r)" and "EvDispatch h b \<in> set evs"
  shows "b = a \<and> eff_state (runtimeControlEffect c a) \<in> {NoState, ControlPrepared} \<and>
    (\<forall>b. eff_state (runtimeControlEffect c b) \<noteq> ControlPreparing \<and>
         (eff_state (runtimeControlEffect c b) = ControlPrepared \<longrightarrow> b = a))"
proof -
  have nd: "\<not> no_dispatch evs"
    using assms(2) by (auto dest: no_dispatch_mem)
  have "b = a"
  proof -
    obtain pre c1 post where "evs = pre @ [EvPersist c1, EvDispatch (eff_handle (runtimeControlEffect c1 a)) a] @ post"
      "no_dispatch pre" "no_dispatch post"
      using advance_intent_first [OF assms(1)] nd unfolding intent_first_def by blast
    then show ?thesis
      using assms(2) by (auto simp: no_dispatch_mem)
  qed
  moreover from assms(1) have "eff_state (runtimeControlEffect c a) \<in> {NoState, ControlPrepared} \<and>
      (\<forall>b. eff_state (runtimeControlEffect c b) \<noteq> ControlPreparing \<and>
             (eff_state (runtimeControlEffect c b) = ControlPrepared \<longrightarrow> b = a))"
  proof (cases rule: advance_cases)
    case (settled tr c1)
    note st = settled_states [OF settled(3,2)]
    have c1: "eff_state (runtimeControlEffect c1 a) \<in> {NoState, ControlPrepared}"
      using advance_settled_dispatch [OF settled(4) settle_no_dispatch [OF settled(3)] nd] st(1) by simp
    then have "eff_state (runtimeControlEffect c a) \<noteq> ControlDispatched"
      using st(2) [of a] by auto
    then show ?thesis
      using c1 st(3) [of a] st(4,5) by auto
  qed (use nd in \<open>auto simp: quiet_no_dispatch settle_no_dispatch\<close>)
  ultimately show ?thesis by simp
qed

text \<open>
  Every value a call writes to the journal, and the control it returns, is valid when the
  control it started from is; consecutive values differ in one step of one effect, on the
  requested action or on an earlier dispatch that is being settled.
\<close>

theorem advance_writes_valid_steps:
  assumes "control_ok c" and "AdvanceRuntimeControl E c (Some a) = (evs, d, r)"
  shows "step_chain (movable c a) c (persisted evs) \<and> d = chain_end c (persisted evs) \<and>
    ValidateRuntimeControls [d] = None \<and>
    (\<forall>w. EvPersist w \<in> set evs \<longrightarrow> ValidateRuntimeControls [w] = None)"
proof -
  have "w \<in> set (persisted evs)" if "EvPersist w \<in> set evs" for w
    using that by (induction evs rule: persisted.induct) auto
  moreover have "control_ok w" if "w \<in> set (c # persisted evs)" for w
    using step_chain_ok [OF advance_run(1) [OF assms(2)] assms(1) that] .
  moreover have "chain_end c ws \<in> set (c # ws)" for ws
    by (simp add: chain_end_def)
  ultimately show ?thesis
    using advance_run [OF assms(2)] by (auto simp: ValidateRuntimeControls_single)
qed

text \<open>
  A successful call on a running container leaves the action observed, and the container
  identity with the power the action stands for was what the observer reported; or it is one of
  the two shortcuts, a rollback stop that rests on the verified stop of this operation before
  any start, or a start where nothing was stopped.
\<close>

theorem advance_success_is_observed:
  assumes "AdvanceRuntimeControl E c (Some a) = (evs, d, None)" and "rc_was_running c"
  shows "(eff_state (runtimeControlEffect d a) = ControlObserved \<and>
          (\<exists>tr. env_observe E tr = Inr (rc_container c, controlStarts a))) \<or>
         (a = RollbackStop \<and> eff_state (rc_start d) = NoState \<and> eff_state (rc_stop d) = ControlObserved) \<or>
         (a = Start \<and> eff_state (rc_stop d) = NoState)"
  using assms(1)
proof (cases rule: advance_cases)
  case (settled tr c1)
  have id: "rc_container c1 = rc_container c"
    using settle_effects_run [of all_actions c "[]" E "Some a"] settled(3)
    by (auto simp: run_ok_def settleRuntimeControl_def step_chain_frame)
  have "eff_state (runtimeControlEffect d a) = ControlObserved \<and>
          (\<exists>tr. env_observe E tr = Inr (rc_container c, controlStarts a))"
    if "dispatch_control E a tr' c2 = (evs, d, None)" "rc_container c2 = rc_container c" for tr' c2
    using that by (auto simp: dispatch_control_def Let_def split: option.splits sum.splits bool.splits if_splits)
  note disp = this
  have "eff_state (runtimeControlEffect d a) = ControlObserved \<and>
          (\<exists>tr. env_observe E tr = Inr (rc_container c, controlStarts a))"
    if "prepare_control E a tr' c2 = (evs, d, None)" "rc_container c2 = rc_container c" for tr' c2
    using that disp by (auto simp: prepare_control_def Let_def split: option.splits sum.splits if_splits)
  note prep = this
  show ?thesis
    using settled(4) id disp prep
    by (auto simp: advance_settled_def Let_def split: if_splits sum.splits prod.splits option.splits)
qed (use assms(2) in auto)

subsection \<open>A concrete manager\<close>

text \<open>
  A manager that answers every request and a container that runs until a stop is dispatched:
  the run of a stop against it, which the witnesses use.
\<close>

definition no_effect :: runtime_control_effect where
  "no_effect = \<lparr>eff_handle = [], eff_state = NoState\<rparr>"

definition sample_control :: runtime_control where
  "sample_control = \<lparr>rc_component = ''web'', rc_container = ''c1'', rc_was_running = True,
     rc_stop = no_effect, rc_start = no_effect, rc_rollback_stop = no_effect,
     rc_rollback_start = no_effect\<rparr>"

definition sample_env :: control_env where
  "sample_env = \<lparr>env_bound = True, env_persist = (\<lambda>_ _. None),
     env_observe = (\<lambda>tr. Inr (''c1'', \<not> list_ex is_dispatch tr)), env_validator = None,
     env_prepare = (\<lambda>_ _. Inr ''h''), env_dispatch = (\<lambda>_ _ _. None),
     env_complete = (\<lambda>_ _ _. Inr True)\<rparr>"

definition sample_stopped :: "control_state \<Rightarrow> runtime_control" where
  "sample_stopped s = sample_control\<lparr>rc_stop := \<lparr>eff_handle = ''h'', eff_state = s\<rparr>\<rparr>"

lemma sample_run:
  "AdvanceRuntimeControl sample_env sample_control (Some Stop) =
     ([EvObserve, EvPersist (set_state Stop ControlPreparing sample_control), EvPrepare Stop,
       EvPersist (sample_stopped ControlPrepared), EvPersist (sample_stopped ControlDispatched),
       EvDispatch ''h'' Stop, EvComplete ''h'' Stop, EvObserve,
       EvPersist (sample_stopped ControlObserved)], sample_stopped ControlObserved, None)"
  by (simp add: AdvanceRuntimeControl_def ValidateRuntimeControls_def validate_control_def
      validate_effect_def settleRuntimeControl_def all_actions_def advance_settled_def
      validate_binding_def prepare_control_def dispatch_control_def sample_env_def
      sample_control_def sample_stopped_def no_effect_def set_state_def controlStarts_def Let_def)

lemma sample_control_ok: "control_ok sample_control"
  by (simp add: control_ok_def validate_control_def validate_effect_def all_actions_def
      sample_control_def no_effect_def)

theorem advance_dispatches_once_after_intent_witness:
  "\<exists>pre c1 h post. fst (AdvanceRuntimeControl sample_env sample_control (Some Stop)) =
      pre @ [EvPersist c1, EvDispatch h Stop] @ post \<and>
    runtimeControlEffect c1 Stop = \<lparr>eff_handle = h, eff_state = ControlDispatched\<rparr> \<and>
    env_persist sample_env pre c1 = None \<and> (\<forall>h' b. EvDispatch h' b \<notin> set (pre @ post))"
  using advance_dispatches_once_after_intent [OF sample_run] by (simp add: sample_run)

theorem advance_never_replays_dispatch_witness:
  "EvDispatch ''h'' Stop \<in> set (fst (AdvanceRuntimeControl sample_env sample_control (Some Stop))) \<and>
   eff_state (runtimeControlEffect sample_control Stop) \<in> {NoState, ControlPrepared}"
  using advance_never_replays_dispatch [OF sample_run, of "''h''" Stop] by (simp add: sample_run)

theorem advance_writes_valid_steps_witness:
  "ValidateRuntimeControls [sample_stopped ControlObserved] = None \<and>
   step_chain (movable sample_control Stop) sample_control
     (persisted (fst (AdvanceRuntimeControl sample_env sample_control (Some Stop))))"
  using advance_writes_valid_steps [OF sample_control_ok sample_run] by (simp add: sample_run)

theorem advance_success_is_observed_witness:
  "eff_state (rc_stop (sample_stopped ControlObserved)) = ControlObserved \<and>
   (\<exists>tr. env_observe sample_env tr = Inr (''c1'', False))"
proof -
  have "rc_was_running sample_control"
    by (simp add: sample_control_def)
  from advance_success_is_observed [OF sample_run this] show ?thesis
    by (simp add: sample_control_def controlStarts_def)
qed

end
