(* ===== verification/SynchronousControl.thy ===== *)
theory SynchronousControl
  imports RuntimeControls
begin

text \<open>
  What an observed effect of a runtime control stands for. The manager driver is an interface of
  the code, and its contract is a locale: \<open>AdvanceRuntimeControl\<close> and \<open>SettleRuntimeControl\<close> are its
  clients, and the synchronous driver (\<open>NewSynchronousRuntimeControl\<close> in
  \<open>internal/backuplifecycle/runtime_control.go\<close>) is the provider that the code has.
\<close>

section \<open>Observed effects have terminal proof\<close>

text \<open>
  The manager reported an action complete: some event of the trace asked for the completion of the
  handle, and the driver answered yes.
\<close>

definition proved :: "control_env \<Rightarrow> control_event list \<Rightarrow> string \<Rightarrow> control_action \<Rightarrow> bool" where
  "proved E tr h a \<longleftrightarrow> (\<exists>pre post. tr = pre @ EvComplete h a # post \<and> env_complete E pre h a = Inr True)"

lemma proved_append: "proved E tr h a \<Longrightarrow> proved E (tr @ evs) h a"
  unfolding proved_def by (metis append.assoc append_Cons)

lemma proved_snoc: "env_complete E tr h a = Inr True \<Longrightarrow> proved E (tr @ [EvComplete h a]) h a"
  unfolding proved_def by blast

definition backed :: "control_env \<Rightarrow> runtime_control \<Rightarrow> control_event list \<Rightarrow> runtime_control \<Rightarrow> bool" where
  "backed E original tr c \<longleftrightarrow>
     (\<forall>a. eff_state (runtimeControlEffect c a) = ControlObserved \<longrightarrow>
        eff_state (runtimeControlEffect original a) = ControlObserved \<or> proved E tr (eff_handle (runtimeControlEffect c a)) a)"

lemma backed_refl [simp]: "backed E c tr c"
  by (simp add: backed_def)

lemma backed_append: "backed E o1 tr c \<Longrightarrow> backed E o1 (tr @ evs) c"
  by (auto simp: backed_def proved_append)

lemma backed_moves:
  assumes "backed E o1 tr c" and "s \<noteq> ControlObserved"
  shows "backed E o1 tr (set_state a s c)" and "backed E o1 tr (set_effect a \<lparr>eff_handle = h, eff_state = s\<rparr> c)"
  using assms by (auto simp: backed_def)

lemma backed_observed:
  assumes "backed E o1 tr c" and "proved E tr (eff_handle (runtimeControlEffect c a)) a"
  shows "backed E o1 tr (set_state a ControlObserved c)"
  using assms by (auto simp: backed_def)

lemma settle_effects_backed:
  assumes "backed E o1 tr c" and "settle_effects E req as tr c = (tr', d, r)"
  shows "backed E o1 tr' d"
  using assms
proof (induction as arbitrary: tr c)
  case (Cons a as)
  let ?e = "runtimeControlEffect c a"
  show ?case
  proof (cases "eff_state ?e = ControlDispatched \<and> env_complete E tr (eff_handle ?e) a = Inr True")
    case True
    let ?tr1 = "tr @ [EvComplete (eff_handle ?e) a]" and ?c = "set_state a ControlObserved c"
    have "backed E o1 ?tr1 ?c"
      using True by (intro backed_observed backed_append [OF Cons.prems(1)] proved_snoc) simp
    then have b: "backed E o1 (?tr1 @ evs) ?c" for evs
      by (rule backed_append)
    show ?thesis
    proof (cases "env_observe E ?tr1")
      case (Inl x)
      with True Cons.prems show ?thesis by (auto intro!: backed_append)
    next
      case (Inr io)
      obtain i run where io: "io = (i, run)" by fastforce
      show ?thesis
      proof (cases "i \<noteq> rc_container c \<or> run \<noteq> controlStarts a")
        case bad: True
        with True Inr io Cons.prems show ?thesis by (auto intro!: backed_append)
      next
        case ok: False
        show ?thesis
        proof (cases "env_persist E (?tr1 @ [EvObserve]) ?c")
          case (Some x)
          with True Inr io ok Cons.prems b [of "[EvObserve, EvPersist ?c]"] show ?thesis by (auto simp: Let_def)
        next
          case None
          with True Inr io ok Cons.prems Cons.IH [OF b [of "[EvObserve, EvPersist ?c]"]] show ?thesis by (auto simp: Let_def)
        qed
      qed
    qed
  next
    case False
    with Cons.prems show ?thesis
      by (auto simp: Let_def intro: Cons.IH backed_append split: if_splits sum.splits bool.splits)
  qed
qed simp

lemma dispatch_backed:
  assumes "backed E o1 tr c0" and "dispatch_control E a tr c0 = (tr', d, r)"
  shows "backed E o1 tr' d"
proof -
  let ?c = "set_state a ControlDispatched c0"
  let ?h = "eff_handle (runtimeControlEffect ?c a)"
  let ?tr2 = "(tr @ [EvPersist ?c]) @ [EvDispatch ?h a]"
  have b: "backed E o1 (tr @ evs) ?c" for evs
    using backed_moves(1) [OF backed_append [OF assms(1)]] by simp
  have o: "backed E o1 ((?tr2 @ [EvComplete ?h a]) @ evs) (set_state a ControlObserved ?c)"
    if "env_complete E ?tr2 ?h a = Inr True" for evs
  proof -
    have "backed E o1 (?tr2 @ [EvComplete ?h a]) ?c"
      using b [of "[EvPersist ?c, EvDispatch ?h a, EvComplete ?h a]"] by simp
    from backed_append [OF backed_observed [OF this proved_snoc [OF that]]] show ?thesis .
  qed
  show ?thesis
    using assms(2) o b
    by (auto simp: dispatch_control_def Let_def split: option.splits sum.splits bool.splits prod.splits if_splits)
qed

lemma prepare_backed:
  assumes "backed E o1 tr c0" and "prepare_control E a tr c0 = (tr', d, r)"
  shows "backed E o1 tr' d"
proof -
  let ?c = "set_state a ControlPreparing c0"
  have b: "backed E o1 (tr @ evs) ?c" for evs
    using backed_moves(1) [OF backed_append [OF assms(1)]] by simp
  have p: "backed E o1 (tr @ evs) (set_effect a \<lparr>eff_handle = h, eff_state = ControlPrepared\<rparr> ?c)" for evs h
    using backed_moves(2) [OF b] by simp
  have disp: "backed E o1 tr' d"
    if "dispatch_control E a (tr @ evs) (set_effect a \<lparr>eff_handle = h, eff_state = ControlPrepared\<rparr> ?c) = (tr', d, r)" for evs h
    by (rule dispatch_backed [OF p that])
  show ?thesis
    using assms(2) b p disp
    by (auto simp: prepare_control_def Let_def split: option.splits sum.splits if_splits)
qed

lemma advance_settled_backed:
  assumes "backed E o1 tr c" and "advance_settled E a tr c = (tr', d, r)"
  shows "backed E o1 tr' d"
proof -
  have b: "backed E o1 (tr @ evs) c" for evs
    by (rule backed_append [OF assms(1)])
  obtain evs invalid where v: "validate_binding E a (tr @ [EvObserve]) = (tr @ EvObserve # evs, invalid)"
    by (cases "env_validator E") (auto simp: validate_binding_def)
  have disp: "backed E o1 tr' d" if "dispatch_control E a (tr @ evs) c = (tr', d, r)" for evs
    by (rule dispatch_backed [OF b that])
  have prep: "backed E o1 tr' d" if "prepare_control E a (tr @ evs) c = (tr', d, r)" for evs
    by (rule prepare_backed [OF b that])
  show ?thesis
  proof (cases "env_observe E tr")
    case (Inl x)
    with assms(2) b [of "[]"] b [of "[EvObserve]"] show ?thesis
      by (auto simp: advance_settled_def Let_def split: if_splits)
  next
    case (Inr io)
    obtain i run where io: "io = (i, run)" by fastforce
    show ?thesis
      using assms(2) Inr io v b [of "[]"] b [of "[EvObserve]"] b [of "EvObserve # evs"]
        disp [of "EvObserve # evs"] disp [of "[EvObserve]"] prep [of "EvObserve # evs"]
      by (cases invalid) (auto simp: advance_settled_def Let_def split: if_splits)
  qed
qed

lemma advance_backed:
  assumes "AdvanceRuntimeControl E c action = (tr, d, r)"
  shows "backed E c tr d"
proof -
  have s: "backed E c tr1 c1" if "settleRuntimeControl E req [] c = (tr1, c1, x)" for req tr1 c1 x
    using settle_effects_backed [of E c "[]" c] that by (simp add: settleRuntimeControl_def)
  have adv: "backed E c tr d" if "settleRuntimeControl E req [] c = (tr1, c1, x)" "advance_settled E a tr1 c1 = (tr, d, r)" for req tr1 c1 x a
    by (rule advance_settled_backed [OF s [OF that(1)] that(2)])
  show ?thesis
    using assms s adv
    by (auto simp: AdvanceRuntimeControl_def split: option.splits sum.splits if_splits prod.splits)
qed

lemma settle_backed: "SettleRuntimeControl E c = (tr, d, r) \<Longrightarrow> backed E c tr d"
  using settle_effects_backed [of E c "[]" c]
  by (auto simp: SettleRuntimeControl_def settleRuntimeControl_def split: if_splits option.splits)

section \<open>The contract of a manager driver\<close>

text \<open>
  \<open>RuntimeControlDriver\<close>: a completion answer requires positive proof that the action was actuated,
  and proof does not go away. \<open>AdvanceRuntimeControl\<close> and \<open>SettleRuntimeControl\<close> are its clients.
\<close>

locale manager_driver =
  fixes complete :: "control_event list \<Rightarrow> string \<Rightarrow> control_action \<Rightarrow> control_error + bool"
    and actuated :: "control_event list \<Rightarrow> string \<Rightarrow> control_action \<Rightarrow> bool"
  assumes complete_actuated: "complete tr h a = Inr True \<Longrightarrow> actuated tr h a"
    and actuated_append: "actuated tr h a \<Longrightarrow> actuated (tr @ evs) h a"
begin

lemma proved_actuated: "env_complete E = complete \<Longrightarrow> proved E tr h a \<Longrightarrow> actuated tr h a"
  using actuated_append [OF complete_actuated] unfolding proved_def by blast

lemma observed_actuated:
  assumes "env_complete E = complete" and "AdvanceRuntimeControl E c action = (tr, d, r)"
    and "eff_state (runtimeControlEffect d a) = ControlObserved"
    and "eff_state (runtimeControlEffect c a) \<noteq> ControlObserved"
  shows "actuated tr (eff_handle (runtimeControlEffect d a)) a"
  using advance_backed [OF assms(2)] assms(3,4) proved_actuated [OF assms(1)] by (auto simp: backed_def)

end

text \<open>A driver that keeps its proofs in the process: a proof needs a dispatch of this process.\<close>

locale process_driver = manager_driver complete actuated
  for complete :: "control_event list \<Rightarrow> string \<Rightarrow> control_action \<Rightarrow> control_error + bool"
    and actuated :: "control_event list \<Rightarrow> string \<Rightarrow> control_action \<Rightarrow> bool" +
  assumes actuated_dispatched: "actuated tr h a \<Longrightarrow> list_ex is_dispatch tr"
begin

lemma lost_dispatch_unresolved:
  assumes "env_complete E = complete" and "\<not> list_ex is_dispatch tr" and "settle_effects E req as tr c = (tr', d, r)"
  shows "d = c \<and> persisted tr' = persisted tr \<and>
    (r = None \<longrightarrow> (\<forall>a \<in> set as. eff_state (runtimeControlEffect c a) \<noteq> ControlDispatched))"
  using assms(3)
proof (induction as)
  case (Cons a as)
  have "env_complete E tr h a \<noteq> Inr True" for h
    using complete_actuated actuated_dispatched assms(1,2) by metis
  with Cons show ?case
    by (auto simp: Let_def split: if_splits sum.splits bool.splits)
qed simp

end

section \<open>The synchronous driver\<close>

text \<open>
  \<open>NewSynchronousRuntimeControl\<close>: the manager is called during dispatch, and the handles it answered
  without an error are kept in a map of the process. The map is read off the events of the process;
  \<open>call\<close> is the manager, and a missing call is a panic of the code.
\<close>

record synchronous_control =
  sc_id :: string
  sc_call :: "(control_event list \<Rightarrow> string \<Rightarrow> control_error option) option"

primrec action_text :: "control_action \<Rightarrow> string" where
  "action_text Stop = ''stop''"
| "action_text Start = ''start''"
| "action_text RollbackStop = ''rollback-stop''"
| "action_text RollbackStart = ''rollback-start''"

definition trim_prefix :: "string \<Rightarrow> string \<Rightarrow> string" where
  "trim_prefix s p = (if has_prefix s p then drop (length p) s else s)"

definition manager_action :: "control_action \<Rightarrow> string" where
  "manager_action a = trim_prefix (action_text a) ''rollback-''"

definition sync_handle :: "synchronous_control \<Rightarrow> control_action \<Rightarrow> string" where
  "sync_handle d a = sc_id d @ '':'' @ action_text a"

definition sync_prepare :: "synchronous_control \<Rightarrow> control_event list \<Rightarrow> control_action \<Rightarrow> control_error + string" where
  "sync_prepare d tr a =
     (if sc_id d = [] \<or> sc_call d = None then Inl (ExternalError ''binding is incomplete'') else Inr (sync_handle d a))"

definition sync_dispatch ::
  "synchronous_control \<Rightarrow> control_event list \<Rightarrow> string \<Rightarrow> control_action \<Rightarrow> control_error option" where
  "sync_dispatch d tr h a =
     (if h \<noteq> sync_handle d a then Some (ExternalError ''handle changed'')
      else case sc_call d of None \<Rightarrow> Some (ExternalError ''nil call'') | Some f \<Rightarrow> f tr (manager_action a))"

fun sync_done :: "synchronous_control \<Rightarrow> control_event list \<Rightarrow> control_event list \<Rightarrow> string \<Rightarrow> bool" where
  "sync_done d pre [] h = False"
| "sync_done d pre (ev # evs) h =
     ((case ev of EvDispatch h' a \<Rightarrow> h' = h \<and> sync_dispatch d pre h' a = None | _ \<Rightarrow> False) \<or>
      sync_done d (pre @ [ev]) evs h)"

definition sync_complete ::
  "synchronous_control \<Rightarrow> control_event list \<Rightarrow> string \<Rightarrow> control_action \<Rightarrow> control_error + bool" where
  "sync_complete d tr h a =
     (if h \<noteq> sync_handle d a then Inl (ExternalError ''handle changed'') else Inr (sync_done d [] tr h))"

definition sync_env :: "synchronous_control \<Rightarrow> control_env \<Rightarrow> control_env" where
  "sync_env d E = E\<lparr>env_validator := None, env_prepare := sync_prepare d, env_dispatch := sync_dispatch d,
     env_complete := sync_complete d\<rparr>"

text \<open>The manager was called for the handle during this process, and answered without an error.\<close>

definition manager_called :: "synchronous_control \<Rightarrow> control_event list \<Rightarrow> string \<Rightarrow> control_action \<Rightarrow> bool" where
  "manager_called d tr h a \<longleftrightarrow> h = sync_handle d a \<and>
     (\<exists>pre post f. tr = pre @ EvDispatch h a # post \<and> sc_call d = Some f \<and> f pre (manager_action a) = None)"

lemma sync_handle_inj: "sync_handle d a = sync_handle d b \<longleftrightarrow> a = b"
  by (cases a; cases b) (simp_all add: sync_handle_def)

lemma sync_done_dispatch:
  "sync_done d pre evs h \<longleftrightarrow>
     (\<exists>ev1 ev2 a. evs = ev1 @ EvDispatch h a # ev2 \<and> sync_dispatch d (pre @ ev1) h a = None)"
proof (induction evs arbitrary: pre)
  case (Cons ev evs)
  let ?P = "\<lambda>pre ev1 a. sync_dispatch d (pre @ ev1) h a = None"
  have "(\<exists>ev1 ev2 a. ev # evs = ev1 @ EvDispatch h a # ev2 \<and> ?P pre ev1 a) \<longleftrightarrow>
      (\<exists>a. ev = EvDispatch h a \<and> ?P pre [] a) \<or> (\<exists>ev1 ev2 a. evs = ev1 @ EvDispatch h a # ev2 \<and> ?P pre (ev # ev1) a)"
    (is "?L \<longleftrightarrow> ?R")
  proof
    assume ?L
    then obtain ev1 ev2 a where "ev # evs = ev1 @ EvDispatch h a # ev2" "?P pre ev1 a" by blast
    then show ?R by (cases ev1) auto
  next
    assume ?R
    then show ?L
    proof
      assume "\<exists>a. ev = EvDispatch h a \<and> ?P pre [] a"
      then show ?L by (metis append_Nil)
    next
      assume "\<exists>ev1 ev2 a. evs = ev1 @ EvDispatch h a # ev2 \<and> ?P pre (ev # ev1) a"
      then show ?L by (metis append_Cons)
    qed
  qed
  then show ?case
    unfolding sync_done.simps Cons.IH by (cases ev) auto
qed simp

interpretation synchronous: process_driver "sync_complete d" "manager_called d" for d
proof unfold_locales
  show "manager_called d tr h a" if "sync_complete d tr h a = Inr True" for tr h a
  proof -
    have h: "h = sync_handle d a" "sync_done d [] tr h"
      using that by (auto simp: sync_complete_def split: if_splits)
    then obtain pre post b where e: "tr = pre @ EvDispatch h b # post" "sync_dispatch d pre h b = None"
      by (auto simp: sync_done_dispatch)
    then have "b = a"
      using h(1) sync_handle_inj by (auto simp: sync_dispatch_def split: if_splits)
    with e h(1) show ?thesis
      by (auto simp: manager_called_def sync_dispatch_def split: option.splits)
  qed
  show "manager_called d (tr @ evs) h a" if "manager_called d tr h a" for tr evs h a
    using that by (auto simp: manager_called_def) blast
  show "list_ex is_dispatch tr" if "manager_called d tr h a" for tr h a
    using that by (auto simp: manager_called_def)
qed

text \<open>
  With the synchronous driver, an effect becomes observed only after the manager was called for
  exactly that handle and action in this process and answered without an error.
\<close>

theorem synchronous_observed_was_called:
  assumes "AdvanceRuntimeControl (sync_env d E) c action = (tr, c', r)"
    and "eff_state (runtimeControlEffect c' a) = ControlObserved"
    and "eff_state (runtimeControlEffect c a) \<noteq> ControlObserved"
  shows "\<exists>pre post f. tr = pre @ EvDispatch (sync_handle d a) a # post \<and> sc_call d = Some f \<and>
    f pre (manager_action a) = None"
proof -
  have "env_complete (sync_env d E) = sync_complete d"
    by (simp add: sync_env_def)
  from synchronous.observed_actuated [OF this assms] show ?thesis
    by (auto simp: manager_called_def)
qed

text \<open>
  A lost reply stays unresolved: a process that starts with a dispatched effect of an earlier
  process cannot settle it through the synchronous driver. The settlement fails, writes nothing and
  returns the control unchanged, whatever the observer reports.
\<close>

theorem synchronous_restart_unresolved:
  assumes "SettleRuntimeControl (sync_env d E) c = (tr, c', r)"
    and "eff_state (runtimeControlEffect c a) = ControlDispatched"
  shows "c' = c \<and> persisted tr = [] \<and> r \<noteq> None"
proof -
  have e: "env_complete (sync_env d E) = sync_complete d" and a: "a \<in> set all_actions"
    by (simp_all add: sync_env_def)
  consider "tr = []" "c' = c" "r \<noteq> None"
    | "settle_effects (sync_env d E) None all_actions [] c = (tr, c', r)"
    using assms(1)
    by (cases "ValidateRuntimeControls [c] = None") (auto simp: SettleRuntimeControl_def settleRuntimeControl_def
        dest!: sym [of "Some _" "ValidateRuntimeControls _"] split: if_splits option.splits)
  then show ?thesis
  proof cases
    case 2
    from synchronous.lost_dispatch_unresolved [OF e _ this] a assms(2) show ?thesis by auto
  qed simp
qed

definition sample_sync :: synchronous_control where
  "sample_sync = \<lparr>sc_id = ''c1'', sc_call = Some (\<lambda>_ _. None)\<rparr>"

theorem synchronous_observed_was_called_witness:
  "\<exists>tr c' pre post. AdvanceRuntimeControl (sync_env sample_sync sample_env) sample_control (Some Stop) = (tr, c', None) \<and>
     tr = pre @ EvDispatch ''c1:stop'' Stop # post"
proof -
  have run: "\<exists>tr c'. AdvanceRuntimeControl (sync_env sample_sync sample_env) sample_control (Some Stop) = (tr, c', None) \<and>
      eff_state (runtimeControlEffect c' Stop) = ControlObserved"
    by (simp add: AdvanceRuntimeControl_def ValidateRuntimeControls_def validate_control_def
        validate_effect_def settleRuntimeControl_def all_actions_def advance_settled_def
        validate_binding_def prepare_control_def dispatch_control_def sample_env_def sync_env_def sample_sync_def
        sync_prepare_def sync_dispatch_def sync_complete_def sync_handle_def
        sample_control_def no_effect_def set_state_def controlStarts_def Let_def)
  then obtain tr c' where tr: "AdvanceRuntimeControl (sync_env sample_sync sample_env) sample_control (Some Stop) = (tr, c', None)"
    "eff_state (runtimeControlEffect c' Stop) = ControlObserved" by blast
  have "eff_state (runtimeControlEffect sample_control Stop) \<noteq> ControlObserved" "sync_handle sample_sync Stop = ''c1:stop''"
    by (simp_all add: sample_control_def no_effect_def sync_handle_def sample_sync_def)
  with synchronous_observed_was_called [OF tr] tr(1) show ?thesis by metis
qed

theorem synchronous_restart_unresolved_witness:
  "\<exists>e. SettleRuntimeControl (sync_env sample_sync sample_env) (sample_stopped ControlDispatched) =
     (fst (SettleRuntimeControl (sync_env sample_sync sample_env) (sample_stopped ControlDispatched)),
      sample_stopped ControlDispatched, Some e)"
proof -
  obtain tr c' r where s: "SettleRuntimeControl (sync_env sample_sync sample_env) (sample_stopped ControlDispatched) = (tr, c', r)"
    by (metis prod_cases3)
  have "eff_state (runtimeControlEffect (sample_stopped ControlDispatched) Stop) = ControlDispatched"
    by (simp add: sample_stopped_def)
  from synchronous_restart_unresolved [OF s this] s show ?thesis by auto
qed

end
