(* ===== verification/MutationPhases.thy ===== *)
theory MutationPhases
  imports Prelude
begin

text \<open>
  The phases of the signed lifecycle journal (\<open>internal/lifecyclemutation/journal.go\<close>,
  \<open>upgrade_data_activation.go\<close>): the phases each kind of operation knows, the transition tables,
  the phases that grant a child a join, and those from which an upgrade may be completed forward.

  A phase is a string in the code. The constructors stand for the declared constants and
  \<open>PhaseOther\<close> for any other string; \<open>phase_text\<close> is the string. The constants
  \<open>PhaseRollbackActivationVerifyStarted\<close> and \<open>...Done\<close> have the text of
  \<open>PhaseRollbackVerifyStarted\<close> and \<open>...Done\<close>, so they are the same phases.
\<close>

section \<open>Phases, kinds and statuses\<close>

datatype phase =
    PhasePrepared | PhaseTargetGenerateStarted | PhaseTargetGenerateSucceeded
    | PhaseTargetApplyStarted | PhaseTargetApplySucceeded | PhaseTargetVerifyStarted
    | PhaseTargetVerifySucceeded | PhaseCommitStarted | PhaseCommitSucceeded
    | PhaseRollbackStarted | PhaseRollbackGenerateStarted | PhaseRollbackGenerateDone
    | PhaseRollbackApplyStarted | PhaseRollbackApplyDone | PhaseRollbackVerifyStarted
    | PhaseRollbackVerifyDone | PhaseRollbackSucceeded | PhaseQuiesceStarted | PhaseQuiesced
    | PhaseRollbackCopyStarted | PhaseRollbackCopySucceeded | PhaseRollbackReady
    | PhaseActivationCopyStarted | PhaseActivationCopySucceeded | PhaseActivationSucceeded
    | PhaseRuntimeStartStarted | PhaseRuntimeStartSucceeded | PhaseVerifyStarted
    | PhaseVerifySucceeded | PhaseRollbackVolumeStarted | PhaseRollbackVolumeSucceeded
    | PhaseRollbackRuntimeStarted | PhaseRollbackRuntimeSucceeded
    | PhaseRollbackDataQuiesceStarted | PhaseRollbackDataQuiesced | PhaseRollbackDataCopyStarted
    | PhaseRollbackDataCopySucceeded | PhaseRollbackDataActivationSucceeded
    | PhaseRollbackPriorRuntimeStartStarted | PhaseRollbackPriorRuntimeStartSucceeded
    | PhaseRollbackPriorRuntimeVerifyStarted | PhaseRollbackPriorRuntimeVerifySucceeded
    | PhaseOther string

abbreviation "PhaseRollbackActivationVerifyStarted \<equiv> PhaseRollbackVerifyStarted"
abbreviation "PhaseRollbackActivationVerifyDone \<equiv> PhaseRollbackVerifyDone"

datatype mutation_kind = KindUpgrade | KindRestoreActivation | KindOther string

datatype mutation_status = StatusActive | StatusSucceeded | StatusRecovered | StatusOther string

primrec phase_text :: "phase \<Rightarrow> string" where
  "phase_text PhasePrepared = ''prepared''"
| "phase_text PhaseTargetGenerateStarted = ''target-generate-started''"
| "phase_text PhaseTargetGenerateSucceeded = ''target-generate-succeeded''"
| "phase_text PhaseTargetApplyStarted = ''target-apply-started''"
| "phase_text PhaseTargetApplySucceeded = ''target-apply-succeeded''"
| "phase_text PhaseTargetVerifyStarted = ''target-verify-started''"
| "phase_text PhaseTargetVerifySucceeded = ''target-verify-succeeded''"
| "phase_text PhaseCommitStarted = ''commit-started''"
| "phase_text PhaseCommitSucceeded = ''commit-succeeded''"
| "phase_text PhaseRollbackStarted = ''rollback-started''"
| "phase_text PhaseRollbackGenerateStarted = ''rollback-generate-started''"
| "phase_text PhaseRollbackGenerateDone = ''rollback-generate-succeeded''"
| "phase_text PhaseRollbackApplyStarted = ''rollback-apply-started''"
| "phase_text PhaseRollbackApplyDone = ''rollback-apply-succeeded''"
| "phase_text PhaseRollbackVerifyStarted = ''rollback-verify-started''"
| "phase_text PhaseRollbackVerifyDone = ''rollback-verify-succeeded''"
| "phase_text PhaseRollbackSucceeded = ''rollback-succeeded''"
| "phase_text PhaseQuiesceStarted = ''quiesce-started''"
| "phase_text PhaseQuiesced = ''quiesced''"
| "phase_text PhaseRollbackCopyStarted = ''rollback-copy-started''"
| "phase_text PhaseRollbackCopySucceeded = ''rollback-copy-succeeded''"
| "phase_text PhaseRollbackReady = ''rollback-ready''"
| "phase_text PhaseActivationCopyStarted = ''activation-copy-started''"
| "phase_text PhaseActivationCopySucceeded = ''activation-copy-succeeded''"
| "phase_text PhaseActivationSucceeded = ''activation-succeeded''"
| "phase_text PhaseRuntimeStartStarted = ''runtime-start-started''"
| "phase_text PhaseRuntimeStartSucceeded = ''runtime-start-succeeded''"
| "phase_text PhaseVerifyStarted = ''verify-started''"
| "phase_text PhaseVerifySucceeded = ''verify-succeeded''"
| "phase_text PhaseRollbackVolumeStarted = ''rollback-volume-started''"
| "phase_text PhaseRollbackVolumeSucceeded = ''rollback-volume-succeeded''"
| "phase_text PhaseRollbackRuntimeStarted = ''rollback-runtime-started''"
| "phase_text PhaseRollbackRuntimeSucceeded = ''rollback-runtime-succeeded''"
| "phase_text PhaseRollbackDataQuiesceStarted = ''rollback-data-quiesce-started''"
| "phase_text PhaseRollbackDataQuiesced = ''rollback-data-quiesced''"
| "phase_text PhaseRollbackDataCopyStarted = ''rollback-data-copy-started''"
| "phase_text PhaseRollbackDataCopySucceeded = ''rollback-data-copy-succeeded''"
| "phase_text PhaseRollbackDataActivationSucceeded = ''rollback-data-activation-succeeded''"
| "phase_text PhaseRollbackPriorRuntimeStartStarted = ''rollback-prior-runtime-start-started''"
| "phase_text PhaseRollbackPriorRuntimeStartSucceeded = ''rollback-prior-runtime-start-succeeded''"
| "phase_text PhaseRollbackPriorRuntimeVerifyStarted = ''rollback-prior-runtime-verify-started''"
| "phase_text PhaseRollbackPriorRuntimeVerifySucceeded = ''rollback-prior-runtime-verify-succeeded''"
| "phase_text (PhaseOther s) = s"

text \<open>The declared constants.\<close>

definition declared_phases :: "phase list" where
  "declared_phases =
    [PhasePrepared, PhaseTargetGenerateStarted, PhaseTargetGenerateSucceeded
     , PhaseTargetApplyStarted, PhaseTargetApplySucceeded, PhaseTargetVerifyStarted
     , PhaseTargetVerifySucceeded, PhaseCommitStarted, PhaseCommitSucceeded, PhaseRollbackStarted
     , PhaseRollbackGenerateStarted, PhaseRollbackGenerateDone, PhaseRollbackApplyStarted
     , PhaseRollbackApplyDone, PhaseRollbackVerifyStarted, PhaseRollbackVerifyDone
     , PhaseRollbackSucceeded, PhaseQuiesceStarted, PhaseQuiesced, PhaseRollbackCopyStarted
     , PhaseRollbackCopySucceeded, PhaseRollbackReady, PhaseActivationCopyStarted
     , PhaseActivationCopySucceeded, PhaseActivationSucceeded, PhaseRuntimeStartStarted
     , PhaseRuntimeStartSucceeded, PhaseVerifyStarted, PhaseVerifySucceeded
     , PhaseRollbackVolumeStarted, PhaseRollbackVolumeSucceeded, PhaseRollbackRuntimeStarted
     , PhaseRollbackRuntimeSucceeded, PhaseRollbackDataQuiesceStarted, PhaseRollbackDataQuiesced
     , PhaseRollbackDataCopyStarted, PhaseRollbackDataCopySucceeded
     , PhaseRollbackDataActivationSucceeded, PhaseRollbackPriorRuntimeStartStarted
     , PhaseRollbackPriorRuntimeStartSucceeded, PhaseRollbackPriorRuntimeVerifyStarted
     , PhaseRollbackPriorRuntimeVerifySucceeded]"

definition phase_of_text :: "string \<Rightarrow> phase" where
  "phase_of_text s =
     (case find (\<lambda>p. phase_text p = s) declared_phases of Some p \<Rightarrow> p | None \<Rightarrow> PhaseOther s)"

section \<open>What each kind knows\<close>

definition restore_phases :: "phase list" where
  "restore_phases =
    [PhasePrepared, PhaseQuiesceStarted, PhaseQuiesced, PhaseRollbackCopyStarted
     , PhaseRollbackCopySucceeded, PhaseRollbackReady, PhaseActivationCopyStarted
     , PhaseActivationCopySucceeded, PhaseActivationSucceeded, PhaseRuntimeStartStarted
     , PhaseRuntimeStartSucceeded, PhaseVerifyStarted, PhaseVerifySucceeded, PhaseCommitStarted
     , PhaseCommitSucceeded, PhaseRollbackStarted, PhaseRollbackVolumeStarted
     , PhaseRollbackVolumeSucceeded, PhaseRollbackRuntimeStarted, PhaseRollbackRuntimeSucceeded
     , PhaseRollbackActivationVerifyStarted, PhaseRollbackActivationVerifyDone
     , PhaseRollbackSucceeded]"

definition upgrade_phases :: "phase list" where
  "upgrade_phases =
    [PhasePrepared, PhaseTargetGenerateStarted, PhaseTargetGenerateSucceeded
     , PhaseTargetApplyStarted, PhaseTargetApplySucceeded, PhaseTargetVerifyStarted
     , PhaseTargetVerifySucceeded, PhaseCommitStarted, PhaseCommitSucceeded, PhaseRollbackStarted
     , PhaseRollbackGenerateStarted, PhaseRollbackGenerateDone, PhaseRollbackApplyStarted
     , PhaseRollbackApplyDone, PhaseRollbackVerifyStarted, PhaseRollbackVerifyDone
     , PhaseRollbackSucceeded, PhaseRollbackDataQuiesceStarted, PhaseRollbackDataQuiesced
     , PhaseRollbackDataCopyStarted, PhaseRollbackDataCopySucceeded
     , PhaseRollbackDataActivationSucceeded, PhaseRollbackPriorRuntimeStartStarted
     , PhaseRollbackPriorRuntimeStartSucceeded, PhaseRollbackPriorRuntimeVerifyStarted
     , PhaseRollbackPriorRuntimeVerifySucceeded]"

definition knownPhase :: "mutation_kind \<Rightarrow> phase \<Rightarrow> bool" where
  "knownPhase k p =
     (if k = KindRestoreActivation then p \<in> set restore_phases else p \<in> set upgrade_phases)"

definition joinPhase :: "phase \<Rightarrow> bool" where
  "joinPhase p \<longleftrightarrow> p \<in> set
     [PhaseTargetGenerateStarted, PhaseTargetApplyStarted, PhaseTargetVerifyStarted,
      PhaseRollbackGenerateStarted, PhaseRollbackApplyStarted, PhaseRollbackVerifyStarted]"

definition ForwardRecoveryPhase :: "phase \<Rightarrow> bool" where
  "ForwardRecoveryPhase p \<longleftrightarrow> p \<in> set
     [PhaseTargetApplyStarted, PhaseTargetApplySucceeded, PhaseTargetVerifyStarted,
      PhaseTargetVerifySucceeded, PhaseCommitStarted]"

definition upgradeDataActivationStartPhase :: "phase \<Rightarrow> bool" where
  "upgradeDataActivationStartPhase p \<longleftrightarrow> p \<in> set
     [PhaseTargetApplyStarted, PhaseTargetApplySucceeded, PhaseTargetVerifyStarted,
      PhaseTargetVerifySucceeded, PhaseCommitStarted]"

definition upgradeDataActivationPhase :: "phase \<Rightarrow> bool" where
  "upgradeDataActivationPhase p \<longleftrightarrow> p \<in> set
     [PhaseRollbackDataQuiesceStarted, PhaseRollbackDataQuiesced, PhaseRollbackDataCopyStarted,
      PhaseRollbackDataCopySucceeded, PhaseRollbackDataActivationSucceeded,
      PhaseRollbackPriorRuntimeStartStarted, PhaseRollbackPriorRuntimeStartSucceeded,
      PhaseRollbackPriorRuntimeVerifyStarted, PhaseRollbackPriorRuntimeVerifySucceeded,
      PhaseRollbackSucceeded]"

section \<open>The transition tables\<close>

definition upgrade_table :: "(phase \<times> phase list) list" where
  "upgrade_table =
    [(PhasePrepared, [PhaseTargetGenerateStarted, PhaseRollbackStarted]),
     (PhaseTargetGenerateStarted, [PhaseTargetGenerateSucceeded, PhaseRollbackStarted]),
     (PhaseTargetGenerateSucceeded, [PhaseTargetApplyStarted, PhaseRollbackStarted]),
     (PhaseTargetApplyStarted, [PhaseTargetApplySucceeded, PhaseRollbackStarted]),
     (PhaseTargetApplySucceeded, [PhaseTargetVerifyStarted, PhaseRollbackStarted]),
     (PhaseTargetVerifyStarted, [PhaseTargetVerifySucceeded, PhaseRollbackStarted]),
     (PhaseTargetVerifySucceeded, [PhaseCommitStarted, PhaseRollbackStarted]),
     (PhaseCommitStarted, [PhaseCommitSucceeded, PhaseRollbackStarted]),
     (PhaseRollbackStarted, [PhaseRollbackGenerateStarted]),
     (PhaseRollbackGenerateStarted, [PhaseRollbackGenerateDone, PhaseRollbackStarted]),
     (PhaseRollbackGenerateDone, [PhaseRollbackApplyStarted, PhaseRollbackStarted]),
     (PhaseRollbackApplyStarted, [PhaseRollbackApplyDone]),
     (PhaseRollbackApplyDone, [PhaseRollbackVerifyStarted]),
     (PhaseRollbackVerifyStarted, [PhaseRollbackVerifyDone]),
     (PhaseRollbackVerifyDone, [PhaseRollbackSucceeded]),
     (PhaseRollbackDataQuiesceStarted, [PhaseRollbackDataQuiesced]),
     (PhaseRollbackDataQuiesced, [PhaseRollbackDataCopyStarted]),
     (PhaseRollbackDataCopyStarted, [PhaseRollbackDataCopySucceeded]),
     (PhaseRollbackDataCopySucceeded,
       [PhaseRollbackDataCopyStarted, PhaseRollbackDataActivationSucceeded]),
     (PhaseRollbackDataActivationSucceeded, [PhaseRollbackPriorRuntimeStartStarted]),
     (PhaseRollbackPriorRuntimeStartStarted, [PhaseRollbackPriorRuntimeStartSucceeded]),
     (PhaseRollbackPriorRuntimeStartSucceeded, [PhaseRollbackPriorRuntimeVerifyStarted]),
     (PhaseRollbackPriorRuntimeVerifyStarted, [PhaseRollbackPriorRuntimeVerifySucceeded]),
     (PhaseRollbackPriorRuntimeVerifySucceeded, [PhaseRollbackSucceeded])]"

definition restore_table :: "(phase \<times> phase list) list" where
  "restore_table =
    [(PhasePrepared, [PhaseQuiesceStarted, PhaseRollbackStarted]),
     (PhaseQuiesceStarted, [PhaseQuiesced, PhaseRollbackStarted]),
     (PhaseQuiesced, [PhaseRollbackCopyStarted, PhaseRollbackStarted]),
     (PhaseRollbackCopyStarted, [PhaseRollbackCopySucceeded, PhaseRollbackStarted]),
     (PhaseRollbackCopySucceeded, [PhaseRollbackCopyStarted, PhaseRollbackReady, PhaseRollbackStarted]),
     (PhaseRollbackReady, [PhaseActivationCopyStarted, PhaseRollbackStarted]),
     (PhaseActivationCopyStarted, [PhaseActivationCopySucceeded, PhaseRollbackStarted]),
     (PhaseActivationCopySucceeded,
       [PhaseActivationCopyStarted, PhaseActivationSucceeded, PhaseRollbackStarted]),
     (PhaseActivationSucceeded, [PhaseRuntimeStartStarted, PhaseRollbackStarted]),
     (PhaseRuntimeStartStarted, [PhaseRuntimeStartSucceeded, PhaseRollbackStarted]),
     (PhaseRuntimeStartSucceeded, [PhaseVerifyStarted, PhaseRollbackStarted]),
     (PhaseVerifyStarted, [PhaseVerifySucceeded, PhaseRollbackStarted]),
     (PhaseVerifySucceeded, [PhaseCommitStarted, PhaseRollbackStarted]),
     (PhaseCommitStarted, [PhaseCommitSucceeded, PhaseRollbackStarted]),
     (PhaseRollbackStarted, [PhaseRollbackVolumeStarted, PhaseRollbackRuntimeStarted]),
     (PhaseRollbackVolumeStarted, [PhaseRollbackVolumeSucceeded]),
     (PhaseRollbackVolumeSucceeded, [PhaseRollbackVolumeStarted, PhaseRollbackRuntimeStarted]),
     (PhaseRollbackRuntimeStarted, [PhaseRollbackRuntimeSucceeded]),
     (PhaseRollbackRuntimeSucceeded, [PhaseRollbackActivationVerifyStarted]),
     (PhaseRollbackActivationVerifyStarted, [PhaseRollbackActivationVerifyDone]),
     (PhaseRollbackActivationVerifyDone, [PhaseRollbackSucceeded])]"

text \<open>A missing key of a Go map yields the nil slice.\<close>

definition successors :: "(phase \<times> phase list) list \<Rightarrow> phase \<Rightarrow> phase list" where
  "successors tab p = (case map_of tab p of None \<Rightarrow> [] | Some ps \<Rightarrow> ps)"

definition allowedRestoreActivationTransition :: "phase \<Rightarrow> phase \<Rightarrow> bool" where
  "allowedRestoreActivationTransition current nxt \<longleftrightarrow> nxt \<in> set (successors restore_table current)"

definition allowedTransition :: "mutation_kind \<Rightarrow> phase \<Rightarrow> phase \<Rightarrow> bool" where
  "allowedTransition k current nxt =
     (if k = KindRestoreActivation then allowedRestoreActivationTransition current nxt
      else if nxt = PhaseRollbackDataQuiesceStarted then upgradeDataActivationStartPhase current
      else nxt \<in> set (successors upgrade_table current))"

definition table_edges :: "(phase \<times> phase list) list \<Rightarrow> (phase \<times> phase) list" where
  "table_edges tab = concat (map (\<lambda>(p, qs). map (Pair p) qs) tab)"

definition edges :: "mutation_kind \<Rightarrow> (phase \<times> phase) list" where
  "edges k =
     (if k = KindRestoreActivation then table_edges restore_table
      else table_edges upgrade_table @
        map (\<lambda>p. (p, PhaseRollbackDataQuiesceStarted))
          [PhaseTargetApplyStarted, PhaseTargetApplySucceeded, PhaseTargetVerifyStarted,
           PhaseTargetVerifySucceeded, PhaseCommitStarted])"

lemma successors_edge: "q \<in> set (successors tab p) \<Longrightarrow> (p, q) \<in> set (table_edges tab)"
  unfolding successors_def table_edges_def
  by (cases "map_of tab p") (auto dest!: map_of_SomeD intro!: bexI)

lemma allowed_edge: "allowedTransition k p q \<Longrightarrow> (p, q) \<in> set (edges k)"
  by (auto simp: allowedTransition_def allowedRestoreActivationTransition_def edges_def
      upgradeDataActivationStartPhase_def successors_edge split: if_splits)

definition edges_all :: "mutation_kind \<Rightarrow> (phase \<Rightarrow> phase \<Rightarrow> bool) \<Rightarrow> bool" where
  "edges_all k P \<longleftrightarrow> list_all (\<lambda>(p, q). P p q) (edges k)"

lemma edges_allD: "edges_all k P \<Longrightarrow> allowedTransition k p q \<Longrightarrow> P p q"
  using allowed_edge by (fastforce simp: edges_all_def list_all_iff)

lemma edges_kind: "k \<noteq> KindRestoreActivation \<Longrightarrow> edges_all k P = edges_all KindUpgrade P"
  by (simp add: edges_all_def edges_def)

lemma kind_cases2: "(k = KindRestoreActivation \<Longrightarrow> P) \<Longrightarrow> (k \<noteq> KindRestoreActivation \<Longrightarrow> P) \<Longrightarrow> P"
  by blast

text \<open>A set of phases that no transition leaves.\<close>

lemma reachable_closed:
  assumes "edges_all k (\<lambda>p q. P p \<longrightarrow> P q)" and "(allowedTransition k)\<^sup>*\<^sup>* p q" and "P p"
  shows "P q"
  using assms(2,3) by induction (use edges_allD [OF assms(1)] in auto)

section \<open>The text of a phase\<close>

lemma phase_text_inj_declared: "distinct (map phase_text declared_phases)"
  by (simp add: declared_phases_def)

lemma phase_of_text_declared:
  assumes "p \<in> set declared_phases"
  shows "phase_of_text (phase_text p) = p"
proof -
  obtain q where "find (\<lambda>q. phase_text q = phase_text p) declared_phases = Some q"
    using assms by (metis (mono_tags, lifting) find_None_iff option.exhaust)
  moreover from this have "q \<in> set declared_phases" "phase_text q = phase_text p"
    by (auto simp: find_Some_iff)
  then have "q = p"
    using phase_text_inj_declared assms by (auto simp: distinct_map dest: inj_onD)
  ultimately show ?thesis
    by (simp add: phase_of_text_def)
qed

text \<open>
  The phases of the model are the phase strings of the code: every string is the text of the
  phase it is read as, and a phase the journal knows is read back from its text.
\<close>

theorem phase_text_roundtrip:
  "phase_text (phase_of_text s) = s \<and>
   (knownPhase k p \<longrightarrow> phase_of_text (phase_text p) = p)"
proof
  show "phase_text (phase_of_text s) = s"
    by (auto simp: phase_of_text_def find_Some_iff split: option.split)
  have "list_all (\<lambda>p. p \<in> set declared_phases) (restore_phases @ upgrade_phases)"
    by (simp add: restore_phases_def upgrade_phases_def declared_phases_def)
  then show "knownPhase k p \<longrightarrow> phase_of_text (phase_text p) = p"
    using phase_of_text_declared by (auto simp: knownPhase_def list_all_iff split: if_splits)
qed

theorem phase_text_roundtrip_witness:
  "phase_of_text (phase_text PhaseRollbackStarted) = PhaseRollbackStarted"
proof -
  have "knownPhase KindUpgrade PhaseRollbackStarted"
    by (simp add: knownPhase_def upgrade_phases_def)
  with phase_text_roundtrip show ?thesis by blast
qed

section \<open>What the tables guarantee\<close>

lemma edges_known: "edges_all k (\<lambda>p q. knownPhase k p \<and> knownPhase k q \<and>
    p \<notin> {PhaseCommitSucceeded, PhaseRollbackSucceeded})"
proof (rule kind_cases2 [of k])
  show ?thesis if "k = KindRestoreActivation"
    unfolding that
    by (simp add: edges_all_def edges_def table_edges_def restore_table_def knownPhase_def restore_phases_def)
  have "edges_all KindUpgrade (\<lambda>p q. p \<in> set upgrade_phases \<and> q \<in> set upgrade_phases \<and>
    p \<notin> {PhaseCommitSucceeded, PhaseRollbackSucceeded})"
    by (simp add: edges_all_def edges_def table_edges_def upgrade_table_def upgrade_phases_def)
  then show ?thesis if "k \<noteq> KindRestoreActivation"
    using that by (simp add: edges_kind [OF that] knownPhase_def)
qed

text \<open>
  The tables stay inside the phases the journal validation knows: a transition starts and
  ends in a known phase of its kind, and the two terminal phases have no successor.
\<close>

theorem transition_targets_known:
  assumes "allowedTransition k p q"
  shows "knownPhase k p \<and> knownPhase k q \<and> p \<noteq> PhaseCommitSucceeded \<and> p \<noteq> PhaseRollbackSucceeded"
  using edges_allD [OF edges_known assms] by auto

theorem transition_targets_known_witness:
  "knownPhase KindUpgrade PhaseRollbackDataQuiesceStarted"
proof -
  have "allowedTransition KindUpgrade PhaseTargetApplyStarted PhaseRollbackDataQuiesceStarted"
    by (simp add: allowedTransition_def upgradeDataActivationStartPhase_def)
  from transition_targets_known [OF this] show ?thesis by blast
qed


text \<open>How far a phase is from a terminal one along the shortest way that the proof follows.\<close>

definition drain_order :: "mutation_kind \<Rightarrow> phase list" where
  "drain_order k = [PhaseRollbackSucceeded, PhaseCommitSucceeded] @
     (if k = KindRestoreActivation
      then [PhaseRollbackActivationVerifyDone, PhaseRollbackActivationVerifyStarted,
            PhaseRollbackRuntimeSucceeded, PhaseRollbackRuntimeStarted, PhaseRollbackVolumeSucceeded,
            PhaseRollbackVolumeStarted, PhaseRollbackStarted]
      else [PhaseRollbackVerifyDone, PhaseRollbackVerifyStarted, PhaseRollbackApplyDone,
            PhaseRollbackApplyStarted, PhaseRollbackGenerateDone, PhaseRollbackGenerateStarted,
            PhaseRollbackStarted, PhaseRollbackPriorRuntimeVerifySucceeded,
            PhaseRollbackPriorRuntimeVerifyStarted, PhaseRollbackPriorRuntimeStartSucceeded,
            PhaseRollbackPriorRuntimeStartStarted, PhaseRollbackDataActivationSucceeded,
            PhaseRollbackDataCopySucceeded, PhaseRollbackDataCopyStarted,
            PhaseRollbackDataQuiesced, PhaseRollbackDataQuiesceStarted])"

definition drain_rank :: "mutation_kind \<Rightarrow> phase \<Rightarrow> nat" where
  "drain_rank k p = length (takeWhile (\<lambda>q. q \<noteq> p) (drain_order k))"

definition known_list :: "mutation_kind \<Rightarrow> phase list" where
  "known_list k = (if k = KindRestoreActivation then restore_phases else upgrade_phases)"

lemma knownPhase_list: "knownPhase k p \<longleftrightarrow> p \<in> set (known_list k)"
  by (simp add: knownPhase_def known_list_def)

definition next_of :: "mutation_kind \<Rightarrow> phase \<Rightarrow> phase list" where
  "next_of k p = successors (if k = KindRestoreActivation then restore_table else upgrade_table) p"

lemma next_of_allowed:
  "q \<in> set (next_of k p) \<Longrightarrow> q \<noteq> PhaseRollbackDataQuiesceStarted \<Longrightarrow> allowedTransition k p q"
  by (simp add: next_of_def allowedTransition_def allowedRestoreActivationTransition_def split: if_splits)

definition drains :: "mutation_kind \<Rightarrow> bool" where
  "drains k \<longleftrightarrow> list_all (\<lambda>p. p \<in> {PhaseCommitSucceeded, PhaseRollbackSucceeded} \<or>
     list_ex (\<lambda>q. q \<noteq> PhaseRollbackDataQuiesceStarted \<and> drain_rank k q < drain_rank k p) (next_of k p)) (known_list k)"

lemma drains_restore: "drains KindRestoreActivation"
  by (simp add: drains_def known_list_def restore_phases_def next_of_def successors_def restore_table_def
      drain_rank_def drain_order_def)

lemma drains_upgrade: "drains KindUpgrade"
  by (simp add: drains_def known_list_def upgrade_phases_def next_of_def successors_def upgrade_table_def
      drain_rank_def drain_order_def)

lemma drains_all: "drains k"
proof (rule kind_cases2 [of k])
  show "drains k" if "k = KindRestoreActivation"
    using that drains_restore by simp
  show "drains k" if "k \<noteq> KindRestoreActivation"
    using that drains_upgrade by (simp add: drains_def known_list_def next_of_def drain_rank_def drain_order_def)
qed

text \<open>
  No operation is stuck: from every phase it knows, an operation can reach a terminal phase
  through admitted transitions.
\<close>

theorem every_phase_reaches_terminal:
  assumes "knownPhase k p"
  shows "\<exists>q \<in> {PhaseCommitSucceeded, PhaseRollbackSucceeded}. (allowedTransition k)\<^sup>*\<^sup>* p q"
  using assms
proof (induction "drain_rank k p" arbitrary: p rule: less_induct)
  case less
  show ?case
  proof (cases "p \<in> {PhaseCommitSucceeded, PhaseRollbackSucceeded}")
    case False
    with drains_all [of k] less.prems obtain q where
      q: "q \<in> set (next_of k p)" "q \<noteq> PhaseRollbackDataQuiesceStarted" "drain_rank k q < drain_rank k p"
      by (auto simp: drains_def list_all_iff list_ex_iff knownPhase_list)
    then have pq: "allowedTransition k p q"
      by (simp add: next_of_allowed)
    with edges_allD [OF edges_known pq] less.hyps [OF q(3)] show ?thesis
      by (meson converse_rtranclp_into_rtranclp)
  qed auto
qed

theorem every_phase_reaches_terminal_witness:
  "\<exists>q \<in> {PhaseCommitSucceeded, PhaseRollbackSucceeded}.
     (allowedTransition KindUpgrade)\<^sup>*\<^sup>* PhaseTargetApplyStarted q"
proof -
  have "knownPhase KindUpgrade PhaseTargetApplyStarted"
    by (simp add: knownPhase_def upgrade_phases_def)
  from every_phase_reaches_terminal [OF this] show ?thesis .
qed

lemma data_activation_closed:
  "edges_all KindUpgrade (\<lambda>p q. upgradeDataActivationPhase p \<longrightarrow> upgradeDataActivationPhase q)"
  by (simp add: edges_all_def edges_def table_edges_def upgrade_table_def upgradeDataActivationPhase_def)

text \<open>
  The data-activation rollback never admits a child executor again: once an upgrade entered
  the phases in which the controller copies data back into live volumes, no phase it can still
  reach grants a join, and none is a target or commit phase.
\<close>

theorem data_activation_never_joins:
  assumes "(allowedTransition KindUpgrade)\<^sup>*\<^sup>* p q" and "upgradeDataActivationPhase p"
  shows "upgradeDataActivationPhase q \<and> \<not> joinPhase q \<and> \<not> ForwardRecoveryPhase q"
proof -
  have "upgradeDataActivationPhase q"
    by (rule reachable_closed [OF data_activation_closed assms])
  then show ?thesis
    by (auto simp: upgradeDataActivationPhase_def joinPhase_def ForwardRecoveryPhase_def)
qed

theorem data_activation_never_joins_witness:
  "\<not> joinPhase PhaseRollbackSucceeded \<and>
   (allowedTransition KindUpgrade)\<^sup>*\<^sup>* PhaseRollbackPriorRuntimeVerifySucceeded PhaseRollbackSucceeded"
proof -
  have *: "(allowedTransition KindUpgrade)\<^sup>*\<^sup>* PhaseRollbackPriorRuntimeVerifySucceeded PhaseRollbackSucceeded"
    by (rule r_into_rtranclp) (simp add: allowedTransition_def successors_def upgrade_table_def)
  show ?thesis
    using data_activation_never_joins [OF *] * by (simp add: upgradeDataActivationPhase_def)
qed

definition rollback_phase :: "phase \<Rightarrow> bool" where
  "rollback_phase p \<longleftrightarrow> has_prefix (phase_text p) ''rollback-''"

lemma rollback_phase_known:
  "knownPhase KindUpgrade p \<Longrightarrow> rollback_phase p \<longleftrightarrow>
     p \<in> {PhaseRollbackStarted, PhaseRollbackGenerateStarted, PhaseRollbackGenerateDone,
          PhaseRollbackApplyStarted, PhaseRollbackApplyDone, PhaseRollbackVerifyStarted, PhaseRollbackVerifyDone}
     \<or> upgradeDataActivationPhase p"
proof -
  have "list_all (\<lambda>p. rollback_phase p \<longleftrightarrow>
     p \<in> {PhaseRollbackStarted, PhaseRollbackGenerateStarted, PhaseRollbackGenerateDone,
          PhaseRollbackApplyStarted, PhaseRollbackApplyDone, PhaseRollbackVerifyStarted, PhaseRollbackVerifyDone}
     \<or> upgradeDataActivationPhase p) upgrade_phases"
    by (simp add: upgrade_phases_def rollback_phase_def has_prefix_def
        upgradeDataActivationPhase_def)
  then show "knownPhase KindUpgrade p \<Longrightarrow> ?thesis"
    by (auto simp: knownPhase_def list_all_iff)
qed

lemma rollback_closed:
  "edges_all KindUpgrade (\<lambda>p q. rollback_phase p \<longrightarrow> rollback_phase q)"
  by (simp add: edges_all_def edges_def table_edges_def upgrade_table_def rollback_phase_def
      has_prefix_def)

text \<open>
  Rolling back is final: an upgrade whose journal entered a rollback phase can only reach
  rollback phases, so it never runs or commits the target again by an ordinary transition.
\<close>

theorem rollback_is_final:
  assumes "(allowedTransition KindUpgrade)\<^sup>*\<^sup>* p q" and "rollback_phase p"
  shows "rollback_phase q \<and> q \<noteq> PhaseCommitSucceeded \<and> \<not> ForwardRecoveryPhase q"
proof -
  have "rollback_phase q"
    by (rule reachable_closed [OF rollback_closed assms])
  then show ?thesis
    by (auto simp: rollback_phase_def ForwardRecoveryPhase_def has_prefix_def)
qed

theorem rollback_is_final_witness:
  "rollback_phase PhaseRollbackGenerateStarted \<and>
   (allowedTransition KindUpgrade)\<^sup>*\<^sup>* PhaseRollbackStarted PhaseRollbackGenerateStarted"
proof -
  have *: "(allowedTransition KindUpgrade)\<^sup>*\<^sup>* PhaseRollbackStarted PhaseRollbackGenerateStarted"
    by (rule r_into_rtranclp) (simp add: allowedTransition_def successors_def upgrade_table_def)
  have "rollback_phase PhaseRollbackStarted"
    by (simp add: rollback_phase_def has_prefix_def)
  from rollback_is_final [OF * this] * show ?thesis by blast
qed

end
