(* ===== verification/AppGroups.thy ===== *)
theory AppGroups
  imports RuntimeControls
begin

text \<open>
  The app-group controls of a snapshot or restore journal
  (\<open>internal/backuplifecycle/app_group_control.go\<close>): their data and validation, which action
  may follow which, the transitions the owning journal admits, and the two procedures that
  drive a group, \<open>AdvanceAppGroup\<close> and \<open>SettleAppGroup\<close>.

  The digest of a group (\<open>AppGroupDigest\<close>, SHA-256 over its JSON) is the parameter \<open>D\<close>.
  \<open>CloneAppGroups\<close> is a deep copy through JSON, the identity on these values. \<open>Effects\<close> is
  omitted from the JSON when empty, so nil and empty effects are one value here.
\<close>

section \<open>Data\<close>

record renderer_identity =
  renderer_id :: string
  renderer_version :: string

record plan_authority =
  pa_class :: string
  pa_document :: string
  pa_graduation_eligible :: bool
  pa_issuer :: string
  pa_authority_fingerprint :: string
  pa_catalog_hash :: string

record plan_binding =
  pb_plan_hash :: string
  pb_spec_hash :: string
  pb_inventory_hash :: string
  pb_definition_hash :: string
  pb_compiler_version :: string
  pb_renderer :: renderer_identity
  pb_authority :: plan_authority

record authority_lineage =
  al_binding :: plan_binding
  al_manifest_hash :: string
  al_generation_receipt_hash :: string
  al_apply_result_hash :: string
  al_apply_receipt_hash :: string
  al_owner_binding_digest :: string
  al_pocket_id_subject :: string

record app_group_binding =
  manager_id :: string
  manager_container_id :: string
  manager_image :: string
  source_digest :: string
  installation_digest :: string
  owner_ref :: string
  site_ref :: string
  node_ref :: string
  app_id :: int
  app_urn :: string
  logical_project :: string
  physical_project :: string
  binding_digest :: string
  journal_operation_id :: string
  native_journal_operation_id :: string
  policy_source_digest :: string
  authority_lineage :: authority_lineage
  qualification_digest :: string
  applied_request_digest :: string
  custody_digest :: string
  group_id :: string
  recipe_digest :: string
  effective_input_digest :: string

record quiesce_mount =
  mount_type :: string
  mount_name :: string
  mount_source :: string
  mount_destination :: string
  mount_rw :: bool
  mount_propagation :: string

record quiesced_container =
  qc_restart_policy :: string
  qc_marketplace_service :: string
  qc_marketplace_component :: string
  qc_id :: string
  qc_name :: string
  qc_was_running :: bool
  qc_workload_ref :: string
  qc_site_ref :: string
  qc_node_ref :: string
  qc_compose_project :: string
  qc_compose_service :: string
  qc_component_ref :: string
  qc_image :: string
  qc_stop_order :: int
  qc_mounts :: "quiesce_mount slice"

record app_group_volume =
  vol_name :: string
  vol_mountpoint :: string
  vol_driver :: string
  vol_identity_digest :: string

record app_group_generation =
  config_digests :: "(string, string) gomap"
  containers :: "quiesced_container slice"
  volumes :: "app_group_volume slice"
  absent :: bool
  partial :: bool

record app_group_receipt =
  receipt_operation_id :: string
  receipt_predecessor :: string
  receipt_request_digest :: string
  receipt_witness_digest :: string
  receipt_compose_exit :: int
  receipt_previous_custody :: string

record app_group_negative =
  neg_dispatch_phase :: control_state
  neg_operation_id :: string
  neg_predecessor :: string
  neg_request_digest :: string
  neg_witness_digest :: string
  neg_kind :: string
  neg_phase :: string
  neg_reason :: string
  neg_no_native_actuation :: bool
  neg_compose_exit :: "int option"
  neg_previous_custody :: string

text \<open>The action of an effect; \<open>None\<close> is any string that is not one of the four actions.\<close>

record app_group_effect =
  ge_action :: "control_action option"
  ge_state :: control_state
  ge_handle :: string
  ge_receipt :: "app_group_receipt option"
  ge_negative :: "app_group_negative option"
  ge_generation :: "app_group_generation option"

record app_group_control =
  ag_version :: int
  ag_binding :: app_group_binding
  ag_original :: app_group_generation
  ag_effects :: "app_group_effect list"
  ag_closed :: bool

datatype group_error =
    AppliedRequestUnbound | GroupCustodyInvalid | GroupDigestUnbound | GroupNeedsContainers
  | GroupMixedPower | GroupActionOrder | StoppedGroupActuates | GroupEffectPhaseInvalid
  | PreparingHasHandle | GroupHandleLost | ReceiptDiffersFromPhase | GroupUnresolved
  | NegativeProofIncomplete | PreDispatchWitnessDiffers | UndispatchedProofInvalid
  | NegativeLineageChanged | NonClaimProofInvalid | PreparationProofInvalid
  | ClosedChildFailureInvalid | CommandPhaseUnknown | NegativeKindUnknown
  | NoActuationChangedGraph | FailureNeedsPartialGraph | PositivePartialGraph
  | ReceiptLineageInvalid | StartNeedsSuccessor | ClosedBeforeRestoration
  | GroupPresenceChanged | VolumeIdentityInvalid | VolumesChanged | AbsentRetainsConfig
  | GroupConfigChanged | GroupGraphIncomplete | SuccessorGraphDiffers | MountOutsideVolumes
  | ComponentUnauthorized | ConfigCoverageIncomplete | ComponentSetChanged
  | GroupBindingsMissing | GroupAlreadyClosed | StoppedGroupReadOnly | GroupFailed
  | PredecessorActionChanged | GroupExternal string | GroupJoined group_error group_error

section \<open>Patterns\<close>

definition groupVolumeName :: "string \<Rightarrow> bool" where
  "groupVolumeName s = (case s of [] \<Rightarrow> False | c # cs \<Rightarrow>
     is_lower_alnum c \<and> length cs \<le> 254 \<and>
     list_all (\<lambda>x. is_lower_alnum x \<or> x \<in> {CHR ''_'', CHR ''.'', CHR ''-''}) cs)"

definition groupProjectName :: "string \<Rightarrow> bool" where
  "groupProjectName s = (has_prefix s ''stackkit-'' \<and> (case drop 9 s of [] \<Rightarrow> False | c # cs \<Rightarrow>
     is_lower_alnum c \<and> length cs \<le> 125 \<and> list_all (\<lambda>x. is_lower_alnum x \<or> x = CHR ''-'') cs))"

definition groupPinnedImage :: "string \<Rightarrow> bool" where
  "groupPinnedImage s =
     (length s > 72 \<and> lower_hex64 (drop (length s - 64) s) \<and>
      take 8 (drop (length s - 72) s) = ''@sha256:'' \<and>
      CHR 0x0A \<notin> set (take (length s - 72) s))"

definition groupID :: "string \<Rightarrow> bool" where
  "groupID s =
     (length s = 36 \<and>
      list_all (\<lambda>i. if i \<in> {8, 13, 18, 23} then s ! i = CHR ''-''
                    else if i = 14 then CHR ''1'' \<le> s ! i \<and> s ! i \<le> CHR ''8''
                    else if i = 19 then s ! i \<in> {CHR ''8'', CHR ''9'', CHR ''a'', CHR ''b''}
                    else is_lower_hex (s ! i)) [0 ..< 36])"

definition validOperationID :: "string \<Rightarrow> bool" where
  "validOperationID s =
     (case s of [] \<Rightarrow> False | c # cs \<Rightarrow>
        length s \<le> 128 \<and> is_alnum c \<and>
        list_all (\<lambda>x. is_alnum x \<or> x \<in> {CHR ''.'', CHR ''_'', CHR ''-''}) cs)"

section \<open>Which action may follow\<close>

definition InitialRunning :: "app_group_control \<Rightarrow> bool" where
  "InitialRunning g =
     (case items (containers (ag_original g)) of [] \<Rightarrow> False | c # _ \<Rightarrow> qc_was_running c)"

text \<open>The generation of the last effect that recorded one, else the original.\<close>

fun current_from :: "app_group_effect list \<Rightarrow> app_group_generation \<Rightarrow> app_group_generation" where
  "current_from [] orig = orig"
| "current_from (e # es) orig =
     (case ge_generation e of Some gen \<Rightarrow> gen | None \<Rightarrow> current_from es orig)"

definition Current :: "app_group_control \<Rightarrow> app_group_generation" where
  "Current g = current_from (rev (ag_effects g)) (ag_original g)"

definition starts :: "control_action option \<Rightarrow> bool" where
  "starts a = (case a of None \<Rightarrow> False | Some b \<Rightarrow> controlStarts b)"

definition no_actuation_failure :: "app_group_effect \<Rightarrow> bool" where
  "no_actuation_failure e \<longleftrightarrow> ge_state e = ControlFailed \<and>
     (case ge_negative e of None \<Rightarrow> False | Some n \<Rightarrow> neg_no_native_actuation n)"

text \<open>Both predicates drop trailing failures that proved to have actuated nothing.\<close>

fun restored_rev :: "app_group_effect list \<Rightarrow> bool" where
  "restored_rev [] = True"
| "restored_rev (e # es) =
     (if no_actuation_failure e then restored_rev es
      else starts (ge_action e) \<and> ge_state e = ControlObserved)"

fun stopped_rev :: "app_group_effect list \<Rightarrow> bool" where
  "stopped_rev [] = False"
| "stopped_rev (e # es) =
     (if no_actuation_failure e then stopped_rev es
      else \<not> starts (ge_action e) \<and> ge_state e = ControlObserved)"

definition AppGroupRestored :: "app_group_control \<Rightarrow> bool" where
  "AppGroupRestored g =
     (if \<not> InitialRunning g then ag_effects g = [] else restored_rev (rev (ag_effects g)))"

definition AppGroupStopped :: "app_group_control \<Rightarrow> bool" where
  "AppGroupStopped g =
     (if \<not> InitialRunning g then ag_effects g = [] else stopped_rev (rev (ag_effects g)))"

definition groupEffectSettled :: "app_group_effect \<Rightarrow> bool" where
  "groupEffectSettled e \<longleftrightarrow> ge_state e = ControlObserved \<or> ge_state e = ControlFailed"

definition groupActionAllowed :: "app_group_control \<Rightarrow> control_action option \<Rightarrow> bool" where
  "groupActionAllowed g action =
     (if ag_effects g = [] then action = Some Stop
      else if length (ag_effects g) \<ge> 16 then False
      else let e = last (ag_effects g) in
        if \<not> groupEffectSettled e then False
        else if ge_state e = ControlFailed
        then action = Some RollbackStop \<or> (action = Some RollbackStart \<and> AppGroupStopped g)
        else (case ge_action e of
                Some Stop \<Rightarrow> action = Some Start \<or> action = Some RollbackStart
              | Some Start \<Rightarrow> action = Some RollbackStop
              | Some RollbackStop \<Rightarrow> action = Some RollbackStart
              | _ \<Rightarrow> False))"

section \<open>One generation of a group\<close>

definition volume_lookup :: "app_group_volume list \<Rightarrow> string \<Rightarrow> app_group_volume option" where
  "volume_lookup vs n = find (\<lambda>v. vol_name v = n) vs"

fun check_volumes :: "string list \<Rightarrow> app_group_volume list \<Rightarrow> group_error option" where
  "check_volumes seen [] = None"
| "check_volumes seen (v # vs) =
     first_err (check (\<not> groupVolumeName (vol_name v) \<or>
                       vol_mountpoint v \<noteq> ''/var/lib/docker/volumes/'' @ vol_name v @ ''/_data'' \<or>
                       vol_driver v \<noteq> ''local'' \<or> \<not> lower_hex64 (vol_identity_digest v) \<or>
                       vol_name v \<in> set seen) VolumeIdentityInvalid)
               (check_volumes (vol_name v # seen) vs)"

definition mount_ok :: "app_group_volume list \<Rightarrow> quiesce_mount \<Rightarrow> bool" where
  "mount_ok vs m \<longleftrightarrow> mount_type m = ''volume'' \<and> mount_destination m \<noteq> [] \<and>
     (case volume_lookup vs (mount_name m) of
        None \<Rightarrow> False | Some v \<Rightarrow> mount_source m = vol_mountpoint v)"

text \<open>The anchor map of the original containers: a later entry replaces an earlier one.\<close>

definition anchor_of :: "app_group_control \<Rightarrow> string \<Rightarrow> quiesced_container option" where
  "anchor_of g = map_of (rev (map (\<lambda>c. (qc_component_ref c, c)) (items (containers (ag_original g)))))"

definition anchor_len :: "app_group_control \<Rightarrow> nat" where
  "anchor_len g = length (remdups (map qc_component_ref (items (containers (ag_original g)))))"

text \<open>The fields two generations of one component may differ in are cleared.\<close>

definition recipe_part :: "quiesced_container \<Rightarrow> quiesced_container" where
  "recipe_part c = c\<lparr>qc_id := [], qc_name := [], qc_was_running := False\<rparr>"

definition check_container ::
  "app_group_control \<Rightarrow> app_group_generation \<Rightarrow> string list \<Rightarrow> string list \<Rightarrow> quiesced_container \<Rightarrow>
   group_error option" where
  "check_container g cur seen ids c =
     (let ref = qc_component_ref c; b = ag_binding g in
      first_err (check (\<not> lower_hex64 (entry (config_digests cur) ref) \<or>
                        entry (config_digests cur) ref \<noteq> entry (config_digests (ag_original g)) ref)
                  GroupConfigChanged)
     (first_err (check (\<not> lower_hex64 (qc_id c) \<or> ref = [] \<or> ref \<in> set seen \<or> qc_id c \<in> set ids \<or>
                        qc_compose_project c \<noteq> physical_project b \<or> qc_compose_service c \<noteq> ref \<or>
                        qc_workload_ref c = [] \<or> qc_site_ref c \<noteq> site_ref b \<or>
                        qc_node_ref c \<noteq> node_ref b \<or> \<not> groupPinnedImage (qc_image c))
                  GroupGraphIncomplete)
     (first_err (case anchor_of g ref of None \<Rightarrow> None
                 | Some old \<Rightarrow> check (recipe_part old \<noteq> recipe_part c) SuccessorGraphDiffers)
                (check (\<not> list_all (mount_ok (items (volumes cur))) (items (qc_mounts c)))
                  MountOutsideVolumes))))"

fun check_containers ::
  "app_group_control \<Rightarrow> app_group_generation \<Rightarrow> string list \<Rightarrow> string list \<Rightarrow> quiesced_container list \<Rightarrow>
   group_error option" where
  "check_containers g cur seen ids [] = None"
| "check_containers g cur seen ids (c # cs) =
     first_err (check_container g cur seen ids c)
               (check_containers g cur (qc_component_ref c # seen) (qc_id c # ids) cs)"

definition validateGroupGeneration ::
  "app_group_control \<Rightarrow> app_group_generation \<Rightarrow> bool \<Rightarrow> group_error option" where
  "validateGroupGeneration g cur isabsent =
     (let cs = items (containers cur); vs = items (volumes cur);
          seen = map qc_component_ref cs in
      first_err (check (absent cur \<noteq> isabsent \<or> (isabsent \<and> (cs \<noteq> [] \<or> partial cur)) \<or> vs = [])
                  GroupPresenceChanged)
     (first_err (check_volumes [] vs)
     (first_err (check (items (volumes (ag_original g)) \<noteq> [] \<and> volumes cur \<noteq> volumes (ag_original g))
                  VolumesChanged)
     (if isabsent then check (map_len (config_digests cur) \<noteq> 0) AbsentRetainsConfig
      else first_err (check_containers g cur [] [] cs)
          (first_err (check (anchor_len g > 0 \<and> \<not> list_all (\<lambda>n. anchor_of g n \<noteq> None) seen)
                       ComponentUnauthorized)
          (first_err (check (map_len (config_digests cur) \<noteq> length seen) ConfigCoverageIncomplete)
                     (check (anchor_len g > 0 \<and> length seen \<noteq> anchor_len g \<and> \<not> partial cur)
                       ComponentSetChanged)))))))"

section \<open>Validation of a group\<close>

definition is_positive :: "app_group_effect \<Rightarrow> bool" where
  "is_positive e \<longleftrightarrow> ge_state e = ControlAdopted \<or> ge_state e = ControlObserved"

definition is_negative :: "app_group_effect \<Rightarrow> bool" where
  "is_negative e \<longleftrightarrow> ge_state e = ControlNegativeAdopted \<or> ge_state e = ControlFailed"

text \<open>The group as it was journaled before the dispatch of its last effect.\<close>

definition undispatched_proof ::
  "app_group_control \<Rightarrow> app_group_effect list \<Rightarrow> app_group_effect \<Rightarrow> control_state \<Rightarrow> app_group_control" where
  "undispatched_proof g pre e phase =
     g\<lparr>ag_effects := pre @ [e\<lparr>ge_state := phase, ge_negative := None, ge_generation := None\<rparr>]\<rparr>"

definition check_native_negative :: "app_group_negative \<Rightarrow> string list \<Rightarrow> string \<Rightarrow> group_error option" where
  "check_native_negative n ids prev =
     first_err (check (\<not> groupID (neg_operation_id n) \<or> neg_operation_id n \<in> set ids \<or>
                       neg_predecessor n \<noteq> prev \<or> \<not> lower_hex64 (neg_request_digest n))
                 NegativeLineageChanged)
    (if neg_kind n = ''never-claimed''
     then check (neg_phase n \<noteq> ''admission'' \<or> neg_reason n \<noteq> ''NEVER_CLAIMED'' \<or>
                 \<not> neg_no_native_actuation n \<or> neg_compose_exit n \<noteq> None) NonClaimProofInvalid
     else if neg_kind n = ''command''
     then if neg_phase n = ''preparation''
          then check (\<not> neg_no_native_actuation n \<or> neg_compose_exit n \<noteq> None) PreparationProofInvalid
          else if neg_phase n = ''child-closed''
          then check (neg_no_native_actuation n \<or> neg_compose_exit n = None \<or>
                      neg_compose_exit n = Some 0) ClosedChildFailureInvalid
          else Some CommandPhaseUnknown
     else Some NegativeKindUnknown)"

definition check_negative ::
  "(app_group_control \<Rightarrow> string) \<Rightarrow> app_group_control \<Rightarrow> app_group_effect list \<Rightarrow> string list \<Rightarrow> string \<Rightarrow>
   app_group_effect \<Rightarrow> app_group_negative \<Rightarrow> app_group_generation \<Rightarrow> group_error option" where
  "check_negative D g pre ids prev e n gen =
     first_err (check (\<not> lower_hex64 (neg_witness_digest n) \<or> \<not> lower_hex64 (neg_previous_custody n) \<or>
                       neg_reason n = []) NegativeProofIncomplete)
    (first_err
       (if neg_kind n = ''undispatched''
        then first_err
               (check ((neg_dispatch_phase n \<noteq> ControlPreparing \<and> neg_dispatch_phase n \<noteq> ControlPrepared) \<or>
                       neg_witness_digest n \<noteq> D (undispatched_proof g pre e (neg_dispatch_phase n)))
                 PreDispatchWitnessDiffers)
               (check (\<not> neg_no_native_actuation n \<or> neg_phase n \<noteq> ''pre-dispatch'' \<or>
                       neg_operation_id n \<noteq> [] \<or> neg_request_digest n \<noteq> [] \<or>
                       neg_predecessor n \<noteq> [] \<or> neg_compose_exit n \<noteq> None) UndispatchedProofInvalid)
        else check_native_negative n ids prev)
    (first_err
       (if neg_no_native_actuation n
        then check (gen \<noteq> Current (g\<lparr>ag_effects := pre\<rparr>)) NoActuationChangedGraph
        else check (\<not> absent gen \<and> \<not> partial gen) FailureNeedsPartialGraph)
       (validateGroupGeneration g gen (absent gen))))"

definition prior_container_ids :: "app_group_control \<Rightarrow> app_group_effect list \<Rightarrow> string list" where
  "prior_container_ids g pre =
     map qc_id (items (containers (ag_original g))) @
     concat (map (\<lambda>e. case ge_generation e of None \<Rightarrow> []
                   | Some gen \<Rightarrow> map qc_id (items (containers gen))) pre)"

definition check_positive ::
  "app_group_control \<Rightarrow> app_group_effect list \<Rightarrow> string list \<Rightarrow> string \<Rightarrow> app_group_effect \<Rightarrow>
   app_group_receipt \<Rightarrow> app_group_generation \<Rightarrow> group_error option" where
  "check_positive g pre ids prev e r gen =
     first_err (check (partial gen) PositivePartialGraph)
    (first_err (check (\<not> groupID (receipt_operation_id r) \<or> receipt_predecessor r \<noteq> prev \<or>
                       receipt_operation_id r \<in> set ids \<or> \<not> lower_hex64 (receipt_request_digest r) \<or>
                       \<not> lower_hex64 (receipt_witness_digest r) \<or> receipt_compose_exit r \<noteq> 0 \<or>
                       \<not> lower_hex64 (receipt_previous_custody r)) ReceiptLineageInvalid)
    (first_err (validateGroupGeneration g gen (\<not> starts (ge_action e)))
               (check (starts (ge_action e) \<and>
                       \<not> list_all (\<lambda>c. qc_was_running c \<and> qc_id c \<notin> set (prior_container_ids g pre))
                           (items (containers gen))) StartNeedsSuccessor)))"

definition check_effect_shape :: "app_group_control \<Rightarrow> app_group_effect list \<Rightarrow> app_group_effect \<Rightarrow> group_error option" where
  "check_effect_shape g pre e =
     first_err (check (\<not> groupActionAllowed (g\<lparr>ag_effects := pre\<rparr>) (ge_action e)) GroupActionOrder)
    (first_err (check (\<not> InitialRunning g) StoppedGroupActuates)
    (first_err (check (ge_state e \<notin> {ControlPreparing, ControlPrepared, ControlDispatched, ControlAdopted,
                         ControlObserved, ControlNegativeAdopted, ControlFailed}) GroupEffectPhaseInvalid)
    (first_err (if ge_state e = ControlPreparing then check (ge_handle e \<noteq> []) PreparingHasHandle
                else check (ge_handle e = [] \<and>
                            \<not> (case ge_negative e of None \<Rightarrow> False | Some n \<Rightarrow> neg_kind n = ''undispatched''))
                       GroupHandleLost)
    (first_err (check (is_positive e \<noteq> (ge_receipt e \<noteq> None) \<or> is_negative e \<noteq> (ge_negative e \<noteq> None) \<or>
                       (is_positive e \<or> is_negative e) \<noteq> (ge_generation e \<noteq> None)) ReceiptDiffersFromPhase)
               (check (pre \<noteq> [] \<and> \<not> groupEffectSettled (last pre)) GroupUnresolved)))))"

definition check_effect_proof ::
  "(app_group_control \<Rightarrow> string) \<Rightarrow> app_group_control \<Rightarrow> app_group_effect list \<Rightarrow> string list \<Rightarrow> string \<Rightarrow>
   app_group_effect \<Rightarrow> group_error option" where
  "check_effect_proof D g pre ids prev e =
     (case ge_generation e of None \<Rightarrow> None
      | Some gen \<Rightarrow>
          (case ge_negative e of
             Some n \<Rightarrow> check_negative D g pre ids prev e n gen
           | None \<Rightarrow> (case ge_receipt e of Some r \<Rightarrow> check_positive g pre ids prev e r gen | None \<Rightarrow> None)))"

text \<open>The native operation an effect adds to the lineage.\<close>

definition native_operation :: "app_group_effect \<Rightarrow> string option" where
  "native_operation e =
     (case ge_negative e of
        Some n \<Rightarrow> (if neg_kind n = ''undispatched'' then None else Some (neg_operation_id n))
      | None \<Rightarrow> map_option receipt_operation_id (ge_receipt e))"

fun check_effects ::
  "(app_group_control \<Rightarrow> string) \<Rightarrow> app_group_control \<Rightarrow> app_group_effect list \<Rightarrow> string list \<Rightarrow> string \<Rightarrow>
   app_group_effect list \<Rightarrow> group_error option" where
  "check_effects D g pre ids prev [] = None"
| "check_effects D g pre ids prev (e # es) =
     first_err (check_effect_shape g pre e)
    (first_err (check_effect_proof D g pre ids prev e)
       (case native_operation e of
          None \<Rightarrow> check_effects D g (pre @ [e]) ids prev es
        | Some op \<Rightarrow> check_effects D g (pre @ [e]) (op # ids) op es))"

definition check_binding :: "app_group_control \<Rightarrow> string list \<Rightarrow> group_error option" where
  "check_binding g seen =
     (let b = ag_binding g in
      first_err (check (\<not> lower_hex64 (custody_digest b) \<or> \<not> digest_pattern (applied_request_digest b))
                  AppliedRequestUnbound)
     (first_err (check (ag_version g \<noteq> 2 \<or> \<not> groupProjectName (logical_project b) \<or>
                        \<not> groupID (manager_id b) \<or> \<not> groupID (group_id b) \<or>
                        \<not> validOperationID (journal_operation_id b) \<or>
                        \<not> groupID (native_journal_operation_id b) \<or>
                        \<not> digest_pattern (policy_source_digest b) \<or>
                        \<not> lower_hex64 (manager_container_id b) \<or> \<not> groupPinnedImage (manager_image b) \<or>
                        owner_ref b = [] \<or> site_ref b = [] \<or> node_ref b = [] \<or> app_id b < 1 \<or>
                        physical_project b \<noteq> logical_project b @ ''__user'' \<or>
                        app_urn b \<noteq> logical_project b @ '':_user'' \<or> physical_project b \<in> set seen)
                  GroupCustodyInvalid)
                (check (\<not> list_all lower_hex64 [source_digest b, qualification_digest b,
                          installation_digest b, binding_digest b, recipe_digest b,
                          effective_input_digest b]) GroupDigestUnbound)))"

definition check_group :: "(app_group_control \<Rightarrow> string) \<Rightarrow> app_group_control \<Rightarrow> group_error option" where
  "check_group D g =
     first_err (validateGroupGeneration g (ag_original g) False)
    (first_err (check (absent (ag_original g) \<or> partial (ag_original g) \<or>
                       items (containers (ag_original g)) = []) GroupNeedsContainers)
    (first_err (check (\<not> list_all (\<lambda>c. qc_was_running c = InitialRunning g)
                           (items (containers (ag_original g)))) GroupMixedPower)
    (first_err (check_effects D g [] [] [] (ag_effects g))
               (check (ag_closed g \<and> \<not> AppGroupRestored g) ClosedBeforeRestoration))))"

fun check_groups ::
  "(app_group_control \<Rightarrow> string) \<Rightarrow> string list \<Rightarrow> app_group_control list \<Rightarrow> group_error option" where
  "check_groups D seen [] = None"
| "check_groups D seen (g # gs) =
     first_err (check_binding g seen)
    (first_err (check_group D g)
               (check_groups D (physical_project (ag_binding g) # seen) gs))"

definition ValidateAppGroups :: "(app_group_control \<Rightarrow> string) \<Rightarrow> app_group_control list \<Rightarrow> group_error option" where
  "ValidateAppGroups D gs = check_groups D [] gs"

section \<open>Transitions of the owning journal\<close>

definition group_rank :: "control_state \<Rightarrow> nat" where
  "group_rank s =
     (case s of ControlPreparing \<Rightarrow> 1 | ControlPrepared \<Rightarrow> 2 | ControlDispatched \<Rightarrow> 3
      | ControlAdopted \<Rightarrow> 4 | ControlObserved \<Rightarrow> 5 | ControlNegativeAdopted \<Rightarrow> 4 | ControlFailed \<Rightarrow> 5
      | _ \<Rightarrow> 0)"

text \<open>A changed effect at the same index.\<close>

definition effect_change_ok :: "app_group_effect \<Rightarrow> app_group_effect \<Rightarrow> bool" where
  "effect_change_ok x y \<longleftrightarrow>
     \<not> (ge_action x \<noteq> ge_action y \<or> (ge_handle x \<noteq> [] \<and> ge_handle x \<noteq> ge_handle y) \<or>
        \<not> (group_rank (ge_state y) = group_rank (ge_state x) + 1 \<or>
           ((ge_state x = ControlPreparing \<or> ge_state x = ControlPrepared) \<and>
            ge_state y = ControlNegativeAdopted)) \<or>
        (ge_state x = ControlAdopted \<and> ge_state y \<noteq> ControlObserved) \<or>
        (ge_state x = ControlNegativeAdopted \<and> ge_state y \<noteq> ControlFailed)) \<and>
     \<not> (ge_state y \<noteq> ControlNegativeAdopted \<and> ge_state x \<noteq> ControlDispatched \<and>
        (ge_receipt x \<noteq> ge_receipt y \<or> ge_generation x \<noteq> ge_generation y \<or>
         ge_negative x \<noteq> ge_negative y))"

text \<open>
  The number of changes between two versions of one group, or \<open>None\<close> where the code returns
  false.
\<close>

definition group_changes :: "app_group_control \<Rightarrow> app_group_control \<Rightarrow> nat option" where
  "group_changes a b =
     (let as = ag_effects a; bs = ag_effects b in
      if ag_version a \<noteq> ag_version b \<or> ag_binding a \<noteq> ag_binding b \<or> ag_original a \<noteq> ag_original b \<or>
         (ag_closed a \<and> \<not> ag_closed b) then None
      else if ag_closed a \<noteq> ag_closed b \<and> (\<not> AppGroupRestored b \<or> length as \<noteq> length bs) then None
      else if length bs \<noteq> length as \<and> length bs \<noteq> length as + 1 then None
      else if \<not> list_all (\<lambda>(x, y). x = y \<or> effect_change_ok x y) (zip as bs) then None
      else if length bs > length as \<and> ge_state (last bs) \<noteq> ControlPreparing then None
      else Some ((if ag_closed a \<noteq> ag_closed b then 1 else 0) +
                 length (filter (\<lambda>(x, y). x \<noteq> y) (zip as bs)) +
                 (if length bs > length as then 1 else 0)))"

fun total_changes :: "(app_group_control \<times> app_group_control) list \<Rightarrow> nat option" where
  "total_changes [] = Some 0"
| "total_changes ((a, b) # ps) =
     (case group_changes a b of None \<Rightarrow> None
      | Some n \<Rightarrow> (case total_changes ps of None \<Rightarrow> None | Some m \<Rightarrow> Some (n + m)))"

definition ValidAppGroupTransition ::
  "(app_group_control \<Rightarrow> string) \<Rightarrow> app_group_control list \<Rightarrow> app_group_control list \<Rightarrow> bool" where
  "ValidAppGroupTransition D before after \<longleftrightarrow>
     ValidateAppGroups D after = None \<and> length before = length after \<and>
     total_changes (zip before after) = Some 1"

section \<open>Driving a group\<close>

datatype group_event =
    GPersist app_group_control | GPrepare control_action | GDispatch string control_action
  | GComplete string "control_action option" | GReadback string "control_action option"
  | GRecover app_group_effect | GReadbackNegative string "control_action option"
  | GAdopt app_group_control

text \<open>
  The owning journal and the native driver, whose answers are arbitrary functions of the events
  so far; \<open>genv_negative\<close> says whether the driver implements \<open>AppGroupNegativeDriver\<close>.
\<close>

record group_env =
  genv_bound :: bool
  genv_persist :: "group_event list \<Rightarrow> app_group_control \<Rightarrow> group_error option"
  genv_prepare :: "group_event list \<Rightarrow> control_action \<Rightarrow> group_error + string"
  genv_dispatch :: "group_event list \<Rightarrow> string \<Rightarrow> control_action \<Rightarrow> group_error option"
  genv_complete :: "group_event list \<Rightarrow> string \<Rightarrow> control_action option \<Rightarrow> group_error + bool"
  genv_readback :: "group_event list \<Rightarrow> app_group_control \<Rightarrow> string \<Rightarrow> control_action option \<Rightarrow>
    group_error + app_group_receipt \<times> app_group_generation"
  genv_negative :: bool
  genv_recover :: "group_event list \<Rightarrow> app_group_control \<Rightarrow> app_group_effect \<Rightarrow>
    group_error + app_group_negative \<times> app_group_generation"
  genv_readback_negative :: "group_event list \<Rightarrow> app_group_control \<Rightarrow> string \<Rightarrow> control_action option \<Rightarrow>
    group_error + app_group_negative \<times> app_group_generation"
  genv_adopt :: "group_event list \<Rightarrow> app_group_control \<Rightarrow> group_error option"

type_synonym group_run = "group_event list \<times> app_group_control \<times> group_error option"

definition group_joined :: "group_error \<Rightarrow> group_error" where
  "group_joined e = GroupJoined GroupUnresolved e"

definition group_undecided :: "app_group_effect \<Rightarrow> bool" where
  "group_undecided e \<longleftrightarrow> ge_state e \<in> {ControlPreparing, ControlPrepared, ControlDispatched}"

text \<open>How an undecided effect ended: a positive receipt or a negative witness, and the graph.\<close>

definition resolve_undispatched ::
  "group_env \<Rightarrow> group_event list \<Rightarrow> app_group_control \<Rightarrow> app_group_effect \<Rightarrow>
   group_event list \<times> (group_error + app_group_effect)" where
  "resolve_undispatched E tr g e =
     (if \<not> genv_negative E then (tr, Inl GroupUnresolved)
      else (tr @ [GRecover e],
        case genv_recover E tr g e of
          Inl x \<Rightarrow> Inl (group_joined x)
        | Inr (n, gen) \<Rightarrow> Inr (e\<lparr>ge_receipt := None, ge_negative := Some n,
              ge_generation := Some gen, ge_state := ControlNegativeAdopted\<rparr>)))"

definition resolve_negative ::
  "group_env \<Rightarrow> group_event list \<Rightarrow> app_group_control \<Rightarrow> app_group_effect \<Rightarrow> (group_error \<Rightarrow> group_error) \<Rightarrow>
   group_error \<Rightarrow> group_event list \<times> (group_error + app_group_effect)" where
  "resolve_negative E tr g e w none =
     (if \<not> genv_negative E then (tr, Inl none)
      else (tr @ [GReadbackNegative (ge_handle e) (ge_action e)],
        case genv_readback_negative E tr g (ge_handle e) (ge_action e) of
          Inl x \<Rightarrow> Inl (w x)
        | Inr (n, gen) \<Rightarrow> Inr (e\<lparr>ge_receipt := None, ge_negative := Some n,
              ge_generation := Some gen, ge_state := ControlNegativeAdopted\<rparr>)))"

definition resolve_effect ::
  "group_env \<Rightarrow> group_event list \<Rightarrow> app_group_control \<Rightarrow> app_group_effect \<Rightarrow>
   group_event list \<times> (group_error + app_group_effect)" where
  "resolve_effect E tr g e =
     (if ge_state e = ControlPreparing \<or> ge_state e = ControlPrepared
      then resolve_undispatched E tr g e
      else let tr1 = tr @ [GComplete (ge_handle e) (ge_action e)] in
        case genv_complete E tr (ge_handle e) (ge_action e) of
          Inr True \<Rightarrow> (tr1 @ [GReadback (ge_handle e) (ge_action e)],
            (case genv_readback E tr1 g (ge_handle e) (ge_action e) of
               Inl x \<Rightarrow> Inl x
             | Inr (r, gen) \<Rightarrow> Inr (e\<lparr>ge_receipt := Some r, ge_negative := None,
                 ge_generation := Some gen, ge_state := ControlAdopted\<rparr>)))
        | Inr False \<Rightarrow> resolve_negative E tr1 g e group_joined GroupUnresolved
        | Inl x \<Rightarrow> resolve_negative E tr1 g e (\<lambda>y. group_joined (GroupJoined x y)) (group_joined x))"

text \<open>Adoption of the decided graph by the node custody, then the final state.\<close>

definition adopt_effect ::
  "group_env \<Rightarrow> control_state \<Rightarrow> group_event list \<Rightarrow> app_group_control \<Rightarrow> app_group_effect list \<Rightarrow>
   app_group_effect \<Rightarrow> app_group_effect list \<Rightarrow>
   group_event list \<times> app_group_effect \<times> group_error option" where
  "adopt_effect E final tr g pre e post =
     (case genv_adopt E tr (g\<lparr>ag_effects := pre @ e # post\<rparr>) of
        Some x \<Rightarrow> (tr @ [GAdopt (g\<lparr>ag_effects := pre @ e # post\<rparr>)], e, Some x)
      | None \<Rightarrow>
         (let tr1 = tr @ [GAdopt (g\<lparr>ag_effects := pre @ e # post\<rparr>)]; e1 = e\<lparr>ge_state := final\<rparr>;
              g1 = g\<lparr>ag_effects := pre @ e1 # post\<rparr> in
          (tr1 @ [GPersist g1], e1, genv_persist E tr1 g1)))"

definition settle_one ::
  "group_env \<Rightarrow> (app_group_control \<Rightarrow> string) \<Rightarrow> group_event list \<Rightarrow> app_group_control \<Rightarrow>
   app_group_effect list \<Rightarrow> app_group_effect \<Rightarrow> app_group_effect list \<Rightarrow>
   group_event list \<times> app_group_effect \<times> group_error option" where
  "settle_one E D tr g pre e0 post =
     (case (if group_undecided e0
            then (case resolve_effect E tr (g\<lparr>ag_effects := pre @ e0 # post\<rparr>) e0 of
                    (tr1, Inl x) \<Rightarrow> (tr1, e0, Some x)
                  | (tr1, Inr e) \<Rightarrow>
                     (let g1 = g\<lparr>ag_effects := pre @ e # post\<rparr> in
                      case ValidateAppGroups D [g1] of
                        Some x \<Rightarrow> (tr1, e, Some x)
                      | None \<Rightarrow> (tr1 @ [GPersist g1], e, genv_persist E tr1 g1)))
            else (tr, e0, None)) of
        (tr1, e, Some x) \<Rightarrow> (tr1, e, Some x)
      | (tr1, e, None) \<Rightarrow>
          if ge_state e = ControlNegativeAdopted then adopt_effect E ControlFailed tr1 g pre e post
          else if ge_state e = ControlAdopted then adopt_effect E ControlObserved tr1 g pre e post
          else (tr1, e, None))"

fun settle_group ::
  "group_env \<Rightarrow> (app_group_control \<Rightarrow> string) \<Rightarrow> group_event list \<Rightarrow> app_group_control \<Rightarrow>
   app_group_effect list \<Rightarrow> app_group_effect list \<Rightarrow> group_run" where
  "settle_group E D tr g pre [] = (tr, g\<lparr>ag_effects := pre\<rparr>, None)"
| "settle_group E D tr g pre (e # es) =
     (case settle_one E D tr g pre e es of
        (tr1, e1, Some x) \<Rightarrow> (tr1, g\<lparr>ag_effects := pre @ e1 # es\<rparr>, Some x)
      | (tr1, e1, None) \<Rightarrow> settle_group E D tr1 g (pre @ [e1]) es)"

definition SettleAppGroup ::
  "group_env \<Rightarrow> (app_group_control \<Rightarrow> string) \<Rightarrow> group_event list \<Rightarrow> app_group_control \<Rightarrow> group_run" where
  "SettleAppGroup E D tr g =
     (if \<not> genv_bound E then (tr, g, Some GroupBindingsMissing)
      else case ValidateAppGroups D [g] of
        Some x \<Rightarrow> (tr, g, Some x)
      | None \<Rightarrow> settle_group E D tr g [] (ag_effects g))"

text \<open>A new effect: its intent, its handle, the durable dispatch, and the settlement.\<close>

definition dispatch_group ::
  "group_env \<Rightarrow> (app_group_control \<Rightarrow> string) \<Rightarrow> control_action \<Rightarrow> group_event list \<Rightarrow>
   app_group_control \<Rightarrow> group_run" where
  "dispatch_group E D a tr g0 =
     (let eff = (\<lambda>s h. \<lparr>ge_action = Some a, ge_state = s, ge_handle = h, ge_receipt = None,
                     ge_negative = None, ge_generation = None\<rparr>);
          put = (\<lambda>s h. g0\<lparr>ag_effects := ag_effects g0 @ [eff s h]\<rparr>);
          g1 = put ControlPreparing []; tr1 = tr @ [GPersist g1] in
      case genv_persist E tr g1 of
        Some x \<Rightarrow> (tr1, g1, Some x)
      | None \<Rightarrow>
       (let tr2 = tr1 @ [GPrepare a] in
        case genv_prepare E tr1 a of
          Inl x \<Rightarrow> (tr2, g1, Some (group_joined x))
        | Inr h \<Rightarrow>
            if h = [] then (tr2, g1, Some GroupUnresolved)
            else
              let g2 = put ControlPrepared h; tr3 = tr2 @ [GPersist g2] in
              case genv_persist E tr2 g2 of
                Some x \<Rightarrow> (tr3, g2, Some x)
              | None \<Rightarrow>
               (let g3 = put ControlDispatched h; tr4 = tr3 @ [GPersist g3] in
                case genv_persist E tr3 g3 of
                  Some x \<Rightarrow> (tr4, g3, Some x)
                | None \<Rightarrow>
                 (let tr5 = tr4 @ [GDispatch h a] in
                  case genv_dispatch E tr4 h a of
                    Some x \<Rightarrow> (tr5, g3, Some (group_joined x))
                  | None \<Rightarrow>
                     (case SettleAppGroup E D tr5 g3 of
                        (tr6, g4, r) \<Rightarrow>
                          (tr6, g4, if r = None \<and> ag_effects g4 \<noteq> [] \<and>
                             ge_state (last (ag_effects g4)) = ControlFailed
                             then Some GroupFailed else r))))))"

definition AdvanceAppGroup ::
  "group_env \<Rightarrow> (app_group_control \<Rightarrow> string) \<Rightarrow> app_group_control \<Rightarrow> control_action option \<Rightarrow> group_run" where
  "AdvanceAppGroup E D g0 action =
     (if \<not> genv_bound E then ([], g0, Some GroupBindingsMissing)
      else case action of
        None \<Rightarrow> ([], g0, Some GroupBindingsMissing)
      | Some a \<Rightarrow>
       (case ValidateAppGroups D [g0] of
          Some x \<Rightarrow> ([], g0, Some x)
        | None \<Rightarrow>
           if ag_closed g0 then ([], g0, Some GroupAlreadyClosed)
           else if \<not> InitialRunning g0 then ([], g0, Some StoppedGroupReadOnly)
           else (case SettleAppGroup E D [] g0 of
                   (tr, g, Some x) \<Rightarrow> (tr, g, Some x)
                 | (tr, g, None) \<Rightarrow>
                    (let es = ag_effects g;
                         same = es \<noteq> [] \<and> ge_action (last es) = Some a in
                     if same \<and> ge_state (last es) = ControlObserved then (tr, g, None)
                     else if same \<and> ge_state (last es) = ControlFailed \<and> a \<noteq> RollbackStop
                     then (tr, g, Some GroupFailed)
                     else if same \<and> ge_state (last es) \<noteq> ControlFailed
                     then (tr, g, Some GroupUnresolved)
                     else if \<not> groupActionAllowed g (Some a)
                     then (tr, g, Some PredecessorActionChanged)
                     else dispatch_group E D a tr g))))"

section \<open>What validation depends on\<close>

lemma group_frame [simp]:
  "InitialRunning (g\<lparr>ag_effects := es\<rparr>) = InitialRunning g"
  "anchor_of (g\<lparr>ag_effects := es\<rparr>) = anchor_of g"
  "anchor_len (g\<lparr>ag_effects := es\<rparr>) = anchor_len g"
  "prior_container_ids (g\<lparr>ag_effects := es\<rparr>) = prior_container_ids g"
  "undispatched_proof (g\<lparr>ag_effects := es\<rparr>) = undispatched_proof g"
  by (simp_all add: InitialRunning_def anchor_of_def anchor_len_def prior_container_ids_def
      undispatched_proof_def fun_eq_iff)

lemma check_container_frame [simp]:
  "check_container (g\<lparr>ag_effects := es\<rparr>) = check_container g"
  by (simp add: check_container_def fun_eq_iff)

lemma check_containers_frame [simp]:
  "check_containers (g\<lparr>ag_effects := es\<rparr>) cur seen ids cs = check_containers g cur seen ids cs"
  by (induction cs arbitrary: seen ids) simp_all

lemma validateGroupGeneration_frame [simp]:
  "validateGroupGeneration (g\<lparr>ag_effects := es\<rparr>) = validateGroupGeneration g"
  by (simp add: validateGroupGeneration_def fun_eq_iff Let_def)

lemma check_proof_frame [simp]:
  "check_negative D (g\<lparr>ag_effects := es\<rparr>) = check_negative D g"
  "check_positive (g\<lparr>ag_effects := es\<rparr>) = check_positive g"
  by (simp_all add: check_negative_def check_positive_def fun_eq_iff)

lemma check_effect_frame [simp]:
  "check_effect_shape (g\<lparr>ag_effects := es\<rparr>) = check_effect_shape g"
  "check_effect_proof D (g\<lparr>ag_effects := es\<rparr>) = check_effect_proof D g"
  by (simp_all add: check_effect_shape_def check_effect_proof_def fun_eq_iff split: option.split)

lemma check_effects_frame [simp]:
  "check_effects D (g\<lparr>ag_effects := zs\<rparr>) pre ids prev es = check_effects D g pre ids prev es"
  by (induction es arbitrary: pre ids prev) (simp_all split: option.split)

lemma check_binding_frame [simp]:
  "check_binding (g\<lparr>ag_effects := es\<rparr>) seen = check_binding g seen"
  by (simp add: check_binding_def)

text \<open>The lineage of native operations behind a list of effects.\<close>

fun lineage_from :: "string list \<Rightarrow> string \<Rightarrow> app_group_effect list \<Rightarrow> string list \<times> string" where
  "lineage_from ids prev [] = (ids, prev)"
| "lineage_from ids prev (e # es) =
     (case native_operation e of None \<Rightarrow> lineage_from ids prev es
      | Some op \<Rightarrow> lineage_from (op # ids) op es)"

lemma check_effects_append:
  "check_effects D g pre ids prev (xs @ ys) = None \<longleftrightarrow>
     check_effects D g pre ids prev xs = None \<and>
     check_effects D g (pre @ xs) (fst (lineage_from ids prev xs)) (snd (lineage_from ids prev xs)) ys = None"
  by (induction xs arbitrary: pre ids prev) (auto split: option.split)

definition effect_ok :: "(app_group_control \<Rightarrow> string) \<Rightarrow> app_group_control \<Rightarrow> app_group_effect list \<Rightarrow> app_group_effect \<Rightarrow> bool" where
  "effect_ok D g pre e \<longleftrightarrow> check_effect_shape g pre e = None \<and>
     check_effect_proof D g pre (fst (lineage_from [] [] pre)) (snd (lineage_from [] [] pre)) e = None"

definition group_base_ok :: "(app_group_control \<Rightarrow> string) \<Rightarrow> app_group_control \<Rightarrow> bool" where
  "group_base_ok D g \<longleftrightarrow> check_binding g [] = None \<and>
     validateGroupGeneration g (ag_original g) False = None \<and>
     \<not> absent (ag_original g) \<and> \<not> partial (ag_original g) \<and> items (containers (ag_original g)) \<noteq> [] \<and>
     list_all (\<lambda>c. qc_was_running c = InitialRunning g) (items (containers (ag_original g)))"

definition group_valid :: "(app_group_control \<Rightarrow> string) \<Rightarrow> app_group_control \<Rightarrow> bool" where
  "group_valid D g \<longleftrightarrow> ValidateAppGroups D [g] = None"

lemma group_base_ok_frame [simp]:
  "group_base_ok D (g\<lparr>ag_effects := es\<rparr>) = group_base_ok D g"
  by (simp add: group_base_ok_def)

lemma effect_ok_frame [simp]:
  "effect_ok D (g\<lparr>ag_effects := es\<rparr>) = effect_ok D g"
  by (simp add: effect_ok_def fun_eq_iff)

lemma group_valid_iff:
  "group_valid D g \<longleftrightarrow> group_base_ok D g \<and> check_effects D g [] [] [] (ag_effects g) = None \<and>
     (ag_closed g \<longrightarrow> AppGroupRestored g)"
  by (auto simp: group_valid_def ValidateAppGroups_def check_group_def group_base_ok_def)

lemma group_valid_snoc:
  "group_valid D (g\<lparr>ag_effects := pre @ [e]\<rparr>) \<longleftrightarrow>
     group_base_ok D g \<and> check_effects D g [] [] [] pre = None \<and> effect_ok D g pre e \<and>
     (ag_closed g \<longrightarrow> AppGroupRestored (g\<lparr>ag_effects := pre @ [e]\<rparr>))"
  by (auto simp: group_valid_iff check_effects_append effect_ok_def split: option.split)

text \<open>In a valid group every effect but the last is settled.\<close>

lemma check_effects_settled:
  assumes "check_effects D g pre ids prev es = None"
  shows "(pre \<noteq> [] \<and> es \<noteq> [] \<longrightarrow> groupEffectSettled (last pre)) \<and>
    (\<forall>e \<in> set (butlast es). groupEffectSettled e)"
  using assms
proof (induction es arbitrary: pre ids prev)
  case (Cons e es)
  from Cons.prems have sh: "check_effect_shape g pre e = None"
    and rest: "\<exists>ids prev. check_effects D g (pre @ [e]) ids prev es = None"
    by (auto split: option.splits)
  from sh have "pre \<noteq> [] \<longrightarrow> groupEffectSettled (last pre)"
    by (auto simp: check_effect_shape_def)
  moreover from rest Cons.IH have "(es \<noteq> [] \<longrightarrow> groupEffectSettled e) \<and> (\<forall>e \<in> set (butlast es). groupEffectSettled e)"
    by fastforce
  ultimately show ?case
    by auto
qed simp

lemma group_valid_settled:
  assumes "group_valid D (g\<lparr>ag_effects := pre @ e # post\<rparr>)"
  shows "x \<in> set pre \<Longrightarrow> groupEffectSettled x" and "\<not> groupEffectSettled e \<Longrightarrow> post = []"
proof -
  have "\<forall>x \<in> set (butlast (pre @ e # post)). groupEffectSettled x"
    using assms check_effects_settled [of D g "[]" "[]" "[]" "pre @ e # post"]
    by (simp add: group_valid_iff)
  then show "x \<in> set pre \<Longrightarrow> groupEffectSettled x" "\<not> groupEffectSettled e \<Longrightarrow> post = []"
    by (auto simp: butlast_append)
qed

section \<open>Every write is an admitted transition\<close>

fun gpersisted :: "group_event list \<Rightarrow> app_group_control list" where
  "gpersisted [] = []"
| "gpersisted (GPersist g # evs) = g # gpersisted evs"
| "gpersisted (_ # evs) = gpersisted evs"

lemma gpersisted_append [simp]: "gpersisted (xs @ ys) = gpersisted xs @ gpersisted ys"
  by (induction xs rule: gpersisted.induct) auto

fun is_gdispatch :: "group_event \<Rightarrow> bool" where
  "is_gdispatch (GDispatch h a) = True"
| "is_gdispatch _ = False"

text \<open>
  One write: an admitted transition that never closes the group and whose new effect, if it has
  one, is on an action of \<open>A\<close>.
\<close>

definition journal_step ::
  "(app_group_control \<Rightarrow> string) \<Rightarrow> (control_action option \<Rightarrow> bool) \<Rightarrow> app_group_control \<Rightarrow>
   app_group_control \<Rightarrow> bool" where
  "journal_step D A g h \<longleftrightarrow> ValidAppGroupTransition D [g] [h] \<and> ag_closed h = ag_closed g \<and>
     (length (ag_effects h) > length (ag_effects g) \<longrightarrow> A (ge_action (last (ag_effects h))))"

abbreviation group_chain ::
  "(app_group_control \<Rightarrow> string) \<Rightarrow> (control_action option \<Rightarrow> bool) \<Rightarrow> app_group_control \<Rightarrow>
   app_group_control list \<Rightarrow> bool" where
  "group_chain D A \<equiv> chain (journal_step D A)"

abbreviation no_new :: "control_action option \<Rightarrow> bool" where
  "no_new \<equiv> \<lambda>_. False"

abbreviation group_end :: "app_group_control \<Rightarrow> app_group_control list \<Rightarrow> app_group_control" where
  "group_end \<equiv> chain_end"

lemma group_chain_mono: "group_chain D A g hs \<Longrightarrow> (\<And>a. A a \<Longrightarrow> B a) \<Longrightarrow> group_chain D B g hs"
  by (erule chain_mono) (auto simp: journal_step_def)

lemma transition_valid: "ValidAppGroupTransition D [g] [h] \<Longrightarrow> group_valid D h"
  by (simp add: ValidAppGroupTransition_def group_valid_def)

interpretation group_writes: guarded_steps "group_valid D" "journal_step D A" for D A
  by unfold_locales (auto simp: journal_step_def dest: transition_valid)

lemmas group_chain_valid = group_writes.chain_valid

lemma zip_same_filter [simp]: "filter (\<lambda>(x, y). x \<noteq> y) (zip xs xs) = []"
  by (induction xs) auto

lemma zip_same_all [simp]: "list_all (\<lambda>(x, y). x = y \<or> P x y) (zip xs xs)"
  by (induction xs) auto

lemma transition_single:
  "ValidAppGroupTransition D [a] [b] \<longleftrightarrow> group_valid D b \<and> group_changes a b = Some 1"
  by (auto simp: ValidAppGroupTransition_def group_valid_def split: option.split)

lemma group_changes_last:
  assumes "e \<noteq> e1" and "effect_change_ok e e1"
  shows "group_changes (g\<lparr>ag_effects := pre @ [e]\<rparr>) (g\<lparr>ag_effects := pre @ [e1]\<rparr>) = Some 1"
  using assms by (simp add: group_changes_def)

lemma group_changes_append:
  assumes "ge_state e = ControlPreparing"
  shows "group_changes g (g\<lparr>ag_effects := ag_effects g @ [e]\<rparr>) = Some 1"
proof -
  have "zip xs (xs @ ys) = zip xs xs" for xs ys :: "app_group_effect list"
    by (induction xs) auto
  with assms show ?thesis
    by (simp add: group_changes_def)
qed

lemma unsettled_not_closed:
  assumes "group_valid D (g\<lparr>ag_effects := pre @ [e]\<rparr>)" and "\<not> groupEffectSettled e"
  shows "\<not> ag_closed g"
  using assms
  by (auto simp: group_valid_iff AppGroupRestored_def no_actuation_failure_def groupEffectSettled_def
      split: if_splits)

lemma effect_final_shape:
  assumes "check_effect_shape g pre e = None"
    and "(ge_state e = ControlAdopted \<and> s = ControlObserved) \<or>
         (ge_state e = ControlNegativeAdopted \<and> s = ControlFailed)"
  shows "check_effect_shape g pre (e\<lparr>ge_state := s\<rparr>) = None"
proof -
  have "is_positive (e\<lparr>ge_state := s\<rparr>) = is_positive e" "is_negative (e\<lparr>ge_state := s\<rparr>) = is_negative e"
    using assms(2) by (auto simp: is_positive_def is_negative_def)
  moreover have "s \<in> {ControlObserved, ControlFailed}" "ge_state e \<noteq> ControlPreparing"
    using assms(2) by auto
  ultimately show ?thesis
    using assms(1) by (simp add: check_effect_shape_def) blast
qed

lemma effect_final_proof:
  "check_effect_proof D g pre ids prev (e\<lparr>ge_state := s\<rparr>) = check_effect_proof D g pre ids prev e"
proof -
  have "undispatched_proof g pre (e\<lparr>ge_state := s\<rparr>) p = undispatched_proof g pre e p" for p
    by (simp add: undispatched_proof_def)
  then have "check_negative D g pre ids prev (e\<lparr>ge_state := s\<rparr>) n gen = check_negative D g pre ids prev e n gen"
    and "check_positive g pre ids prev (e\<lparr>ge_state := s\<rparr>) r gen = check_positive g pre ids prev e r gen" for n r gen
    by (simp_all only: check_negative_def check_positive_def) simp_all
  then show ?thesis
    by (simp add: check_effect_proof_def cong: option.case_cong)
qed

lemma effect_final_ok:
  assumes "effect_ok D g pre e"
    and "(ge_state e = ControlAdopted \<and> s = ControlObserved) \<or>
         (ge_state e = ControlNegativeAdopted \<and> s = ControlFailed)"
  shows "effect_ok D g pre (e\<lparr>ge_state := s\<rparr>)"
  using assms effect_final_shape unfolding effect_ok_def by (simp add: effect_final_proof)

lemma resolve_effect_change:
  assumes "resolve_effect E tr g e = (tr1, Inr e1)" and "group_undecided e"
  shows "e \<noteq> e1" and "effect_change_ok e e1" and "ge_state e1 = ControlAdopted \<or> ge_state e1 = ControlNegativeAdopted"
proof -
  have st: "ge_state e1 = ControlAdopted \<and> ge_state e = ControlDispatched \<or> ge_state e1 = ControlNegativeAdopted"
    "ge_action e1 = ge_action e" "ge_handle e1 = ge_handle e"
    using assms
    by (auto simp: resolve_effect_def resolve_undispatched_def resolve_negative_def group_undecided_def Let_def
        split: if_splits sum.splits bool.splits prod.splits)
  with assms(2) show "e \<noteq> e1"
    by (auto simp: group_undecided_def)
  from st assms(2) show "effect_change_ok e e1"
    by (auto simp: effect_change_ok_def group_undecided_def group_rank_def)
  from st show "ge_state e1 = ControlAdopted \<or> ge_state e1 = ControlNegativeAdopted" by blast
qed

lemma resolve_effect_events:
  assumes "resolve_effect E tr g e = (tr1, r)"
  shows "\<exists>new. tr1 = tr @ new \<and> gpersisted new = [] \<and> \<not> list_ex is_gdispatch new"
  using assms
  by (auto simp: resolve_effect_def resolve_undispatched_def resolve_negative_def Let_def
      split: if_splits sum.splits bool.splits prod.splits)

text \<open>A piece of a run that settles: no dispatch, and a chain of admitted writes.\<close>

definition settle_ok ::
  "(app_group_control \<Rightarrow> string) \<Rightarrow> group_event list \<Rightarrow> app_group_control \<Rightarrow> group_event list \<Rightarrow>
   app_group_control \<Rightarrow> group_error option \<Rightarrow> bool" where
  "settle_ok D tr g tr1 h r \<longleftrightarrow>
     (\<exists>new. tr1 = tr @ new \<and> \<not> list_ex is_gdispatch new \<and> group_chain D no_new g (gpersisted new) \<and>
            (r = None \<longrightarrow> h = group_end g (gpersisted new)))"

lemma settle_okI:
  "tr1 = tr @ new \<Longrightarrow> \<not> list_ex is_gdispatch new \<Longrightarrow> group_chain D no_new g (gpersisted new) \<Longrightarrow>
   (r = None \<Longrightarrow> h = group_end g (gpersisted new)) \<Longrightarrow> settle_ok D tr g tr1 h r"
  by (auto simp: settle_ok_def)

lemma settle_ok_new:
  assumes "settle_ok D tr g tr1 h r"
  shows "\<exists>new. tr1 = tr @ new \<and> \<not> list_ex is_gdispatch new \<and> group_chain D A g (gpersisted new) \<and>
    (r = None \<longrightarrow> h = group_end g (gpersisted new))"
  using assms unfolding settle_ok_def by (blast intro: group_chain_mono)

lemma settle_ok_trans:
  "settle_ok D tr g tr1 h None \<Longrightarrow> settle_ok D tr1 h tr2 k r \<Longrightarrow> settle_ok D tr g tr2 k r"
  by (auto simp: settle_ok_def)

lemma settle_ok_valid:
  "settle_ok D tr g tr1 h None \<Longrightarrow> group_valid D g \<Longrightarrow> group_valid D h"
  unfolding settle_ok_def using group_writes.chain_end_valid by blast

lemma adopt_effect_ok:
  assumes "adopt_effect E s tr g pre e [] = (tr1, e1, r)" and "group_valid D (g\<lparr>ag_effects := pre @ [e]\<rparr>)"
    and "(ge_state e = ControlAdopted \<and> s = ControlObserved) \<or>
         (ge_state e = ControlNegativeAdopted \<and> s = ControlFailed)"
  shows "settle_ok D tr (g\<lparr>ag_effects := pre @ [e]\<rparr>) tr1 (g\<lparr>ag_effects := pre @ [e1]\<rparr>) r"
proof -
  let ?e = "e\<lparr>ge_state := s\<rparr>"
  have "\<not> ag_closed g"
    using unsettled_not_closed [OF assms(2)] assms(3) by (auto simp: groupEffectSettled_def)
  then have "group_valid D (g\<lparr>ag_effects := pre @ [?e]\<rparr>)"
    using assms(2,3) effect_final_ok by (simp add: group_valid_snoc)
  moreover have "e \<noteq> ?e" "effect_change_ok e ?e"
    using assms(3) by (cases e; auto simp: effect_change_ok_def group_rank_def)+
  ultimately have tr: "journal_step D no_new (g\<lparr>ag_effects := pre @ [e]\<rparr>) (g\<lparr>ag_effects := pre @ [?e]\<rparr>)"
    by (simp add: journal_step_def transition_single group_changes_last)
  show ?thesis
  proof (cases "genv_adopt E tr (g\<lparr>ag_effects := pre @ [e]\<rparr>)")
    case (Some x)
    with assms(1) show ?thesis
      by (auto simp: adopt_effect_def intro!: settle_okI)
  next
    case None
    with assms(1) tr show ?thesis
      by (auto simp: adopt_effect_def Let_def intro!: settle_okI)
  qed
qed

lemma settle_one_ok:
  assumes "settle_one E D tr g pre e post = (tr1, e1, r)"
    and "group_valid D (g\<lparr>ag_effects := pre @ e # post\<rparr>)"
  shows "settle_ok D tr (g\<lparr>ag_effects := pre @ e # post\<rparr>) tr1 (g\<lparr>ag_effects := pre @ e1 # post\<rparr>) r"
proof (cases "groupEffectSettled e")
  case True
  then have "ge_state e \<notin> {ControlPreparing, ControlPrepared, ControlDispatched, ControlAdopted, ControlNegativeAdopted}"
    by (auto simp: groupEffectSettled_def)
  with assms(1) show ?thesis
    by (auto simp: settle_one_def group_undecided_def intro!: settle_okI)
next
  case False
  then have [simp]: "post = []"
    using group_valid_settled(2) [OF assms(2)] by simp
  show ?thesis
  proof (cases "group_undecided e")
    case und: True
    obtain tr2 res where res: "resolve_effect E tr (g\<lparr>ag_effects := pre @ [e]\<rparr>) e = (tr2, res)"
      by fastforce
    obtain new where new: "tr2 = tr @ new" "gpersisted new = []" "\<not> list_ex is_gdispatch new"
      using resolve_effect_events [OF res] by blast
    show ?thesis
    proof (cases res)
      case (Inl x)
      with assms(1) und res new show ?thesis
        by (auto simp: settle_one_def intro!: settle_okI)
    next
      case (Inr e2)
      note ch = resolve_effect_change [OF res [unfolded Inr] und]
      let ?g2 = "g\<lparr>ag_effects := pre @ [e2]\<rparr>"
      show ?thesis
      proof (cases "ValidateAppGroups D [?g2]")
        case (Some x)
        with assms(1) und res new Inr show ?thesis
          by (auto simp: settle_one_def Let_def intro!: settle_okI)
      next
        case None
        then have v2: "group_valid D ?g2" by (simp add: group_valid_def)
        with ch have "journal_step D no_new (g\<lparr>ag_effects := pre @ [e]\<rparr>) ?g2"
          by (simp add: journal_step_def transition_single group_changes_last)
        then have 1: "settle_ok D tr (g\<lparr>ag_effects := pre @ [e]\<rparr>) (tr2 @ [GPersist ?g2]) ?g2 q" for q
          using new by (auto intro!: settle_okI [where new = "new @ [GPersist ?g2]"])
        show ?thesis
        proof (cases "genv_persist E tr2 ?g2")
          case (Some x)
          with assms(1) und res Inr None 1 [of "Some x"] show ?thesis
            by (auto simp: settle_one_def Let_def settle_ok_def)
        next
          case p: None
          from ch(3) consider "ge_state e2 = ControlAdopted" | "ge_state e2 = ControlNegativeAdopted" by blast
          then obtain s where s: "(ge_state e2 = ControlAdopted \<and> s = ControlObserved) \<or>
              (ge_state e2 = ControlNegativeAdopted \<and> s = ControlFailed)"
            and ad: "adopt_effect E s (tr2 @ [GPersist ?g2]) g pre e2 [] = (tr1, e1, r)"
            using assms(1) und res Inr None p by cases (auto simp: settle_one_def Let_def)
          show ?thesis
            using settle_ok_trans [OF 1 adopt_effect_ok [OF ad v2 s]] by simp
        qed
      qed
    qed
  next
    case und: False
    show ?thesis
    proof (cases "ge_state e = ControlNegativeAdopted \<or> ge_state e = ControlAdopted")
      case True
      then obtain s where s: "(ge_state e = ControlAdopted \<and> s = ControlObserved) \<or>
              (ge_state e = ControlNegativeAdopted \<and> s = ControlFailed)"
        and ad: "adopt_effect E s tr g pre e [] = (tr1, e1, r)"
        using assms(1) und by (auto simp: settle_one_def)
      with assms(2) show ?thesis
        using adopt_effect_ok [OF ad _ s] by simp
    next
      case False
      with assms(1) und show ?thesis
        by (auto simp: settle_one_def intro!: settle_okI)
    qed
  qed
qed

lemma settle_group_ok:
  assumes "settle_group E D tr g pre es = (tr1, h, r)"
    and "group_valid D (g\<lparr>ag_effects := pre @ es\<rparr>)"
  shows "settle_ok D tr (g\<lparr>ag_effects := pre @ es\<rparr>) tr1 h r"
  using assms
proof (induction es arbitrary: tr pre)
  case Nil
  then show ?case by (auto intro!: settle_okI)
next
  case (Cons e es)
  obtain tr2 e1 q where one: "settle_one E D tr g pre e es = (tr2, e1, q)"
    by (metis prod_cases3)
  note ok = settle_one_ok [OF one Cons.prems(2)]
  show ?case
  proof (cases q)
    case (Some x)
    with Cons.prems(1) one ok show ?thesis by auto
  next
    case None
    with Cons.prems(1) one have "settle_group E D tr2 g (pre @ [e1]) es = (tr1, h, r)" by simp
    from Cons.IH [OF this] settle_ok_valid [OF ok [unfolded None] Cons.prems(2)] ok None
    show ?thesis by (auto intro: settle_ok_trans)
  qed
qed

lemma SettleAppGroup_ok:
  assumes "SettleAppGroup E D tr g = (tr1, h, r)" and "group_valid D g"
  shows "settle_ok D tr g tr1 h r"
  using assms settle_group_ok [of E D tr g "[]" "ag_effects g" tr1 h r]
  by (auto simp: SettleAppGroup_def group_valid_def split: if_splits intro!: settle_okI)

text \<open>A new effect: its three durable states before the dispatch are admitted one by one.\<close>

definition fresh_effect :: "control_action \<Rightarrow> control_state \<Rightarrow> string \<Rightarrow> app_group_effect" where
  "fresh_effect a s h = \<lparr>ge_action = Some a, ge_state = s, ge_handle = h, ge_receipt = None,
     ge_negative = None, ge_generation = None\<rparr>"

definition put_fresh :: "app_group_control \<Rightarrow> control_action \<Rightarrow> control_state \<Rightarrow> string \<Rightarrow> app_group_control" where
  "put_fresh g a s h = g\<lparr>ag_effects := ag_effects g @ [fresh_effect a s h]\<rparr>"

lemma action_allowed_settled:
  "groupActionAllowed g a \<Longrightarrow> ag_effects g \<noteq> [] \<Longrightarrow> groupEffectSettled (last (ag_effects g))"
  by (auto simp: groupActionAllowed_def Let_def split: if_splits)

lemma fresh_effect_ok:
  assumes "groupActionAllowed g (Some a)" and "InitialRunning g"
    and "s = ControlPreparing \<and> h = [] \<or> (s = ControlPrepared \<or> s = ControlDispatched) \<and> h \<noteq> []"
  shows "effect_ok D g (ag_effects g) (fresh_effect a s h)"
proof -
  have "ag_effects g \<noteq> [] \<longrightarrow> groupEffectSettled (last (ag_effects g))"
    using action_allowed_settled [OF assms(1)] by simp
  moreover have "groupActionAllowed (g\<lparr>ag_effects := ag_effects g\<rparr>) (Some a)"
    using assms(1) by simp
  ultimately show ?thesis
    using assms(2,3)
    by (auto simp: effect_ok_def check_effect_shape_def check_effect_proof_def fresh_effect_def
        is_positive_def is_negative_def)
qed

lemma put_fresh_valid:
  assumes "group_valid D g" and "groupActionAllowed g (Some a)" and "InitialRunning g" and "\<not> ag_closed g"
    and "s = ControlPreparing \<and> h = [] \<or> (s = ControlPrepared \<or> s = ControlDispatched) \<and> h \<noteq> []"
  shows "group_valid D (put_fresh g a s h)"
  using assms(1,4) fresh_effect_ok [OF assms(2,3,5), of D]
  unfolding put_fresh_def by (simp add: group_valid_snoc) (simp add: group_valid_iff)

lemma put_fresh_change:
  assumes "s = ControlPreparing \<and> h = [] \<and> t = ControlPrepared \<or> s = ControlPrepared \<and> t = ControlDispatched \<and> h = k"
  shows "group_changes (put_fresh g a s h) (put_fresh g a t k) = Some 1"
  unfolding put_fresh_def
  by (rule group_changes_last)
    (use assms in \<open>auto simp: fresh_effect_def effect_change_ok_def group_rank_def\<close>)

lemma put_fresh_transitions:
  assumes "group_valid D g" and "groupActionAllowed g (Some a)" and "InitialRunning g" and "\<not> ag_closed g"
  shows "journal_step D (\<lambda>x. x = Some a) g (put_fresh g a ControlPreparing [])"
    and "h \<noteq> [] \<Longrightarrow> journal_step D (\<lambda>x. x = Some a) (put_fresh g a ControlPreparing []) (put_fresh g a ControlPrepared h)"
    and "h \<noteq> [] \<Longrightarrow> journal_step D (\<lambda>x. x = Some a) (put_fresh g a ControlPrepared h) (put_fresh g a ControlDispatched h)"
proof -
  have frame: "ag_closed (put_fresh g a s k) = ag_closed g" "length (ag_effects (put_fresh g a s k)) = length (ag_effects g) + 1"
    "ge_action (last (ag_effects (put_fresh g a s k))) = Some a" for s k
    by (simp_all add: put_fresh_def fresh_effect_def)
  show "journal_step D (\<lambda>x. x = Some a) g (put_fresh g a ControlPreparing [])"
    using put_fresh_valid [OF assms, of ControlPreparing "[]"]
    by (simp add: journal_step_def transition_single frame) (simp add: put_fresh_def group_changes_append fresh_effect_def)
  show "journal_step D (\<lambda>x. x = Some a) (put_fresh g a ControlPreparing []) (put_fresh g a ControlPrepared h)" if "h \<noteq> []"
    using put_fresh_valid [OF assms, of ControlPrepared h] that
    by (simp add: journal_step_def transition_single put_fresh_change frame)
  show "journal_step D (\<lambda>x. x = Some a) (put_fresh g a ControlPrepared h) (put_fresh g a ControlDispatched h)" if "h \<noteq> []"
    using put_fresh_valid [OF assms, of ControlDispatched h] that
    by (simp add: journal_step_def transition_single put_fresh_change frame)
qed

text \<open>
  The shape of a run: admitted writes from the first value on, and at most one dispatch, right
  after a durable write whose last effect is that dispatch.
\<close>

definition group_intent :: "group_env \<Rightarrow> control_action \<Rightarrow> group_event list \<Rightarrow> group_event list \<Rightarrow> bool" where
  "group_intent E a tr new \<longleftrightarrow> \<not> list_ex is_gdispatch new \<or>
     (\<exists>pre k h post. new = pre @ [GPersist k, GDispatch h a] @ post \<and>
        \<not> list_ex is_gdispatch (pre @ post) \<and> ag_effects k \<noteq> [] \<and> h \<noteq> [] \<and>
        last (ag_effects k) = fresh_effect a ControlDispatched h \<and> genv_persist E (tr @ pre) k = None)"

definition advance_ok ::
  "group_env \<Rightarrow> (app_group_control \<Rightarrow> string) \<Rightarrow> control_action \<Rightarrow> group_event list \<Rightarrow> app_group_control \<Rightarrow>
   group_run \<Rightarrow> bool" where
  "advance_ok E D a tr g run \<longleftrightarrow>
     (case run of (tr1, h, r) \<Rightarrow> \<exists>new. tr1 = tr @ new \<and> group_chain D (\<lambda>x. x = Some a) g (gpersisted new) \<and>
        group_intent E a tr new \<and> (r = None \<longrightarrow> h = group_end g (gpersisted new)))"

lemma advance_okI:
  "group_chain D (\<lambda>x. x = Some a) g (gpersisted new) \<Longrightarrow> group_intent E a tr new \<Longrightarrow>
   (r = None \<Longrightarrow> h = group_end g (gpersisted new)) \<Longrightarrow> tr1 = tr @ new \<Longrightarrow> advance_ok E D a tr g (tr1, h, r)"
  by (auto simp: advance_ok_def)

lemma dispatch_group_unfold:
  "dispatch_group E D a tr g =
     (let g1 = put_fresh g a ControlPreparing []; tr1 = tr @ [GPersist g1] in
      case genv_persist E tr g1 of
        Some x \<Rightarrow> (tr1, g1, Some x)
      | None \<Rightarrow>
       (case genv_prepare E tr1 a of
          Inl x \<Rightarrow> (tr1 @ [GPrepare a], g1, Some (group_joined x))
        | Inr h \<Rightarrow>
            if h = [] then (tr1 @ [GPrepare a], g1, Some GroupUnresolved)
            else
              let g2 = put_fresh g a ControlPrepared h; tr2 = tr1 @ [GPrepare a] in
              case genv_persist E tr2 g2 of
                Some x \<Rightarrow> (tr2 @ [GPersist g2], g2, Some x)
              | None \<Rightarrow>
               (let g3 = put_fresh g a ControlDispatched h; tr3 = tr2 @ [GPersist g2] in
                case genv_persist E tr3 g3 of
                  Some x \<Rightarrow> (tr3 @ [GPersist g3], g3, Some x)
                | None \<Rightarrow>
                 (case genv_dispatch E (tr3 @ [GPersist g3]) h a of
                    Some x \<Rightarrow> (tr3 @ [GPersist g3, GDispatch h a], g3, Some (group_joined x))
                  | None \<Rightarrow>
                     (case SettleAppGroup E D (tr3 @ [GPersist g3, GDispatch h a]) g3 of
                        (tr6, g4, r) \<Rightarrow>
                          (tr6, g4, if r = None \<and> ag_effects g4 \<noteq> [] \<and>
                             ge_state (last (ag_effects g4)) = ControlFailed
                             then Some GroupFailed else r))))))"
  by (simp add: dispatch_group_def put_fresh_def fresh_effect_def Let_def cong: option.case_cong sum.case_cong if_cong)

lemma dispatch_group_ok:
  assumes "group_valid D g" and "groupActionAllowed g (Some a)" and "InitialRunning g" and "\<not> ag_closed g"
  shows "advance_ok E D a tr g (dispatch_group E D a tr g)"
proof -
  let ?p = "put_fresh g a"
  note tr1 = put_fresh_transitions(1) [OF assms]
  note tr2 = put_fresh_transitions(2) [OF assms] and tr3 = put_fresh_transitions(3) [OF assms]
  let ?t2 = "[GPersist (?p ControlPreparing []), GPrepare a]"
  let ?t3 = "\<lambda>h. ?t2 @ [GPersist (?p ControlPrepared h)]"
  let ?t5 = "\<lambda>h. ?t3 h @ [GPersist (?p ControlDispatched h), GDispatch h a]"
  have quiet: "advance_ok E D a tr g (tr @ new, k, Some x)"
    if "\<not> list_ex is_gdispatch new" "group_chain D (\<lambda>x. x = Some a) g (gpersisted new)" for new k x
    using that by (auto simp: group_intent_def intro!: advance_okI)
  have disp: "advance_ok E D a tr g (tr @ ?t5 h @ post, k, r)"
    if "h \<noteq> []" "genv_persist E (tr @ ?t3 h) (?p ControlDispatched h) = None" "\<not> list_ex is_gdispatch post"
      "group_chain D (\<lambda>x. x = Some a) (?p ControlDispatched h) (gpersisted post)"
      "r = None \<longrightarrow> k = group_end (?p ControlDispatched h) (gpersisted post)" for h k r post
  proof -
    have "group_intent E a tr (?t5 h @ post)"
      unfolding group_intent_def using that
      by (intro disjI2 exI [of _ "?t3 h"] exI [of _ "?p ControlDispatched h"] exI [of _ h] exI [of _ post])
        (simp add: put_fresh_def)
    then show ?thesis
      using that tr1 tr2 tr3 by (auto intro!: advance_okI [where new = "?t5 h @ post"])
  qed
  note ev = dispatch_group_unfold [of E D a tr g]
  consider (p1) x where "genv_persist E tr (?p ControlPreparing []) = Some x"
    | (pr) x where "genv_persist E tr (?p ControlPreparing []) = None"
        "genv_prepare E (tr @ [GPersist (?p ControlPreparing [])]) a = Inl x"
    | (p2) h where "genv_persist E tr (?p ControlPreparing []) = None"
        "genv_prepare E (tr @ [GPersist (?p ControlPreparing [])]) a = Inr h"
    by (metis option.exhaust sum.exhaust)
  then show ?thesis
  proof cases
    case p1
    then show ?thesis
      using tr1 quiet [of "[GPersist (?p ControlPreparing [])]"] by (simp add: ev Let_def)
  next
    case pr
    then show ?thesis
      using tr1 quiet [of ?t2] by (simp add: ev Let_def)
  next
    case (p2 h)
    show ?thesis
    proof (cases "h = []")
      case True
      with p2 show ?thesis using tr1 quiet [of ?t2] by (simp add: ev Let_def)
    next
      case h: False
      note step = tr1 tr2 [OF h] tr3 [OF h]
      show ?thesis
      proof (cases "genv_persist E (tr @ ?t2) (?p ControlPrepared h)")
        case (Some x)
        with p2 h step show ?thesis using quiet [of "?t3 h"] by (simp add: ev Let_def)
      next
        case q2: None
        show ?thesis
        proof (cases "genv_persist E (tr @ ?t3 h) (?p ControlDispatched h)")
          case (Some x)
          with p2 h q2 step show ?thesis
            using quiet [of "?t3 h @ [GPersist (?p ControlDispatched h)]"] by (simp add: ev Let_def)
        next
          case q3: None
          show ?thesis
          proof (cases "genv_dispatch E (tr @ ?t3 h @ [GPersist (?p ControlDispatched h)]) h a")
            case (Some x)
            with p2 h q2 q3 show ?thesis
              using disp [of h "[]" "Some (group_joined x)" "?p ControlDispatched h"] by (simp add: ev Let_def)
          next
            case None
            obtain tr6 g4 r where st: "SettleAppGroup E D (tr @ ?t5 h) (?p ControlDispatched h) = (tr6, g4, r)"
              by (metis prod_cases3)
            have "group_valid D (?p ControlDispatched h)"
              using put_fresh_valid [OF assms] h by simp
            from settle_ok_new [OF SettleAppGroup_ok [OF st this], of "\<lambda>x. x = Some a"] obtain post where post: "tr6 = (tr @ ?t5 h) @ post"
              "\<not> list_ex is_gdispatch post" "group_chain D (\<lambda>x. x = Some a) (?p ControlDispatched h) (gpersisted post)"
              "r = None \<longrightarrow> g4 = group_end (?p ControlDispatched h) (gpersisted post)"
              by blast
            then show ?thesis
              using disp [OF h q3 post(2,3)] p2 h q2 q3 None st by (simp add: ev Let_def)
          qed
        qed
      qed
    qed
  qed
qed

lemma settle_group_same:
  "settle_group E D tr g pre es = (tr1, h, r) \<Longrightarrow> \<exists>zs. h = g\<lparr>ag_effects := zs\<rparr>"
  by (induction es arbitrary: tr pre) (fastforce split: prod.splits option.splits)+

lemma SettleAppGroup_same:
  assumes "SettleAppGroup E D tr g = (tr1, h, r)"
  shows "\<exists>zs. h = g\<lparr>ag_effects := zs\<rparr>"
proof -
  have "\<exists>zs. g = g\<lparr>ag_effects := zs\<rparr>"
    by (rule exI [of _ "ag_effects g"]) simp
  with assms show ?thesis
    by (auto simp: SettleAppGroup_def split: if_splits option.splits dest: settle_group_same)
qed

lemma advance_ok_after_settle:
  assumes "settle_ok D tr g tr1 h None" and "advance_ok E D a tr1 h run"
  shows "advance_ok E D a tr g run"
proof -
  obtain new where new: "tr1 = tr @ new" "\<not> list_ex is_gdispatch new" "group_chain D (\<lambda>x. x = Some a) g (gpersisted new)"
    "h = group_end g (gpersisted new)"
    using settle_ok_new [OF assms(1)] by blast
  obtain tr2 k r where run: "run = (tr2, k, r)"
    by (metis prod_cases3)
  obtain more where more: "tr2 = tr1 @ more" "group_chain D (\<lambda>x. x = Some a) h (gpersisted more)" "group_intent E a tr1 more"
    "r = None \<longrightarrow> k = group_end h (gpersisted more)"
    using assms(2) run by (auto simp: advance_ok_def)
  have "group_intent E a tr (new @ more)"
    using more(3) new(1,2) unfolding group_intent_def
    by (metis append.assoc list_ex_append)
  with new more show ?thesis
    by (auto simp: run intro!: advance_okI [where new = "new @ more"])
qed

lemma AdvanceAppGroup_ok: "advance_ok E D a [] g (AdvanceAppGroup E D g (Some a))"
proof -
  have refl: "advance_ok E D a [] g ([], g, r)" for r
    by (auto simp: advance_ok_def group_intent_def)
  show ?thesis
  proof (cases "genv_bound E \<and> ValidateAppGroups D [g] = None \<and> \<not> ag_closed g \<and> InitialRunning g")
    case False
    then show ?thesis
      using refl by (auto simp: AdvanceAppGroup_def split: option.split)
  next
    case True
    then have v: "group_valid D g" by (simp add: group_valid_def)
    obtain tr h r where st: "SettleAppGroup E D [] g = (tr, h, r)"
      by (metis prod_cases3)
    have ok: "settle_ok D [] g tr h r"
      by (rule SettleAppGroup_ok [OF st v])
    then have base: "advance_ok E D a [] g (tr, h, r)" and base2: "r = None \<Longrightarrow> advance_ok E D a [] g (tr, h, q)" for q
      using settle_ok_new [OF ok, of "\<lambda>x. x = Some a"] by (auto simp: advance_ok_def group_intent_def)
    show ?thesis
    proof (cases r)
      case (Some x)
      with True st base show ?thesis by (simp add: AdvanceAppGroup_def)
    next
      case None
      have h: "group_valid D h"
        using settle_ok_valid [OF ok [unfolded None] v] .
      have fr: "InitialRunning h \<and> \<not> ag_closed h"
        using SettleAppGroup_same [OF st] True by auto
      have "advance_ok E D a tr h (dispatch_group E D a tr h)" if "groupActionAllowed h (Some a)"
        using dispatch_group_ok [OF h that] fr by simp
      then have "advance_ok E D a [] g (dispatch_group E D a tr h)" if "groupActionAllowed h (Some a)"
        using that advance_ok_after_settle [OF ok [unfolded None]] by blast
      with True st None base2 show ?thesis
        by (simp add: AdvanceAppGroup_def Let_def)
    qed
  qed
qed


text \<open>Every effect of a valid group was allowed after the effects before it.\<close>

lemma check_effects_each:
  assumes "check_effects D g pre ids prev (xs @ e # ys) = None"
  shows "check_effect_shape g (pre @ xs) e = None \<and>
    check_effect_proof D g (pre @ xs) (fst (lineage_from ids prev xs)) (snd (lineage_from ids prev xs)) e = None"
  using assms by (simp add: check_effects_append)

lemma group_valid_each:
  assumes "group_valid D g" and "ag_effects g = xs @ e # ys"
  shows "effect_ok D g xs e"
  using assms check_effects_each [of D g "[]" "[]" "[]" xs e ys]
  by (simp add: group_valid_iff effect_ok_def)

lemma effect_ok_state:
  "effect_ok D g pre e \<Longrightarrow> ge_state e \<in> {ControlPreparing, ControlPrepared, ControlDispatched, ControlAdopted,
     ControlObserved, ControlNegativeAdopted, ControlFailed}"
  by (simp add: effect_ok_def check_effect_shape_def)

lemma effect_ok_allowed:
  "effect_ok D g pre e \<Longrightarrow> groupActionAllowed (g\<lparr>ag_effects := pre\<rparr>) (ge_action e)"
  by (simp add: effect_ok_def check_effect_shape_def)

lemma settle_one_settled:
  assumes "settle_one E D tr g pre e post = (tr1, e1, None)"
    and "group_valid D (g\<lparr>ag_effects := pre @ e # post\<rparr>)"
  shows "groupEffectSettled e1"
proof -
  have st: "ge_state e \<in> {ControlPreparing, ControlPrepared, ControlDispatched, ControlAdopted,
     ControlObserved, ControlNegativeAdopted, ControlFailed}"
    using effect_ok_state [OF group_valid_each [OF assms(2)]] by simp
  have ad: "adopt_effect E s tr g pre x post = (tr1, y, None) \<Longrightarrow> ge_state y = s" for s tr x y
    by (auto simp: adopt_effect_def Let_def split: option.splits)
  show ?thesis
    using assms(1) st
    by (auto simp: settle_one_def group_undecided_def groupEffectSettled_def Let_def dest: ad
        split: if_splits sum.splits prod.splits option.splits dest!: resolve_effect_change(3))
qed

lemma settle_group_settled:
  assumes "settle_group E D tr g pre es = (tr1, h, None)"
    and "group_valid D (g\<lparr>ag_effects := pre @ es\<rparr>)" and "list_all groupEffectSettled pre"
  shows "list_all groupEffectSettled (ag_effects h)"
  using assms
proof (induction es arbitrary: tr pre)
  case (Cons e es)
  obtain tr2 e1 q where one: "settle_one E D tr g pre e es = (tr2, e1, q)"
    by (metis prod_cases3)
  with Cons.prems(1) have q: "q = None" and rest: "settle_group E D tr2 g (pre @ [e1]) es = (tr1, h, None)"
    by (auto split: option.splits)
  have "group_valid D (g\<lparr>ag_effects := (pre @ [e1]) @ es\<rparr>)"
    using settle_ok_valid [OF settle_one_ok [OF one Cons.prems(2), unfolded q] Cons.prems(2)] by simp
  with settle_one_settled [OF one [unfolded q] Cons.prems(2)] Cons.prems(3) Cons.IH [OF rest]
  show ?case by simp
next
  case Nil
  then have "h = g\<lparr>ag_effects := pre\<rparr>" by simp
  with Nil show ?case by simp
qed

lemma lineage_from_ids:
  "fst (lineage_from ids prev es) = rev (List.map_filter native_operation es) @ ids"
  by (induction es arbitrary: ids prev) (auto simp: List.map_filter_simps split: option.split)

lemma native_fresh:
  assumes "check_effect_proof D g pre ids prev e = None" and "check_effect_shape g pre e = None"
    and "native_operation e = Some op"
  shows "op \<notin> set ids \<and> groupID op"
proof (cases "ge_generation e")
  case None
  then have "ge_negative e = None" "ge_receipt e = None"
    using assms(2) by (auto simp: check_effect_shape_def)
  with assms(3) show ?thesis by (simp add: native_operation_def)
next
  case (Some gen)
  show ?thesis
  proof (cases "ge_negative e")
    case (Some n)
    with \<open>ge_generation e = Some gen\<close> assms show ?thesis
      by (auto simp: check_effect_proof_def native_operation_def check_negative_def
          check_native_negative_def split: if_splits)
  next
    case None
    then obtain r where "ge_receipt e = Some r" "op = receipt_operation_id r"
      using assms(3) by (auto simp: native_operation_def)
    with Some None assms(1) show ?thesis
      by (auto simp: check_effect_proof_def check_positive_def)
  qed
qed

lemma lineage_distinct:
  assumes "check_effects D g [] [] [] es = None"
  shows "distinct (List.map_filter native_operation es) \<and>
    list_all groupID (List.map_filter native_operation es)"
  using assms
proof (induction es rule: rev_induct)
  case (snoc e es)
  have *: "check_effects D g [] [] [] es = None" "check_effect_shape g es e = None"
    "check_effect_proof D g es (fst (lineage_from [] [] es)) (snd (lineage_from [] [] es)) e = None"
    using snoc.prems by (auto simp: check_effects_append split: option.splits)
  have app: "List.map_filter native_operation (es @ [e]) =
      List.map_filter native_operation es @ (case native_operation e of None \<Rightarrow> [] | Some op \<Rightarrow> [op])"
    by (auto simp: List.map_filter_def split: option.split)
  show ?case
    using snoc.IH [OF *(1)] native_fresh [OF *(3,2)]
    by (auto simp: app lineage_from_ids split: option.split)
qed (simp add: List.map_filter_simps)

section \<open>Properties\<close>

text \<open>
  C7. An app group is driven write-ahead: every value \<open>AdvanceAppGroup\<close> hands to the journal is
  one admitted transition after the previous one, the value it returns without an error is the
  last value it wrote, and it dispatches at most once, right after a durable write whose last
  effect is that very dispatch.
\<close>

theorem advance_group_writes_admitted:
  assumes "AdvanceAppGroup E D g (Some a) = (evs, h, r)"
  shows "group_chain D (\<lambda>x. x = Some a) g (gpersisted evs) \<and> group_intent E a [] evs \<and>
    (r = None \<longrightarrow> h = group_end g (gpersisted evs))"
  using AdvanceAppGroup_ok [of E D a g] assms by (auto simp: advance_ok_def)

text \<open>
  Settlement of what an interrupted run left behind never dispatches again and writes only
  admitted transitions; when it returns without an error the group is valid and every effect of
  it is settled.
\<close>

theorem settle_group_never_dispatches:
  assumes "SettleAppGroup E D tr g = (tr1, h, r)" and "ValidateAppGroups D [g] = None"
  shows "(\<exists>new. tr1 = tr @ new \<and> \<not> list_ex is_gdispatch new \<and> group_chain D no_new g (gpersisted new)) \<and>
    (r = None \<and> genv_bound E \<longrightarrow> ValidateAppGroups D [h] = None \<and> list_all groupEffectSettled (ag_effects h))"
proof -
  have v: "group_valid D g" using assms(2) by (simp add: group_valid_def)
  note ok = SettleAppGroup_ok [OF assms(1) v]
  have "ValidateAppGroups D [h] = None \<and> list_all groupEffectSettled (ag_effects h)" if "r = None" "genv_bound E"
  proof
    show "ValidateAppGroups D [h] = None"
      using settle_ok_valid [OF ok [unfolded that] v] by (simp add: group_valid_def)
    show "list_all groupEffectSettled (ag_effects h)"
      using settle_group_settled [of E D tr g "[]" "ag_effects g" tr1 h] assms v that
      by (simp add: SettleAppGroup_def)
  qed
  with ok show ?thesis
    unfolding settle_ok_def by blast
qed

text \<open>
  A journaled group that validates carries at most 16 effects, its native operations are
  pairwise distinct well-formed identifiers, and every recorded start replaced the containers:
  the successors run, and none of their ids occurred in any generation before.
\<close>

theorem valid_group_history:
  assumes "ValidateAppGroups D [g] = None"
  shows "length (ag_effects g) \<le> 16 \<and>
    distinct (List.map_filter native_operation (ag_effects g)) \<and>
    list_all groupID (List.map_filter native_operation (ag_effects g)) \<and>
    (\<forall>pre e post r gen. ag_effects g = pre @ e # post \<and> starts (ge_action e) \<and>
       ge_negative e = None \<and> ge_receipt e = Some r \<and> ge_generation e = Some gen \<longrightarrow>
       list_all (\<lambda>c. qc_was_running c \<and> qc_id c \<notin> set (prior_container_ids g pre)) (items (containers gen)))"
proof -
  have v: "group_valid D g" using assms by (simp add: group_valid_def)
  have "length (ag_effects g) \<le> 16"
  proof (cases "ag_effects g" rule: rev_cases)
    case (snoc es e)
    have "groupActionAllowed (g\<lparr>ag_effects := es\<rparr>) (ge_action e)"
      using effect_ok_allowed [OF group_valid_each [OF v, of es e "[]"]] snoc by simp
    then show ?thesis
      using snoc by (auto simp: groupActionAllowed_def split: if_splits)
  qed simp
  moreover have "list_all (\<lambda>c. qc_was_running c \<and> qc_id c \<notin> set (prior_container_ids g pre)) (items (containers gen))"
    if "ag_effects g = pre @ e # post" "starts (ge_action e)" "ge_negative e = None" "ge_receipt e = Some r"
      "ge_generation e = Some gen" for pre e post r gen
    using group_valid_each [OF v that(1)] that
    by (simp add: effect_ok_def check_effect_proof_def check_positive_def)
  ultimately show ?thesis
    using lineage_distinct [of D g "ag_effects g"] v by (auto simp: group_valid_iff)
qed

lemma if_None_Some: "(if c then None else x) = Some n \<longleftrightarrow> \<not> c \<and> x = Some n"
  by simp

lemma group_changes_Some:
  assumes "group_changes a b = Some n"
  shows "ag_binding b = ag_binding a \<and> ag_original b = ag_original a \<and> ag_version b = ag_version a"
    and "ag_closed a \<Longrightarrow> ag_closed b"
    and "length (ag_effects b) = length (ag_effects a) \<or> length (ag_effects b) = length (ag_effects a) + 1"
    and "list_all (\<lambda>(x, y). x = y \<or> effect_change_ok x y) (zip (ag_effects a) (ag_effects b))"
    and "length (ag_effects b) > length (ag_effects a) \<Longrightarrow> ge_state (last (ag_effects b)) = ControlPreparing"
  using assms by (simp_all add: group_changes_def Let_def if_None_Some)

lemma settled_no_change:
  assumes "groupEffectSettled x" and "effect_change_ok x y"
  shows "group_rank (ge_state y) = 6"
  using assms by (auto simp: groupEffectSettled_def effect_change_ok_def group_rank_def)

lemma group_rank_bound: "group_rank s \<le> 5"
  by (simp add: group_rank_def split: control_state.split)

text \<open>
  The journal of a group is append-only: an admitted transition keeps version, custody and
  original graph, never reopens a closed group, keeps the order and the actions of the recorded
  effects and every handle that was durable, leaves every settled effect as it is, and adds at
  most one effect, which is only being prepared.
\<close>

theorem group_transition_append_only:
  assumes "ValidAppGroupTransition D [g] [h]"
  shows "ag_binding h = ag_binding g \<and> ag_original h = ag_original g \<and> ag_version h = ag_version g \<and>
    (ag_closed g \<longrightarrow> ag_closed h) \<and>
    length (ag_effects g) \<le> length (ag_effects h) \<and> length (ag_effects h) \<le> length (ag_effects g) + 1 \<and>
    (length (ag_effects h) > length (ag_effects g) \<longrightarrow> ge_state (last (ag_effects h)) = ControlPreparing) \<and>
    (\<forall>i < length (ag_effects g).
       ge_action (ag_effects h ! i) = ge_action (ag_effects g ! i) \<and>
       (ge_handle (ag_effects g ! i) \<noteq> [] \<longrightarrow> ge_handle (ag_effects h ! i) = ge_handle (ag_effects g ! i)) \<and>
       (groupEffectSettled (ag_effects g ! i) \<longrightarrow> ag_effects h ! i = ag_effects g ! i))"
proof -
  have ch: "group_changes g h = Some 1" and v: "group_valid D h"
    using assms by (simp_all add: transition_single)
  let ?as = "ag_effects g" and ?bs = "ag_effects h"
  note some = group_changes_Some [OF ch]
  note zip = some(4)
  have len: "length ?as \<le> length ?bs \<and> length ?bs \<le> length ?as + 1"
    using some(3) by auto
  have each: "?as ! i = ?bs ! i \<or> effect_change_ok (?as ! i) (?bs ! i)" if "i < length ?as" for i
    using zip that len by (auto simp: list_all_length)
  have settled: "?bs ! i = ?as ! i" if "i < length ?as" "groupEffectSettled (?as ! i)" for i
    using each [OF that(1)] settled_no_change [OF that(2)] group_rank_bound [of "ge_state (?bs ! i)"] by auto
  have kept: "ge_action (?bs ! i) = ge_action (?as ! i) \<and> (ge_handle (?as ! i) \<noteq> [] \<longrightarrow> ge_handle (?bs ! i) = ge_handle (?as ! i))"
    if "i < length ?as" for i
    using each [OF that] by (auto simp: effect_change_ok_def)
  have "ag_binding h = ag_binding g \<and> ag_original h = ag_original g \<and> ag_version h = ag_version g \<and>
    (ag_closed g \<longrightarrow> ag_closed h) \<and> (length ?bs > length ?as \<longrightarrow> ge_state (last ?bs) = ControlPreparing)"
    using some(1,2,5) by blast
  with settled kept len show ?thesis
    by simp
qed

subsection \<open>A concrete group\<close>

definition sample_uuid :: "char \<Rightarrow> string" where
  "sample_uuid c = replicate 8 c @ ''-'' @ replicate 4 c @ ''-4'' @ replicate 3 c @ ''-8'' @ replicate 3 c @ ''-'' @
     replicate 12 c"

definition sample_lineage :: authority_lineage where
  "sample_lineage = \<lparr>al_binding = \<lparr>pb_plan_hash = [], pb_spec_hash = [], pb_inventory_hash = [],
       pb_definition_hash = [], pb_compiler_version = [],
       pb_renderer = \<lparr>renderer_id = [], renderer_version = []\<rparr>,
       pb_authority = \<lparr>pa_class = ''product'', pa_document = ''catalog'', pa_graduation_eligible = True,
         pa_issuer = ''stackkits-product-authority/v1'', pa_authority_fingerprint = [], pa_catalog_hash = []\<rparr>\<rparr>,
     al_manifest_hash = [], al_generation_receipt_hash = [], al_apply_result_hash = [],
     al_apply_receipt_hash = [], al_owner_binding_digest = [], al_pocket_id_subject = []\<rparr>"

definition sample_binding :: app_group_binding where
  "sample_binding = \<lparr>manager_id = sample_uuid CHR ''a'', manager_container_id = sample_hex CHR ''1'',
     manager_image = ''m@sha256:'' @ sample_hex CHR ''2'', source_digest = sample_hex CHR ''3'',
     installation_digest = sample_hex CHR ''3'', owner_ref = ''o'', site_ref = ''s'', node_ref = ''n'',
     app_id = 1, app_urn = ''stackkit-a:_user'', logical_project = ''stackkit-a'',
     physical_project = ''stackkit-a__user'', binding_digest = sample_hex CHR ''4'',
     journal_operation_id = ''op'', native_journal_operation_id = sample_uuid CHR ''b'',
     policy_source_digest = sample_digest CHR ''5'', authority_lineage = sample_lineage,
     qualification_digest = sample_hex CHR ''6'', applied_request_digest = sample_digest CHR ''7'',
     custody_digest = sample_hex CHR ''8'', group_id = sample_uuid CHR ''c'',
     recipe_digest = sample_hex CHR ''9'', effective_input_digest = sample_hex CHR ''a''\<rparr>"

definition sample_container :: quiesced_container where
  "sample_container = \<lparr>qc_restart_policy = ''always'', qc_marketplace_service = [],
     qc_marketplace_component = [], qc_id = sample_hex CHR ''b'', qc_name = ''web'',
     qc_was_running = True, qc_workload_ref = ''w'', qc_site_ref = ''s'', qc_node_ref = ''n'',
     qc_compose_project = ''stackkit-a__user'', qc_compose_service = ''web'', qc_component_ref = ''web'',
     qc_image = ''i@sha256:'' @ sample_hex CHR ''c'', qc_stop_order = 0, qc_mounts = None\<rparr>"

definition sample_volume :: app_group_volume where
  "sample_volume = \<lparr>vol_name = ''v'', vol_mountpoint = ''/var/lib/docker/volumes/v/_data'',
     vol_driver = ''local'', vol_identity_digest = sample_hex CHR ''d''\<rparr>"

definition sample_generation :: app_group_generation where
  "sample_generation = \<lparr>config_digests = Some (fmap_of_list [(''web'', sample_hex CHR ''e'')]),
     containers = Some [sample_container], volumes = Some [sample_volume], absent = False, partial = False\<rparr>"

definition sample_group :: app_group_control where
  "sample_group = \<lparr>ag_version = 2, ag_binding = sample_binding, ag_original = sample_generation,
     ag_effects = [], ag_closed = False\<rparr>"

definition sample_digest_of :: "app_group_control \<Rightarrow> string" where
  "sample_digest_of g = sample_hex CHR ''f''"

lemma sample_group_valid: "ValidateAppGroups sample_digest_of [sample_group] = None"
  by code_simp

text \<open>A journal that stores everything, and a manager that stops the group.\<close>

definition sample_receipt :: app_group_receipt where
  "sample_receipt = \<lparr>receipt_operation_id = sample_uuid CHR ''d'', receipt_predecessor = [],
     receipt_request_digest = sample_hex CHR ''1'', receipt_witness_digest = sample_hex CHR ''2'',
     receipt_compose_exit = 0, receipt_previous_custody = sample_hex CHR ''3''\<rparr>"

definition sample_absent :: app_group_generation where
  "sample_absent = \<lparr>config_digests = None, containers = None, volumes = Some [sample_volume],
     absent = True, partial = False\<rparr>"

definition sample_group_env :: group_env where
  "sample_group_env = \<lparr>genv_bound = True, genv_persist = (\<lambda>_ _. None), genv_prepare = (\<lambda>_ _. Inr ''h''),
     genv_dispatch = (\<lambda>_ _ _. None), genv_complete = (\<lambda>_ _ _. Inr True),
     genv_readback = (\<lambda>_ _ _ _. Inr (sample_receipt, sample_absent)), genv_negative = False,
     genv_recover = (\<lambda>_ _ _. Inl GroupUnresolved), genv_readback_negative = (\<lambda>_ _ _ _. Inl GroupUnresolved),
     genv_adopt = (\<lambda>_ _. None)\<rparr>"

definition sample_dispatched_group :: app_group_control where
  "sample_dispatched_group = put_fresh sample_group Stop ControlDispatched ''h''"

definition sample_stopped_group :: app_group_control where
  "sample_stopped_group = sample_group\<lparr>ag_effects := [\<lparr>ge_action = Some Stop, ge_state = ControlObserved,
     ge_handle = ''h'', ge_receipt = Some sample_receipt, ge_negative = None,
     ge_generation = Some sample_absent\<rparr>]\<rparr>"

lemma sample_groups_valid:
  "ValidateAppGroups sample_digest_of [sample_dispatched_group] = None"
  "ValidateAppGroups sample_digest_of [sample_stopped_group] = None"
  by code_simp+

lemma sample_group_run:
  "snd (AdvanceAppGroup sample_group_env sample_digest_of sample_group (Some Stop)) = (sample_stopped_group, None)"
  "list_ex is_gdispatch (fst (AdvanceAppGroup sample_group_env sample_digest_of sample_group (Some Stop)))"
  by code_simp+

lemma sample_group_settle:
  "snd (SettleAppGroup sample_group_env sample_digest_of [] sample_dispatched_group) = (sample_stopped_group, None)"
  by code_simp

lemma sample_transition:
  "ValidAppGroupTransition sample_digest_of [sample_group] [put_fresh sample_group Stop ControlPreparing []]"
  by code_simp

theorem advance_group_writes_admitted_witness:
  "\<exists>evs. fst (AdvanceAppGroup sample_group_env sample_digest_of sample_group (Some Stop)) = evs \<and>
     list_ex is_gdispatch evs \<and> group_chain sample_digest_of (\<lambda>x. x = Some Stop) sample_group (gpersisted evs) \<and>
     group_end sample_group (gpersisted evs) = sample_stopped_group \<and>
     (\<exists>pre k h post. evs = pre @ [GPersist k, GDispatch h Stop] @ post \<and>
        last (ag_effects k) = fresh_effect Stop ControlDispatched h)"
proof -
  obtain evs where run: "AdvanceAppGroup sample_group_env sample_digest_of sample_group (Some Stop) =
      (evs, sample_stopped_group, None)"
    using sample_group_run(1) by (metis prod.collapse)
  from advance_group_writes_admitted [OF this] sample_group_run(2) run show ?thesis
    unfolding group_intent_def by auto
qed

theorem settle_group_never_dispatches_witness:
  "\<not> list_ex is_gdispatch (fst (SettleAppGroup sample_group_env sample_digest_of [] sample_dispatched_group)) \<and>
   list_all groupEffectSettled (ag_effects sample_stopped_group)"
proof -
  obtain evs where run: "SettleAppGroup sample_group_env sample_digest_of [] sample_dispatched_group =
      (evs, sample_stopped_group, None)"
    using sample_group_settle by (metis prod.collapse)
  have "genv_bound sample_group_env"
    by (simp add: sample_group_env_def)
  with settle_group_never_dispatches [OF run sample_groups_valid(1)] run show ?thesis
    by simp
qed

theorem valid_group_history_witness:
  "distinct (List.map_filter native_operation (ag_effects sample_stopped_group)) \<and>
   list_all groupID (List.map_filter native_operation (ag_effects sample_stopped_group))"
  using valid_group_history [OF sample_groups_valid(2)] by blast

theorem group_transition_append_only_witness:
  "ge_state (last (ag_effects (put_fresh sample_group Stop ControlPreparing []))) = ControlPreparing"
  using group_transition_append_only [OF sample_transition] by (simp add: put_fresh_def fresh_effect_def)

end
