(* ===== verification/MutationRecord.thy ===== *)
theory MutationRecord
  imports MutationPhases AppGroups
begin

text \<open>
  The signed record of the lifecycle journal and everything its validation depends on
  (\<open>internal/lifecyclemutation/journal.go\<close>, \<open>restore_controls.go\<close>, \<open>restore_app_groups.go\<close>,
  \<open>restore_group_closures.go\<close>, \<open>upgrade_data_activation.go\<close>): release and checkpoint authority,
  the progress of a restore activation and of an upgrade's data activation, join authority, and
  which record changes the two obligation journals (runtime controls, app groups) admit.

  A slice that is nil or not in the code, and where the code tells the two apart, is an
  \<open>option\<close>; the slices that JSON omits when they are empty are lists. A time is its distance from
  Go's zero time. Digests of app groups and of volume sets are the parameter \<open>K\<close>.
\<close>

section \<open>Data\<close>

record release_authority =
  ra_authority :: string
  ra_version :: string
  ra_archive :: string
  ra_executable :: string

record checkpoint_authority =
  cp_executor_state :: string
  cp_kopia_anchor :: string

record restore_authority =
  au_operation_id :: string
  au_owner_ref :: string
  au_restore_result :: string
  au_safety_snapshot :: string
  au_plan_hash :: string
  au_manifest_hash :: string
  au_apply_result_hash :: string
  au_volume_set_hash :: string
  au_volumes :: "string list"

record restore_step =
  step_volume :: string

record restore_progress =
  pr_rollback_prepared :: "string slice"
  pr_activated :: "string slice"
  pr_in_flight :: "restore_step option"

record group_closure =
  cl_group_id :: string
  cl_completion_digest :: string

record restore_state =
  rs_closures :: "group_closure list"
  rs_groups :: "app_group_control list"
  rs_controls :: "runtime_control list"
  rs_authority :: restore_authority
  rs_rollback_prepared :: "string slice"
  rs_activated :: "string slice"
  rs_in_flight :: "restore_step option"

record upgrade_data_authority =
  ud_source_graph :: string
  ud_target_topology :: string
  ud_target_custody :: string
  ud_restore_result :: string
  ud_volume_set_hash :: string
  ud_live_volumes :: "string list"

record upgrade_data_step =
  ustep_volume :: string

record upgrade_data_progress =
  up_completed :: "string slice"
  up_in_flight :: "upgrade_data_step option"

record upgrade_data_state =
  us_authority :: upgrade_data_authority
  us_completed :: "string slice"
  us_in_flight :: "upgrade_data_step option"

record join_authority =
  jn_command :: string
  jn_binary_version :: string
  jn_executable :: string
  jn_nonce :: string

record mutation_signature =
  sg_owner_ref :: string
  sg_key_id :: string
  sg_value :: string

record mutation_record =
  mr_api_version :: string
  mr_operation_id :: string
  mr_kind :: mutation_kind
  mr_workspace_hash :: string
  mr_owner_ref :: string
  mr_status :: mutation_status
  mr_phase :: phase
  mr_sequence :: "64 word"
  mr_previous :: string
  mr_checkpoint :: checkpoint_authority
  mr_target :: release_authority
  mr_prior :: release_authority
  mr_restore :: "restore_state option"
  mr_upgrade_data :: "upgrade_data_state option"
  mr_join :: "join_authority option"
  mr_updated_at :: int
  mr_signature :: mutation_signature

text \<open>Zero values.\<close>

definition no_checkpoint :: checkpoint_authority where
  "no_checkpoint = \<lparr>cp_executor_state = [], cp_kopia_anchor = []\<rparr>"

definition no_release :: release_authority where
  "no_release = \<lparr>ra_authority = [], ra_version = [], ra_archive = [], ra_executable = []\<rparr>"

definition no_signature :: mutation_signature where
  "no_signature = \<lparr>sg_owner_ref = [], sg_key_id = [], sg_value = []\<rparr>"

definition APIVersion :: string where
  "APIVersion = ''stackkit.lifecycle-mutation/v1''"

datatype journal_error =
    RecordIncomplete | RestoreAuthorityIncomplete | ControlsInvalid control_error
  | GroupsInvalid group_error | ManagedVolumeInvalid | ManagedVolumesDuplicated
  | ProgressNotPrefix | ProgressBeforeRollbackPreparation | UnexpectedInFlight
  | RollbackCopyNotNext | RollbackCopyProgressInvalid | RollbackSetIncomplete
  | CopyNotNext | CopyProgressInvalid | VolumeSetIncomplete | RollbackNotNextActive
  | RollbackHasActiveVolumes | PhaseInvalid | UnresolvedControls | UnresolvedGroups
  | RollbackCopyStartChanged | RollbackCopyNotExact | CopyStartChanged | CopyNotExact
  | RollbackStartChanged | RollbackStartNotConservative | VolumeRollbackStartChanged
  | VolumeRollbackNotExact | TransitionChangedProgress
  | AuthorityDigestInvalid | NoLiveVolumes | LiveVolumesUnsorted | LiveVolumeDuplicated string
  | VolumeSetDigestDiffers | CompletedPrefixInvalid | InFlightNotNext
  | ProgressedBeforeQuiescence | CopyLacksInFlight | CopyCompletionInvalid
  | IncompleteBeforeRuntime | DataPhaseInvalid | DataStateUnbound
  | QuiescenceChangedProgress | DataCopyStartChanged | DataCopyNotExact
  | DataCompletionChanged | RuntimeTransitionChanged | RuntimeOrderInvalid
  | DataTransitionInvalid | DataPhaseLacksAuthority | PreviousDigestInvalid
  | SucceededNotCommitted | RecoveredNotRolledBack | RestoreGrantsJoin | JoinNotExact
  | JoinOutsidePhase | ClosureNeedsTerminal | DuplicateClosure | ClosureDiffers

section \<open>Patterns\<close>

definition operationPattern :: "string \<Rightarrow> bool" where
  "operationPattern s = (case s of [] \<Rightarrow> False | c # cs \<Rightarrow>
     is_lower_alnum c \<and> 7 \<le> length cs \<and> length cs \<le> 127 \<and>
     list_all (\<lambda>x. is_lower_alnum x \<or> x \<in> {CHR ''.'', CHR ''_'', CHR ''-''}) cs)"

definition managedVolumePattern :: "string \<Rightarrow> bool" where
  "managedVolumePattern s = (case s of [] \<Rightarrow> False | c # cs \<Rightarrow>
     is_alnum c \<and> length cs \<le> 254 \<and>
     list_all (\<lambda>x. is_alnum x \<or> x \<in> {CHR ''_'', CHR ''.'', CHR ''-''}) cs)"

definition AuthorityRunningExecutable :: string where
  "AuthorityRunningExecutable = ''running-executable''"

definition validReleaseAuthority :: "release_authority \<Rightarrow> bool" where
  "validReleaseAuthority r =
     (if blank (ra_version r) \<or> \<not> canonicalDigest (ra_executable r) then False
      else if ra_authority r = [] then canonicalDigest (ra_archive r)
      else if ra_authority r = AuthorityRunningExecutable then ra_archive r = []
      else False)"

text \<open>The digests the code computes over JSON: of an app group, and of a list of volumes.\<close>

record digest_env =
  group_digest :: "app_group_control \<Rightarrow> string"
  volumes_digest :: "string list \<Rightarrow> string option"

section \<open>Obligations by phase\<close>

definition control_pending :: "runtime_control \<Rightarrow> bool" where
  "control_pending c \<longleftrightarrow>
     list_ex (\<lambda>a. eff_state (runtimeControlEffect c a) \<noteq> NoState \<and>
                 eff_state (runtimeControlEffect c a) \<noteq> ControlObserved) all_actions"

definition control_settled_for :: "phase \<Rightarrow> runtime_control \<Rightarrow> bool" where
  "control_settled_for p c =
     (if \<not> rc_was_running c then True
      else if p \<in> {PhasePrepared, PhaseQuiesceStarted, PhaseRuntimeStartStarted, PhaseRollbackStarted,
                   PhaseRollbackRuntimeStarted} then True
      else if p \<in> {PhaseQuiesced, PhaseRollbackCopyStarted, PhaseRollbackCopySucceeded, PhaseRollbackReady,
                   PhaseActivationCopyStarted, PhaseActivationCopySucceeded, PhaseActivationSucceeded}
      then \<not> control_pending c \<and> eff_state (rc_stop c) = ControlObserved \<and> eff_state (rc_start c) = NoState
      else if p \<in> {PhaseRuntimeStartSucceeded, PhaseVerifyStarted, PhaseVerifySucceeded, PhaseCommitStarted,
                   PhaseCommitSucceeded}
      then \<not> control_pending c \<and> eff_state (rc_start c) = ControlObserved
      else if p \<in> {PhaseRollbackVolumeStarted, PhaseRollbackVolumeSucceeded}
      then \<not> control_pending c \<and> (eff_state (rc_rollback_stop c) = ControlObserved \<or>
             eff_state (rc_stop c) = ControlObserved \<and> eff_state (rc_start c) = NoState)
      else if p \<in> {PhaseRollbackRuntimeSucceeded, PhaseRollbackActivationVerifyStarted,
                   PhaseRollbackActivationVerifyDone, PhaseRollbackSucceeded}
      then \<not> control_pending c \<and>
             (eff_state (rc_rollback_stop c) = NoState \<and> eff_state (rc_start c) = ControlObserved \<or>
              eff_state (rc_rollback_start c) = ControlObserved)
      else False)"

definition validateRestoreControlsForPhase :: "phase \<Rightarrow> runtime_control list \<Rightarrow> journal_error option" where
  "validateRestoreControlsForPhase p cs =
     (case ValidateRuntimeControls cs of
        Some e \<Rightarrow> Some (ControlsInvalid e)
      | None \<Rightarrow> check (\<not> list_all (control_settled_for p) cs) UnresolvedControls)"

definition group_settled_for :: "phase \<Rightarrow> app_group_control \<Rightarrow> bool" where
  "group_settled_for p g =
     (if p \<in> {PhasePrepared, PhaseQuiesceStarted, PhaseRuntimeStartStarted, PhaseRollbackStarted,
              PhaseRollbackRuntimeStarted} then True
      else if p \<in> {PhaseQuiesced, PhaseRollbackCopyStarted, PhaseRollbackCopySucceeded, PhaseRollbackReady,
                   PhaseActivationCopyStarted, PhaseActivationCopySucceeded, PhaseActivationSucceeded,
                   PhaseRollbackVolumeStarted, PhaseRollbackVolumeSucceeded}
      then AppGroupStopped g
      else if p \<in> {PhaseRuntimeStartSucceeded, PhaseVerifyStarted, PhaseVerifySucceeded, PhaseCommitStarted,
                   PhaseCommitSucceeded, PhaseRollbackRuntimeSucceeded,
                   PhaseRollbackActivationVerifyStarted, PhaseRollbackActivationVerifyDone,
                   PhaseRollbackSucceeded}
      then AppGroupRestored g
      else False)"

definition validateRestoreAppGroupsForPhase ::
  "digest_env \<Rightarrow> phase \<Rightarrow> app_group_control list \<Rightarrow> journal_error option" where
  "validateRestoreAppGroupsForPhase K p gs =
     (case ValidateAppGroups (group_digest K) gs of
        Some e \<Rightarrow> Some (GroupsInvalid e)
      | None \<Rightarrow> check (\<not> list_all (group_settled_for p) gs) UnresolvedGroups)"

section \<open>Progress of a restore activation\<close>

definition in_flight_volume :: "restore_step option \<Rightarrow> string" where
  "in_flight_volume f = (case f of None \<Rightarrow> [] | Some st \<Rightarrow> step_volume st)"

definition restore_phase_progress :: "phase \<Rightarrow> restore_state \<Rightarrow> journal_error option" where
  "restore_phase_progress p s =
     (let vs = au_volumes (rs_authority s); total = length vs;
          prepared = length (items (rs_rollback_prepared s));
          active = length (items (rs_activated s));
          flight = in_flight_volume (rs_in_flight s);
          none_in_flight = check (rs_in_flight s \<noteq> None) UnexpectedInFlight in
      if p \<in> {PhasePrepared, PhaseQuiesceStarted, PhaseQuiesced}
      then first_err (check (prepared \<noteq> 0 \<or> active \<noteq> 0) ProgressBeforeRollbackPreparation) none_in_flight
      else if p = PhaseRollbackCopyStarted
      then check (prepared \<ge> total \<or> active \<noteq> 0 \<or> flight \<noteq> vs ! prepared) RollbackCopyNotNext
      else if p = PhaseRollbackCopySucceeded
      then first_err (check (prepared = 0 \<or> active \<noteq> 0) RollbackCopyProgressInvalid) none_in_flight
      else if p = PhaseRollbackReady
      then first_err (check (prepared \<noteq> total \<or> active \<noteq> 0) RollbackSetIncomplete) none_in_flight
      else if p = PhaseActivationCopyStarted
      then check (prepared \<noteq> total \<or> active \<ge> total \<or> flight \<noteq> vs ! active) CopyNotNext
      else if p = PhaseActivationCopySucceeded
      then first_err (check (prepared \<noteq> total \<or> active = 0) CopyProgressInvalid) none_in_flight
      else if p \<in> {PhaseActivationSucceeded, PhaseRuntimeStartStarted, PhaseRuntimeStartSucceeded,
                   PhaseVerifyStarted, PhaseVerifySucceeded, PhaseCommitStarted, PhaseCommitSucceeded}
      then first_err (check (prepared \<noteq> total \<or> active \<noteq> total) VolumeSetIncomplete) none_in_flight
      else if p = PhaseRollbackStarted then none_in_flight
      else if p = PhaseRollbackVolumeStarted
      then check (active = 0 \<or> flight \<noteq> items (rs_activated s) ! (active - 1)) RollbackNotNextActive
      else if p = PhaseRollbackVolumeSucceeded then none_in_flight
      else if p \<in> {PhaseRollbackRuntimeStarted, PhaseRollbackRuntimeSucceeded,
                   PhaseRollbackActivationVerifyStarted, PhaseRollbackActivationVerifyDone,
                   PhaseRollbackSucceeded}
      then first_err (check (active \<noteq> 0) RollbackHasActiveVolumes) none_in_flight
      else Some PhaseInvalid)"

definition validateRestoreActivationPhaseProgress ::
  "digest_env \<Rightarrow> phase \<Rightarrow> restore_state \<Rightarrow> journal_error option" where
  "validateRestoreActivationPhaseProgress K p s =
     first_err (validateRestoreAppGroupsForPhase K p (rs_groups s))
    (first_err (validateRestoreControlsForPhase p (rs_controls s))
               (restore_phase_progress p s))"

definition equalRestoreActivationProgress :: "restore_progress \<Rightarrow> restore_progress \<Rightarrow> bool" where
  "equalRestoreActivationProgress l r =
     (if \<not> equalStrings (items (pr_rollback_prepared l)) (items (pr_rollback_prepared r)) \<or>
         \<not> equalStrings (items (pr_activated l)) (items (pr_activated r)) then False
      else case (pr_in_flight l, pr_in_flight r) of
             (Some a, Some b) \<Rightarrow> step_volume a = step_volume b
           | (a, b) \<Rightarrow> a = None \<and> b = None)"

text \<open>The candidate state carries the controls and the authority, and no app groups.\<close>

definition progress_candidate :: "restore_state \<Rightarrow> restore_progress \<Rightarrow> restore_state" where
  "progress_candidate s n =
     \<lparr>rs_closures = [], rs_groups = [], rs_controls = rs_controls s, rs_authority = rs_authority s,
      rs_rollback_prepared = pr_rollback_prepared n, rs_activated = pr_activated n,
      rs_in_flight = pr_in_flight n\<rparr>"

definition restore_progress_of :: "restore_state \<Rightarrow> restore_progress" where
  "restore_progress_of s =
     \<lparr>pr_rollback_prepared = rs_rollback_prepared s, pr_activated = rs_activated s,
      pr_in_flight = rs_in_flight s\<rparr>"

definition restore_progress_change ::
  "phase \<Rightarrow> phase \<Rightarrow> restore_state \<Rightarrow> restore_progress \<Rightarrow> journal_error option" where
  "restore_progress_change p q s n =
     (let prepared = items (rs_rollback_prepared s); active = items (rs_activated s);
          prepared' = items (pr_rollback_prepared n); active' = items (pr_activated n);
          flight = rs_in_flight s; flight' = pr_in_flight n in
      if q = PhaseRollbackCopyStarted
      then check (\<not> equalStrings prepared prepared' \<or> \<not> equalStrings active active' \<or> flight \<noteq> None)
             RollbackCopyStartChanged
      else if q = PhaseRollbackCopySucceeded
      then check (p \<noteq> PhaseRollbackCopyStarted \<or> flight' \<noteq> None \<or> \<not> equalStrings active active' \<or>
                  (case flight of None \<Rightarrow> True
                   | Some st \<Rightarrow> \<not> appendedExact prepared prepared' (step_volume st))) RollbackCopyNotExact
      else if q = PhaseActivationCopyStarted
      then check (\<not> equalStrings prepared prepared' \<or> \<not> equalStrings active active' \<or> flight \<noteq> None)
             CopyStartChanged
      else if q = PhaseActivationCopySucceeded
      then check (p \<noteq> PhaseActivationCopyStarted \<or> flight' \<noteq> None \<or> \<not> equalStrings prepared prepared' \<or>
                  (case flight of None \<Rightarrow> True
                   | Some st \<Rightarrow> \<not> appendedExact active active' (step_volume st))) CopyNotExact
      else if q = PhaseRollbackStarted
      then if \<not> equalStrings prepared prepared' \<or> flight' \<noteq> None then Some RollbackStartChanged
           else if p = PhaseActivationCopyStarted
           then check (case flight of None \<Rightarrow> True
                       | Some st \<Rightarrow> \<not> appendedExact active active' (step_volume st)) RollbackStartNotConservative
           else check (\<not> equalStrings active active') RollbackStartChanged
      else if q = PhaseRollbackVolumeStarted
      then check (\<not> equalStrings prepared prepared' \<or> \<not> equalStrings active active' \<or> flight \<noteq> None)
             VolumeRollbackStartChanged
      else if q = PhaseRollbackVolumeSucceeded
      then check (p \<noteq> PhaseRollbackVolumeStarted \<or> flight' \<noteq> None \<or> \<not> equalStrings prepared prepared' \<or>
                  (case flight of None \<Rightarrow> True
                   | Some st \<Rightarrow> \<not> removedExactTail active active' (step_volume st))) VolumeRollbackNotExact
      else check (\<not> equalRestoreActivationProgress (restore_progress_of s) n) TransitionChangedProgress)"

definition validateRestoreActivationProgressTransition ::
  "digest_env \<Rightarrow> phase \<Rightarrow> phase \<Rightarrow> restore_state \<Rightarrow> restore_progress \<Rightarrow> journal_error option" where
  "validateRestoreActivationProgressTransition K p q s n =
     first_err (validateRestoreActivationPhaseProgress K q (progress_candidate s n))
               (restore_progress_change p q s n)"

section \<open>Data activation of an upgrade\<close>

text \<open>The loop over the live volumes: pattern, order against the previous one, no duplicate.\<close>

fun check_live_volumes :: "nat \<Rightarrow> string \<Rightarrow> string list \<Rightarrow> string list \<Rightarrow> journal_error option" where
  "check_live_volumes i prev seen [] = None"
| "check_live_volumes i prev seen (v # vs) =
     first_err (check (\<not> managedVolumePattern v \<or> (i > 0 \<and> v \<le> prev)) LiveVolumesUnsorted)
    (first_err (check (v \<in> set seen) (LiveVolumeDuplicated v))
               (check_live_volumes (i + 1) v (v # seen) vs))"

definition validateUpgradeDataActivationAuthority ::
  "digest_env \<Rightarrow> upgrade_data_authority \<Rightarrow> journal_error option" where
  "validateUpgradeDataActivationAuthority K a =
     first_err (check (\<not> list_all canonicalDigest [ud_source_graph a, ud_target_topology a,
                  ud_target_custody a, ud_restore_result a, ud_volume_set_hash a]) AuthorityDigestInvalid)
    (first_err (check (ud_live_volumes a = []) NoLiveVolumes)
    (first_err (check_live_volumes 0 [] [] (ud_live_volumes a))
               (check (volumes_digest K (ud_live_volumes a) \<noteq> Some (ud_volume_set_hash a))
                 VolumeSetDigestDiffers)))"

definition data_phase_progress :: "phase \<Rightarrow> upgrade_data_state \<Rightarrow> journal_error option" where
  "data_phase_progress p s =
     (let copied = length (items (us_completed s)) in
      if p = PhaseRollbackDataQuiesceStarted \<or> p = PhaseRollbackDataQuiesced
      then check (copied \<noteq> 0 \<or> us_in_flight s \<noteq> None) ProgressedBeforeQuiescence
      else if p = PhaseRollbackDataCopyStarted
      then check (us_in_flight s = None) CopyLacksInFlight
      else if p = PhaseRollbackDataCopySucceeded
      then check (copied = 0 \<or> us_in_flight s \<noteq> None) CopyCompletionInvalid
      else if p \<in> {PhaseRollbackDataActivationSucceeded, PhaseRollbackPriorRuntimeStartStarted,
                   PhaseRollbackPriorRuntimeStartSucceeded, PhaseRollbackPriorRuntimeVerifyStarted,
                   PhaseRollbackPriorRuntimeVerifySucceeded, PhaseRollbackSucceeded}
      then check (copied \<noteq> length (ud_live_volumes (us_authority s)) \<or> us_in_flight s \<noteq> None)
             IncompleteBeforeRuntime
      else Some DataPhaseInvalid)"

definition validateUpgradeDataActivationStateForPhase ::
  "digest_env \<Rightarrow> phase \<Rightarrow> upgrade_data_state \<Rightarrow> journal_error option" where
  "validateUpgradeDataActivationStateForPhase K p s =
     (let live = ud_live_volumes (us_authority s); copied = items (us_completed s) in
      first_err (validateUpgradeDataActivationAuthority K (us_authority s))
     (first_err (check (us_completed s = None \<or> \<not> orderedPrefix copied live) CompletedPrefixInvalid)
     (first_err (case us_in_flight s of None \<Rightarrow> None
                 | Some st \<Rightarrow> check (length copied \<ge> length live \<or> ustep_volume st \<noteq> live ! length copied)
                     InFlightNotNext)
                (data_phase_progress p s))))"

definition equal_data_progress :: "upgrade_data_state \<Rightarrow> upgrade_data_progress \<Rightarrow> bool" where
  "equal_data_progress s n =
     (if \<not> equalStrings (items (us_completed s)) (items (up_completed n)) then False
      else case (us_in_flight s, up_in_flight n) of
             (Some a, Some b) \<Rightarrow> ustep_volume a = ustep_volume b
           | (a, b) \<Rightarrow> a = None \<and> b = None)"

definition data_candidate :: "upgrade_data_state \<Rightarrow> upgrade_data_progress \<Rightarrow> upgrade_data_state" where
  "data_candidate s n =
     \<lparr>us_authority = us_authority s, us_completed = up_completed n, us_in_flight = up_in_flight n\<rparr>"

text \<open>The predecessor of each runtime phase; the empty string for any other.\<close>

definition data_previous :: "phase \<Rightarrow> phase" where
  "data_previous q =
     (case map_of
        [(PhaseRollbackPriorRuntimeStartStarted, PhaseRollbackDataActivationSucceeded),
         (PhaseRollbackPriorRuntimeStartSucceeded, PhaseRollbackPriorRuntimeStartStarted),
         (PhaseRollbackPriorRuntimeVerifyStarted, PhaseRollbackPriorRuntimeStartSucceeded),
         (PhaseRollbackPriorRuntimeVerifySucceeded, PhaseRollbackPriorRuntimeVerifyStarted),
         (PhaseRollbackSucceeded, PhaseRollbackPriorRuntimeVerifySucceeded)] q of
        Some p \<Rightarrow> p | None \<Rightarrow> PhaseOther [])"

definition data_progress_change ::
  "phase \<Rightarrow> phase \<Rightarrow> upgrade_data_state \<Rightarrow> upgrade_data_progress \<Rightarrow> journal_error option" where
  "data_progress_change p q s n =
     (let copied = items (us_completed s); copied' = items (up_completed n) in
      if q = PhaseRollbackDataQuiesced
      then check (p \<noteq> PhaseRollbackDataQuiesceStarted \<or> \<not> equal_data_progress s n) QuiescenceChangedProgress
      else if q = PhaseRollbackDataCopyStarted
      then check ((p \<noteq> PhaseRollbackDataQuiesced \<and> p \<noteq> PhaseRollbackDataCopySucceeded) \<or>
                  \<not> equalStrings copied copied' \<or> us_in_flight s \<noteq> None) DataCopyStartChanged
      else if q = PhaseRollbackDataCopySucceeded
      then check (p \<noteq> PhaseRollbackDataCopyStarted \<or> up_in_flight n \<noteq> None \<or>
                  (case us_in_flight s of None \<Rightarrow> True
                   | Some st \<Rightarrow> \<not> appendedExact copied copied' (ustep_volume st))) DataCopyNotExact
      else if q = PhaseRollbackDataActivationSucceeded
      then check (p \<noteq> PhaseRollbackDataCopySucceeded \<or> \<not> equal_data_progress s n) DataCompletionChanged
      else if q \<in> {PhaseRollbackPriorRuntimeStartStarted, PhaseRollbackPriorRuntimeStartSucceeded,
                   PhaseRollbackPriorRuntimeVerifyStarted, PhaseRollbackPriorRuntimeVerifySucceeded,
                   PhaseRollbackSucceeded}
      then first_err (check (\<not> equal_data_progress s n) RuntimeTransitionChanged)
                     (check (p \<noteq> data_previous q) RuntimeOrderInvalid)
      else Some DataTransitionInvalid)"

definition validateUpgradeDataActivationProgressTransition ::
  "digest_env \<Rightarrow> phase \<Rightarrow> phase \<Rightarrow> upgrade_data_state \<Rightarrow> upgrade_data_progress \<Rightarrow> journal_error option" where
  "validateUpgradeDataActivationProgressTransition K p q s n =
     first_err (validateUpgradeDataActivationStateForPhase K q (data_candidate s n))
               (data_progress_change p q s n)"

section \<open>Validation of a record\<close>

definition RestoreAppGroupClosuresPending :: "mutation_record \<Rightarrow> bool" where
  "RestoreAppGroupClosuresPending r \<longleftrightarrow> mr_kind r = KindRestoreActivation \<and>
     (case mr_restore r of None \<Rightarrow> False | Some s \<Rightarrow> length (rs_groups s) \<noteq> length (rs_closures s))"

definition recordBlocksMutation :: "mutation_record \<Rightarrow> bool" where
  "recordBlocksMutation r \<longleftrightarrow> mr_status r = StatusActive \<or> RestoreAppGroupClosuresPending r"

definition closure_matches :: "digest_env \<Rightarrow> group_closure \<Rightarrow> app_group_control \<Rightarrow> bool" where
  "closure_matches K ack g \<longleftrightarrow> group_id (ag_binding g) = cl_group_id ack \<and>
     cl_completion_digest ack = group_digest K g \<and> AppGroupRestored g"

fun check_closures ::
  "digest_env \<Rightarrow> app_group_control list \<Rightarrow> string list \<Rightarrow> group_closure list \<Rightarrow> journal_error option" where
  "check_closures K gs seen [] = None"
| "check_closures K gs seen (ack # acks) =
     first_err (check (cl_group_id ack \<in> set seen) DuplicateClosure)
    (first_err (check (\<not> list_ex (closure_matches K ack) gs) ClosureDiffers)
               (check_closures K gs (cl_group_id ack # seen) acks))"

definition validateRestoreAppGroupClosures :: "digest_env \<Rightarrow> mutation_record \<Rightarrow> journal_error option" where
  "validateRestoreAppGroupClosures K r =
     (case mr_restore r of None \<Rightarrow> None
      | Some s \<Rightarrow>
          if rs_closures s = [] then None
          else first_err (check (mr_status r \<noteq> StatusSucceeded \<and> mr_status r \<noteq> StatusRecovered)
                           ClosureNeedsTerminal)
                         (check_closures K (rs_groups s) [] (rs_closures s)))"

fun check_managed_volumes :: "string list \<Rightarrow> string list \<Rightarrow> journal_error option" where
  "check_managed_volumes seen [] = None"
| "check_managed_volumes seen (v # vs) =
     first_err (check (\<not> managedVolumePattern v) ManagedVolumeInvalid)
    (first_err (check (v \<in> set seen) ManagedVolumesDuplicated)
               (check_managed_volumes (v # seen) vs))"

definition restore_authority_ok :: "mutation_record \<Rightarrow> restore_state \<Rightarrow> bool" where
  "restore_authority_ok r s \<longleftrightarrow>
     (let a = rs_authority s in
      au_operation_id a = mr_operation_id r \<and> au_owner_ref a = mr_owner_ref r \<and>
      \<not> blank (au_restore_result a) \<and>
      list_all canonicalDigest [au_safety_snapshot a, au_plan_hash a, au_manifest_hash a,
        au_apply_result_hash a, au_volume_set_hash a] \<and>
      au_volumes a \<noteq> [] \<and> rs_rollback_prepared s \<noteq> None \<and> rs_activated s \<noteq> None)"

definition restore_prefix_ok :: "restore_state \<Rightarrow> bool" where
  "restore_prefix_ok s \<longleftrightarrow>
     (let vs = au_volumes (rs_authority s); prepared = items (rs_rollback_prepared s);
          active = items (rs_activated s) in
      orderedPrefix prepared vs \<and> orderedPrefix active vs \<and>
      (active \<noteq> [] \<longrightarrow> length prepared = length vs))"

definition validateRestoreActivationState :: "digest_env \<Rightarrow> mutation_record \<Rightarrow> journal_error option" where
  "validateRestoreActivationState K r =
     first_err (validateRestoreAppGroupClosures K r)
     (case mr_restore r of
        None \<Rightarrow> Some RestoreAuthorityIncomplete
      | Some s \<Rightarrow>
          first_err (check (mr_upgrade_data r \<noteq> None \<or> mr_checkpoint r \<noteq> no_checkpoint \<or>
                            mr_target r \<noteq> no_release \<or> mr_prior r \<noteq> no_release) RestoreAuthorityIncomplete)
         (first_err (map_option ControlsInvalid (ValidateRuntimeControls (rs_controls s)))
         (first_err (check (\<not> restore_authority_ok r s) RestoreAuthorityIncomplete)
         (first_err (check_managed_volumes [] (au_volumes (rs_authority s)))
         (first_err (check (\<not> restore_prefix_ok s) ProgressNotPrefix)
                    (validateRestoreActivationPhaseProgress K (mr_phase r) s))))))"

definition validateUpgradeDataActivationState :: "digest_env \<Rightarrow> mutation_record \<Rightarrow> journal_error option" where
  "validateUpgradeDataActivationState K r =
     (case mr_upgrade_data r of
        None \<Rightarrow> Some DataStateUnbound
      | Some s \<Rightarrow>
          if \<not> upgradeDataActivationPhase (mr_phase r) then Some DataStateUnbound
          else validateUpgradeDataActivationStateForPhase K (mr_phase r) s)"

definition validate_base :: "mutation_record \<Rightarrow> journal_error option" where
  "validate_base r =
     check (mr_api_version r \<noteq> APIVersion \<or>
            (mr_kind r \<noteq> KindUpgrade \<and> mr_kind r \<noteq> KindRestoreActivation) \<or>
            \<not> operationPattern (mr_operation_id r) \<or> \<not> canonicalDigest (mr_workspace_hash r) \<or>
            blank (mr_owner_ref r) \<or> mr_sequence r = 0 \<or> mr_updated_at r = 0 \<or>
            (mr_status r \<noteq> StatusActive \<and> mr_status r \<noteq> StatusSucceeded \<and>
             mr_status r \<noteq> StatusRecovered)) RecordIncomplete"

definition validate_kind :: "digest_env \<Rightarrow> mutation_record \<Rightarrow> journal_error option" where
  "validate_kind K r =
     (if mr_kind r = KindUpgrade
      then first_err
             (check (\<not> canonicalDigest (cp_executor_state (mr_checkpoint r)) \<or>
                     \<not> canonicalDigest (cp_kopia_anchor (mr_checkpoint r)) \<or>
                     \<not> validReleaseAuthority (mr_target r) \<or> \<not> validReleaseAuthority (mr_prior r) \<or>
                     mr_restore r \<noteq> None) RecordIncomplete)
             (if mr_upgrade_data r \<noteq> None then validateUpgradeDataActivationState K r
              else check (upgradeDataActivationPhase (mr_phase r) \<and> mr_phase r \<noteq> PhaseRollbackSucceeded)
                     DataPhaseLacksAuthority)
      else validateRestoreActivationState K r)"

definition validate_status :: "mutation_record \<Rightarrow> journal_error option" where
  "validate_status r =
     (if mr_status r = StatusSucceeded then check (mr_phase r \<noteq> PhaseCommitSucceeded) SucceededNotCommitted
      else if mr_status r = StatusRecovered
      then check (mr_phase r \<noteq> PhaseRollbackSucceeded \<and>
                  \<not> (mr_kind r = KindUpgrade \<and> mr_phase r = PhasePrepared)) RecoveredNotRolledBack
      else None)"

definition join_exact :: "join_authority \<Rightarrow> bool" where
  "join_exact j \<longleftrightarrow> jn_command j \<in> {''generate'', ''apply'', ''verify''} \<and>
     \<not> blank (jn_binary_version j) \<and> canonicalDigest (jn_executable j) \<and> canonicalDigest (jn_nonce j)"

definition validate_join :: "mutation_record \<Rightarrow> journal_error option" where
  "validate_join r =
     first_err (check (mr_kind r = KindRestoreActivation \<and> mr_join r \<noteq> None) RestoreGrantsJoin)
     (if mr_kind r = KindUpgrade \<and> joinPhase (mr_phase r)
      then check (mr_status r \<noteq> StatusActive \<or>
                  (case mr_join r of None \<Rightarrow> True | Some j \<Rightarrow> \<not> join_exact j)) JoinNotExact
      else check (mr_join r \<noteq> None) JoinOutsidePhase)"

definition validateRecord :: "digest_env \<Rightarrow> mutation_record \<Rightarrow> journal_error option" where
  "validateRecord K r =
     first_err (validate_base r)
    (first_err (validate_kind K r)
    (first_err (check (mr_previous r \<noteq> [] \<and> \<not> canonicalDigest (mr_previous r)) PreviousDigestInvalid)
    (first_err (check (\<not> knownPhase (mr_kind r) (mr_phase r)) PhaseInvalid)
    (first_err (validate_status r)
               (validate_join r)))))"

section \<open>Record changes inside a phase\<close>

definition control_rank :: "control_state \<Rightarrow> nat" where
  "control_rank s =
     (case s of NoState \<Rightarrow> 0 | ControlPreparing \<Rightarrow> 1 | ControlPrepared \<Rightarrow> 2 | ControlDispatched \<Rightarrow> 3
      | ControlObserved \<Rightarrow> 4 | _ \<Rightarrow> 0)"

text \<open>The phases in which an effect of an action may begin or go on.\<close>

primrec phase_admits_effect :: "phase \<Rightarrow> control_action \<Rightarrow> bool" where
  "phase_admits_effect p Stop = (p = PhaseQuiesceStarted)"
| "phase_admits_effect p Start = (p = PhaseRuntimeStartStarted \<or> p = PhaseRollbackRuntimeStarted)"
| "phase_admits_effect p RollbackStop =
     (p \<in> {PhaseRollbackStarted, PhaseRollbackVolumeStarted, PhaseRollbackVolumeSucceeded})"
| "phase_admits_effect p RollbackStart = (p = PhaseRollbackRuntimeStarted)"

definition effect_step_ok :: "phase \<Rightarrow> control_action \<Rightarrow> runtime_control_effect \<Rightarrow> runtime_control_effect \<Rightarrow> bool" where
  "effect_step_ok p a x y =
     (if x = y then True
      else if control_rank (eff_state y) \<noteq> control_rank (eff_state x) + 1 \<or>
              (eff_handle x \<noteq> [] \<and> eff_handle x \<noteq> eff_handle y) then False
      else if eff_state x = ControlDispatched \<and> eff_state y = ControlObserved then True
      else phase_admits_effect p a)"

definition control_change_ok :: "phase \<Rightarrow> runtime_control \<Rightarrow> runtime_control \<Rightarrow> bool" where
  "control_change_ok p a b \<longleftrightarrow>
     rc_container a = rc_container b \<and> rc_component a = rc_component b \<and>
     rc_was_running a = rc_was_running b \<and>
     list_all (\<lambda>x. effect_step_ok p x (runtimeControlEffect a x) (runtimeControlEffect b x)) all_actions"

definition initialControls :: "runtime_control list \<Rightarrow> bool" where
  "initialControls cs =
     list_all (\<lambda>c. eff_state (rc_stop c) = NoState \<and> eff_state (rc_start c) = NoState \<and>
       eff_state (rc_rollback_stop c) = NoState \<and> eff_state (rc_rollback_start c) = NoState) cs"

definition validRestoreControlTransition ::
  "mutation_record \<Rightarrow> phase \<Rightarrow> phase \<Rightarrow> restore_state option \<Rightarrow> bool" where
  "validRestoreControlTransition r p q state =
     (case (state, mr_restore r) of
        (Some new, Some old) \<Rightarrow>
          if mr_kind r \<noteq> KindRestoreActivation \<or> p \<noteq> q then False
          else if old\<lparr>rs_controls := []\<rparr> \<noteq> new\<lparr>rs_controls := []\<rparr> \<or>
                  ValidateRuntimeControls (rs_controls new) \<noteq> None then False
          else if rs_controls old = []
          then p = PhaseQuiesceStarted \<and> rs_controls new \<noteq> [] \<and> initialControls (rs_controls new)
          else if length (rs_controls old) \<noteq> length (rs_controls new) then False
          else list_all (\<lambda>(a, b). control_change_ok p a b) (zip (rs_controls old) (rs_controls new))
      | _ \<Rightarrow> False)"

text \<open>The phase in which a new effect of an app group may be journaled.\<close>

definition phase_admits_group_effect :: "phase \<Rightarrow> control_action option \<Rightarrow> bool" where
  "phase_admits_group_effect p a =
     (case a of None \<Rightarrow> True
      | Some Stop \<Rightarrow> p = PhaseQuiesceStarted
      | Some Start \<Rightarrow> p = PhaseRuntimeStartStarted
      | Some RollbackStop \<Rightarrow> p = PhaseRollbackStarted
      | Some RollbackStart \<Rightarrow> p = PhaseRollbackRuntimeStarted)"

definition group_change_ok :: "phase \<Rightarrow> app_group_control \<Rightarrow> app_group_control \<Rightarrow> bool" where
  "group_change_ok p a b \<longleftrightarrow>
     (length (ag_effects b) > length (ag_effects a) \<longrightarrow>
        phase_admits_group_effect p (ge_action (last (ag_effects b)))) \<and>
     (ag_closed b \<and> \<not> ag_closed a \<longrightarrow> p = PhaseCommitSucceeded \<or> p = PhaseRollbackSucceeded)"

definition validRestoreAppGroupTransition ::
  "digest_env \<Rightarrow> mutation_record \<Rightarrow> phase \<Rightarrow> phase \<Rightarrow> restore_state option \<Rightarrow> bool" where
  "validRestoreAppGroupTransition K r p q state =
     (case (state, mr_restore r) of
        (Some new, Some old) \<Rightarrow>
          if mr_kind r \<noteq> KindRestoreActivation \<or> p \<noteq> q then False
          else if old\<lparr>rs_groups := []\<rparr> \<noteq> new\<lparr>rs_groups := []\<rparr> \<or>
                  ValidateAppGroups (group_digest K) (rs_groups new) \<noteq> None then False
          else if rs_groups old = []
          then p = PhaseQuiesceStarted \<and> rs_groups new \<noteq> [] \<and>
               list_all (\<lambda>g. ag_effects g = [] \<and> \<not> ag_closed g \<and>
                 journal_operation_id (ag_binding g) = mr_operation_id r \<and>
                 owner_ref (ag_binding g) = mr_owner_ref r) (rs_groups new)
          else if \<not> ValidAppGroupTransition (group_digest K) (rs_groups old) (rs_groups new) then False
          else list_all (\<lambda>(a, b). group_change_ok p a b) (zip (rs_groups old) (rs_groups new))
      | _ \<Rightarrow> False)"

section \<open>Lemmas on validation\<close>

lemma validateRecord_None:
  "validateRecord K r = None \<longleftrightarrow>
     validate_base r = None \<and> validate_kind K r = None \<and>
     (mr_previous r \<noteq> [] \<longrightarrow> canonicalDigest (mr_previous r)) \<and> knownPhase (mr_kind r) (mr_phase r) \<and>
     validate_status r = None \<and> validate_join r = None"
  by (auto simp: validateRecord_def)

lemma validateRestore_None:
  "validateRestoreActivationState K r = None \<longleftrightarrow>
     (\<exists>s. mr_restore r = Some s \<and> validateRestoreAppGroupClosures K r = None \<and>
        mr_upgrade_data r = None \<and> mr_checkpoint r = no_checkpoint \<and> mr_target r = no_release \<and>
        mr_prior r = no_release \<and> ValidateRuntimeControls (rs_controls s) = None \<and>
        restore_authority_ok r s \<and> check_managed_volumes [] (au_volumes (rs_authority s)) = None \<and>
        restore_prefix_ok s \<and> validateRestoreActivationPhaseProgress K (mr_phase r) s = None)"
  by (cases "mr_restore r") (auto simp: validateRestoreActivationState_def)

lemma check_managed_volumes_None:
  "check_managed_volumes seen vs = None \<longleftrightarrow>
     list_all managedVolumePattern vs \<and> distinct vs \<and> set vs \<inter> set seen = {}"
  by (induction vs arbitrary: seen) auto

section \<open>Phase transitions of a restore activation\<close>

text \<open>
  What one accepted call of \<open>TransitionRestoreActivation\<close> asks of a journaled state: an admitted
  phase change whose progress is exact.
\<close>

definition restore_change ::
  "digest_env \<Rightarrow> phase \<Rightarrow> restore_state \<Rightarrow> phase \<Rightarrow> restore_progress \<Rightarrow> bool" where
  "restore_change K p s q n \<longleftrightarrow> allowedRestoreActivationTransition p q \<and>
     validateRestoreActivationProgressTransition K p q s n = None"

definition with_progress :: "restore_state \<Rightarrow> restore_progress \<Rightarrow> restore_state" where
  "with_progress s n =
     s\<lparr>rs_rollback_prepared := pr_rollback_prepared n, rs_activated := pr_activated n,
       rs_in_flight := pr_in_flight n\<rparr>"

lemma with_progress_simps [simp]:
  "rs_groups (with_progress s n) = rs_groups s"
  "rs_controls (with_progress s n) = rs_controls s"
  "rs_closures (with_progress s n) = rs_closures s"
  "rs_authority (with_progress s n) = rs_authority s"
  "rs_rollback_prepared (with_progress s n) = pr_rollback_prepared n"
  "rs_activated (with_progress s n) = pr_activated n"
  "rs_in_flight (with_progress s n) = pr_in_flight n"
  by (simp_all add: with_progress_def)

lemma progress_candidate_phase:
  "restore_phase_progress p (progress_candidate s n) = restore_phase_progress p (with_progress s n)"
  by (simp add: restore_phase_progress_def progress_candidate_def Let_def)

text \<open>The counts behind a state: prepared and active volumes.\<close>

definition prepared_count :: "restore_state \<Rightarrow> nat" where
  "prepared_count s = length (items (rs_rollback_prepared s))"

definition active_count :: "restore_state \<Rightarrow> nat" where
  "active_count s = length (items (rs_activated s))"

definition volume_count :: "restore_state \<Rightarrow> nat" where
  "volume_count s = length (au_volumes (rs_authority s))"

text \<open>
  The abstract copy machine: which phase change moves which count. It has no volume names, no
  digests and no signatures.
\<close>

inductive copy_step :: "nat \<Rightarrow> phase \<times> nat \<times> nat \<Rightarrow> phase \<times> nat \<times> nat \<Rightarrow> bool" for tot where
  keep: "allowedRestoreActivationTransition p q \<Longrightarrow>
    q \<notin> {PhaseRollbackCopySucceeded, PhaseActivationCopySucceeded, PhaseRollbackVolumeSucceeded} \<Longrightarrow>
    p = PhaseActivationCopyStarted \<longrightarrow> q \<noteq> PhaseRollbackStarted \<Longrightarrow>
    copy_step tot (p, n, m) (q, n, m)"
| prepared: "n < tot \<Longrightarrow> copy_step tot (PhaseRollbackCopyStarted, n, m) (PhaseRollbackCopySucceeded, n + 1, m)"
| activated: "m < tot \<Longrightarrow> copy_step tot (PhaseActivationCopyStarted, n, m) (PhaseActivationCopySucceeded, n, m + 1)"
| conservative: "m < tot \<Longrightarrow> copy_step tot (PhaseActivationCopyStarted, n, m) (PhaseRollbackStarted, n, m + 1)"
| restored: "copy_step tot (PhaseRollbackVolumeStarted, n, m + 1) (PhaseRollbackVolumeSucceeded, n, m)"

definition abs_restore :: "phase \<Rightarrow> restore_state \<Rightarrow> phase \<times> nat \<times> nat" where
  "abs_restore p s = (p, prepared_count s, active_count s)"

lemma equal_progress_counts:
  "equalRestoreActivationProgress (restore_progress_of s) n \<Longrightarrow>
     items (pr_rollback_prepared n) = items (rs_rollback_prepared s) \<and>
     items (pr_activated n) = items (rs_activated s)"
  by (auto simp: equalRestoreActivationProgress_def restore_progress_of_def split: if_splits)

lemma change_facts:
  assumes "restore_change K p s q n"
  shows "allowedRestoreActivationTransition p q" and "restore_phase_progress q (with_progress s n) = None"
    and "validateRestoreControlsForPhase q (rs_controls s) = None" and "restore_progress_change p q s n = None"
  using assms
  by (auto simp: restore_change_def validateRestoreActivationProgressTransition_def
      validateRestoreActivationPhaseProgress_def progress_candidate_phase)
    (simp add: progress_candidate_def)

text \<open>Which volumes a change moves, with their names.\<close>

lemma change_rollback_copy:
  assumes "restore_progress_change p PhaseRollbackCopySucceeded s n = None" and "restore_phase_progress p s = None"
  shows "p = PhaseRollbackCopyStarted \<and> prepared_count s < volume_count s \<and>
    items (pr_rollback_prepared n) = items (rs_rollback_prepared s) @ [au_volumes (rs_authority s) ! prepared_count s] \<and>
    items (pr_activated n) = items (rs_activated s) \<and> pr_in_flight n = None"
proof -
  from assms(1) obtain st where st: "p = PhaseRollbackCopyStarted" "rs_in_flight s = Some st" "pr_in_flight n = None"
    "items (pr_activated n) = items (rs_activated s)"
    "items (pr_rollback_prepared n) = items (rs_rollback_prepared s) @ [step_volume st]"
    by (auto simp: restore_progress_change_def Let_def split: option.splits)
  moreover from assms(2) st have "prepared_count s < volume_count s"
    "step_volume st = au_volumes (rs_authority s) ! prepared_count s"
    by (auto simp: restore_phase_progress_def Let_def in_flight_volume_def prepared_count_def volume_count_def)
  ultimately show ?thesis by simp
qed

lemma activation_in_flight:
  assumes "restore_phase_progress PhaseActivationCopyStarted s = None" and "rs_in_flight s = Some st"
  shows "active_count s < volume_count s \<and> prepared_count s = volume_count s \<and>
    step_volume st = au_volumes (rs_authority s) ! active_count s"
  using assms
  by (auto simp: restore_phase_progress_def Let_def in_flight_volume_def active_count_def prepared_count_def
      volume_count_def)

lemma change_activation_copy:
  assumes "restore_progress_change p q s n = None" and "restore_phase_progress p s = None"
    and "q = PhaseActivationCopySucceeded \<or> q = PhaseRollbackStarted \<and> p = PhaseActivationCopyStarted"
  shows "p = PhaseActivationCopyStarted \<and> active_count s < volume_count s \<and> prepared_count s = volume_count s \<and>
    items (pr_activated n) = items (rs_activated s) @ [au_volumes (rs_authority s) ! active_count s] \<and>
    items (pr_rollback_prepared n) = items (rs_rollback_prepared s) \<and> pr_in_flight n = None"
proof -
  from assms(1,3) obtain st where st: "p = PhaseActivationCopyStarted" "rs_in_flight s = Some st" "pr_in_flight n = None"
    "items (pr_rollback_prepared n) = items (rs_rollback_prepared s)"
    "items (pr_activated n) = items (rs_activated s) @ [step_volume st]"
    by (elim disjE) (auto simp: restore_progress_change_def Let_def split: option.splits if_splits)
  with activation_in_flight [of s st] assms(2) show ?thesis by auto
qed

lemma change_volume_rollback:
  assumes "restore_progress_change p PhaseRollbackVolumeSucceeded s n = None"
  shows "p = PhaseRollbackVolumeStarted \<and> items (pr_rollback_prepared n) = items (rs_rollback_prepared s) \<and>
    (\<exists>v. items (rs_activated s) = items (pr_activated n) @ [v]) \<and> pr_in_flight n = None"
  using assms by (auto simp: restore_progress_change_def Let_def split: option.splits)

lemma change_keeps:
  assumes "restore_progress_change p q s n = None"
    and "q \<notin> {PhaseRollbackCopySucceeded, PhaseActivationCopySucceeded, PhaseRollbackVolumeSucceeded}"
    and "\<not> (q = PhaseRollbackStarted \<and> p = PhaseActivationCopyStarted)"
  shows "items (pr_rollback_prepared n) = items (rs_rollback_prepared s) \<and>
    items (pr_activated n) = items (rs_activated s)"
  using assms equal_progress_counts [of s n]
  unfolding restore_progress_change_def Let_def by (simp split: if_splits)

lemma change_cases [consumes 3, case_names prepared activated restored keep]:
  assumes "restore_change K p s q n" and "restore_phase_progress p s = None" and "restore_prefix_ok s"
  obtains "q = PhaseRollbackCopySucceeded" "p = PhaseRollbackCopyStarted" "prepared_count s < volume_count s"
      "items (pr_rollback_prepared n) = items (rs_rollback_prepared s) @ [au_volumes (rs_authority s) ! prepared_count s]"
      "items (pr_activated n) = items (rs_activated s)"
    | "q = PhaseActivationCopySucceeded \<or> q = PhaseRollbackStarted" "p = PhaseActivationCopyStarted"
      "active_count s < volume_count s" "prepared_count s = volume_count s"
      "items (pr_activated n) = items (rs_activated s) @ [au_volumes (rs_authority s) ! active_count s]"
      "items (pr_rollback_prepared n) = items (rs_rollback_prepared s)"
    | v where "q = PhaseRollbackVolumeSucceeded" "p = PhaseRollbackVolumeStarted"
      "items (pr_rollback_prepared n) = items (rs_rollback_prepared s)"
      "items (rs_activated s) = items (pr_activated n) @ [v]"
    | "q \<notin> {PhaseRollbackCopySucceeded, PhaseActivationCopySucceeded, PhaseRollbackVolumeSucceeded}"
      "\<not> (q = PhaseRollbackStarted \<and> p = PhaseActivationCopyStarted)"
      "items (pr_rollback_prepared n) = items (rs_rollback_prepared s)"
      "items (pr_activated n) = items (rs_activated s)"
proof -
  note ch = change_facts(4) [OF assms(1)]
  consider "q = PhaseRollbackCopySucceeded"
    | "q = PhaseActivationCopySucceeded \<or> q = PhaseRollbackStarted \<and> p = PhaseActivationCopyStarted"
    | "q = PhaseRollbackVolumeSucceeded"
    | "q \<notin> {PhaseRollbackCopySucceeded, PhaseActivationCopySucceeded, PhaseRollbackVolumeSucceeded}"
      "\<not> (q = PhaseRollbackStarted \<and> p = PhaseActivationCopyStarted)"
    by blast
  then show thesis
  proof cases
    case 1
    with change_rollback_copy [of p s n] ch assms(2) that(1) show thesis by auto
  next
    case 2
    from change_activation_copy [OF ch assms(2) 2] 2 that(2) show thesis by auto
  next
    case 3
    with change_volume_rollback [of p s n] ch that(3) show thesis by auto
  next
    case 4
    from change_keeps [OF ch 4] 4 that(4) show thesis by auto
  qed
qed

lemma restore_change_refines:
  assumes "restore_change K p s q n" and "restore_phase_progress p s = None" and "restore_prefix_ok s"
  shows "copy_step (volume_count s) (abs_restore p s) (abs_restore q (with_progress s n))"
  using assms
proof (cases rule: change_cases)
  case prepared
  then show ?thesis
    using copy_step.prepared [of "prepared_count s" "volume_count s" "active_count s"]
    by (simp add: abs_restore_def prepared_count_def active_count_def)
next
  case activated
  then show ?thesis
    using copy_step.activated [of "active_count s" "volume_count s" "prepared_count s"]
      copy_step.conservative [of "active_count s" "volume_count s" "prepared_count s"]
    by (auto simp: abs_restore_def prepared_count_def active_count_def)
next
  case (restored v)
  then show ?thesis
    using copy_step.restored [of "volume_count s" "prepared_count s" "length (items (pr_activated n))"]
    by (simp add: abs_restore_def prepared_count_def active_count_def)
next
  case keep
  then show ?thesis
    using copy_step.keep [of p q "volume_count s" "prepared_count s" "active_count s"] change_facts(1) [OF assms(1)]
    by (auto simp: abs_restore_def prepared_count_def active_count_def)
qed

lemma restore_change_prefix:
  assumes "restore_change K p s q n" and "restore_phase_progress p s = None" and "restore_prefix_ok s"
  shows "restore_prefix_ok (with_progress s n)"
  using assms
proof (cases rule: change_cases)
  case prepared
  have "active_count s = 0"
    using assms(2) prepared(2) by (auto simp: restore_phase_progress_def Let_def active_count_def)
  with prepared assms(3) show ?thesis
    by (auto simp: restore_prefix_ok_def Let_def prepared_count_def active_count_def volume_count_def
        orderedPrefix_extend)
next
  case activated
  with assms(3) show ?thesis
    by (auto simp: restore_prefix_ok_def Let_def prepared_count_def active_count_def volume_count_def
        orderedPrefix_extend)
next
  case (restored v)
  with assms(3) show ?thesis
    by (auto simp: restore_prefix_ok_def Let_def dest: orderedPrefix_butlast)
next
  case keep
  with assms(3) show ?thesis
    by (auto simp: restore_prefix_ok_def Let_def)
qed

section \<open>Every restore activation ends\<close>

definition copy_measure :: "nat \<Rightarrow> phase \<times> nat \<times> nat \<Rightarrow> nat" where
  "copy_measure tot x = (case x of (p, n, m) \<Rightarrow>
     (let B = 2 * tot + 5 in
     (case p of
       PhasePrepared \<Rightarrow> B + 4 * tot + 12 | PhaseQuiesceStarted \<Rightarrow> B + 4 * tot + 11
     | PhaseQuiesced \<Rightarrow> B + 4 * tot + 10
     | PhaseRollbackCopyStarted \<Rightarrow> B + 2 * tot + 2 * (tot - n) + 8
     | PhaseRollbackCopySucceeded \<Rightarrow> B + 2 * tot + 2 * (tot - n) + 9
     | PhaseRollbackReady \<Rightarrow> B + 2 * tot + 8
     | PhaseActivationCopyStarted \<Rightarrow> B + 2 * (tot - m) + 6
     | PhaseActivationCopySucceeded \<Rightarrow> B + 2 * (tot - m) + 7
     | PhaseActivationSucceeded \<Rightarrow> B + 6 | PhaseRuntimeStartStarted \<Rightarrow> B + 5
     | PhaseRuntimeStartSucceeded \<Rightarrow> B + 4 | PhaseVerifyStarted \<Rightarrow> B + 3
     | PhaseVerifySucceeded \<Rightarrow> B + 2 | PhaseCommitStarted \<Rightarrow> B + 1
     | PhaseRollbackStarted \<Rightarrow> 2 * m + 5 | PhaseRollbackVolumeStarted \<Rightarrow> 2 * m + 4
     | PhaseRollbackVolumeSucceeded \<Rightarrow> 2 * m + 5 | PhaseRollbackRuntimeStarted \<Rightarrow> 4
     | PhaseRollbackRuntimeSucceeded \<Rightarrow> 3 | PhaseRollbackVerifyStarted \<Rightarrow> 2
     | PhaseRollbackVerifyDone \<Rightarrow> 1 | _ \<Rightarrow> 0)))"

text \<open>What the progress check says of the counts in the phases the measure looks at.\<close>

definition counts_ok :: "nat \<Rightarrow> phase \<times> nat \<times> nat \<Rightarrow> bool" where
  "counts_ok tot x = (case x of (p, n, m) \<Rightarrow>
     n \<le> tot \<and> m \<le> tot \<and>
     (p \<in> {PhasePrepared, PhaseQuiesceStarted, PhaseQuiesced} \<longrightarrow> n = 0 \<and> m = 0) \<and>
     (p \<in> {PhaseRollbackCopyStarted, PhaseRollbackCopySucceeded, PhaseRollbackReady} \<longrightarrow> m = 0) \<and>
     (p \<in> {PhaseActivationSucceeded, PhaseRuntimeStartStarted, PhaseRuntimeStartSucceeded, PhaseVerifyStarted,
           PhaseVerifySucceeded, PhaseCommitStarted, PhaseCommitSucceeded} \<longrightarrow> m = tot) \<and>
     (p = PhaseRollbackVolumeStarted \<longrightarrow> 0 < m) \<and>
     (p \<in> {PhaseRollbackRuntimeStarted, PhaseRollbackRuntimeSucceeded, PhaseRollbackVerifyStarted,
           PhaseRollbackVerifyDone, PhaseRollbackSucceeded} \<longrightarrow> m = 0))"

lemma restore_counts_ok:
  assumes "restore_phase_progress p s = None" and "restore_prefix_ok s"
  shows "counts_ok (volume_count s) (abs_restore p s)"
proof -
  have "prepared_count s \<le> volume_count s" "active_count s \<le> volume_count s"
    using assms(2) orderedPrefix_length
    by (auto simp: restore_prefix_ok_def Let_def prepared_count_def active_count_def volume_count_def)
  then show ?thesis
    using assms(1)
    by (simp add: counts_ok_def abs_restore_def restore_phase_progress_def Let_def prepared_count_def
        active_count_def volume_count_def split: if_splits) auto
qed

lemma copy_step_decreases:
  assumes "copy_step tot x y" and "counts_ok tot x" and "counts_ok tot y"
  shows "copy_measure tot y < copy_measure tot x"
  using assms
proof cases
  case (keep p q n m)
  have "(p, q) \<in> set (edges KindRestoreActivation)"
    using keep(3) allowed_edge by (simp add: allowedTransition_def)
  then show ?thesis
    using keep assms(2,3)
    by (simp add: edges_def table_edges_def restore_table_def) (elim disjE; simp add: copy_measure_def counts_ok_def Let_def)
qed (use assms(2,3) in \<open>auto simp: copy_measure_def counts_ok_def Let_def\<close>)

text \<open>
  A phase transition of a journaled restore activation. Between two of them the journal may record
  controls, app groups and closures, so only authority and progress are tied.
\<close>

definition restore_rel :: "digest_env \<Rightarrow> phase \<times> restore_state \<Rightarrow> phase \<times> restore_state \<Rightarrow> bool" where
  "restore_rel K x y = (case (x, y) of ((p, s), (q, t)) \<Rightarrow>
     \<exists>n. restore_change K p s q n \<and> rs_authority t = rs_authority s \<and> restore_progress_of t = n)"

definition restore_inv :: "phase \<times> restore_state \<Rightarrow> bool" where
  "restore_inv x = (case x of (p, s) \<Rightarrow> restore_phase_progress p s = None \<and> restore_prefix_ok s)"

definition abs_pair :: "phase \<times> restore_state \<Rightarrow> phase \<times> nat \<times> nat" where
  "abs_pair x = abs_restore (fst x) (snd x)"

lemma progress_frame:
  assumes "rs_authority t = rs_authority s" and "restore_progress_of t = n"
  shows "restore_phase_progress q t = restore_phase_progress q (with_progress s n)"
    and "restore_prefix_ok t = restore_prefix_ok (with_progress s n)"
    and "abs_restore q t = abs_restore q (with_progress s n)" and "volume_count t = volume_count s"
  using assms
  by (auto simp: restore_phase_progress_def restore_prefix_ok_def abs_restore_def prepared_count_def
      active_count_def volume_count_def restore_progress_of_def Let_def)

lemma restore_rel_step:
  assumes "restore_rel K x y" and "restore_inv x"
  shows "restore_inv y \<and> volume_count (snd y) = volume_count (snd x) \<and>
    copy_step (volume_count (snd x)) (abs_pair x) (abs_pair y)"
proof -
  obtain p s q t n where xy: "x = (p, s)" "y = (q, t)" "restore_change K p s q n"
    "rs_authority t = rs_authority s" "restore_progress_of t = n"
    using assms(1) by (auto simp: restore_rel_def split: prod.splits)
  have inv: "restore_phase_progress p s = None" "restore_prefix_ok s"
    using assms(2) xy by (auto simp: restore_inv_def)
  show ?thesis
    using restore_change_refines [OF xy(3) inv] restore_change_prefix [OF xy(3) inv]
      change_facts(2) [OF xy(3)] progress_frame [OF xy(4,5)]
    by (simp add: xy abs_pair_def restore_inv_def)
qed

lemma restore_rel_run:
  assumes "(restore_rel K ^^ k) x y" and "restore_inv x"
  shows "restore_inv y \<and> volume_count (snd y) = volume_count (snd x) \<and>
    (copy_step (volume_count (snd x)) ^^ k) (abs_pair x) (abs_pair y) \<and>
    k + copy_measure (volume_count (snd x)) (abs_pair y) \<le> copy_measure (volume_count (snd x)) (abs_pair x)"
  using assms
proof (induction k arbitrary: y)
  case 0
  then show ?case by (auto simp: relpowp_0_I)
next
  case (Suc k)
  then obtain z where z: "(restore_rel K ^^ k) x z" "restore_rel K z y"
    by auto
  note IH = Suc.IH [OF z(1) Suc.prems(2)]
  note step = restore_rel_step [OF z(2), of]
  have st: "restore_inv y \<and> volume_count (snd y) = volume_count (snd z) \<and>
    copy_step (volume_count (snd z)) (abs_pair z) (abs_pair y)"
    using restore_rel_step [OF z(2)] IH by blast
  have "counts_ok (volume_count (snd w)) (abs_pair w)" if "restore_inv w" for w
    using that restore_counts_ok [of "fst w" "snd w"] by (auto simp: restore_inv_def abs_pair_def split: prod.splits)
  with st IH have "copy_measure (volume_count (snd x)) (abs_pair y) < copy_measure (volume_count (snd x)) (abs_pair z)"
    by (metis copy_step_decreases)
  with st IH show ?case by (auto intro: relpowp_Suc_I)
qed

lemma copy_measure_bound: "copy_measure tot (r, n, m) \<le> 6 * tot + 17" if "m \<le> tot"
proof -
  have "2 * (tot - n) \<le> 2 * tot" "2 * (tot - m) \<le> 2 * tot" "2 * m \<le> 2 * tot"
    using that by auto
  then show ?thesis
    by (cases r) (simp_all add: copy_measure_def Let_def)
qed

text \<open>
  C28. A restore activation ends. Every sequence of phase transitions its journal accepts follows
  the abstract copy machine, and there are at most \<open>6 * n + 17\<close> of them for \<open>n\<close> managed volumes:
  no copy, verification or rollback phase can be entered for ever.
\<close>

theorem restore_activation_ends:
  assumes "(restore_rel K ^^ k) (p, s) (q, t)"
    and "restore_phase_progress p s = None" and "restore_prefix_ok s"
  shows "(copy_step (volume_count s) ^^ k) (abs_restore p s) (abs_restore q t) \<and>
    k \<le> 6 * length (au_volumes (rs_authority s)) + 17"
proof -
  have inv: "restore_inv (p, s)"
    using assms(2,3) by (simp add: restore_inv_def)
  have "prepared_count s \<le> volume_count s" "active_count s \<le> volume_count s"
    using restore_counts_ok [OF assms(2,3)] by (auto simp: counts_ok_def abs_restore_def)
  then have "copy_measure (volume_count s) (abs_pair (p, s)) \<le> 6 * volume_count s + 17"
    using copy_measure_bound by (simp add: abs_pair_def abs_restore_def)
  then show ?thesis
    using restore_rel_run [OF assms(1) inv] by (simp add: abs_pair_def volume_count_def)
qed

section \<open>Accepted transitions write valid records\<close>

text \<open>The record a transition writes, before it is signed.\<close>

definition next_record ::
  "mutation_record \<Rightarrow> phase \<Rightarrow> join_authority option \<Rightarrow> 64 word \<Rightarrow> int \<Rightarrow> string \<Rightarrow> mutation_record" where
  "next_record r q j sq now d =
     r\<lparr>mr_phase := q, mr_join := j, mr_sequence := sq, mr_updated_at := now, mr_previous := d\<rparr>"

lemma validate_base_next:
  "validate_base r = None \<Longrightarrow> sq \<noteq> 0 \<Longrightarrow> now \<noteq> 0 \<Longrightarrow> validate_base (next_record r q j sq now d) = None"
  by (simp add: validate_base_def next_record_def)

lemma validate_base_frame [simp]:
  "validate_base (r\<lparr>mr_restore := x\<rparr>) = validate_base r"
  "validate_base (r\<lparr>mr_upgrade_data := y\<rparr>) = validate_base r"
  "validate_base (r\<lparr>mr_signature := z\<rparr>) = validate_base r"
  by (simp_all add: validate_base_def)

lemma validateRestoreControls_phase:
  "validateRestoreControlsForPhase p cs = None \<Longrightarrow> ValidateRuntimeControls cs = None"
  by (auto simp: validateRestoreControlsForPhase_def split: option.splits)

text \<open>
  A restore transition never writes a journal that cannot be read back, as far as the API
  checks it: from a valid active record, an accepted phase change with exact progress gives a
  record that validates again, provided the app groups meet the obligations of the new phase
  (which the API does not check).
\<close>

theorem restore_transition_revalidates:
  assumes "validateRecord K r = None" and "mr_kind r = KindRestoreActivation" and "mr_status r = StatusActive"
    and "mr_restore r = Some s" and "restore_change K (mr_phase r) s q n"
    and "pr_rollback_prepared n \<noteq> None" and "pr_activated n \<noteq> None"
    and "validateRestoreAppGroupsForPhase K q (rs_groups s) = None"
    and "sq \<noteq> 0" and "now \<noteq> 0" and "canonicalDigest d"
  shows "validateRecord K (next_record (r\<lparr>mr_restore := Some (with_progress s n)\<rparr>) q None sq now d) = None"
proof -
  let ?r = "next_record (r\<lparr>mr_restore := Some (with_progress s n)\<rparr>) q None sq now d"
  have v: "validate_base r = None" "validateRestoreActivationState K r = None"
    using assms(1,2) by (auto simp: validateRecord_None validate_kind_def)
  have s: "validateRestoreAppGroupClosures K r = None" "mr_upgrade_data r = None" "mr_checkpoint r = no_checkpoint"
    "mr_target r = no_release" "mr_prior r = no_release" "restore_authority_ok r s"
    "check_managed_volumes [] (au_volumes (rs_authority s)) = None" "restore_prefix_ok s"
    "validateRestoreActivationPhaseProgress K (mr_phase r) s = None"
    using v(2) assms(4) by (auto simp: validateRestore_None)
  then have pp: "restore_phase_progress (mr_phase r) s = None"
    by (simp add: validateRestoreActivationPhaseProgress_def)
  note ch = change_facts [OF assms(5)]
  have "allowedTransition KindRestoreActivation (mr_phase r) q"
    using ch(1) by (simp add: allowedTransition_def)
  then have known: "knownPhase KindRestoreActivation q"
    using edges_allD [OF edges_known] by blast
  have "rs_closures s = []"
    using s(1) assms(3,4) by (auto simp: validateRestoreAppGroupClosures_def split: if_splits)
  then have "validateRestoreAppGroupClosures K ?r = None"
    by (simp add: validateRestoreAppGroupClosures_def next_record_def)
  moreover have "restore_authority_ok ?r (with_progress s n)"
    using s(6) assms(6,7) by (auto simp: restore_authority_ok_def next_record_def Let_def)
  moreover have "validateRestoreActivationPhaseProgress K q (with_progress s n) = None"
    using ch(2,3) assms(8) by (simp add: validateRestoreActivationPhaseProgress_def)
  moreover note restore_change_prefix [OF assms(5) pp s(8)]
  ultimately have "validateRestoreActivationState K ?r = None"
    using s validateRestoreControls_phase [OF ch(3)]
    by (simp add: validateRestore_None) (simp add: next_record_def)
  then show ?thesis
    using v(1) assms(2,3,9,10,11) known validate_base_next [of "r\<lparr>mr_restore := Some (with_progress s n)\<rparr>" sq now q None d]
    by (simp add: validateRecord_None) (simp add: next_record_def validate_kind_def validate_status_def validate_join_def)
qed

lemma validateUpgrade_None:
  "validateUpgradeDataActivationState K r = None \<longleftrightarrow>
     (\<exists>s. mr_upgrade_data r = Some s \<and> upgradeDataActivationPhase (mr_phase r) \<and>
        validateUpgradeDataActivationStateForPhase K (mr_phase r) s = None)"
  by (cases "mr_upgrade_data r") (auto simp: validateUpgradeDataActivationState_def)

definition with_data_progress :: "upgrade_data_state \<Rightarrow> upgrade_data_progress \<Rightarrow> upgrade_data_state" where
  "with_data_progress s n = s\<lparr>us_completed := up_completed n, us_in_flight := up_in_flight n\<rparr>"

lemma data_candidate_eq: "data_candidate s n = with_data_progress s n"
  by (simp add: data_candidate_def with_data_progress_def)

text \<open>
  The same for an upgrade's data activation: an accepted progress transition leaves a record
  that validates, and it only ever appends the next live volume to the completed ones: when a
  phase that starts or verifies the prior runtime is entered, every live volume was copied back.
\<close>

theorem data_transition_revalidates:
  assumes "validateRecord K r = None" and "mr_kind r = KindUpgrade" and "mr_status r = StatusActive"
    and "mr_upgrade_data r = Some s" and "allowedTransition KindUpgrade (mr_phase r) q"
    and "validateUpgradeDataActivationProgressTransition K (mr_phase r) q s n = None"
    and "sq \<noteq> 0" and "now \<noteq> 0" and "canonicalDigest d"
  shows "validateRecord K (next_record (r\<lparr>mr_upgrade_data := Some (with_data_progress s n)\<rparr>) q None sq now d) = None \<and>
    (items (up_completed n) = items (us_completed s) \<or>
     (\<exists>i. i < length (ud_live_volumes (us_authority s)) \<and>
        items (up_completed n) = items (us_completed s) @ [ud_live_volumes (us_authority s) ! i] \<and>
        i = length (items (us_completed s)))) \<and>
    (q \<in> {PhaseRollbackPriorRuntimeStartStarted, PhaseRollbackPriorRuntimeVerifyStarted} \<longrightarrow>
       items (up_completed n) = ud_live_volumes (us_authority s))"
proof -
  let ?r = "next_record (r\<lparr>mr_upgrade_data := Some (with_data_progress s n)\<rparr>) q None sq now d"
  have v: "validate_base r = None" "validate_kind K r = None" "upgradeDataActivationPhase (mr_phase r)"
    "validateUpgradeDataActivationStateForPhase K (mr_phase r) s = None"
    using assms(1,2,4) by (auto simp: validateRecord_None validate_kind_def validateUpgrade_None)
  have n: "validateUpgradeDataActivationStateForPhase K q (with_data_progress s n) = None"
    and c: "data_progress_change (mr_phase r) q s n = None"
    using assms(6) by (auto simp: validateUpgradeDataActivationProgressTransition_def data_candidate_eq)
  have q: "upgradeDataActivationPhase q" "knownPhase KindUpgrade q"
    using edges_allD [OF data_activation_closed assms(5)] v(3) edges_allD [OF edges_known assms(5)] by auto
  then have "\<not> joinPhase q"
    by (auto simp: upgradeDataActivationPhase_def joinPhase_def)
  then have "validateRecord K ?r = None"
    using v(1,2) q n assms(2,3,7,8,9) validate_base_next [of "r\<lparr>mr_upgrade_data := Some (with_data_progress s n)\<rparr>" sq now q None d]
    by (simp add: validateRecord_None)
      (simp add: next_record_def validate_kind_def validate_status_def validate_join_def validateUpgrade_None)
  moreover have "items (up_completed n) = items (us_completed s) \<or>
     (\<exists>i. i < length (ud_live_volumes (us_authority s)) \<and>
        items (up_completed n) = items (us_completed s) @ [ud_live_volumes (us_authority s) ! i] \<and>
        i = length (items (us_completed s)))"
  proof (cases "q = PhaseRollbackDataCopySucceeded")
    case True
    with c obtain st where st: "mr_phase r = PhaseRollbackDataCopyStarted" "us_in_flight s = Some st"
      "items (up_completed n) = items (us_completed s) @ [ustep_volume st]"
      by (auto simp: data_progress_change_def Let_def split: option.splits)
    with v(4) have "length (items (us_completed s)) < length (ud_live_volumes (us_authority s))"
      "ustep_volume st = ud_live_volumes (us_authority s) ! length (items (us_completed s))"
      by (auto simp: validateUpgradeDataActivationStateForPhase_def Let_def)
    with st show ?thesis by auto
  next
    case False
    with c show ?thesis
      by (auto simp: data_progress_change_def Let_def equal_data_progress_def split: if_splits)
  qed
  moreover have "items (up_completed n) = ud_live_volumes (us_authority s)"
    if "q \<in> {PhaseRollbackPriorRuntimeStartStarted, PhaseRollbackPriorRuntimeVerifyStarted}"
    using n that
    by (auto simp: validateUpgradeDataActivationStateForPhase_def Let_def data_phase_progress_def
        with_data_progress_def intro: orderedPrefix_full)
  ultimately show ?thesis by blast
qed

section \<open>The journal admits what the control procedure writes\<close>

lemma control_step_rank:
  assumes "control_step b c d" and "control_ok c"
  shows "control_rank (eff_state (runtimeControlEffect d b)) = control_rank (eff_state (runtimeControlEffect c b)) + 1"
    and "eff_handle (runtimeControlEffect c b) \<noteq> [] \<Longrightarrow>
         eff_handle (runtimeControlEffect d b) = eff_handle (runtimeControlEffect c b)"
    and "runtimeControlEffect d b \<noteq> runtimeControlEffect c b"
proof -
  have h: "eff_state (runtimeControlEffect c b) \<in> {NoState, ControlPreparing} \<Longrightarrow>
      eff_handle (runtimeControlEffect c b) = []"
    using assms(2) unfolding control_ok_iff validate_effect_None Let_def by blast
  show "control_rank (eff_state (runtimeControlEffect d b)) = control_rank (eff_state (runtimeControlEffect c b)) + 1"
    using assms(1) by cases (simp_all add: control_rank_def)
  then show "runtimeControlEffect d b \<noteq> runtimeControlEffect c b" by auto
  show "eff_handle (runtimeControlEffect c b) \<noteq> [] \<Longrightarrow>
         eff_handle (runtimeControlEffect d b) = eff_handle (runtimeControlEffect c b)"
    using assms(1) h by cases simp_all
qed

lemma control_step_admitted:
  assumes "control_step b c d" and "control_ok c"
    and "phase_admits_effect p b \<or>
         (eff_state (runtimeControlEffect c b) = ControlDispatched \<and> eff_state (runtimeControlEffect d b) = ControlObserved)"
  shows "control_change_ok p c d"
proof -
  have "effect_step_ok p x (runtimeControlEffect c x) (runtimeControlEffect d x)" for x
  proof (cases "x = b")
    case True
    have "eff_handle (runtimeControlEffect c b) = [] \<or>
        eff_handle (runtimeControlEffect d b) = eff_handle (runtimeControlEffect c b)"
      using control_step_rank(2) [OF assms(1,2)] by blast
    then show ?thesis
      using control_step_rank(1) [OF assms(1,2)] assms(3) True by (auto simp: effect_step_ok_def)
  next
    case False
    then show ?thesis
      using control_step_frame(4) [OF assms(1), of x] by (simp add: effect_step_ok_def)
  qed
  then show ?thesis
    using control_step_frame [OF assms(1)] by (simp add: control_change_ok_def list_all_iff)
qed

text \<open>A step on an action that is only being settled observes a dispatch.\<close>

definition settling :: "runtime_control \<Rightarrow> control_action \<Rightarrow> runtime_control \<Rightarrow> bool" where
  "settling c0 a c \<longleftrightarrow> (\<forall>b. b \<noteq> a \<and> eff_state (runtimeControlEffect c0 b) = ControlDispatched \<longrightarrow>
     eff_state (runtimeControlEffect c b) \<in> {ControlDispatched, ControlObserved})"

lemma settling_step:
  assumes "control_step b c d" and "movable c0 a b" and "settling c0 a c"
  shows "settling c0 a d" and "b \<noteq> a \<Longrightarrow> eff_state (runtimeControlEffect c b) = ControlDispatched \<and>
    eff_state (runtimeControlEffect d b) = ControlObserved"
proof -
  show 1: "eff_state (runtimeControlEffect c b) = ControlDispatched \<and>
    eff_state (runtimeControlEffect d b) = ControlObserved" if "b \<noteq> a"
  proof -
    have "eff_state (runtimeControlEffect c b) \<in> {ControlDispatched, ControlObserved}"
      using assms(2,3) that by (auto simp: movable_def settling_def)
    with assms(1) show ?thesis by cases auto
  qed
  show "settling c0 a d"
    unfolding settling_def
  proof (intro allI impI)
    fix x assume "x \<noteq> a \<and> eff_state (runtimeControlEffect c0 x) = ControlDispatched"
    then show "eff_state (runtimeControlEffect d x) \<in> {ControlDispatched, ControlObserved}"
      using assms(3) 1 control_step_frame(4) [OF assms(1), of x]
      by (cases "x = b") (auto simp: settling_def)
  qed
qed

text \<open>The writes of a run, each as the restore journal sees it: one control of the list changes.\<close>

fun writes_admitted ::
  "mutation_record \<Rightarrow> restore_state \<Rightarrow> phase \<Rightarrow> runtime_control list \<Rightarrow> runtime_control list \<Rightarrow>
   runtime_control \<Rightarrow> runtime_control list \<Rightarrow> bool" where
  "writes_admitted r s p pre post c [] = True"
| "writes_admitted r s p pre post c (d # ds) =
     (validRestoreControlTransition (r\<lparr>mr_restore := Some (s\<lparr>rs_controls := pre @ c # post\<rparr>)\<rparr>) p p
        (Some (s\<lparr>rs_controls := pre @ d # post\<rparr>)) \<and>
      writes_admitted r s p pre post d ds)"

lemma control_change_refl [simp]: "control_change_ok p c c"
  by (simp add: control_change_ok_def effect_step_ok_def list_all_iff)

lemma controls_replace:
  assumes "ValidateRuntimeControls (pre @ c # post) = None" and "control_ok d" and "rc_container d = rc_container c"
  shows "ValidateRuntimeControls (pre @ d # post) = None"
  using assms by (auto simp: ValidateRuntimeControls_None)

lemma write_admitted:
  assumes "mr_kind r = KindRestoreActivation" and "ValidateRuntimeControls (pre @ c # post) = None"
    and "control_change_ok p c d" and "control_ok d"
  shows "validRestoreControlTransition (r\<lparr>mr_restore := Some (s\<lparr>rs_controls := pre @ c # post\<rparr>)\<rparr>) p p
        (Some (s\<lparr>rs_controls := pre @ d # post\<rparr>))"
proof -
  have "list_all (\<lambda>(x, y). control_change_ok p x y) (zip xs xs)" for xs
    by (induction xs) auto
  moreover have "rc_container d = rc_container c"
    using assms(3) by (simp add: control_change_ok_def)
  ultimately show ?thesis
    using assms(1,3) controls_replace [OF assms(2,4)]
    by (simp add: validRestoreControlTransition_def)
qed

lemma chain_admitted:
  assumes "step_chain (movable c0 a) c ds" and "settling c0 a c" and "phase_admits_effect p a"
    and "mr_kind r = KindRestoreActivation" and "ValidateRuntimeControls (pre @ c # post) = None"
  shows "writes_admitted r s p pre post c ds"
  using assms
proof (induction ds arbitrary: c)
  case (Cons d ds)
  then obtain b where b: "movable c0 a b" "control_step b c d" and rest: "step_chain (movable c0 a) d ds"
    by auto
  have ok: "control_ok c"
    using Cons.prems(5) by (auto simp: ValidateRuntimeControls_None)
  have adm: "control_change_ok p c d"
    using control_step_admitted [OF b(2) ok] settling_step(2) [OF b(2,1) Cons.prems(2)] Cons.prems(3) by blast
  have "ValidateRuntimeControls (pre @ d # post) = None"
    using controls_replace [OF Cons.prems(5) control_step_ok [OF b(2) ok]] control_step_frame [OF b(2)] by simp
  then show ?case
    using write_admitted [OF Cons.prems(4,5) adm control_step_ok [OF b(2) ok]]
      Cons.IH [OF rest settling_step(1) [OF b(2,1) Cons.prems(2)] Cons.prems(3,4)] by simp
qed simp

text \<open>
  C34. The two journals fit: in a phase that admits the action, every value that
  \<open>AdvanceRuntimeControl\<close> persists for one container of a restore activation is a record change
  that \<open>RecordRestoreControls\<close> is allowed to sign, settlements of earlier dispatches included.
\<close>

theorem advance_admitted_by_restore_journal:
  assumes "AdvanceRuntimeControl E c (Some a) = (evs, d, e)" and "phase_admits_effect p a"
    and "mr_kind r = KindRestoreActivation" and "ValidateRuntimeControls (pre @ c # post) = None"
  shows "writes_admitted r s p pre post c (persisted evs)"
proof (rule chain_admitted [OF advance_run(1) [OF assms(1)] _ assms(2,3,4)])
  show "settling c a c" by (simp add: settling_def)
qed

text \<open>The same for app groups.\<close>

fun group_writes_admitted ::
  "digest_env \<Rightarrow> mutation_record \<Rightarrow> restore_state \<Rightarrow> phase \<Rightarrow> app_group_control list \<Rightarrow>
   app_group_control list \<Rightarrow> app_group_control \<Rightarrow> app_group_control list \<Rightarrow> bool" where
  "group_writes_admitted K r s p pre post g [] = True"
| "group_writes_admitted K r s p pre post g (h # hs) =
     (validRestoreAppGroupTransition K (r\<lparr>mr_restore := Some (s\<lparr>rs_groups := pre @ g # post\<rparr>)\<rparr>) p p
        (Some (s\<lparr>rs_groups := pre @ h # post\<rparr>)) \<and>
      group_writes_admitted K r s p pre post h hs)"

lemma check_groups_iff:
  "check_groups D seen gs = None \<longleftrightarrow>
     (\<forall>g \<in> set gs. group_valid D g \<and> physical_project (ag_binding g) \<notin> set seen) \<and>
     distinct (map (\<lambda>g. physical_project (ag_binding g)) gs)"
proof (induction gs arbitrary: seen)
  case (Cons g gs)
  have "check_binding g seen = None \<longleftrightarrow> check_binding g [] = None \<and> physical_project (ag_binding g) \<notin> set seen"
    by (auto simp: check_binding_def Let_def)
  then have "check_groups D seen (g # gs) = None \<longleftrightarrow>
      group_valid D g \<and> physical_project (ag_binding g) \<notin> set seen \<and>
      check_groups D (physical_project (ag_binding g) # seen) gs = None"
    by (auto simp: group_valid_def ValidateAppGroups_def)
  then show ?case
    unfolding Cons.IH by (simp del: check_groups.simps add: image_iff) metis
qed simp

lemma ValidateAppGroups_None:
  "ValidateAppGroups D gs = None \<longleftrightarrow>
     (\<forall>g \<in> set gs. group_valid D g) \<and> distinct (map (\<lambda>g. physical_project (ag_binding g)) gs)"
  by (simp add: ValidateAppGroups_def check_groups_iff)

lemma group_changes_refl: "group_changes g g = Some 0"
  by (simp add: group_changes_def)

lemma total_changes_refl: "total_changes (zip gs gs) = Some 0"
  by (induction gs) (simp_all add: group_changes_refl)

lemma total_changes_append:
  "total_changes (xs @ ys) =
     (case total_changes xs of None \<Rightarrow> None
      | Some n \<Rightarrow> (case total_changes ys of None \<Rightarrow> None | Some m \<Rightarrow> Some (n + m)))"
  by (induction xs) (auto split: option.splits)

lemma transition_in_list:
  assumes "ValidAppGroupTransition D [g] [h]" and "ValidateAppGroups D (pre @ g # post) = None"
  shows "ValidAppGroupTransition D (pre @ g # post) (pre @ h # post)"
    and "ValidateAppGroups D (pre @ h # post) = None"
proof -
  have h: "group_valid D h" "group_changes g h = Some 1"
    using assms(1) by (simp_all add: transition_single)
  have "ag_binding h = ag_binding g"
    using group_changes_Some(1) [OF h(2)] by simp
  then show 1: "ValidateAppGroups D (pre @ h # post) = None"
    using assms(2) h(1) by (auto simp: ValidateAppGroups_None)
  have "total_changes (zip (pre @ g # post) (pre @ h # post)) = Some 1"
    by (simp add: total_changes_append total_changes_refl h(2))
  then show "ValidAppGroupTransition D (pre @ g # post) (pre @ h # post)"
    using 1 by (simp add: ValidAppGroupTransition_def)
qed

lemma group_write_admitted:
  assumes "journal_step (group_digest K) A g h" and "ValidateAppGroups (group_digest K) (pre @ g # post) = None"
    and "mr_kind r = KindRestoreActivation" and "\<And>a. A a \<Longrightarrow> phase_admits_group_effect p a"
  shows "validRestoreAppGroupTransition K (r\<lparr>mr_restore := Some (s\<lparr>rs_groups := pre @ g # post\<rparr>)\<rparr>) p p
        (Some (s\<lparr>rs_groups := pre @ h # post\<rparr>))"
proof -
  have st: "ValidAppGroupTransition (group_digest K) [g] [h]" "ag_closed h = ag_closed g"
    "length (ag_effects h) > length (ag_effects g) \<longrightarrow> A (ge_action (last (ag_effects h)))"
    using assms(1) by (auto simp: journal_step_def)
  have "list_all (\<lambda>(a, b). group_change_ok p a b) (zip xs xs)" for xs
    by (induction xs) (simp_all add: group_change_ok_def)
  moreover have "group_change_ok p g h"
    using st assms(4) by (auto simp: group_change_ok_def)
  ultimately show ?thesis
    using assms(3) transition_in_list [OF st(1) assms(2)]
    by (simp add: validRestoreAppGroupTransition_def)
qed

lemma group_chain_admitted:
  assumes "group_chain (group_digest K) A g hs" and "ValidateAppGroups (group_digest K) (pre @ g # post) = None"
    and "mr_kind r = KindRestoreActivation" and "\<And>a. A a \<Longrightarrow> phase_admits_group_effect p a"
  shows "group_writes_admitted K r s p pre post g hs"
  using assms(1,2)
proof (induction hs arbitrary: g)
  case (Cons h hs)
  then have "journal_step (group_digest K) A g h" by simp
  with Cons group_write_admitted [OF this Cons.prems(2) assms(3,4)] show ?case
    using transition_in_list(2) [of "group_digest K" g h pre post] by (auto simp: journal_step_def)
qed simp

text \<open>
  A restore activation may sign everything \<open>AdvanceAppGroup\<close> writes: in the phase that admits
  the action, each value it persists for one group of the journaled list is a record change that
  \<open>RecordRestoreAppGroups\<close> admits, settlement of earlier effects included.
\<close>

theorem advance_group_admitted_by_restore_journal:
  assumes "AdvanceAppGroup E (group_digest K) g (Some a) = (evs, h, e)"
    and "phase_admits_group_effect p (Some a)" and "mr_kind r = KindRestoreActivation"
    and "ValidateAppGroups (group_digest K) (pre @ g # post) = None"
  shows "group_writes_admitted K r s p pre post g (gpersisted evs)"
proof (rule group_chain_admitted)
  show "group_chain (group_digest K) (\<lambda>x. x = Some a) g (gpersisted evs)"
    using AdvanceAppGroup_ok [of E "group_digest K" a g] assms(1) by (auto simp: advance_ok_def)
qed (use assms in auto)

subsection \<open>Concrete records\<close>

definition sample_restore_state :: restore_state where
  "sample_restore_state =
     \<lparr>rs_closures = [], rs_groups = [], rs_controls = [],
      rs_authority = \<lparr>au_operation_id = ''restore-1'', au_owner_ref = ''o'', au_restore_result = ''r'',
        au_safety_snapshot = sample_digest CHR ''1'', au_plan_hash = sample_digest CHR ''2'',
        au_manifest_hash = sample_digest CHR ''3'', au_apply_result_hash = sample_digest CHR ''4'',
        au_volume_set_hash = sample_digest CHR ''5'', au_volumes = [''va'', ''vb'']\<rparr>,
      rs_rollback_prepared = Some [], rs_activated = Some [], rs_in_flight = None\<rparr>"

definition sample_restore_record :: "phase \<Rightarrow> restore_state \<Rightarrow> mutation_record" where
  "sample_restore_record p s =
     \<lparr>mr_api_version = APIVersion, mr_operation_id = ''restore-1'', mr_kind = KindRestoreActivation,
      mr_workspace_hash = sample_digest CHR ''a'', mr_owner_ref = ''o'', mr_status = StatusActive,
      mr_phase = p, mr_sequence = 1, mr_previous = [], mr_checkpoint = no_checkpoint,
      mr_target = no_release, mr_prior = no_release, mr_restore = Some s, mr_upgrade_data = None,
      mr_join = None, mr_updated_at = 1, mr_signature = no_signature\<rparr>"

definition sample_release :: "char \<Rightarrow> string \<Rightarrow> release_authority" where
  "sample_release c v = \<lparr>ra_authority = [], ra_version = v, ra_archive = sample_digest c,
     ra_executable = sample_digest c\<rparr>"

definition sample_upgrade_record :: "phase \<Rightarrow> upgrade_data_state option \<Rightarrow> mutation_record" where
  "sample_upgrade_record p d =
     \<lparr>mr_api_version = APIVersion, mr_operation_id = ''upgrade-1'', mr_kind = KindUpgrade,
      mr_workspace_hash = sample_digest CHR ''a'', mr_owner_ref = ''o'', mr_status = StatusActive,
      mr_phase = p, mr_sequence = 1, mr_previous = [],
      mr_checkpoint = \<lparr>cp_executor_state = sample_digest CHR ''1'', cp_kopia_anchor = sample_digest CHR ''2''\<rparr>,
      mr_target = sample_release CHR ''3'' ''1.2.0'', mr_prior = sample_release CHR ''4'' ''1.1.0'',
      mr_restore = None, mr_upgrade_data = d, mr_join = None, mr_updated_at = 1,
      mr_signature = no_signature\<rparr>"

definition sample_data_state :: upgrade_data_state where
  "sample_data_state =
     \<lparr>us_authority = \<lparr>ud_source_graph = sample_digest CHR ''1'', ud_target_topology = sample_digest CHR ''2'',
        ud_target_custody = sample_digest CHR ''3'', ud_restore_result = sample_digest CHR ''4'',
        ud_volume_set_hash = sample_digest CHR ''5'', ud_live_volumes = [''va'', ''vb'']\<rparr>,
      us_completed = Some [''va''], us_in_flight = Some \<lparr>ustep_volume = ''vb''\<rparr>\<rparr>"

definition sample_digest_env :: digest_env where
  "sample_digest_env = \<lparr>group_digest = sample_digest_of, volumes_digest = (\<lambda>_. Some (sample_digest CHR ''5''))\<rparr>"

lemma sample_restore_valid:
  "validateRecord sample_digest_env (sample_restore_record PhasePrepared sample_restore_state) = None"
  by code_simp

lemma sample_data_valid:
  "validateRecord sample_digest_env (sample_upgrade_record PhaseRollbackDataCopyStarted (Some sample_data_state)) = None"
  by code_simp

definition sample_restore_progress :: restore_progress where
  "sample_restore_progress = \<lparr>pr_rollback_prepared = Some [], pr_activated = Some [], pr_in_flight = None\<rparr>"

lemma sample_restore_change:
  "restore_change sample_digest_env PhasePrepared sample_restore_state PhaseQuiesceStarted sample_restore_progress"
  by code_simp

theorem restore_transition_revalidates_witness:
  "validateRecord sample_digest_env
     (next_record (sample_restore_record PhasePrepared sample_restore_state) PhaseQuiesceStarted None 2 7
        (sample_digest CHR ''b'')) = None"
proof -
  let ?r = "sample_restore_record PhasePrepared sample_restore_state"
  have "canonicalDigest (sample_digest CHR ''b'')"
    by code_simp
  moreover have "with_progress sample_restore_state sample_restore_progress = sample_restore_state"
    by (simp add: with_progress_def sample_restore_state_def sample_restore_progress_def)
  moreover have "?r\<lparr>mr_restore := Some sample_restore_state\<rparr> = ?r"
    by (simp add: sample_restore_record_def)
  moreover have "validateRestoreAppGroupsForPhase sample_digest_env PhaseQuiesceStarted (rs_groups sample_restore_state) = None"
    by code_simp
  ultimately show ?thesis
    using restore_transition_revalidates [OF sample_restore_valid, where s = sample_restore_state
        and q = PhaseQuiesceStarted and n = sample_restore_progress and sq = 2 and now = 7 and d = "sample_digest CHR ''b''"]
      sample_restore_change
    by (simp add: sample_restore_record_def sample_restore_progress_def)
qed

theorem restore_activation_ends_witness:
  "(restore_rel sample_digest_env ^^ 1) (PhasePrepared, sample_restore_state) (PhaseQuiesceStarted, sample_restore_state) \<and>
   (copy_step 2 ^^ 1) (PhasePrepared, 0, 0) (PhaseQuiesceStarted, 0, 0)"
proof -
  have rel: "(restore_rel sample_digest_env ^^ 1) (PhasePrepared, sample_restore_state) (PhaseQuiesceStarted, sample_restore_state)"
    unfolding relpowp_1 restore_rel_def
    using sample_restore_change
    by (simp add: restore_progress_of_def sample_restore_progress_def) (simp add: sample_restore_state_def)
  have "restore_phase_progress PhasePrepared sample_restore_state = None" "restore_prefix_ok sample_restore_state"
    by code_simp+
  note ends = restore_activation_ends [OF rel this]
  have "abs_restore p sample_restore_state = (p, 0, 0)" for p
    by (simp add: abs_restore_def prepared_count_def active_count_def sample_restore_state_def)
  moreover have "volume_count sample_restore_state = 2"
    by (simp add: volume_count_def sample_restore_state_def)
  ultimately show ?thesis
    using ends rel by metis
qed

theorem data_transition_revalidates_witness:
  "validateRecord sample_digest_env
     (next_record (sample_upgrade_record PhaseRollbackDataCopyStarted
        (Some (with_data_progress sample_data_state \<lparr>up_completed = Some [''va'', ''vb''], up_in_flight = None\<rparr>)))
        PhaseRollbackDataCopySucceeded None 2 7 (sample_digest CHR ''b'')) = None"
proof -
  let ?n = "\<lparr>up_completed = Some [''va'', ''vb''], up_in_flight = None\<rparr>"
  have "canonicalDigest (sample_digest CHR ''b'')"
    by code_simp
  moreover have "validateUpgradeDataActivationProgressTransition sample_digest_env PhaseRollbackDataCopyStarted
      PhaseRollbackDataCopySucceeded sample_data_state ?n = None"
    by code_simp
  moreover have "allowedTransition KindUpgrade PhaseRollbackDataCopyStarted PhaseRollbackDataCopySucceeded"
    by (simp add: allowedTransition_def successors_def upgrade_table_def)
  ultimately show ?thesis
    using data_transition_revalidates [OF sample_data_valid, where s = sample_data_state and n = ?n
        and q = PhaseRollbackDataCopySucceeded and sq = 2 and now = 7 and d = "sample_digest CHR ''b''"]
    by (simp add: sample_upgrade_record_def)
qed

theorem advance_admitted_by_restore_journal_witness:
  "writes_admitted (sample_restore_record PhaseQuiesceStarted sample_restore_state) sample_restore_state
     PhaseQuiesceStarted [] [] sample_control
     (persisted (fst (AdvanceRuntimeControl sample_env sample_control (Some Stop))))"
proof -
  have "mr_kind (sample_restore_record PhaseQuiesceStarted sample_restore_state) = KindRestoreActivation"
    by (simp add: sample_restore_record_def)
  moreover have "ValidateRuntimeControls ([] @ sample_control # []) = None"
    using sample_control_ok by (simp add: ValidateRuntimeControls_single)
  ultimately show ?thesis
    using advance_admitted_by_restore_journal [OF sample_run, of PhaseQuiesceStarted _ "[]" "[]"]
    by (simp add: sample_run)
qed

theorem advance_group_admitted_by_restore_journal_witness:
  "group_writes_admitted sample_digest_env (sample_restore_record PhaseQuiesceStarted sample_restore_state)
     sample_restore_state PhaseQuiesceStarted [] [] sample_group
     (gpersisted (fst (AdvanceAppGroup sample_group_env sample_digest_of sample_group (Some Stop))))"
proof -
  obtain evs h e where run: "AdvanceAppGroup sample_group_env (group_digest sample_digest_env) sample_group (Some Stop) = (evs, h, e)"
    by (metis prod_cases3)
  have "ValidateAppGroups (group_digest sample_digest_env) ([] @ sample_group # []) = None"
    using sample_group_valid by (simp add: sample_digest_env_def)
  moreover have "mr_kind (sample_restore_record PhaseQuiesceStarted sample_restore_state) = KindRestoreActivation"
    by (simp add: sample_restore_record_def)
  ultimately show ?thesis
    using advance_group_admitted_by_restore_journal [OF run, of PhaseQuiesceStarted _ "[]" "[]"] run
    by (simp add: phase_admits_group_effect_def) (simp add: sample_digest_env_def)
qed

end
