(* ===== verification/MutationJournal.thy ===== *)
theory MutationJournal
  imports MutationRecord "HOL-Library.Product_Lexorder" "HOL-Library.AList"
begin

text \<open>
  The signed lifecycle journal on disk (\<open>internal/lifecyclemutation/journal.go\<close>): decoding of a
  record, the immutable history of an operation, the active pointer, the write of a record with
  the faults a write can have, and the repair of a stale pointer.

  The store holds the file contents the code reads and writes: \<open>active.json\<close>, and per operation a
  directory of files. Bytes are a type parameter, and the code that turns records into bytes,
  hashes and signs them is the parameter \<open>W\<close>: canonical JSON, SHA-256, the owner's signature.
  Directory privacy checks and read errors are not modelled. A write may fail before or after it
  took effect, and the write of a history file may leave its temporary file in the directory, empty,
  in part or whole, which counts as an entry until it is removed; a process that stops between two
  steps leaves the store of the failed step.
\<close>

section \<open>Bytes and store\<close>

record 'b wire =
  w_encode :: "mutation_record \<Rightarrow> 'b"
  w_decode :: "'b \<Rightarrow> mutation_record option"
  w_size :: "'b \<Rightarrow> nat"
  w_take :: "nat \<Rightarrow> 'b \<Rightarrow> 'b"
  w_sha :: "'b \<Rightarrow> string"
  w_sign :: "'b \<Rightarrow> mutation_signature option"
  w_verify :: "'b \<Rightarrow> mutation_signature \<Rightarrow> bool"
  w_workspace :: string
  w_digests :: digest_env

type_synonym 'b dir = "(string \<times> 'b) list"

record 'b journal_store =
  js_active :: "'b option"
  js_dirs :: "(string \<times> 'b dir) list"

datatype journal_fault =
    Oversize | DecodeFailed | RecordInvalid journal_error | SignatureInvalid | OwnerOrWorkspaceDiffers
  | NotCanonical | HistoryMissing | HistoryTooLong | TemporaryInvalid | SubstitutedOperation
  | FilenameDiffers | HistoryNoOrigin | HistoryNotLinear | SeveralActive
  | ActiveOrphan | StalePointer | DivergentActive | TerminalHidesActive
  | OperationIDInvalid | RecoveryNotUnique | RecoveryHidden | TamperedPointer | OtherOperationActive
  | PreviousUnreadable | PreviousChanged | SigningFailed | WriteFailed | SyncFailed | RereadDiffers

definition maxRecordBytes :: nat where
  "maxRecordBytes = 2 ^ 20"

definition digest_of :: "'b wire \<Rightarrow> 'b \<Rightarrow> string" where
  "digest_of W raw = sha256_prefix @ w_sha W raw"

definition signingBytes :: "'b wire \<Rightarrow> mutation_record \<Rightarrow> 'b" where
  "signingBytes W r = w_encode W (r\<lparr>mr_signature := no_signature\<rparr>)"

definition decodeRecord :: "'b wire \<Rightarrow> 'b \<Rightarrow> journal_fault + mutation_record \<times> string" where
  "decodeRecord W raw =
     (if w_size W raw > maxRecordBytes then Inl Oversize
      else case w_decode W raw of
        None \<Rightarrow> Inl DecodeFailed
      | Some r \<Rightarrow>
         (case validateRecord (w_digests W) r of
            Some e \<Rightarrow> Inl (RecordInvalid e)
          | None \<Rightarrow>
              if \<not> w_verify W (signingBytes W r) (mr_signature r) then Inl SignatureInvalid
              else if sg_owner_ref (mr_signature r) \<noteq> mr_owner_ref r \<or> mr_workspace_hash r \<noteq> w_workspace W
              then Inl OwnerOrWorkspaceDiffers
              else if raw \<noteq> w_encode W r then Inl NotCanonical
              else Inr (r, digest_of W raw)))"

section \<open>History of an operation\<close>

text \<open>The file name \<open>%020d-%s.json\<close>: the sequence in 20 decimal digits, and the digest in hex.\<close>

definition dec_digit :: "nat \<Rightarrow> char" where
  "dec_digit n = char_of (48 + n mod 10)"

fun dec_fixed :: "nat \<Rightarrow> nat \<Rightarrow> string" where
  "dec_fixed 0 n = []"
| "dec_fixed (Suc k) n = dec_fixed k (n div 10) @ [dec_digit n]"

definition history_name :: "64 word \<Rightarrow> string \<Rightarrow> string" where
  "history_name sq d = dec_fixed 20 (unat sq) @ ''-'' @ drop 7 d @ ''.json''"

definition temp_prefix :: string where
  "temp_prefix = ''.stackkit-tmp-''"

type_synonym entry = "mutation_record \<times> string"

fun read_entries :: "'b wire \<Rightarrow> string \<Rightarrow> 'b dir \<Rightarrow> journal_fault + entry list" where
  "read_entries W op [] = Inr []"
| "read_entries W op ((name, raw) # fs) =
     (if has_prefix name temp_prefix
      then if w_size W raw > maxRecordBytes then Inl TemporaryInvalid else read_entries W op fs
      else ebind (decodeRecord W raw) (\<lambda>(r, d).
             if mr_operation_id r \<noteq> op then Inl SubstitutedOperation
             else if name \<noteq> history_name (mr_sequence r) d then Inl FilenameDiffers
             else ebind (read_entries W op fs) (\<lambda>hs. Inr ((r, d) # hs))))"

definition entry_key :: "entry \<Rightarrow> 64 word \<times> string" where
  "entry_key h = (mr_sequence (fst h), snd h)"

fun linear_from :: "entry \<Rightarrow> entry list \<Rightarrow> bool" where
  "linear_from p [] = True"
| "linear_from p (h # hs) =
     (mr_sequence (fst h) = mr_sequence (fst p) + 1 \<and> mr_previous (fst h) = snd p \<and> linear_from h hs)"

definition check_history :: "entry list \<Rightarrow> journal_fault + entry" where
  "check_history hs =
     (case hs of
        [] \<Rightarrow> Inl HistoryNoOrigin
      | h # rest \<Rightarrow>
          if mr_sequence (fst h) \<noteq> 1 \<or> mr_previous (fst h) \<noteq> [] then Inl HistoryNoOrigin
          else if \<not> linear_from h rest then Inl HistoryNotLinear
          else Inr (last hs))"

text \<open>The walk of a directory yields the directory itself and its files.\<close>

definition latestHistoryRecord :: "'b wire \<Rightarrow> 'b journal_store \<Rightarrow> string \<Rightarrow> journal_fault + entry" where
  "latestHistoryRecord W st op =
     (case map_of (js_dirs st) op of
        None \<Rightarrow> Inl HistoryMissing
      | Some fs \<Rightarrow>
          if 1 + length fs > 257 then Inl HistoryTooLong
          else ebind (read_entries W op fs) (\<lambda>hs. check_history (sort_key entry_key hs)))"

text \<open>The operations whose last record still blocks a mutation, with its digest.\<close>

fun collect_heads :: "'b wire \<Rightarrow> 'b journal_store \<Rightarrow> string list \<Rightarrow> journal_fault + (string \<times> string) list" where
  "collect_heads W st [] = Inr []"
| "collect_heads W st (op # ops) =
     ebind (latestHistoryRecord W st op) (\<lambda>(r, d).
       ebind (collect_heads W st ops) (\<lambda>hs.
         Inr (if recordBlocksMutation r then (op, d) # hs else hs)))"

definition activeHistoryHeads :: "'b wire \<Rightarrow> 'b journal_store \<Rightarrow> journal_fault + (string \<times> string) list" where
  "activeHistoryHeads W st =
     ebind (collect_heads W st (sort (remdups (map fst (js_dirs st))))) (\<lambda>hs.
       if length hs > 1 then Inl SeveralActive else Inr hs)"

section \<open>The active pointer\<close>

definition loadRecord :: "'b wire \<Rightarrow> 'b journal_store \<Rightarrow> journal_fault + entry option" where
  "loadRecord W st =
     (case js_active st of
        None \<Rightarrow> ebind (activeHistoryHeads W st) (\<lambda>heads. if heads \<noteq> [] then Inl ActiveOrphan else Inr None)
      | Some raw \<Rightarrow>
          ebind (decodeRecord W raw) (\<lambda>(r, d).
          ebind (latestHistoryRecord W st (mr_operation_id r)) (\<lambda>(latest, latest_digest).
            if mr_sequence latest \<noteq> mr_sequence r \<or> latest_digest \<noteq> d then Inl StalePointer
            else ebind (activeHistoryHeads W st) (\<lambda>heads.
              if recordBlocksMutation r \<and>
                 (length heads \<noteq> 1 \<or> map_of heads (mr_operation_id r) \<noteq> Some d) then Inl DivergentActive
              else if \<not> recordBlocksMutation r \<and> heads \<noteq> [] then Inl TerminalHidesActive
              else Inr (Some (r, d))))))"

section \<open>Writing\<close>

text \<open>
  A write fills an exclusive temporary file beside its target and then installs it under the
  target's name. A write that fails, or a process that stops, can leave the temporary file: the
  random part of its name, and the number of bytes written to it so far.
\<close>

type_synonym temporary = "string \<times> nat"

text \<open>
  How a write ends: without an error; with an error, the bytes installed or not, and a directory
  sync that succeeds or not when the code asks for it; or refused because the root or the entry
  is unsafe. In the last two cases the temporary file may stay.
\<close>

datatype write_outcome =
    Written
  | WriteError (installed: bool) (synced: bool) "temporary option"
  | WriteRefused (installed: bool) "temporary option"

fun leftover :: "write_outcome \<Rightarrow> temporary option" where
  "leftover Written = None"
| "leftover (WriteError _ _ t) = t"
| "leftover (WriteRefused _ t) = t"

definition takes_effect :: "write_outcome \<Rightarrow> bool" where
  "takes_effect out \<longleftrightarrow> out = Written \<or> installed out"

text \<open>A write that must not replace fails when the file exists.\<close>

definition no_replace :: "bool \<Rightarrow> write_outcome \<Rightarrow> write_outcome" where
  "no_replace exists out =
     (if exists then (case out of Written \<Rightarrow> WriteError False True None
                      | WriteError _ s t \<Rightarrow> WriteError False s t | WriteRefused _ t \<Rightarrow> WriteRefused False t)
      else out)"

definition settleJournalWrite :: "write_outcome \<Rightarrow> 'b option \<Rightarrow> 'b \<Rightarrow> journal_fault option" where
  "settleJournalWrite out actual expected =
     (case out of
        Written \<Rightarrow> None
      | WriteRefused _ _ \<Rightarrow> Some WriteFailed
      | WriteError _ s _ \<Rightarrow> if actual \<noteq> Some expected then Some WriteFailed
                         else if s then None else Some SyncFailed)"

definition dir_of :: "'b journal_store \<Rightarrow> string \<Rightarrow> 'b dir" where
  "dir_of st op = (case map_of (js_dirs st) op of None \<Rightarrow> [] | Some fs \<Rightarrow> fs)"

definition set_dir :: "string \<Rightarrow> 'b dir \<Rightarrow> 'b journal_store \<Rightarrow> 'b journal_store" where
  "set_dir op fs st = st\<lparr>js_dirs := AList.update op fs (js_dirs st)\<rparr>"

definition make_dir :: "string \<Rightarrow> 'b journal_store \<Rightarrow> 'b journal_store" where
  "make_dir op st = set_dir op (dir_of st op) st"

text \<open>
  The temporary file of a write in a directory: it is created under a name that is not in use, and
  holds the first bytes of what was to be written.
\<close>

definition leave :: "'b wire \<Rightarrow> temporary option \<Rightarrow> 'b \<Rightarrow> 'b dir \<Rightarrow> 'b dir" where
  "leave W t raw fs =
     (case t of
        None \<Rightarrow> fs
      | Some (suffix, n) \<Rightarrow>
          if map_of fs (temp_prefix @ suffix) \<noteq> None then fs else fs @ [(temp_prefix @ suffix, w_take W n raw)])"

definition leave_in :: "'b wire \<Rightarrow> string \<Rightarrow> temporary option \<Rightarrow> 'b \<Rightarrow> 'b journal_store \<Rightarrow> 'b journal_store" where
  "leave_in W op t raw st = (if t = None then st else set_dir op (leave W t raw (dir_of st op)) st)"

text \<open>
  The temporary file counts among the files of the directory. The pointer's own write leaves its
  temporary file beside the pointer, where nothing is listed, so only its effect is modelled.
\<close>

definition write_history ::
  "'b wire \<Rightarrow> write_outcome \<Rightarrow> string \<Rightarrow> string \<Rightarrow> 'b \<Rightarrow> 'b journal_store \<Rightarrow> 'b journal_store \<times> journal_fault option" where
  "write_history W out op name raw st =
     (let real = no_replace (map_of (dir_of st op) name \<noteq> None) out;
          st0 = leave_in W op (leftover real) raw st;
          st1 = (if takes_effect real then set_dir op (dir_of st0 op @ [(name, raw)]) st0 else st0) in
      (st1, settleJournalWrite real (map_of (dir_of st1 op) name) raw))"

definition write_active ::
  "write_outcome \<Rightarrow> 'b \<Rightarrow> 'b journal_store \<Rightarrow> 'b journal_store \<times> journal_fault option" where
  "write_active out raw st =
     (let st1 = (if takes_effect out then st\<lparr>js_active := Some raw\<rparr> else st) in
      (st1, settleJournalWrite out (js_active st1) raw))"

text \<open>
  \<open>persistRecord\<close>: the store, the signed record, its digest (empty where the code returns none)
  and the error.
\<close>

definition reread :: "'b wire \<Rightarrow> 'b journal_store \<Rightarrow> mutation_record \<Rightarrow> string \<Rightarrow> journal_fault option" where
  "reread W st r d =
     (case loadRecord W st of
        Inl x \<Rightarrow> Some x
      | Inr None \<Rightarrow> Some RereadDiffers
      | Inr (Some (l, ld)) \<Rightarrow>
          check (mr_operation_id l \<noteq> mr_operation_id r \<or> mr_sequence l \<noteq> mr_sequence r \<or>
                 mr_phase l \<noteq> mr_phase r \<or> mr_status l \<noteq> mr_status r \<or> ld \<noteq> d) RereadDiffers)"

definition previous_unchanged :: "'b wire \<Rightarrow> 'b journal_store \<Rightarrow> string \<Rightarrow> journal_fault option" where
  "previous_unchanged W st prev =
     (if prev = [] then None
      else case js_active st of
        None \<Rightarrow> Some PreviousUnreadable
      | Some raw \<Rightarrow> check (digest_of W raw \<noteq> prev) PreviousChanged)"

definition persistRecord ::
  "'b wire \<Rightarrow> write_outcome \<Rightarrow> write_outcome \<Rightarrow> 'b journal_store \<Rightarrow> mutation_record \<Rightarrow> string \<Rightarrow>
   'b journal_store \<times> mutation_record \<times> string \<times> journal_fault option" where
  "persistRecord W oh oa st r prev =
     (case previous_unchanged W st prev of
        Some x \<Rightarrow> (st, r, [], Some x)
      | None \<Rightarrow>
       (let r1 = r\<lparr>mr_previous := prev, mr_signature := no_signature\<rparr> in
        case w_sign W (signingBytes W r1) of
          None \<Rightarrow> (st, r1, [], Some SigningFailed)
        | Some sg \<Rightarrow>
            let r2 = r1\<lparr>mr_signature := sg\<rparr>; raw = w_encode W r2; d = digest_of W raw;
                op = mr_operation_id r2 in
            if w_size W raw > maxRecordBytes then (st, r2, [], Some Oversize)
            else
              (case write_history W oh op (history_name (mr_sequence r2) d) raw (make_dir op st) of
                 (st1, Some x) \<Rightarrow> (st1, r2, [], Some x)
               | (st1, None) \<Rightarrow>
                  (case write_active oa raw st1 of
                     (st2, Some x) \<Rightarrow> (st2, r2, d, Some x)
                   | (st2, None) \<Rightarrow> (st2, r2, d, reread W st2 r2 d)))))"

text \<open>\<open>recoverLatestRecord\<close> repairs a stale or missing pointer from the history.\<close>

definition pointer_settled :: "'b wire \<Rightarrow> 'b journal_store \<Rightarrow> string \<Rightarrow> string \<Rightarrow> journal_fault + bool" where
  "pointer_settled W st op latest_digest =
     (case js_active st of
        None \<Rightarrow> Inr False
      | Some raw \<Rightarrow>
         (case decodeRecord W raw of
            Inl _ \<Rightarrow> Inl TamperedPointer
          | Inr (r, d) \<Rightarrow>
              if recordBlocksMutation r \<and> mr_operation_id r \<noteq> op then Inl OtherOperationActive
              else Inr (mr_operation_id r = op \<and> d = latest_digest)))"

definition recoverLatestRecord ::
  "'b wire \<Rightarrow> write_outcome \<Rightarrow> 'b journal_store \<Rightarrow> string \<Rightarrow> 'b journal_store \<times> (journal_fault + entry)" where
  "recoverLatestRecord W oa st op =
     (if \<not> operationPattern op then (st, Inl OperationIDInvalid)
      else case latestHistoryRecord W st op of
        Inl x \<Rightarrow> (st, Inl x)
      | Inr (latest, d) \<Rightarrow>
         (case activeHistoryHeads W st of
            Inl x \<Rightarrow> (st, Inl x)
          | Inr heads \<Rightarrow>
              if recordBlocksMutation latest \<and> (length heads \<noteq> 1 \<or> map_of heads op \<noteq> Some d)
              then (st, Inl RecoveryNotUnique)
              else if \<not> recordBlocksMutation latest \<and> heads \<noteq> [] then (st, Inl RecoveryHidden)
              else (case pointer_settled W st op d of
                      Inl x \<Rightarrow> (st, Inl x)
                    | Inr True \<Rightarrow> (st, Inr (latest, d))
                    | Inr False \<Rightarrow>
                        let raw = w_encode W latest;
                            st1 = (if takes_effect oa then st\<lparr>js_active := Some raw\<rparr> else st) in
                        if oa = Written then (st1, Inr (latest, d)) else (st1, Inl WriteFailed))))"

section \<open>Laws of the bytes\<close>

text \<open>
  What the code relies on: decoding inverts encoding, a signature just made verifies and carries
  the owner, a digest has the shape of a digest, and the first bytes are no more than all of them.
\<close>

definition lawful_wire :: "'b wire \<Rightarrow> bool" where
  "lawful_wire W \<longleftrightarrow> (\<forall>r. w_decode W (w_encode W r) = Some r) \<and>
     (\<forall>b sg. w_sign W b = Some sg \<longrightarrow> w_verify W b sg) \<and>
     (\<forall>b. canonicalDigest (digest_of W b)) \<and> (\<forall>n b. w_size W (w_take W n b) \<le> w_size W b)"

lemma decodeRecord_Inr:
  "decodeRecord W raw = Inr (r, d) \<longleftrightarrow>
     w_size W raw \<le> maxRecordBytes \<and> w_decode W raw = Some r \<and> validateRecord (w_digests W) r = None \<and>
     w_verify W (signingBytes W r) (mr_signature r) \<and> sg_owner_ref (mr_signature r) = mr_owner_ref r \<and>
     mr_workspace_hash r = w_workspace W \<and> raw = w_encode W r \<and> d = digest_of W raw"
  by (auto simp: decodeRecord_def split: option.splits)

lemma read_entries_append:
  "read_entries W op (fs @ gs) =
     ebind (read_entries W op fs) (\<lambda>hs. ebind (read_entries W op gs) (\<lambda>ks. Inr (hs @ ks)))"
proof (induction fs)
  case Nil
  then show ?case by (cases "read_entries W op gs") simp_all
next
  case (Cons f fs)
  obtain name raw where f: "f = (name, raw)" by fastforce
  show ?case
  proof (cases "has_prefix name temp_prefix")
    case True
    with Cons show ?thesis by (simp add: f)
  next
    case False
    show ?thesis
    proof (cases "decodeRecord W raw")
      case (Inr h)
      obtain r d where "h = (r, d)" by fastforce
      with Inr False Cons.IH show ?thesis
        by (cases "read_entries W op fs"; cases "read_entries W op gs") (auto simp: f)
    qed (simp add: f False)
  qed
qed

lemma read_entries_length:
  "read_entries W op fs = Inr hs \<Longrightarrow> length hs \<le> length fs"
proof (induction fs arbitrary: hs)
  case (Cons f fs)
  obtain name raw where "f = (name, raw)" by fastforce
  with Cons show ?case
    by (fastforce split: if_splits prod.splits)
qed simp

text \<open>Each entry is the decoding of one file of the directory, under its own name.\<close>

lemma read_entries_files:
  "read_entries W op fs = Inr hs \<Longrightarrow> (r, d) \<in> set hs \<Longrightarrow>
     \<exists>raw. (history_name (mr_sequence r) d, raw) \<in> set fs \<and> decodeRecord W raw = Inr (r, d) \<and> mr_operation_id r = op"
proof (induction fs arbitrary: hs)
  case (Cons f fs)
  obtain name raw where f: "f = (name, raw)" by fastforce
  show ?case
  proof (cases "has_prefix name temp_prefix")
    case True
    with Cons f show ?thesis by (force split: if_splits)
  next
    case False
    with Cons.prems(1) f obtain r1 d1 hs1 where *: "decodeRecord W raw = Inr (r1, d1)" "mr_operation_id r1 = op"
      "name = history_name (mr_sequence r1) d1" "read_entries W op fs = Inr hs1" "hs = (r1, d1) # hs1"
      by (auto split: if_splits prod.splits)
    with Cons.prems(2) Cons.IH [OF *(4)] f show ?thesis by auto
  qed
qed simp

section \<open>Linear histories\<close>

lemma linear_from_snoc:
  "linear_from p (hs @ [x]) \<longleftrightarrow> linear_from p hs \<and>
     mr_sequence (fst x) = mr_sequence (fst (last (p # hs))) + 1 \<and> mr_previous (fst x) = snd (last (p # hs))"
  by (induction hs arbitrary: p) auto

lemma linear_from_nth:
  "linear_from p hs \<Longrightarrow> i < length hs \<Longrightarrow>
     mr_sequence (fst (hs ! i)) = mr_sequence (fst p) + of_nat (i + 1) \<and>
     mr_previous (fst (hs ! i)) = snd ((p # hs) ! i)"
proof (induction hs arbitrary: p i)
  case (Cons h hs)
  show ?case
  proof (cases i)
    case 0
    with Cons.prems show ?thesis by simp
  next
    case (Suc k)
    with Cons.prems Cons.IH [of h k] show ?thesis by (simp add: algebra_simps)
  qed
qed simp

lemma check_history_Inr:
  "check_history hs = Inr h \<longleftrightarrow>
     (\<exists>o1 rest. hs = o1 # rest \<and> mr_sequence (fst o1) = 1 \<and> mr_previous (fst o1) = [] \<and>
        linear_from o1 rest \<and> h = last hs)"
  by (auto simp: check_history_def split: list.splits)

lemma check_history_nth:
  assumes "check_history hs = Inr h" and "i < length hs"
  shows "mr_sequence (fst (hs ! i)) = of_nat (i + 1)"
    and "mr_previous (fst (hs ! i)) = (if i = 0 then [] else snd (hs ! (i - 1)))"
proof -
  obtain o1 rest where hs: "hs = o1 # rest" "mr_sequence (fst o1) = 1" "mr_previous (fst o1) = []" "linear_from o1 rest"
    using assms(1) by (auto simp: check_history_Inr)
  show "mr_sequence (fst (hs ! i)) = of_nat (i + 1)"
    using assms(2) hs linear_from_nth [OF hs(4), of "i - 1"] by (cases i) auto
  show "mr_previous (fst (hs ! i)) = (if i = 0 then [] else snd (hs ! (i - 1)))"
    using assms(2) hs linear_from_nth [OF hs(4), of "i - 1"] by (cases i) auto
qed

lemma check_history_last:
  assumes "check_history hs = Inr h"
  shows "hs \<noteq> [] \<and> h = last hs \<and> mr_sequence (fst h) = of_nat (length hs)"
proof -
  have hs: "hs \<noteq> []" "h = last hs"
    using assms by (auto simp: check_history_Inr)
  then show ?thesis
    using check_history_nth(1) [OF assms, of "length hs - 1"] by (simp add: last_conv_nth)
qed

lemma check_history_snoc:
  assumes "check_history hs = Inr h" and "mr_sequence (fst x) = mr_sequence (fst h) + 1"
    and "mr_previous (fst x) = snd h"
  shows "check_history (hs @ [x]) = Inr x"
  using assms by (auto simp: check_history_Inr linear_from_snoc)

lemma insort_key_snoc: "f y \<le> f x \<Longrightarrow> insort_key f y (zs @ [x]) = insort_key f y zs @ [x]"
  by (induction zs) auto

lemma sort_key_snoc:
  assumes "\<And>y. y \<in> set xs \<Longrightarrow> f y \<le> f x"
  shows "sort_key f (xs @ [x]) = sort_key f xs @ [x]"
  using assms by (induction xs) (simp_all add: insort_key_snoc)

text \<open>A history with its files: what \<open>latestHistoryRecord\<close> found.\<close>

lemma latest_Inr:
  "latestHistoryRecord W st op = Inr h \<longleftrightarrow>
     (\<exists>fs hs. map_of (js_dirs st) op = Some fs \<and> length fs \<le> 256 \<and> read_entries W op fs = Inr hs \<and>
        check_history (sort_key entry_key hs) = Inr h)"
  by (auto simp: latestHistoryRecord_def split: option.splits)

lemma unat_small: "n < 2 ^ 64 \<Longrightarrow> unat (of_nat n :: 64 word) = n"
  by (simp add: unat_of_nat take_bit_nat_eq_self)

lemma history_sequences:
  assumes "check_history (sort_key entry_key hs) = Inr h" and "length hs \<le> 256"
  shows "y \<in> set hs \<Longrightarrow> unat (mr_sequence (fst y)) \<le> length hs"
    and "unat (mr_sequence (fst h)) = length hs"
proof -
  let ?s = "sort_key entry_key hs"
  show "unat (mr_sequence (fst y)) \<le> length hs" if y: "y \<in> set hs"
  proof -
    obtain i where i: "i < length hs" "y = ?s ! i"
      using y by (metis in_set_conv_nth length_sort set_sort)
    have "unat (of_nat (i + 1) :: 64 word) = i + 1"
      by (rule unat_small) (use i assms(2) in simp)
    then show ?thesis
      using check_history_nth(1) [OF assms(1), of i] i assms(2) by simp
  qed
  have "unat (of_nat (length hs) :: 64 word) = length hs"
    by (rule unat_small) (use assms(2) in simp)
  moreover have "mr_sequence (fst h) = of_nat (length hs)"
    using check_history_last [OF assms(1)] unfolding length_sort by blast
  ultimately show "unat (mr_sequence (fst h)) = length hs"
    by metis
qed

lemma dec_digit_inj: "dec_digit n = dec_digit m \<longleftrightarrow> n mod 10 = m mod 10"
proof
  assume "dec_digit n = dec_digit m"
  then have "of_char (dec_digit n) = (of_char (dec_digit m) :: nat)" by simp
  then show "n mod 10 = m mod 10" by (simp add: dec_digit_def)
qed (simp add: dec_digit_def)

lemma dec_digit_not_dot: "dec_digit n \<noteq> CHR ''.''"
proof
  assume "dec_digit n = CHR ''.''"
  then have "of_char (dec_digit n) = (of_char CHR ''.'' :: nat)" by simp
  then show False by (simp add: dec_digit_def)
qed

lemma length_dec_fixed [simp]: "length (dec_fixed k n) = k"
  by (induction k arbitrary: n) simp_all

lemma dec_fixed_inj: "dec_fixed k n = dec_fixed k m \<Longrightarrow> n < 10 ^ k \<Longrightarrow> m < 10 ^ k \<Longrightarrow> n = m"
proof (induction k arbitrary: n m)
  case (Suc k)
  then have "n div 10 = m div 10" "n mod 10 = m mod 10"
    by (auto simp: dec_digit_inj less_mult_imp_div_less mult.commute)
  then show ?case by (metis div_mult_mod_eq)
qed simp

lemma dec_fixed_head: "\<exists>i rest. dec_fixed (Suc k) n = dec_digit i # rest"
proof (induction k arbitrary: n)
  case (Suc k)
  from Suc [of "n div 10"] obtain i rest where "dec_fixed (Suc k) (n div 10) = dec_digit i # rest" by blast
  then have "dec_fixed (Suc (Suc k)) n = dec_digit i # (rest @ [dec_digit n])" by simp
  then show ?case by blast
qed auto

lemma history_name_seq: "history_name s d = history_name s' d' \<Longrightarrow> s = s'"
proof -
  assume *: "history_name s d = history_name s' d'"
  have "take 20 (history_name x y) = dec_fixed 20 (unat x)" for x y
    by (simp add: history_name_def)
  with * have "dec_fixed 20 (unat s) = dec_fixed 20 (unat s')"
    by metis
  moreover have "unat x < 10 ^ 20" for x :: "64 word"
    by (rule less_trans [OF unsigned_less]) simp
  ultimately show "s = s'"
    using dec_fixed_inj by (metis word_unat_eq_iff)
qed

lemma history_name_not_temp: "\<not> has_prefix (history_name s d) temp_prefix"
proof -
  obtain i rest where "dec_fixed 20 (unat s) = dec_digit i # rest"
    using dec_fixed_head [of 19 "unat s"] by auto
  then show ?thesis
    using dec_digit_not_dot by (simp add: history_name_def has_prefix_def temp_prefix_def)
qed

text \<open>Adding the successor record to a directory makes it the latest of its history.\<close>

lemma latest_append:
  assumes "map_of (js_dirs st) op = Some fs" and "latestHistoryRecord W st op = Inr (r0, d0)"
    and "map_of (js_dirs st') op = Some (fs @ [(history_name (mr_sequence r) d, raw)])" and "length fs < 256"
    and "decodeRecord W raw = Inr (r, d)" and "mr_operation_id r = op"
    and "mr_sequence r = mr_sequence r0 + 1" and "mr_previous r = d0"
  shows "latestHistoryRecord W st' op = Inr (r, d)"
proof -
  let ?name = "history_name (mr_sequence r) d"
  obtain hs where hs: "read_entries W op fs = Inr hs" "check_history (sort_key entry_key hs) = Inr (r0, d0)"
    using assms(1,2) by (auto simp: latest_Inr)
  have len: "length hs \<le> 256"
    using read_entries_length [OF hs(1)] assms(4) by simp
  have "read_entries W op (fs @ [(?name, raw)]) = Inr (hs @ [(r, d)])"
    using hs(1) assms(5,6) by (simp add: read_entries_append history_name_not_temp)
  moreover have "sort_key entry_key (hs @ [(r, d)]) = sort_key entry_key hs @ [(r, d)]"
  proof (rule sort_key_snoc)
    fix y assume "y \<in> set hs"
    then have "unat (mr_sequence (fst y)) \<le> length hs"
      using history_sequences(1) [OF hs(2) len] by simp
    moreover have "unat (mr_sequence r0) = length hs"
      using history_sequences(2) [OF hs(2) len] by simp
    then have "unat (mr_sequence r) = length hs + 1"
      using assms(7) len by (simp add: unat_word_ariths)
    ultimately have "mr_sequence (fst y) < mr_sequence r"
      by (simp add: word_less_nat_alt)
    then show "entry_key y \<le> entry_key (r, d)"
      by (simp add: entry_key_def)
  qed
  moreover have "check_history (sort_key entry_key hs @ [(r, d)]) = Inr (r, d)"
    by (rule check_history_snoc [OF hs(2)]) (use assms(7,8) in auto)
  ultimately show ?thesis
    using assms(3,4) by (auto simp: latest_Inr)
qed

section \<open>Heads\<close>

definition head_of :: "'b wire \<Rightarrow> 'b journal_store \<Rightarrow> string \<Rightarrow> (string \<times> string) option" where
  "head_of W st op =
     (case latestHistoryRecord W st op of
        Inl _ \<Rightarrow> None | Inr (r, d) \<Rightarrow> if recordBlocksMutation r then Some (op, d) else None)"

definition operations :: "'b journal_store \<Rightarrow> string set" where
  "operations st = fst ` set (js_dirs st)"

definition histories_ok :: "'b wire \<Rightarrow> 'b journal_store \<Rightarrow> bool" where
  "histories_ok W st \<longleftrightarrow> (\<forall>op \<in> operations st. \<exists>h. latestHistoryRecord W st op = Inr h)"

lemma map_filter_Cons:
  "List.map_filter f (x # xs) = (case f x of None \<Rightarrow> List.map_filter f xs | Some y \<Rightarrow> y # List.map_filter f xs)"
  by (simp add: List.map_filter_def split: option.split)

lemma map_filter_Nil [simp]: "List.map_filter f [] = []"
  by (simp add: List.map_filter_def)

lemma map_filter_none: "List.map_filter f xs = [] \<longleftrightarrow> (\<forall>x \<in> set xs. f x = None)"
  by (induction xs) (auto simp: map_filter_Cons split: option.splits)

lemma map_filter_single:
  "distinct xs \<Longrightarrow> List.map_filter f xs = [y] \<longleftrightarrow>
     (\<exists>x \<in> set xs. f x = Some y \<and> (\<forall>z \<in> set xs. z \<noteq> x \<longrightarrow> f z = None))"
proof (induction xs)
  case (Cons x xs)
  show ?case
  proof (cases "f x")
    case None
    with Cons show ?thesis by (auto simp: map_filter_Cons)
  next
    case (Some w)
    with Cons.prems show ?thesis
      by (auto simp: map_filter_Cons map_filter_none)
  qed
qed simp

lemma collect_heads_Inr:
  "collect_heads W st ops = Inr hs \<longleftrightarrow>
     (\<forall>op \<in> set ops. \<exists>h. latestHistoryRecord W st op = Inr h) \<and> hs = List.map_filter (head_of W st) ops"
proof (induction ops arbitrary: hs)
  case (Cons op ops)
  show ?case
  proof (cases "latestHistoryRecord W st op")
    case (Inr h)
    obtain r d where "h = (r, d)" by fastforce
    with Inr Cons.IH show ?thesis
      by (auto simp: map_filter_Cons head_of_def)
  qed auto
qed auto

lemma heads_Inr:
  "activeHistoryHeads W st = Inr hs \<longleftrightarrow>
     histories_ok W st \<and> hs = List.map_filter (head_of W st) (sort (remdups (map fst (js_dirs st)))) \<and> length hs \<le> 1"
  by (auto simp: activeHistoryHeads_def collect_heads_Inr histories_ok_def operations_def)

lemma heads_Nil:
  "activeHistoryHeads W st = Inr [] \<longleftrightarrow> histories_ok W st \<and> (\<forall>op \<in> operations st. head_of W st op = None)"
proof -
  let ?ks = "sort (remdups (map fst (js_dirs st)))"
  have "[] = List.map_filter (head_of W st) ?ks \<longleftrightarrow> (\<forall>op \<in> operations st. head_of W st op = None)"
    using map_filter_none [of "head_of W st" ?ks] by (metis list.set_map operations_def set_remdups set_sort)
  then show ?thesis by (auto simp: heads_Inr)
qed

lemma head_of_key: "head_of W st op = Some y \<Longrightarrow> fst y = op"
  by (auto simp: head_of_def split: sum.splits if_splits)

lemma heads_single:
  "activeHistoryHeads W st = Inr [(op, d)] \<longleftrightarrow>
     histories_ok W st \<and> op \<in> operations st \<and> head_of W st op = Some (op, d) \<and>
     (\<forall>x \<in> operations st. x \<noteq> op \<longrightarrow> head_of W st x = None)"
proof -
  let ?ks = "sort (remdups (map fst (js_dirs st)))"
  let ?Q = "\<lambda>x. head_of W st x = Some (op, d) \<and> (\<forall>z \<in> operations st. z \<noteq> x \<longrightarrow> head_of W st z = None)"
  have d: "distinct ?ks" and s: "set ?ks = operations st"
    by (simp_all add: operations_def)
  have "List.map_filter (head_of W st) ?ks = [(op, d)] \<longleftrightarrow> (\<exists>x \<in> operations st. ?Q x)"
    by (rule map_filter_single [OF d, of "head_of W st" "(op, d)", unfolded s])
  moreover have "(\<exists>x \<in> operations st. ?Q x) \<longleftrightarrow> op \<in> operations st \<and> ?Q op"
  proof
    assume "\<exists>x \<in> operations st. ?Q x"
    then obtain x where x: "x \<in> operations st" "?Q x" by blast
    then have "x = op" using head_of_key [of W st x "(op, d)"] by simp
    with x show "op \<in> operations st \<and> ?Q op" by simp
  qed blast
  ultimately have "[(op, d)] = List.map_filter (head_of W st) ?ks \<longleftrightarrow> op \<in> operations st \<and> ?Q op"
    by (simp only: eq_commute)
  then show ?thesis
    by (simp add: heads_Inr)
qed

lemma heads_short: "activeHistoryHeads W st = Inr hs \<Longrightarrow> hs = [] \<or> (\<exists>op d. hs = [(op, d)])"
  by (cases hs) (auto simp: heads_Inr)

text \<open>What the code asks of the heads, for a record that is the latest of its operation.\<close>

definition heads_fit :: "'b wire \<Rightarrow> 'b journal_store \<Rightarrow> mutation_record \<Rightarrow> string \<Rightarrow> bool" where
  "heads_fit W st r d \<longleftrightarrow>
     (if recordBlocksMutation r then activeHistoryHeads W st = Inr [(mr_operation_id r, d)]
      else activeHistoryHeads W st = Inr [])"

lemma heads_fit_iff:
  "heads_fit W st r d \<longleftrightarrow> (\<exists>hs. activeHistoryHeads W st = Inr hs \<and>
     (recordBlocksMutation r \<longrightarrow> length hs = 1 \<and> map_of hs (mr_operation_id r) = Some d) \<and>
     (\<not> recordBlocksMutation r \<longrightarrow> hs = []))"
proof
  assume *: "\<exists>hs. activeHistoryHeads W st = Inr hs \<and>
     (recordBlocksMutation r \<longrightarrow> length hs = 1 \<and> map_of hs (mr_operation_id r) = Some d) \<and>
     (\<not> recordBlocksMutation r \<longrightarrow> hs = [])"
  then obtain hs where hs: "activeHistoryHeads W st = Inr hs"
    "recordBlocksMutation r \<longrightarrow> length hs = 1 \<and> map_of hs (mr_operation_id r) = Some d"
    "\<not> recordBlocksMutation r \<longrightarrow> hs = []" by blast
  from heads_short [OF hs(1)] hs show "heads_fit W st r d"
    by (auto simp: heads_fit_def split: if_splits)
next
  assume *: "heads_fit W st r d"
  show "\<exists>hs. activeHistoryHeads W st = Inr hs \<and>
     (recordBlocksMutation r \<longrightarrow> length hs = 1 \<and> map_of hs (mr_operation_id r) = Some d) \<and>
     (\<not> recordBlocksMutation r \<longrightarrow> hs = [])"
  proof (cases "recordBlocksMutation r")
    case True
    with * show ?thesis by (intro exI [of _ "[(mr_operation_id r, d)]"]) (simp add: heads_fit_def)
  next
    case False
    with * show ?thesis by (intro exI [of _ "[]"]) (simp add: heads_fit_def)
  qed
qed

lemma loadRecord_Some:
  "loadRecord W st = Inr (Some (r, d)) \<longleftrightarrow>
     (\<exists>raw l. js_active st = Some raw \<and> decodeRecord W raw = Inr (r, d) \<and>
        latestHistoryRecord W st (mr_operation_id r) = Inr (l, d) \<and> mr_sequence l = mr_sequence r \<and>
        heads_fit W st r d)"
  unfolding heads_fit_iff loadRecord_def by (fastforce split: option.splits if_splits)

lemma latest_operation:
  "latestHistoryRecord W st op = Inr (r, d) \<Longrightarrow>
     mr_operation_id r = op \<and> op \<in> operations st \<and> (\<exists>raw. decodeRecord W raw = Inr (r, d))"
proof -
  assume *: "latestHistoryRecord W st op = Inr (r, d)"
  then obtain fs hs where hs: "map_of (js_dirs st) op = Some fs" "read_entries W op fs = Inr hs"
    "check_history (sort_key entry_key hs) = Inr (r, d)"
    by (auto simp: latest_Inr)
  have "(r, d) \<in> set (sort_key entry_key hs)"
    using check_history_last [OF hs(3)] last_in_set by metis
  then have "(r, d) \<in> set hs" by simp
  from read_entries_files [OF hs(2) this] hs(1) show ?thesis
    by (auto simp: operations_def dest!: map_of_SomeD intro: rev_image_eqI)
qed

text \<open>
  C29. Every journal the code accepts has one linear signed history per operation: the entries
  count up from 1, each carries the digest of its predecessor, all belong to the operation and
  validate, there are at most 256 of them, and the accepted record is the last.
\<close>

theorem accepted_history_is_linear:
  assumes "latestHistoryRecord W st op = Inr (r, d)"
  shows "\<exists>hs. hs \<noteq> [] \<and> length hs \<le> 256 \<and> last hs = (r, d) \<and> unat (mr_sequence r) = length hs \<and>
    (\<forall>i < length hs. mr_operation_id (fst (hs ! i)) = op \<and>
       validateRecord (w_digests W) (fst (hs ! i)) = None \<and>
       unat (mr_sequence (fst (hs ! i))) = i + 1 \<and>
       mr_previous (fst (hs ! i)) = (if i = 0 then [] else snd (hs ! (i - 1))) \<and>
       (\<exists>raw. raw \<in> snd ` set (dir_of st op) \<and> decodeRecord W raw = Inr (hs ! i)))"
proof -
  from assms obtain fs es where es: "map_of (js_dirs st) op = Some fs" "length fs \<le> 256"
    "read_entries W op fs = Inr es" "check_history (sort_key entry_key es) = Inr (r, d)"
    by (auto simp: latest_Inr)
  let ?hs = "sort_key entry_key es"
  have len: "length ?hs \<le> 256"
    using read_entries_length [OF es(3)] es(2) by simp
  have each: "mr_operation_id (fst (?hs ! i)) = op \<and> validateRecord (w_digests W) (fst (?hs ! i)) = None \<and>
       unat (mr_sequence (fst (?hs ! i))) = i + 1 \<and>
       mr_previous (fst (?hs ! i)) = (if i = 0 then [] else snd (?hs ! (i - 1))) \<and>
       (\<exists>raw. raw \<in> snd ` set (dir_of st op) \<and> decodeRecord W raw = Inr (?hs ! i))" if "i < length ?hs" for i
  proof -
    obtain x y where xy: "?hs ! i = (x, y)" by fastforce
    have "(x, y) \<in> set es"
      using that xy by (metis nth_mem set_sort)
    from read_entries_files [OF es(3) this] obtain raw where
      raw: "(history_name (mr_sequence x) y, raw) \<in> set fs" "decodeRecord W raw = Inr (x, y)" "mr_operation_id x = op"
      by blast
    have "unat (of_nat (i + 1) :: 64 word) = i + 1"
      by (rule unat_small) (use that len in simp)
    moreover have "raw \<in> snd ` set (dir_of st op)"
      using raw(1) es(1) by (force simp: dir_of_def)
    moreover have "validateRecord (w_digests W) x = None"
      using raw(2) by (simp add: decodeRecord_Inr)
    ultimately show ?thesis
      using raw(2,3) xy check_history_nth [OF es(4) that] by auto
  qed
  note last = check_history_last [OF es(4)]
  have "unat (mr_sequence r) = length ?hs"
    using history_sequences(2) [OF es(4)] len by (simp only: length_sort fst_conv)
  then show ?thesis
    using each last len by (intro exI [of _ ?hs]) auto
qed

section \<open>What a write leaves behind\<close>

lemma set_dir_simps [simp]:
  "map_of (js_dirs (set_dir op fs st)) x = (if x = op then Some fs else map_of (js_dirs st) x)"
  "js_active (set_dir op fs st) = js_active st"
  "operations (set_dir op fs st) = insert op (operations st)"
  "dir_of (set_dir op fs st) x = (if x = op then fs else dir_of st x)"
  by (simp_all add: set_dir_def operations_def AList.update_conv' AList.dom_update dir_of_def)

lemma operations_map: "op \<in> operations st \<longleftrightarrow> (\<exists>fs. map_of (js_dirs st) op = Some fs)"
  by (metis map_of_eq_None_iff not_None_eq operations_def)

lemma set_dir_same: "map_of (js_dirs st) op = Some fs \<Longrightarrow> set_dir op fs st = st"
  by (simp add: set_dir_def AList.update_triv)

lemma latest_frame:
  "map_of (js_dirs st) op = map_of (js_dirs st') op \<Longrightarrow>
     latestHistoryRecord W st op = latestHistoryRecord W st' op"
  by (simp add: latestHistoryRecord_def)

lemma active_frame [simp]:
  "operations (st\<lparr>js_active := x\<rparr>) = operations st"
  "latestHistoryRecord W (st\<lparr>js_active := x\<rparr>) op = latestHistoryRecord W st op"
  "activeHistoryHeads W (st\<lparr>js_active := x\<rparr>) = activeHistoryHeads W st"
  "heads_fit W (st\<lparr>js_active := x\<rparr>) r d = heads_fit W st r d"
proof -
  show 1: "operations (st\<lparr>js_active := x\<rparr>) = operations st"
    and 2: "latestHistoryRecord W (st\<lparr>js_active := x\<rparr>) op = latestHistoryRecord W st op" for op
    by (simp_all add: operations_def latestHistoryRecord_def)
  have "collect_heads W (st\<lparr>js_active := x\<rparr>) ops = collect_heads W st ops" for ops
    by (induction ops) (simp_all add: 2)
  then show 3: "activeHistoryHeads W (st\<lparr>js_active := x\<rparr>) = activeHistoryHeads W st"
    by (simp add: activeHistoryHeads_def)
  show "heads_fit W (st\<lparr>js_active := x\<rparr>) r d = heads_fit W st r d"
    by (simp add: heads_fit_def 3)
qed

text \<open>A temporary file beside the records of an operation.\<close>

lemma temp_prefixed [simp]: "has_prefix (temp_prefix @ suffix) temp_prefix"
  by (simp add: has_prefix_def)

lemma leave_map:
  "\<not> has_prefix name temp_prefix \<Longrightarrow> map_of (leave W t raw fs) name = map_of fs name"
  by (auto simp: leave_def map_add_def split: option.splits)

lemma leave_subset: "set fs \<subseteq> set (leave W t raw fs)"
  by (auto simp: leave_def split: option.splits)

lemma leave_length: "length fs \<le> length (leave W t raw fs)" "length (leave W t raw fs) \<le> length fs + (if t = None then 0 else 1)"
  by (auto simp: leave_def split: option.splits)

lemma leave_read: "read_entries W op (leave W t raw fs) = Inr hs \<Longrightarrow> read_entries W op fs = Inr hs"
  by (auto simp: leave_def read_entries_append split: option.splits if_splits)

lemma read_leave:
  assumes "read_entries W op fs = Inr hs" and "lawful_wire W" and "w_size W raw \<le> maxRecordBytes"
  shows "read_entries W op (leave W t raw fs) = Inr hs"
proof -
  have "w_size W (w_take W n raw) \<le> maxRecordBytes" for n
    using assms(2,3) order.trans unfolding lawful_wire_def by blast
  then have "\<not> maxRecordBytes < w_size W (w_take W n raw)" for n by (simp add: not_less)
  then show ?thesis using assms(1) by (simp add: leave_def read_entries_append split: option.splits)
qed

lemma leave_in_simps [simp]:
  "js_active (leave_in W op t raw st) = js_active st"
  "dir_of (leave_in W op t raw st) x = (if x = op then leave W t raw (dir_of st op) else dir_of st x)"
  "leave_in W op None raw st = st"
  by (auto simp: leave_in_def leave_def)

lemma leave_in_operations [simp]: "op \<in> operations st \<Longrightarrow> operations (leave_in W op t raw st) = operations st"
  by (auto simp: leave_in_def)

lemma leave_in_map:
  "op \<in> operations st \<Longrightarrow>
     map_of (js_dirs (leave_in W op t raw st)) x = (if x = op then Some (leave W t raw (dir_of st op)) else map_of (js_dirs st) x)"
  by (auto simp: leave_in_def leave_def operations_map dir_of_def)

lemma leave_latest:
  assumes "latestHistoryRecord W (leave_in W op t raw st) x = Inr h" and "op \<in> operations st"
  shows "latestHistoryRecord W st x = Inr h"
proof (cases "x = op")
  case True
  obtain fs where "map_of (js_dirs st) op = Some fs" using assms(2) by (auto simp: operations_map)
  then have "map_of (js_dirs st) op = Some (dir_of st op)" by (simp add: dir_of_def)
  moreover obtain hs where "length (leave W t raw (dir_of st op)) \<le> 256"
    "read_entries W op (leave W t raw (dir_of st op)) = Inr hs" "check_history (sort_key entry_key hs) = Inr h"
    using assms True by (auto simp: latest_Inr leave_in_map)
  ultimately show ?thesis
    using leave_read leave_length(1) [of "dir_of st op" W t raw] True unfolding latest_Inr by fastforce
next
  case False
  then show ?thesis using assms latest_frame [of "leave_in W op t raw st" x st W] by (simp add: leave_in_map)
qed

lemma latest_leave:
  assumes "latestHistoryRecord W st x = Inr h" and "op \<in> operations st" and "lawful_wire W"
    and "w_size W raw \<le> maxRecordBytes" and "length (leave W t raw (dir_of st op)) \<le> 256"
  shows "latestHistoryRecord W (leave_in W op t raw st) x = Inr h"
proof (cases "x = op")
  case True
  obtain fs hs where f: "map_of (js_dirs st) op = Some fs" "read_entries W op fs = Inr hs"
    "check_history (sort_key entry_key hs) = Inr h"
    using assms(1) True by (auto simp: latest_Inr)
  then show ?thesis
    using read_leave [OF f(2) assms(3,4)] assms(2,5) True unfolding latest_Inr
    by (auto simp: leave_in_map dir_of_def)
next
  case False
  then show ?thesis using assms latest_frame [of "leave_in W op t raw st" x st W] by (simp add: leave_in_map)
qed

lemma loaded_operation:
  assumes "loadRecord W st = Inr (Some (r, d))"
  shows "mr_operation_id r \<in> operations st"
proof -
  obtain l where "latestHistoryRecord W st (mr_operation_id r) = Inr (l, d)"
    using assms by (auto simp: loadRecord_Some)
  then show ?thesis using latest_operation by blast
qed

lemma leave_loads:
  assumes "loadRecord W st = Inr (Some (r, d))" and "op \<in> operations st" and "lawful_wire W"
    and "w_size W raw \<le> maxRecordBytes" and "length (leave W t raw (dir_of st op)) \<le> 256"
  shows "loadRecord W (leave_in W op t raw st) = Inr (Some (r, d))"
proof -
  let ?m = "leave_in W op t raw st"
  have h: "heads_fit W st r d" using assms(1) by (auto simp: loadRecord_Some)
  then have ok: "histories_ok W st" by (auto simp: heads_fit_def heads_single heads_Nil split: if_splits)
  have lat: "latestHistoryRecord W ?m x = latestHistoryRecord W st x" if x: "x \<in> operations st" for x
  proof -
    obtain h where h: "latestHistoryRecord W st x = Inr h" using ok x by (auto simp: histories_ok_def)
    with latest_leave [OF h assms(2-5)] show ?thesis by simp
  qed
  then have "head_of W ?m x = head_of W st x" if "x \<in> operations st" for x using that by (simp add: head_of_def)
  then have "heads_fit W ?m r d"
    using h lat assms(2) by (auto simp: heads_fit_def heads_single heads_Nil histories_ok_def split: if_splits)
  moreover note loaded_operation [OF assms(1)]
  ultimately show ?thesis using assms(1) lat by (auto simp: loadRecord_Some)
qed

text \<open>The record as it is signed, and what it takes for it to be readable.\<close>

definition sealed :: "mutation_record \<Rightarrow> string \<Rightarrow> mutation_signature \<Rightarrow> mutation_record" where
  "sealed r prev sg = r\<lparr>mr_previous := prev, mr_signature := sg\<rparr>"

definition readable :: "'b wire \<Rightarrow> mutation_record \<Rightarrow> string \<Rightarrow> mutation_signature \<Rightarrow> bool" where
  "readable W r prev sg \<longleftrightarrow> w_sign W (signingBytes W (sealed r prev no_signature)) = Some sg \<and>
     sg_owner_ref sg = mr_owner_ref r \<and> mr_workspace_hash r = w_workspace W \<and>
     w_size W (w_encode W (sealed r prev sg)) \<le> maxRecordBytes \<and>
     validateRecord (w_digests W) (sealed r prev sg) = None"

lemma sealed_simps [simp]:
  "mr_operation_id (sealed r p s) = mr_operation_id r" "mr_sequence (sealed r p s) = mr_sequence r"
  "mr_phase (sealed r p s) = mr_phase r" "mr_status (sealed r p s) = mr_status r"
  "mr_owner_ref (sealed r p s) = mr_owner_ref r" "mr_workspace_hash (sealed r p s) = mr_workspace_hash r"
  "mr_previous (sealed r p s) = p" "mr_signature (sealed r p s) = s" "mr_kind (sealed r p s) = mr_kind r"
  "mr_restore (sealed r p s) = mr_restore r" "mr_upgrade_data (sealed r p s) = mr_upgrade_data r"
  "mr_join (sealed r p s) = mr_join r"
  "recordBlocksMutation (sealed r p s) = recordBlocksMutation r"
  by (simp_all add: sealed_def signingBytes_def recordBlocksMutation_def RestoreAppGroupClosuresPending_def)

lemma signing_sealed: "signingBytes W (sealed r p s) = signingBytes W (sealed r p no_signature)"
  by (simp add: sealed_def signingBytes_def)

lemma decode_sealed:
  assumes "lawful_wire W" and "readable W r prev sg"
  shows "decodeRecord W (w_encode W (sealed r prev sg)) =
    Inr (sealed r prev sg, digest_of W (w_encode W (sealed r prev sg)))"
  using assms unfolding decodeRecord_Inr lawful_wire_def readable_def
  by (metis sealed_simps(5,6,8) signing_sealed)

text \<open>The store after the history entry, and after the pointer.\<close>

definition with_entry :: "'b wire \<Rightarrow> mutation_record \<Rightarrow> 'b journal_store \<Rightarrow> 'b journal_store" where
  "with_entry W r st =
     set_dir (mr_operation_id r)
       (dir_of st (mr_operation_id r) @
          [(history_name (mr_sequence r) (digest_of W (w_encode W r)), w_encode W r)]) st"

definition with_pointer :: "'b wire \<Rightarrow> mutation_record \<Rightarrow> 'b journal_store \<Rightarrow> 'b journal_store" where
  "with_pointer W r st = st\<lparr>js_active := Some (w_encode W r)\<rparr>"

text \<open>
  The situation of a session that writes the successor of the record it holds: the journal loads
  to that record, and the successor is readable.
\<close>

definition successor_of ::
  "'b wire \<Rightarrow> 'b journal_store \<Rightarrow> mutation_record \<Rightarrow> string \<Rightarrow> mutation_record \<Rightarrow> mutation_signature \<Rightarrow> bool" where
  "successor_of W st r0 d0 r sg \<longleftrightarrow> loadRecord W st = Inr (Some (r0, d0)) \<and> recordBlocksMutation r0 \<and>
     mr_operation_id r = mr_operation_id r0 \<and> mr_sequence r = mr_sequence r0 + 1 \<and>
     readable W r d0 sg \<and> length (dir_of st (mr_operation_id r0)) < 256"

lemma loaded_dir:
  assumes "loadRecord W st = Inr (Some (r0, d0))"
  shows "map_of (js_dirs st) (mr_operation_id r0) = Some (dir_of st (mr_operation_id r0))"
    and "\<exists>l. latestHistoryRecord W st (mr_operation_id r0) = Inr (l, d0) \<and> mr_sequence l = mr_sequence r0"
    and "heads_fit W st r0 d0" and "\<exists>raw. js_active st = Some raw \<and> decodeRecord W raw = Inr (r0, d0)"
  using assms by (auto simp: loadRecord_Some latest_Inr dir_of_def)

lemma read_entries_mem:
  assumes "read_entries W op fs = Inr hs" and "(name, raw) \<in> set fs" and "\<not> has_prefix name temp_prefix"
  shows "\<exists>r d. (r, d) \<in> set hs \<and> name = history_name (mr_sequence r) d"
  using assms
proof (induction fs arbitrary: hs)
  case (Cons f fs)
  obtain n x where f: "f = (n, x)" by fastforce
  show ?case
  proof (cases "has_prefix n temp_prefix")
    case True
    with Cons f show ?thesis by (auto split: if_splits)
  next
    case False
    with Cons.prems(1) f obtain r1 d1 hs1 where
      "n = history_name (mr_sequence r1) d1" "read_entries W op fs = Inr hs1" "hs = (r1, d1) # hs1"
      by (auto split: if_splits prod.splits)
    with Cons f show ?thesis by auto
  qed
qed simp

lemma fresh_name:
  assumes "map_of (js_dirs st) op = Some fs" and "latestHistoryRecord W st op = Inr (l, d0)"
    and "mr_sequence r = mr_sequence l + 1"
  shows "map_of fs (history_name (mr_sequence r) d) = None"
proof (rule ccontr)
  assume "map_of fs (history_name (mr_sequence r) d) \<noteq> None"
  then obtain raw where raw: "(history_name (mr_sequence r) d, raw) \<in> set fs"
    by (auto dest: map_of_SomeD)
  obtain hs where hs: "read_entries W op fs = Inr hs" "check_history (sort_key entry_key hs) = Inr (l, d0)"
    "length fs \<le> 256"
    using assms(1,2) by (auto simp: latest_Inr)
  have len: "length hs \<le> 256"
    using read_entries_length [OF hs(1)] hs(3) by simp
  obtain r1 d1 where "(r1, d1) \<in> set hs" "mr_sequence r1 = mr_sequence r"
    using read_entries_mem [OF hs(1) raw history_name_not_temp] history_name_seq by metis
  then have "unat (mr_sequence r) \<le> length hs"
    using history_sequences(1) [OF hs(2) len] by fastforce
  moreover have "unat (mr_sequence l) = length hs"
    using history_sequences(2) [OF hs(2) len] by simp
  then have "unat (mr_sequence r) = length hs + 1"
    using assms(3) len by (simp add: unat_word_ariths)
  ultimately show False by simp
qed

lemma with_entry_latest:
  assumes "lawful_wire W" and "successor_of W st r0 d0 r sg"
  shows "latestHistoryRecord W (with_entry W (sealed r d0 sg) st) (mr_operation_id r0) =
      Inr (sealed r d0 sg, digest_of W (w_encode W (sealed r d0 sg)))"
    and "op \<noteq> mr_operation_id r0 \<Longrightarrow>
      latestHistoryRecord W (with_entry W (sealed r d0 sg) st) op = latestHistoryRecord W st op"
proof -
  let ?r = "sealed r d0 sg"
  from assms(2) have ld: "loadRecord W st = Inr (Some (r0, d0))" and op: "mr_operation_id r = mr_operation_id r0"
    and sq: "mr_sequence r = mr_sequence r0 + 1" and rd: "readable W r d0 sg"
    and len: "length (dir_of st (mr_operation_id r0)) < 256"
    by (auto simp: successor_of_def)
  obtain l where l: "latestHistoryRecord W st (mr_operation_id r0) = Inr (l, d0)" "mr_sequence l = mr_sequence r0"
    using loaded_dir(2) [OF ld] by blast
  show "latestHistoryRecord W (with_entry W ?r st) (mr_operation_id r0) =
      Inr (?r, digest_of W (w_encode W ?r))"
    by (rule latest_append [OF loaded_dir(1) [OF ld] l(1) _ len decode_sealed [OF assms(1) rd]])
      (use op sq l(2) in \<open>auto simp: with_entry_def\<close>)
  show "latestHistoryRecord W (with_entry W ?r st) op = latestHistoryRecord W st op" if "op \<noteq> mr_operation_id r0"
    using that op by (intro latest_frame) (simp add: with_entry_def)
qed

lemma with_entry_heads:
  assumes "lawful_wire W" and "successor_of W st r0 d0 r sg"
  shows "heads_fit W (with_entry W (sealed r d0 sg) st) (sealed r d0 sg)
    (digest_of W (w_encode W (sealed r d0 sg)))"
proof -
  let ?r = "sealed r d0 sg" and ?op = "mr_operation_id r0"
  let ?st = "with_entry W ?r st"
  from assms(2) have ld: "loadRecord W st = Inr (Some (r0, d0))" and op: "mr_operation_id r = ?op"
    and bl: "recordBlocksMutation r0"
    by (auto simp: successor_of_def)
  note lat = with_entry_latest [OF assms]
  have heads: "histories_ok W st" "?op \<in> operations st" "\<forall>x \<in> operations st. x \<noteq> ?op \<longrightarrow> head_of W st x = None"
    using loaded_dir(3) [OF ld] bl by (auto simp: heads_fit_def heads_single)
  have ops: "operations ?st = operations st"
    using heads(2) op by (auto simp: with_entry_def)
  have "histories_ok W ?st"
    unfolding histories_ok_def ops
  proof
    fix x assume "x \<in> operations st"
    then show "\<exists>h. latestHistoryRecord W ?st x = Inr h"
      using lat heads(1) by (cases "x = ?op") (auto simp: histories_ok_def)
  qed
  moreover have rest: "\<forall>x \<in> operations st. x \<noteq> ?op \<longrightarrow> head_of W ?st x = None"
    using heads(3) lat(2) by (simp add: head_of_def)
  moreover have "head_of W ?st ?op = (if recordBlocksMutation ?r then Some (?op, digest_of W (w_encode W ?r)) else None)"
    by (simp add: head_of_def lat(1))
  ultimately show ?thesis
    using op heads(2) unfolding heads_fit_def heads_single heads_Nil ops
    by (cases "recordBlocksMutation r") (simp, metis sealed_simps(13))
qed

lemma with_pointer_loads:
  assumes "lawful_wire W" and "successor_of W st r0 d0 r sg"
  defines "r' \<equiv> sealed r d0 sg"
  shows "loadRecord W (with_pointer W r' (with_entry W r' st)) = Inr (Some (r', digest_of W (w_encode W r')))"
proof -
  have rd: "readable W r d0 sg" and op: "mr_operation_id r' = mr_operation_id r0"
    using assms(2) by (auto simp: successor_of_def r'_def)
  show ?thesis
    using decode_sealed [OF assms(1) rd] with_entry_latest(1) [OF assms(1,2)] with_entry_heads [OF assms(1,2)] op
    by (auto simp: loadRecord_Some with_pointer_def r'_def)
qed

lemma recover_stale:
  assumes "lawful_wire W" and "successor_of W st r0 d0 r sg"
  defines "r' \<equiv> sealed r d0 sg"
  defines "d' \<equiv> digest_of W (w_encode W r')"
  assumes "d' \<noteq> d0"
  shows "recoverLatestRecord W Written (with_entry W r' st) (mr_operation_id r0) =
      (with_pointer W r' (with_entry W r' st), Inr (r', d'))"
    and "recoverLatestRecord W Written (with_pointer W r' (with_entry W r' st)) (mr_operation_id r0) =
      (with_pointer W r' (with_entry W r' st), Inr (r', d'))"
proof -
  have rd: "readable W r d0 sg" and op: "mr_operation_id r' = mr_operation_id r0"
    and ld: "loadRecord W st = Inr (Some (r0, d0))" and bl: "recordBlocksMutation r0"
    using assms(2) by (auto simp: successor_of_def r'_def)
  have pat: "operationPattern (mr_operation_id r0)"
    using rd op by (auto simp: readable_def validateRecord_None validate_base_def r'_def)
  have lat: "latestHistoryRecord W (with_entry W r' st) (mr_operation_id r0) = Inr (r', d')"
    using with_entry_latest(1) [OF assms(1,2)] by (simp add: r'_def d'_def)
  have fit: "heads_fit W (with_entry W r' st) r' d'"
    using with_entry_heads [OF assms(1,2)] by (simp add: r'_def d'_def)
  obtain raw where raw: "js_active st = Some raw" "decodeRecord W raw = Inr (r0, d0)"
    using loaded_dir(4) [OF ld] by blast
  have st: "js_active (with_entry W r' st) = js_active st"
    by (simp add: with_entry_def)
  have "pointer_settled W (with_entry W r' st) (mr_operation_id r0) d' = Inr False"
    using raw bl st assms(5) by (simp add: pointer_settled_def)
  then show "recoverLatestRecord W Written (with_entry W r' st) (mr_operation_id r0) =
      (with_pointer W r' (with_entry W r' st), Inr (r', d'))"
    using pat lat fit op
    by (auto simp: recoverLatestRecord_def heads_fit_def with_pointer_def takes_effect_def Let_def split: if_splits)
  have "pointer_settled W (with_pointer W r' (with_entry W r' st)) (mr_operation_id r0) d' = Inr True"
    using decode_sealed [OF assms(1) rd] op
    by (simp add: pointer_settled_def with_pointer_def r'_def d'_def)
  then show "recoverLatestRecord W Written (with_pointer W r' (with_entry W r' st)) (mr_operation_id r0) =
      (with_pointer W r' (with_entry W r' st), Inr (r', d'))"
    using pat lat fit op
    by (auto simp: recoverLatestRecord_def heads_fit_def with_pointer_def split: if_splits)
qed

text \<open>Every way a write can end leaves one of three stores, each with what is left of its temporary file.\<close>

lemma persist_cases:
  fixes oh oa :: write_outcome
  assumes "successor_of W st r0 d0 r sg"
  defines "r' \<equiv> sealed r d0 sg"
  defines "d' \<equiv> digest_of W (w_encode W r')"
  defines "m \<equiv> leave_in W (mr_operation_id r0) (leftover oh) (w_encode W r') st"
  obtains (unchanged) e where "persistRecord W oh oa st r d0 = (m, r', [], Some e)" "\<not> takes_effect oh"
    | (entry) dd e where "persistRecord W oh oa st r d0 = (with_entry W r' m, r', dd, Some e)"
    | (pointer) e where "persistRecord W oh oa st r d0 = (with_pointer W r' (with_entry W r' m), r', d', e)"
        "e = None \<Longrightarrow> reread W (with_pointer W r' (with_entry W r' m)) r' d' = None"
proof -
  from assms(1) have ld: "loadRecord W st = Inr (Some (r0, d0))" and op: "mr_operation_id r = mr_operation_id r0"
    and sq: "mr_sequence r = mr_sequence r0 + 1" and rd: "readable W r d0 sg"
    by (auto simp: successor_of_def)
  let ?op = "mr_operation_id r0" and ?raw = "w_encode W r'" and ?n = "history_name (mr_sequence r') d'"
  obtain raw where raw: "js_active st = Some raw" "digest_of W raw = d0"
    using loaded_dir(4) [OF ld] by (auto simp: decodeRecord_Inr)
  then have prev: "previous_unchanged W st d0 = None"
    by (simp add: previous_unchanged_def)
  obtain l where l: "latestHistoryRecord W st ?op = Inr (l, d0)" "mr_sequence l = mr_sequence r0"
    using loaded_dir(2) [OF ld] by blast
  have "map_of (dir_of st ?op) (history_name (mr_sequence r) d') = None"
    using fresh_name [OF loaded_dir(1) [OF ld] l(1), of r d'] sq l(2) by simp
  then have fresh: "map_of (dir_of st ?op) ?n = None" "map_of (dir_of m ?op) ?n = None"
    by (simp_all add: r'_def m_def leave_map history_name_not_temp)
  have mk: "make_dir ?op st = st"
    unfolding make_dir_def by (rule set_dir_same [OF loaded_dir(1) [OF ld]])
  have wh: "write_history W oh ?op ?n ?raw st =
      (if takes_effect oh then (with_entry W r' m, settleJournalWrite oh (Some ?raw) ?raw)
       else (m, settleJournalWrite oh None ?raw))"
    using fresh op by (simp add: write_history_def no_replace_def with_entry_def r'_def d'_def m_def Let_def map_add_def)
  have pr: "persistRecord W oh oa st r d0 =
      (case write_history W oh ?op ?n ?raw st of
         (st1, Some x) \<Rightarrow> (st1, r', [], Some x)
       | (st1, None) \<Rightarrow>
          (case write_active oa ?raw st1 of
             (st2, Some x) \<Rightarrow> (st2, r', d', Some x)
           | (st2, None) \<Rightarrow> (st2, r', d', reread W st2 r' d')))"
    using prev rd op mk unfolding r'_def d'_def sealed_def
    by (simp add: persistRecord_def readable_def sealed_def Let_def cong: option.case_cong prod.case_cong)
  have wa: "write_active oa ?raw st1 = (if takes_effect oa then (with_pointer W r' st1, settleJournalWrite oa (Some ?raw) ?raw)
      else (st1, settleJournalWrite oa (js_active st1) ?raw))" for st1
    by (simp add: write_active_def with_pointer_def Let_def)
  show thesis
  proof (cases "takes_effect oh")
    case False
    then obtain e where "settleJournalWrite oh None ?raw = Some e"
      by (cases oh) (auto simp: settleJournalWrite_def takes_effect_def)
    with False show thesis
      using unchanged by (simp add: pr wh)
  next
    case oh: True
    show thesis
    proof (cases "settleJournalWrite oh (Some ?raw) ?raw")
      case (Some e)
      with oh show thesis using entry by (simp add: pr wh)
    next
      case None
      note h = oh None
      show thesis
      proof (cases "takes_effect oa")
        case False
        have "js_active (with_entry W r' m) = Some raw"
          using raw by (simp add: with_entry_def m_def)
        show thesis
        proof (cases "settleJournalWrite oa (js_active (with_entry W r' m)) ?raw")
          case (Some e)
          with False h show thesis using entry by (simp add: pr wh wa)
        next
          case same: None
          then have "js_active (with_entry W r' m) = Some ?raw"
            using False by (cases oa) (auto simp: settleJournalWrite_def takes_effect_def split: if_splits)
          then have "with_entry W r' m = with_pointer W r' (with_entry W r' m)"
            by (simp add: with_pointer_def)
          with same False h show thesis using pointer by (simp add: pr wh wa)
        qed
      next
        case True
        then show thesis
        proof (cases "settleJournalWrite oa (Some ?raw) ?raw")
          case None
          with True h show thesis using pointer by (simp add: pr wh wa)
        next
          case (Some e)
          then have "oa \<noteq> Written" by (auto simp: settleJournalWrite_def)
          with True h Some show thesis using pointer by (simp add: pr wh wa)
        qed
      qed
    qed
  qed
qed

lemma successor_beside_leftover:
  fixes t :: "temporary option"
  assumes "lawful_wire W" and "successor_of W st r0 d0 r sg"
  defines "m \<equiv> leave_in W (mr_operation_id r0) t (w_encode W (sealed r d0 sg)) st"
  shows "loadRecord W m = Inr (Some (r0, d0))"
    and "t = None \<or> length (dir_of st (mr_operation_id r0)) < 255 \<Longrightarrow> successor_of W m r0 d0 r sg"
proof -
  have s: "loadRecord W st = Inr (Some (r0, d0))" "readable W r d0 sg" "length (dir_of st (mr_operation_id r0)) < 256"
    using assms(2) by (auto simp: successor_of_def)
  note loaded_operation [OF s(1)]
  moreover have "length (leave W t (w_encode W (sealed r d0 sg)) (dir_of st (mr_operation_id r0))) \<le> 256"
    using leave_length(2) [of W t "w_encode W (sealed r d0 sg)" "dir_of st (mr_operation_id r0)"] s(3) by (auto split: if_splits)
  ultimately show l: "loadRecord W m = Inr (Some (r0, d0))"
    unfolding m_def by (intro leave_loads [OF s(1) _ assms(1)]) (use s(2) in \<open>auto simp: readable_def\<close>)
  show "successor_of W m r0 d0 r sg" if "t = None \<or> length (dir_of st (mr_operation_id r0)) < 255"
    using that l assms(2) leave_length(2) [of W t "w_encode W (sealed r d0 sg)" "dir_of st (mr_operation_id r0)"]
    by (auto simp: successor_of_def m_def split: if_splits)
qed

text \<open>
  C4. A journal write is atomic up to recovery. Whatever happens to the two file writes of
  \<open>persistRecord\<close> (either may fail, take effect and still report an error, be refused, or be cut
  off by a crash before or after it took effect, and the history write may leave its temporary
  file), the journal afterwards either loads to the record before the write, or explicit recovery
  returns the new record and leaves a journal that loads to it; a write that returns without an
  error has the second outcome without recovery. The two digests must not collide, and the
  operation's directory must have room for what the write adds: fewer than 256 files, or fewer
  than 255 if a temporary file stays.
\<close>

theorem persist_is_atomic:
  assumes "lawful_wire W" and "successor_of W st r0 d0 r sg"
    and "digest_of W (w_encode W (sealed r d0 sg)) \<noteq> d0"
    and "persistRecord W oh oa st r d0 = (st', q, dd, e)"
    and "leftover oh = None \<or> length (dir_of st (mr_operation_id r0)) < 255"
  shows "(loadRecord W st' = Inr (Some (r0, d0)) \<and> e \<noteq> None) \<or>
    (\<exists>st''. recoverLatestRecord W Written st' (mr_operation_id r0) =
         (st'', Inr (sealed r d0 sg, digest_of W (w_encode W (sealed r d0 sg)))) \<and>
       loadRecord W st'' = Inr (Some (sealed r d0 sg, digest_of W (w_encode W (sealed r d0 sg)))) \<and>
       (e = None \<longrightarrow> st'' = st' \<and> q = sealed r d0 sg \<and> dd = digest_of W (w_encode W (sealed r d0 sg))))"
proof -
  let ?m = "leave_in W (mr_operation_id r0) (leftover oh) (w_encode W (sealed r d0 sg)) st"
  note m = successor_beside_leftover [OF assms(1,2), where t = "leftover oh"]
  note loads = with_pointer_loads [OF assms(1) m(2) [OF assms(5)]]
  note stale = recover_stale [OF assms(1) m(2) [OF assms(5)] assms(3)]
  from assms(2) show ?thesis
  proof (cases rule: persist_cases [of W st r0 d0 r sg oh oa])
    case (unchanged x)
    with assms(4) have "st' = ?m" "e = Some x" by auto
    with m(1) show ?thesis by simp
  next
    case (entry y x)
    with assms(4) have "st' = with_entry W (sealed r d0 sg) ?m" "e = Some x" by auto
    with loads stale(1) show ?thesis by simp
  next
    case (pointer x)
    with assms(4) have "st' = with_pointer W (sealed r d0 sg) (with_entry W (sealed r d0 sg) ?m)"
      "q = sealed r d0 sg" "dd = digest_of W (w_encode W (sealed r d0 sg))" by auto
    with loads stale(2) show ?thesis by simp
  qed
qed

section \<open>A journal that no operation can open\<close>

text \<open>
  One operation directory that does not read back blocks the journal: it can be neither loaded
  nor repaired, for any operation.
\<close>

definition journal_blocked :: "'b wire \<Rightarrow> 'b journal_store \<Rightarrow> bool" where
  "journal_blocked W st \<longleftrightarrow> (\<exists>x. loadRecord W st = Inl x) \<and>
     (\<forall>op oa. \<exists>x. recoverLatestRecord W oa st op = (st, Inl x))"

lemma unreadable_history_blocks:
  assumes "op \<in> operations st" and "latestHistoryRecord W st op = Inl x"
  shows "journal_blocked W st"
proof -
  have "\<not> histories_ok W st"
    unfolding histories_ok_def using assms(1) by (intro notI) (drule (1) bspec, simp add: assms(2))
  then obtain y where heads: "activeHistoryHeads W st = Inl y"
    by (cases "activeHistoryHeads W st") (auto simp: heads_Inr)
  have "\<exists>z. loadRecord W st = Inl z"
  proof (cases "js_active st")
    case None
    with heads show ?thesis by (simp add: loadRecord_def)
  next
    case (Some raw)
    show ?thesis
    proof (cases "decodeRecord W raw")
      case (Inr rd)
      obtain r d where rd: "rd = (r, d)" by fastforce
      show ?thesis
        using Some Inr rd heads
        by (cases "latestHistoryRecord W st (mr_operation_id r)") (auto simp: loadRecord_def)
    qed (simp add: Some loadRecord_def)
  qed
  moreover have "\<exists>z. recoverLatestRecord W oa st o2 = (st, Inl z)" for oa o2
    using heads by (auto simp: recoverLatestRecord_def split: sum.split)
  ultimately show ?thesis
    by (simp add: journal_blocked_def)
qed

text \<open>
  C36. A first write that fails after the operation's directory was made (a full disk, a crash)
  leaves a directory without a record. From then on the journal can be neither loaded nor
  recovered, whichever operation asks: every lifecycle operation of the host is refused.
\<close>

theorem failed_first_write_blocks_journal:
  assumes "mr_operation_id r \<notin> operations st" and "\<not> takes_effect oh"
    and "w_sign W (signingBytes W (sealed r [] no_signature)) = Some sg"
    and "w_size W (w_encode W (sealed r [] sg)) \<le> maxRecordBytes"
  shows "\<exists>st' e. persistRecord W oh oa st r [] = (st', sealed r [] sg, [], Some e) \<and> journal_blocked W st'"
proof -
  let ?op = "mr_operation_id r" and ?m = "make_dir (mr_operation_id r) st"
  let ?st = "leave_in W ?op (leftover oh) (w_encode W (sealed r [] sg)) ?m"
  have dir: "dir_of ?m ?op = []"
    using assms(1) by (auto simp: make_dir_def dir_of_def operations_map)
  obtain e where e: "settleJournalWrite oh None (w_encode W (sealed r [] sg)) = Some e"
    using assms(2) by (cases oh) (auto simp: settleJournalWrite_def takes_effect_def)
  have "write_history W oh ?op (history_name s x) (w_encode W (sealed r [] sg)) ?m = (?st, Some e)" for s x
    using assms(2) e dir by (simp add: write_history_def no_replace_def Let_def leave_map history_name_not_temp)
  then have p: "persistRecord W oh oa st r [] = (?st, sealed r [] sg, [], Some e)"
    using assms(3,4) unfolding sealed_def
    by (simp add: persistRecord_def previous_unchanged_def Let_def)
  have made: "map_of (js_dirs ?m) ?op = Some []" "?op \<in> operations ?m"
    using assms(1) by (auto simp: make_dir_def dir_of_def operations_map split: option.split)
  then have "latestHistoryRecord W ?m ?op = Inl HistoryNoOrigin"
    by (simp add: latestHistoryRecord_def check_history_def)
  then obtain x where "latestHistoryRecord W ?st ?op = Inl x"
    using leave_latest [OF _ made(2)] by (cases "latestHistoryRecord W ?st ?op") fastforce+
  then have "journal_blocked W ?st"
    by (intro unreadable_history_blocks [of ?op]) (use made(2) in auto)
  with p show ?thesis by blast
qed

text \<open>The write of a successor whose directory is full, or which does not validate.\<close>

lemma written_entry_unreadable:
  assumes "lawful_wire W" and "map_of (js_dirs st) (mr_operation_id r) = Some fs"
    and "map_of fs (history_name (mr_sequence r) (digest_of W (w_encode W (sealed r prev sg)))) = None"
    and "previous_unchanged W st prev = None"
    and "w_sign W (signingBytes W (sealed r prev no_signature)) = Some sg"
    and "w_size W (w_encode W (sealed r prev sg)) \<le> maxRecordBytes"
    and "length fs \<ge> 256 \<or> validateRecord (w_digests W) (sealed r prev sg) \<noteq> None"
  shows "\<exists>st' d e. persistRecord W Written Written st r prev = (st', sealed r prev sg, d, Some e) \<and>
    journal_blocked W st' \<and> d \<noteq> []"
proof -
  let ?r = "sealed r prev sg" and ?op = "mr_operation_id r"
  let ?raw = "w_encode W ?r" and ?d = "digest_of W (w_encode W (sealed r prev sg))"
  let ?fs = "fs @ [(history_name (mr_sequence r) ?d, ?raw)]"
  let ?st = "with_pointer W ?r (set_dir ?op ?fs st)"
  have mk: "make_dir ?op st = st" and dir: "dir_of st ?op = fs"
    using assms(2) by (simp_all add: make_dir_def set_dir_same dir_of_def)
  have wh: "write_history W Written ?op (history_name (mr_sequence r) ?d) ?raw st = (set_dir ?op ?fs st, None)"
    using assms(3) by (simp add: write_history_def no_replace_def takes_effect_def settleJournalWrite_def dir Let_def)
  have p: "persistRecord W Written Written st r prev = (?st, ?r, ?d, reread W ?st ?r ?d)"
    using assms(4,5,6) mk wh unfolding sealed_def
    by (simp add: persistRecord_def Let_def write_active_def takes_effect_def settleJournalWrite_def with_pointer_def)
  have "\<exists>x. latestHistoryRecord W ?st ?op = Inl x"
  proof (cases "length fs \<ge> 256")
    case True
    then show ?thesis by (simp add: with_pointer_def latestHistoryRecord_def)
  next
    case False
    with assms(7) obtain v where "validateRecord (w_digests W) ?r = Some v" by auto
    then have "\<exists>x. decodeRecord W ?raw = Inl x"
      using assms(1) by (auto simp: decodeRecord_def lawful_wire_def)
    then have "\<exists>x. read_entries W ?op ?fs = Inl x"
      by (cases "read_entries W ?op fs") (auto simp: read_entries_append history_name_not_temp)
    with False show ?thesis by (auto simp: with_pointer_def latestHistoryRecord_def)
  qed
  then have bl: "journal_blocked W ?st"
    by (auto intro!: unreadable_history_blocks [of ?op] simp: with_pointer_def)
  then obtain x where "reread W ?st ?r ?d = Some x"
    by (auto simp: journal_blocked_def reread_def)
  with p bl show ?thesis
    by (auto simp: digest_of_def sha256_prefix_def)
qed

text \<open>
  C38. The bound of 256 records is only read, never written against: the write of the 257th record
  of an operation takes effect in the history and in the pointer, is reported as an error, and
  leaves a journal that can be neither loaded nor recovered.
\<close>

theorem history_limit_blocks_journal:
  assumes "lawful_wire W" and "loadRecord W st = Inr (Some (r0, d0))" and "readable W r d0 sg"
    and "mr_operation_id r = mr_operation_id r0" and "mr_sequence r = mr_sequence r0 + 1"
    and "length (dir_of st (mr_operation_id r0)) = 256"
  shows "\<exists>st' d e. persistRecord W Written Written st r d0 = (st', sealed r d0 sg, d, Some e) \<and>
    journal_blocked W st' \<and> d \<noteq> []"
proof (rule written_entry_unreadable [OF assms(1)])
  show "map_of (js_dirs st) (mr_operation_id r) = Some (dir_of st (mr_operation_id r0))"
    using loaded_dir(1) [OF assms(2)] assms(4) by simp
  obtain l where l: "latestHistoryRecord W st (mr_operation_id r0) = Inr (l, d0)" "mr_sequence l = mr_sequence r0"
    using loaded_dir(2) [OF assms(2)] by blast
  show "map_of (dir_of st (mr_operation_id r0))
      (history_name (mr_sequence r) (digest_of W (w_encode W (sealed r d0 sg)))) = None"
    using fresh_name [OF loaded_dir(1) [OF assms(2)] l(1), of r] assms(5) l(2) by simp
  show "previous_unchanged W st d0 = None"
    using loaded_dir(4) [OF assms(2)] by (auto simp: decodeRecord_Inr previous_unchanged_def)
qed (use assms(3,6) in \<open>auto simp: readable_def\<close>)

text \<open>
  A temporary file that stays counts like a record. In a directory of 255 files, a write of the next
  record that installs it but cannot remove its temporary file leaves 257 entries: the journal
  can then be neither loaded nor recovered, although the record is in place.
\<close>

lemma leftover_blocks_full_journal:
  assumes "successor_of W st r0 d0 r sg" and "length (dir_of st (mr_operation_id r0)) = 255"
    and "takes_effect oh" and "leftover oh = Some (suffix, n)"
    and "map_of (dir_of st (mr_operation_id r0)) (temp_prefix @ suffix) = None"
  shows "\<exists>st' q d e. persistRecord W oh oa st r d0 = (st', q, d, Some e) \<and> journal_blocked W st'"
proof -
  let ?m = "leave_in W (mr_operation_id r0) (leftover oh) (w_encode W (sealed r d0 sg)) st"
  let ?r = "sealed r d0 sg"
  have op: "mr_operation_id r = mr_operation_id r0" using assms(1) by (simp add: successor_of_def)
  have in_st: "mr_operation_id r0 \<in> operations st"
    using assms(1) by (intro loaded_operation [of W st r0 d0]) (simp add: successor_of_def)
  have "length (dir_of ?m (mr_operation_id r0)) = 256"
    using assms(2,4,5) by (simp add: leave_def)
  then have full: "latestHistoryRecord W (with_entry W ?r ?m) (mr_operation_id r0) = Inl HistoryTooLong"
    using op by (simp add: latestHistoryRecord_def with_entry_def)
  then have entry: "journal_blocked W (with_entry W ?r ?m)"
    using op by (intro unreadable_history_blocks [of "mr_operation_id r0"]) (simp_all add: with_entry_def)
  have pointer: "journal_blocked W (with_pointer W ?r (with_entry W ?r ?m))"
    using full op by (intro unreadable_history_blocks [of "mr_operation_id r0"]) (simp_all add: with_pointer_def with_entry_def)
  from assms(1) show ?thesis
  proof (cases rule: persist_cases [of W st r0 d0 r sg oh oa])
    case (unchanged x)
    with assms(3) show ?thesis by simp
  next
    case (entry y x)
    with \<open>journal_blocked W (with_entry W ?r ?m)\<close> show ?thesis by auto
  next
    case (pointer x)
    then show ?thesis
      using \<open>journal_blocked W (with_pointer W ?r (with_entry W ?r ?m))\<close>
      by (cases x) (auto simp: journal_blocked_def reread_def)
  qed
qed

section \<open>The head digest commits to the history\<close>

definition history_of :: "'b wire \<Rightarrow> 'b journal_store \<Rightarrow> string \<Rightarrow> entry list" where
  "history_of W st op =
     (case read_entries W op (dir_of st op) of Inl _ \<Rightarrow> [] | Inr hs \<Rightarrow> sort_key entry_key hs)"

lemma history_of_latest:
  assumes "latestHistoryRecord W st op = Inr (r, d)"
  shows "history_of W st op \<noteq> []" and "last (history_of W st op) = (r, d)"
    and "unat (mr_sequence r) = length (history_of W st op)"
    and "i < length (history_of W st op) \<Longrightarrow>
      (\<exists>raw \<in> snd ` set (dir_of st op). decodeRecord W raw = Inr (history_of W st op ! i)) \<and>
      mr_previous (fst (history_of W st op ! i)) = (if i = 0 then [] else snd (history_of W st op ! (i - 1)))"
proof -
  from assms obtain fs es where es: "map_of (js_dirs st) op = Some fs" "length fs \<le> 256"
    "read_entries W op fs = Inr es" "check_history (sort_key entry_key es) = Inr (r, d)"
    by (auto simp: latest_Inr)
  have h: "history_of W st op = sort_key entry_key es" and dir: "dir_of st op = fs"
    using es by (simp_all add: history_of_def dir_of_def)
  have len: "length es \<le> 256"
    using read_entries_length [OF es(3)] es(2) by simp
  show "history_of W st op \<noteq> []" "last (history_of W st op) = (r, d)"
    using check_history_last [OF es(4)] h by simp_all
  show "unat (mr_sequence r) = length (history_of W st op)"
    using history_sequences(2) [OF es(4) len] h by (simp only: length_sort fst_conv)
  assume i: "i < length (history_of W st op)"
  obtain x y where xy: "history_of W st op ! i = (x, y)" by fastforce
  have "(x, y) \<in> set es"
    using i xy h by (metis nth_mem set_sort)
  from read_entries_files [OF es(3) this] have "\<exists>raw \<in> snd ` set (dir_of st op). decodeRecord W raw = Inr (history_of W st op ! i)"
    using dir xy by force
  then show "(\<exists>raw \<in> snd ` set (dir_of st op). decodeRecord W raw = Inr (history_of W st op ! i)) \<and>
      mr_previous (fst (history_of W st op ! i)) = (if i = 0 then [] else snd (history_of W st op ! (i - 1)))"
    using check_history_nth(2) [OF es(4), of i] i h by simp
qed

text \<open>
  The digest of the active record commits to the whole history: two stores whose accepted
  history of an operation ends in the same digest hold the same records in the same order, unless
  SHA-256 collides on two of the stored files.
\<close>

theorem head_digest_commits_to_history:
  assumes "latestHistoryRecord W st op = Inr (r, d)" and "latestHistoryRecord W st' op = Inr (r', d)"
    and "inj_on (w_sha W) (snd ` set (dir_of st op) \<union> snd ` set (dir_of st' op))"
  shows "history_of W st op = history_of W st' op"
proof -
  let ?h = "history_of W st op" and ?k = "history_of W st' op"
  note h = history_of_latest [OF assms(1)] and k = history_of_latest [OF assms(2)]
  have same: "?h ! i = ?k ! j" if i: "i < length ?h" and j: "j < length ?k" and eq: "snd (?h ! i) = snd (?k ! j)" for i j
  proof -
    obtain raw where raw: "raw \<in> snd ` set (dir_of st op)" "decodeRecord W raw = Inr (?h ! i)"
      using h(4) [OF i] by blast
    obtain raw' where raw': "raw' \<in> snd ` set (dir_of st' op)" "decodeRecord W raw' = Inr (?k ! j)"
      using k(4) [OF j] by blast
    have "snd (?h ! i) = digest_of W raw" "snd (?k ! j) = digest_of W raw'"
      using raw(2) raw'(2) decodeRecord_Inr [of W] by (metis prod.collapse)+
    then have "w_sha W raw = w_sha W raw'"
      using eq by (simp add: digest_of_def)
    then have "raw = raw'"
      using assms(3) raw(1) raw'(1) by (auto dest: inj_onD)
    with raw raw' show ?thesis by simp
  qed
  have pos: "0 < length ?h" "0 < length ?k"
    using h(1) k(1) by simp_all
  have lasts: "?h ! (length ?h - 1) = (r, d)" "?k ! (length ?k - 1) = (r', d)"
    using h(1,2) k(1,2) by (simp_all add: last_conv_nth)
  then have "(r, d) = (r', d)"
    using same [of "length ?h - 1" "length ?k - 1"] pos by simp
  then have len: "length ?h = length ?k"
    using h(3) k(3) by simp
  have agree: "m < length ?h \<Longrightarrow> ?h ! (length ?h - 1 - m) = ?k ! (length ?h - 1 - m)" for m
  proof (induction m)
    case 0
    then show ?case using lasts len \<open>(r, d) = (r', d)\<close> by simp
  next
    case (Suc m)
    let ?i = "length ?h - 1 - m"
    have i: "0 < ?i" "?i < length ?h" "?i - 1 = length ?h - 1 - Suc m"
      using Suc.prems by auto
    have "?h ! ?i = ?k ! ?i"
      using Suc by simp
    moreover have "mr_previous (fst (?h ! ?i)) = snd (?h ! (?i - 1))" "mr_previous (fst (?k ! ?i)) = snd (?k ! (?i - 1))"
      using h(4) [OF i(2)] k(4) [of ?i] i(1,2) len by simp_all
    ultimately have "snd (?h ! (?i - 1)) = snd (?k ! (?i - 1))"
      by simp
    then show ?case
      using same [of "?i - 1" "?i - 1"] i len by simp
  qed
  show ?thesis
  proof (rule nth_equalityI [OF len])
    fix i assume "i < length ?h"
    then show "?h ! i = ?k ! i"
      using agree [of "length ?h - 1 - i"] by simp
  qed
qed

section \<open>A journal of sample records\<close>

text \<open>Records stand for their own bytes, and a digest shows the sequence.\<close>

definition sample_signature :: mutation_signature where
  "sample_signature = no_signature\<lparr>sg_owner_ref := ''o''\<rparr>"

definition sample_wire :: "mutation_record wire" where
  "sample_wire = \<lparr>w_encode = (\<lambda>r. r), w_decode = Some, w_size = (\<lambda>_. 0), w_take = (\<lambda>_ r. r),
     w_sha = (\<lambda>r. replicate 44 CHR ''0'' @ dec_fixed 20 (unat (mr_sequence r))),
     w_sign = (\<lambda>_. Some sample_signature), w_verify = (\<lambda>_ _. True),
     w_workspace = sample_digest CHR ''a'', w_digests = sample_digest_env\<rparr>"

definition sample_head :: "nat \<Rightarrow> mutation_record" where
  "sample_head n =
     (sample_restore_record PhasePrepared sample_restore_state)
       \<lparr>mr_sequence := of_nat (n + 1), mr_signature := sample_signature,
        mr_previous := (if n = 0 then [] else sha256_prefix @ replicate 44 CHR ''0'' @ dec_fixed 20 n)\<rparr>"

fun sample_journal :: "nat \<Rightarrow> mutation_record journal_store" where
  "sample_journal 0 =
     \<lparr>js_active = Some (sample_head 0),
      js_dirs = [(''restore-1'', [(history_name 1 (digest_of sample_wire (sample_head 0)), sample_head 0)])]\<rparr>"
| "sample_journal (Suc n) =
     with_pointer sample_wire (sample_head (Suc n)) (with_entry sample_wire (sample_head (Suc n)) (sample_journal n))"

lemma dec_fixed_hex: "list_all is_hex (dec_fixed k n) \<and> map ascii_lower (dec_fixed k n) = dec_fixed k n"
proof (induction k arbitrary: n)
  case (Suc k)
  have "m < 10 \<Longrightarrow> is_hex (char_of (48 + m)) \<and> ascii_lower (char_of (48 + m)) = char_of (48 + m)" for m :: nat
  proof -
    assume "m < 10"
    then have "m \<in> {0, 1, 2, 3, 4, 5, 6, 7, 8, 9}" by auto
    then show ?thesis
      by (elim insertE emptyE; simp add: is_hex_def ascii_lower_def; code_simp)
  qed
  then have "is_hex (dec_digit n) \<and> ascii_lower (dec_digit n) = dec_digit n"
    by (simp add: dec_digit_def)
  with Suc show ?case by simp
qed simp

lemma sample_canonical: "canonicalDigest (sha256_prefix @ replicate 44 CHR ''0'' @ dec_fixed 20 n)"
proof -
  have "is_hex CHR ''0''" "ascii_lower CHR ''0'' = CHR ''0''" "map ascii_lower sha256_prefix = sha256_prefix"
    by code_simp+
  then show ?thesis
    using dec_fixed_hex [of 20 n] by (simp add: canonicalDigest_def list_all_iff)
qed

lemma sample_wire_lawful: "lawful_wire sample_wire"
  using sample_canonical by (simp add: lawful_wire_def sample_wire_def digest_of_def)

lemma sample_head_simps [simp]:
  "mr_operation_id (sample_head n) = ''restore-1''" "recordBlocksMutation (sample_head n)"
  "mr_sequence (sample_head n) = of_nat (n + 1)"
  by (simp_all add: sample_head_def sample_restore_record_def recordBlocksMutation_def)

lemma sample_digest_head:
  "n < 1000 \<Longrightarrow> digest_of sample_wire (w_encode sample_wire (sample_head n)) =
     sha256_prefix @ replicate 44 CHR ''0'' @ dec_fixed 20 (n + 1)"
  using unat_small [of "n + 1"] by (simp add: digest_of_def sample_wire_def)

lemma renumbered_frame:
  "mr_api_version (r\<lparr>mr_sequence := sq, mr_signature := sg, mr_previous := d\<rparr>) = mr_api_version r"
  "mr_operation_id (r\<lparr>mr_sequence := sq, mr_signature := sg, mr_previous := d\<rparr>) = mr_operation_id r"
  "mr_kind (r\<lparr>mr_sequence := sq, mr_signature := sg, mr_previous := d\<rparr>) = mr_kind r"
  "mr_workspace_hash (r\<lparr>mr_sequence := sq, mr_signature := sg, mr_previous := d\<rparr>) = mr_workspace_hash r"
  "mr_owner_ref (r\<lparr>mr_sequence := sq, mr_signature := sg, mr_previous := d\<rparr>) = mr_owner_ref r"
  "mr_status (r\<lparr>mr_sequence := sq, mr_signature := sg, mr_previous := d\<rparr>) = mr_status r"
  "mr_phase (r\<lparr>mr_sequence := sq, mr_signature := sg, mr_previous := d\<rparr>) = mr_phase r"
  "mr_checkpoint (r\<lparr>mr_sequence := sq, mr_signature := sg, mr_previous := d\<rparr>) = mr_checkpoint r"
  "mr_target (r\<lparr>mr_sequence := sq, mr_signature := sg, mr_previous := d\<rparr>) = mr_target r"
  "mr_prior (r\<lparr>mr_sequence := sq, mr_signature := sg, mr_previous := d\<rparr>) = mr_prior r"
  "mr_restore (r\<lparr>mr_sequence := sq, mr_signature := sg, mr_previous := d\<rparr>) = mr_restore r"
  "mr_upgrade_data (r\<lparr>mr_sequence := sq, mr_signature := sg, mr_previous := d\<rparr>) = mr_upgrade_data r"
  "mr_join (r\<lparr>mr_sequence := sq, mr_signature := sg, mr_previous := d\<rparr>) = mr_join r"
  "mr_updated_at (r\<lparr>mr_sequence := sq, mr_signature := sg, mr_previous := d\<rparr>) = mr_updated_at r"
  "mr_sequence (r\<lparr>mr_sequence := sq, mr_signature := sg, mr_previous := d\<rparr>) = sq"
  "mr_previous (r\<lparr>mr_sequence := sq, mr_signature := sg, mr_previous := d\<rparr>) = d"
  by simp_all

lemma renumbered_states:
  fixes r sq sg d
  defines "r' \<equiv> r\<lparr>mr_sequence := sq, mr_signature := sg, mr_previous := d\<rparr>"
  shows "validateRestoreActivationState K r' = validateRestoreActivationState K r"
    and "validateUpgradeDataActivationState K r' = validateUpgradeDataActivationState K r"
    and "validate_status r' = validate_status r" and "validate_join r' = validate_join r"
  unfolding r'_def
  by (simp_all only: validateRestoreActivationState_def validateUpgradeDataActivationState_def validate_status_def
      validate_join_def validateRestoreAppGroupClosures_def restore_authority_ok_def renumbered_frame)

lemma validate_renumbered:
  assumes "validateRecord K r = None" and "sq \<noteq> 0" and "d = [] \<or> canonicalDigest d"
  shows "validateRecord K (r\<lparr>mr_sequence := sq, mr_signature := sg, mr_previous := d\<rparr>) = None"
proof -
  let ?r = "r\<lparr>mr_sequence := sq, mr_signature := sg, mr_previous := d\<rparr>"
  have "validate_base ?r = None"
    using assms(1,2) by (simp add: validateRecord_None validate_base_def)
  moreover have "validate_kind K ?r = validate_kind K r"
    by (simp only: validate_kind_def renumbered_states renumbered_frame)
  ultimately show ?thesis
    using assms by (simp only: validateRecord_None renumbered_states renumbered_frame) blast
qed

lemma word_count_nonzero: "n < 1000 \<Longrightarrow> (of_nat (n + 1) :: 64 word) \<noteq> 0"
proof
  assume "n < 1000" and "(of_nat (n + 1) :: 64 word) = 0"
  moreover from \<open>n < 1000\<close> have "unat (of_nat (n + 1) :: 64 word) = n + 1"
    by (intro unat_small) simp
  ultimately show False by (simp only: unsigned_0)
qed

lemma sample_head_valid: "n < 1000 \<Longrightarrow> validateRecord sample_digest_env (sample_head n) = None"
  unfolding sample_head_def
  using validate_renumbered [OF sample_restore_valid word_count_nonzero [of n]] sample_canonical by simp

lemma sample_readable:
  assumes "n < 998"
  shows "sealed (sample_head (Suc n)) (digest_of sample_wire (w_encode sample_wire (sample_head n))) sample_signature =
      sample_head (Suc n)"
    and "readable sample_wire (sample_head (Suc n)) (digest_of sample_wire (w_encode sample_wire (sample_head n)))
      sample_signature"
proof -
  show s: "sealed (sample_head (Suc n)) (digest_of sample_wire (w_encode sample_wire (sample_head n))) sample_signature =
      sample_head (Suc n)"
    using assms sample_digest_head [of n] by (simp add: sealed_def sample_head_def)
  show "readable sample_wire (sample_head (Suc n)) (digest_of sample_wire (w_encode sample_wire (sample_head n)))
      sample_signature"
    using sample_head_valid [of "Suc n"] assms unfolding readable_def s
    by (simp add: sample_wire_def sample_signature_def sample_head_def sample_restore_record_def maxRecordBytes_def)
qed

lemma sample_journal_origin:
  "loadRecord sample_wire (sample_journal 0) =
     Inr (Some (sample_head 0, digest_of sample_wire (w_encode sample_wire (sample_head 0))))"
proof -
  let ?r = "sample_head 0" and ?st = "sample_journal 0"
  let ?d = "digest_of sample_wire (w_encode sample_wire ?r)"
  have w: "w_encode sample_wire ?r = ?r" "mr_sequence ?r = 1" "mr_previous ?r = []"
    by (simp_all add: sample_wire_def) (simp add: sample_head_def)
  have dec: "decodeRecord sample_wire ?r = Inr (?r, ?d)"
    using sample_head_valid [of 0]
    by (simp add: decodeRecord_Inr sample_wire_def sample_signature_def sample_head_def sample_restore_record_def
        maxRecordBytes_def)
  have "latestHistoryRecord sample_wire ?st ''restore-1'' = Inr (?r, ?d)"
    using dec w by (simp add: latestHistoryRecord_def history_name_not_temp check_history_def)
  moreover have "operations ?st = {''restore-1''}"
    by (simp add: operations_def)
  ultimately have "heads_fit sample_wire ?st ?r ?d"
    by (simp add: heads_fit_def heads_single histories_ok_def head_of_def)
  then show ?thesis
    using dec \<open>latestHistoryRecord sample_wire ?st ''restore-1'' = Inr (?r, ?d)\<close>
    by (simp add: loadRecord_Some)
qed

lemma sample_journal_loads:
  "n < 256 \<Longrightarrow>
     loadRecord sample_wire (sample_journal n) =
       Inr (Some (sample_head n, digest_of sample_wire (w_encode sample_wire (sample_head n)))) \<and>
     length (dir_of (sample_journal n) ''restore-1'') = n + 1"
proof (induction n)
  case 0
  then show ?case
    using sample_journal_origin by (simp add: dir_of_def)
next
  case (Suc n)
  let ?d = "digest_of sample_wire (w_encode sample_wire (sample_head n))"
  have seal: "sealed (sample_head (Suc n)) ?d sample_signature = sample_head (Suc n)"
    using sample_readable(1) [of n] Suc.prems by simp
  have "successor_of sample_wire (sample_journal n) (sample_head n) ?d (sample_head (Suc n)) sample_signature"
    using Suc sample_readable(2) [of n] by (simp add: successor_of_def)
  from with_pointer_loads [OF sample_wire_lawful this] Suc show ?case
    by (simp add: seal) (simp add: with_pointer_def with_entry_def dir_of_def)
qed

lemma sample_successor:
  assumes "n < 255"
  shows "successor_of sample_wire (sample_journal n) (sample_head n)
    (digest_of sample_wire (w_encode sample_wire (sample_head n))) (sample_head (Suc n)) sample_signature"
  using sample_journal_loads [of n] sample_readable(2) [of n] assms by (simp add: successor_of_def)

lemma sample_files:
  "snd ` set (dir_of (sample_journal n) ''restore-1'') \<subseteq> sample_head ` {..n}"
proof (induction n)
  case (Suc n)
  have "dir_of (sample_journal (Suc n)) ''restore-1'' =
      dir_of (sample_journal n) ''restore-1'' @
        [(history_name (mr_sequence (sample_head (Suc n)))
            (digest_of sample_wire (sample_head (Suc n))), sample_head (Suc n))]"
    by (simp add: with_pointer_def with_entry_def dir_of_def sample_wire_def)
  with Suc show ?case by auto
qed (simp add: dir_of_def)

lemma sample_sha_inj: "n < 1000 \<Longrightarrow> inj_on (w_sha sample_wire) (sample_head ` {..n})"
proof (rule inj_onI, elim imageE)
  fix x y i j
  assume *: "n < 1000" "w_sha sample_wire x = w_sha sample_wire y" "x = sample_head i" "i \<in> {..n}"
    "y = sample_head j" "j \<in> {..n}"
  then have "dec_fixed 20 (i + 1) = dec_fixed 20 (j + 1)"
    using unat_small [of "i + 1"] unat_small [of "j + 1"] by (simp add: sample_wire_def)
  then have "i + 1 = j + 1"
    by (rule dec_fixed_inj) (use * in auto)
  with * show "x = y" by simp
qed

section \<open>Witnesses\<close>

theorem accepted_history_is_linear_witness:
  "\<exists>r d hs. latestHistoryRecord sample_wire (sample_journal 4) ''restore-1'' = Inr (r, d) \<and>
     hs \<noteq> [] \<and> last hs = (r, d) \<and> unat (mr_sequence r) = length hs"
proof -
  obtain l d where "latestHistoryRecord sample_wire (sample_journal 4) ''restore-1'' = Inr (l, d)"
    using loaded_dir(2) [of sample_wire "sample_journal 4" "sample_head 4"] sample_journal_loads [of 4] by auto
  with accepted_history_is_linear [OF this] show ?thesis by blast
qed

theorem persist_is_atomic_witness:
  "\<exists>st' q dd e. persistRecord sample_wire (WriteError True True (Some (''x'', 7))) (WriteRefused True None) (sample_journal 3)
       (sample_head 4) (digest_of sample_wire (w_encode sample_wire (sample_head 3))) = (st', q, dd, e) \<and>
     (loadRecord sample_wire st' =
        Inr (Some (sample_head 3, digest_of sample_wire (w_encode sample_wire (sample_head 3)))) \<or>
      (\<exists>st''. recoverLatestRecord sample_wire Written st' ''restore-1'' =
         (st'', Inr (sample_head 4, digest_of sample_wire (w_encode sample_wire (sample_head 4))))))"
proof -
  let ?d = "digest_of sample_wire (w_encode sample_wire (sample_head 3))"
  obtain st' q dd e where p: "persistRecord sample_wire (WriteError True True (Some (''x'', 7))) (WriteRefused True None)
      (sample_journal 3) (sample_head 4) ?d = (st', q, dd, e)"
    by (metis prod_cases4)
  have "successor_of sample_wire (sample_journal 3) (sample_head 3) ?d (sample_head 4) sample_signature"
    and s: "sealed (sample_head 4) ?d sample_signature = sample_head 4"
    using sample_successor [of 3] sample_readable(1) [of 3] by simp_all
  moreover have "digest_of sample_wire (w_encode sample_wire (sample_head 4)) \<noteq> ?d"
    using sample_digest_head [of 3] sample_digest_head [of 4] dec_fixed_inj [of 20 4 5] by auto
  ultimately show ?thesis
    using persist_is_atomic [OF sample_wire_lawful, of "sample_journal 3" "sample_head 3" ?d "sample_head 4" sample_signature,
        unfolded s sample_head_simps(1), OF _ _ p] p sample_journal_loads [of 3] by fastforce
qed

theorem failed_first_write_blocks_journal_witness:
  "\<exists>st' e. persistRecord sample_wire (WriteError False True (Some (''x'', 7))) Written \<lparr>js_active = None, js_dirs = []\<rparr>
       (sample_head 0) [] = (st', sealed (sample_head 0) [] sample_signature, [], Some e) \<and> journal_blocked sample_wire st'"
proof (rule failed_first_write_blocks_journal)
  show "w_sign sample_wire (signingBytes sample_wire (sealed (sample_head 0) [] no_signature)) = Some sample_signature"
    "w_size sample_wire (w_encode sample_wire (sealed (sample_head 0) [] sample_signature)) \<le> maxRecordBytes"
    by (simp_all add: sample_wire_def)
qed (simp_all add: operations_def takes_effect_def)

theorem history_limit_blocks_journal_witness:
  "\<exists>st' q d e. persistRecord sample_wire Written Written (sample_journal 255) (sample_head 256)
       (digest_of sample_wire (w_encode sample_wire (sample_head 255))) = (st', q, d, Some e) \<and>
     journal_blocked sample_wire st'"
proof -
  have "length (dir_of (sample_journal 255) (mr_operation_id (sample_head 255))) = 256"
    using sample_journal_loads [of 255] by simp
  from history_limit_blocks_journal [OF sample_wire_lawful conjunct1 [OF sample_journal_loads [of 255]], of "sample_head 256", OF _ _ _ _ this]
    sample_readable(2) [of 255]
  show ?thesis by fastforce
qed

theorem head_digest_commits_to_history_witness:
  "history_of sample_wire (sample_journal 2) ''restore-1'' =
     history_of sample_wire ((sample_journal 2)\<lparr>js_active := None\<rparr>) ''restore-1''"
proof -
  obtain l d where l: "latestHistoryRecord sample_wire (sample_journal 2) ''restore-1'' = Inr (l, d)"
    using loaded_dir(2) [of sample_wire "sample_journal 2" "sample_head 2"] sample_journal_loads [of 2] by auto
  have dir: "dir_of (st\<lparr>js_active := None\<rparr>) op = dir_of st op" for st :: "mutation_record journal_store" and op
    by (simp add: dir_of_def)
  have "inj_on (w_sha sample_wire) (snd ` set (dir_of (sample_journal 2) ''restore-1''))"
    using sample_sha_inj [of 2] sample_files [of 2] by (simp add: inj_on_subset)
  with l show ?thesis
    by (intro head_digest_commits_to_history [of sample_wire _ _ l d]) (simp_all add: dir)
qed

end
