(* ===== verification/MutationSession.thy ===== *)
theory MutationSession
  imports MutationJournal
begin

text \<open>
  Sessions of the lifecycle journal (\<open>internal/lifecyclemutation\<close>: the \<open>Session\<close> operations of
  \<open>journal.go\<close>, \<open>upgrade_recovery.go\<close>, \<open>upgrade_data_activation.go\<close>, \<open>restore_controls.go\<close>,
  \<open>restore_app_groups.go\<close> and \<open>restore_group_closures.go\<close>), the admission of joined children and
  their one-use claims, and the admission of ordinary mutations.

  The world holds the journal, the lifecycle lock, the claim locks that are held (by operation)
  and the claim files. A call receives what it does not control in an environment: how the two
  journal writes and the claim write end, the clock, the random nonce, the Owner's custody,
  whether runtime controls outside the journal are settled, and whether the process table shows an
  old claimant gone. SHA-256 of a nonce and the comparison of semantic versions are parameters.
  Errors of lock release and of directory handling are left out.
\<close>

section \<open>World, sessions, environment\<close>

record join_claim =
  jc_api_version :: string
  jc_operation_id :: string
  jc_sequence :: "64 word"
  jc_phase :: phase
  jc_command :: string
  jc_nonce :: string
  jc_executable :: string
  jc_claimed_at :: nat
  jc_custody :: string

definition JoinClaimCustodyLifetime :: string where
  "JoinClaimCustodyLifetime = ''lifetime-lock''"

text \<open>A claim file that does not decode is \<open>None\<close>.\<close>

record 'b world =
  wd_store :: "'b journal_store"
  wd_lock :: bool
  wd_claim_locks :: "string list"
  wd_claims :: "(string \<times> join_claim option) list"

record session =
  ss_open :: bool
  ss_lock :: bool
  ss_claim_lock :: bool
  ss_record :: mutation_record
  ss_digest :: string
  ss_claimant_gone :: bool
  ss_forward :: bool
  ss_retarget :: bool
  ss_release :: bool

record session_env =
  ev_history :: write_outcome
  ev_active :: write_outcome
  ev_claim :: write_outcome
  ev_now :: nat
  ev_nonce :: "string option"
  ev_owner :: "string option"
  ev_settled :: bool
  ev_legacy_gone :: bool

record session_funs =
  fn_nonce_digest :: "string \<Rightarrow> string"
  fn_semver_valid :: "string \<Rightarrow> bool"
  fn_semver_compare :: "string \<Rightarrow> string \<Rightarrow> int"

datatype session_error =
    Fault journal_fault | InvalidRecord journal_error | LockHeld | ActiveMutation | ControlsUnsettled
  | PreparationFailed | OperationIDUnusable | OperationIDUsed | OwnerUnavailable | OwnerDiffers
  | NotExactMutation | KindDiffers | ClaimLockHeld | ClaimUndecodable | ClaimDiffers | ClaimantMayRun
  | ClaimCustodyUnknown | DataActivationRequired | NeedsRecoveryCustody | TransitionNotAuthorized
  | RestoreStateRequired | RestoreStateOnUpgrade | DataStateNeedsAPI | DataPhaseNeedsAPI | DataGrantsJoin
  | JournalChanged | RestoreSessionRequired | JoinAuthorityInvalid | JoinNotSignedExecutor | NonceUnavailable
  | ForwardNeedsCustody | ForwardNotAdmitted | RetargetRefused | SessionRequired | TerminalStatusInvalid
  | SucceededNeedsCommit | RecoveredNeedsRollback | ReconciledOther | NotPreparedRelease
  | DataActivationNeedsSession | DataStateMissing | GroupOverlapsControl | GroupAuthorityChanged
  | GroupDiffers | GroupUnresolved | ClosureJournalChanged | ClosuresPending | JoinNotExactRequest | JoinDiffers
  | JoinUnauthorized | NonceClaimed | SnapshotNotAdmitted | RestoreHistoryInvalid | NilJoin | NilRestore

definition faulty :: "journal_fault + 'a \<Rightarrow> session_error + 'a" where
  "faulty m = map_sum Fault id m"

definition zero_record :: mutation_record where
  "zero_record =
     \<lparr>mr_api_version = [], mr_operation_id = [], mr_kind = KindOther [], mr_workspace_hash = [], mr_owner_ref = [],
      mr_status = StatusOther [], mr_phase = PhaseOther [], mr_sequence = 0, mr_previous = [],
      mr_checkpoint = no_checkpoint, mr_target = no_release, mr_prior = no_release, mr_restore = None,
      mr_upgrade_data = None, mr_join = None, mr_updated_at = 0, mr_signature = no_signature\<rparr>"

definition openLocked :: "'b world \<Rightarrow> session_error + 'b world \<times> session" where
  "openLocked w =
     (if wd_lock w then Inl LockHeld
      else Inr (w\<lparr>wd_lock := True\<rparr>,
        \<lparr>ss_open = True, ss_lock = True, ss_claim_lock = False, ss_record = zero_record, ss_digest = [],
         ss_claimant_gone = False, ss_forward = False, ss_retarget = False, ss_release = False\<rparr>))"

definition release_claim :: "string \<Rightarrow> 'b world \<Rightarrow> 'b world" where
  "release_claim op w = w\<lparr>wd_claim_locks := remove1 op (wd_claim_locks w)\<rparr>"

definition Close :: "'b world \<Rightarrow> session \<Rightarrow> 'b world \<times> session" where
  "Close w s =
     (let w1 = (if ss_claim_lock s then release_claim (mr_operation_id (ss_record s)) w else w);
          w2 = (if ss_lock s then w1\<lparr>wd_lock := False\<rparr> else w1) in
      (w2, s\<lparr>ss_claim_lock := False, ss_lock := False, ss_open := False\<rparr>))"

section \<open>Writing the next record of a session\<close>

text \<open>
  Every operation that writes puts the record it wants into the session, calls \<open>persistRecord\<close>, and
  keeps the record when a digest came back, also with an error; otherwise the previous record
  returns.
\<close>

definition commit_record ::
  "'b wire \<Rightarrow> session_env \<Rightarrow> 'b world \<Rightarrow> session \<Rightarrow> mutation_record \<Rightarrow> 'b world \<times> session \<times> session_error option" where
  "commit_record W ev w s r =
     (case persistRecord W (ev_history ev) (ev_active ev) (wd_store w) r (ss_digest s) of
        (st, r', d, e) \<Rightarrow>
          (w\<lparr>wd_store := st\<rparr>,
           if d \<noteq> [] then s\<lparr>ss_record := r', ss_digest := d\<rparr>
           else if e \<noteq> None then s else s\<lparr>ss_record := r'\<rparr>,
           map_option Fault e))"

text \<open>The check before a write that the journal still holds the record of the session.\<close>

definition journal_current ::
  "'b wire \<Rightarrow> 'b world \<Rightarrow> session \<Rightarrow> phase \<Rightarrow> session_error option" where
  "journal_current W w s p =
     (case loadRecord W (wd_store w) of
        Inl x \<Rightarrow> Some (Fault x)
      | Inr None \<Rightarrow> Some JournalChanged
      | Inr (Some (c, d)) \<Rightarrow>
          check (mr_operation_id c \<noteq> mr_operation_id (ss_record s) \<or> mr_sequence c \<noteq> mr_sequence (ss_record s) \<or>
                 mr_phase c \<noteq> p \<or> d \<noteq> ss_digest s) JournalChanged)"

section \<open>Claims of joined children\<close>

definition joinClaimPath :: "mutation_record \<Rightarrow> string option" where
  "joinClaimPath r =
     map_option (\<lambda>j. mr_operation_id r @ ''/'' @ dec_fixed 20 (unat (mr_sequence r)) @ ''-'' @
       drop 7 (jn_nonce j) @ ''.json'') (mr_join r)"

definition claim_api_version :: string where
  "claim_api_version = APIVersion @ ''/join-claim''"

definition requireClaimantGone ::
  "session_env \<Rightarrow> join_claim option \<Rightarrow> mutation_record \<Rightarrow> session_error option" where
  "requireClaimantGone ev file r =
     (case file of
        None \<Rightarrow> Some ClaimUndecodable
      | Some c \<Rightarrow>
          if jc_api_version c \<noteq> claim_api_version \<or> jc_operation_id c \<noteq> mr_operation_id r \<or>
             jc_sequence c \<noteq> mr_sequence r \<or> jc_phase c \<noteq> mr_phase r \<or>
             (case mr_join r of None \<Rightarrow> True
              | Some j \<Rightarrow> jc_command c \<noteq> jn_command j \<or> jc_nonce c \<noteq> jn_nonce j \<or>
                  jc_executable c \<noteq> jn_executable j)
          then Some ClaimDiffers
          else if jc_custody c = JoinClaimCustodyLifetime then None
          else if jc_custody c = [] then check (\<not> ev_legacy_gone ev) ClaimantMayRun
          else Some ClaimCustodyUnknown)"

text \<open>
  The lock stays in the session also when the claim is refused: the caller closes the session.
\<close>

definition acquireRecoveryClaimLock ::
  "session_env \<Rightarrow> 'b world \<Rightarrow> session \<Rightarrow> 'b world \<times> session \<times> session_error option" where
  "acquireRecoveryClaimLock ev w s =
     (let r = ss_record s; op = mr_operation_id r in
      if \<not> ss_open s \<or> op = [] then (w, s, Some SessionRequired)
      else if op \<in> set (wd_claim_locks w) then (w, s, Some ClaimLockHeld)
      else
        let w1 = w\<lparr>wd_claim_locks := op # wd_claim_locks w\<rparr>; s1 = s\<lparr>ss_claim_lock := True\<rparr> in
        if mr_kind r = KindUpgrade \<and> joinPhase (mr_phase r)
        then (case joinClaimPath r of
                None \<Rightarrow> (w1, s1, Some NilJoin)
              | Some path \<Rightarrow>
                 (case map_of (wd_claims w1) path of
                    None \<Rightarrow> (w1, s1, None)
                  | Some file \<Rightarrow>
                     (case requireClaimantGone ev file r of
                        Some e \<Rightarrow> (w1, s1, Some e)
                      | None \<Rightarrow> (w1, s1\<lparr>ss_claimant_gone := True\<rparr>, None))))
        else (w1, s1, None))"

section \<open>What the history proves\<close>

definition pre_apply_phases :: "phase list" where
  "pre_apply_phases =
     [PhasePrepared, PhaseTargetGenerateStarted, PhaseTargetGenerateSucceeded, PhaseRollbackStarted,
      PhaseRollbackGenerateStarted, PhaseRollbackGenerateDone]"

fun admitted_scan :: "'b wire \<Rightarrow> 'b dir \<Rightarrow> session_error + bool" where
  "admitted_scan W [] = Inr False"
| "admitted_scan W ((name, raw) # fs) =
     (if has_prefix name temp_prefix then admitted_scan W fs
      else ebind (faulty (decodeRecord W raw)) (\<lambda>(r, _).
        if mr_phase r \<in> set pre_apply_phases then admitted_scan W fs else Inr True))"

definition targetApplyAdmitted :: "'b wire \<Rightarrow> 'b world \<Rightarrow> session \<Rightarrow> session_error + bool" where
  "targetApplyAdmitted W w s =
     (let op = mr_operation_id (ss_record s) in
      case latestHistoryRecord W (wd_store w) op of
        Inl x \<Rightarrow> Inl (Fault x)
      | Inr (l, d) \<Rightarrow>
          if mr_sequence l \<noteq> mr_sequence (ss_record s) \<or> d \<noteq> ss_digest s then Inl DataActivationRequired
          else admitted_scan W (dir_of (wd_store w) op))"

definition record_pre_apply :: "mutation_record \<Rightarrow> bool" where
  "record_pre_apply r \<longleftrightarrow> mr_kind r = KindUpgrade \<and> mr_status r = StatusActive \<and>
     mr_phase r \<in> {PhasePrepared, PhaseTargetGenerateStarted, PhaseTargetGenerateSucceeded}"

definition RequirePreApplyUpgradeRollback :: "'b wire \<Rightarrow> 'b world \<Rightarrow> session \<Rightarrow> session_error option" where
  "RequirePreApplyUpgradeRollback W w s =
     (let r = ss_record s; admits = record_pre_apply r in
      if \<not> ss_open s then Some DataActivationRequired
      else if \<not> admits \<and>
         (\<not> ss_claim_lock s \<or> mr_kind r \<noteq> KindUpgrade \<or> mr_status r \<noteq> StatusActive \<or>
          mr_phase r \<notin> {PhaseRollbackStarted, PhaseRollbackGenerateStarted, PhaseRollbackGenerateDone})
      then Some DataActivationRequired
      else case targetApplyAdmitted W w s of
        Inl e \<Rightarrow> Some e
      | Inr True \<Rightarrow> Some DataActivationRequired
      | Inr False \<Rightarrow>
          if \<not> admits \<and> joinPhase (mr_phase r)
          then (case joinClaimPath r of
                  None \<Rightarrow> Some NilJoin
                | Some path \<Rightarrow> check (map_of (wd_claims w) path \<noteq> None \<and> \<not> ss_claimant_gone s) DataActivationRequired)
          else None)"

definition ForwardRecoveryAdmitted :: "'b wire \<Rightarrow> 'b world \<Rightarrow> session \<Rightarrow> session_error + bool" where
  "ForwardRecoveryAdmitted W w s =
     (let r = ss_record s in
      if \<not> ss_open s \<or> mr_kind r \<noteq> KindUpgrade \<or> mr_status r \<noteq> StatusActive \<or> mr_upgrade_data r \<noteq> None
      then Inr False
      else if ForwardRecoveryPhase (mr_phase r) then Inr True
      else if mr_phase r \<notin> {PhaseTargetGenerateStarted, PhaseTargetGenerateSucceeded} then Inr False
      else targetApplyAdmitted W w s)"

fun prepared_scan :: "'b wire \<Rightarrow> 'b dir \<Rightarrow> session_error + bool" where
  "prepared_scan W [] = Inr True"
| "prepared_scan W ((name, raw) # fs) =
     (if has_prefix name temp_prefix then prepared_scan W fs
      else ebind (faulty (decodeRecord W raw)) (\<lambda>(r, _).
        if mr_phase r \<noteq> PhasePrepared \<or> mr_join r \<noteq> None then Inr False else prepared_scan W fs))"

definition PreparedReleaseAdmitted :: "'b wire \<Rightarrow> 'b world \<Rightarrow> session \<Rightarrow> session_error + bool" where
  "PreparedReleaseAdmitted W w s =
     (let r = ss_record s; op = mr_operation_id r in
      if \<not> ss_open s \<or> mr_kind r \<noteq> KindUpgrade \<or> mr_status r \<noteq> StatusActive \<or> mr_phase r \<noteq> PhasePrepared \<or>
         mr_join r \<noteq> None \<or> mr_upgrade_data r \<noteq> None \<or> mr_restore r \<noteq> None
      then Inr False
      else case latestHistoryRecord W (wd_store w) op of
        Inl x \<Rightarrow> Inl (Fault x)
      | Inr (l, d) \<Rightarrow>
          if mr_sequence l \<noteq> mr_sequence r \<or> d \<noteq> ss_digest s then Inr False
          else prepared_scan W (dir_of (wd_store w) op))"

section \<open>Transitions\<close>

definition forwardRecoveryTransition :: "session \<Rightarrow> phase \<Rightarrow> phase \<Rightarrow> join_authority option \<Rightarrow> bool" where
  "forwardRecoveryTransition s p q join =
     (case join of
        None \<Rightarrow> False
      | Some j \<Rightarrow>
          if \<not> ss_forward s \<or> \<not> ss_claim_lock s \<or> mr_kind (ss_record s) \<noteq> KindUpgrade \<or>
             mr_upgrade_data (ss_record s) \<noteq> None then False
          else if ss_retarget s
          then (ForwardRecoveryPhase p \<or> p = PhaseTargetGenerateStarted \<or> p = PhaseTargetGenerateSucceeded) \<and>
               q = PhaseTargetGenerateStarted \<and> jn_command j = ''generate''
          else ForwardRecoveryPhase p \<and> q = PhaseTargetApplyStarted \<and> jn_command j = ''apply'')"

definition transition_authorized ::
  "digest_env \<Rightarrow> session \<Rightarrow> phase \<Rightarrow> phase \<Rightarrow> join_authority option \<Rightarrow> restore_state option \<Rightarrow> bool" where
  "transition_authorized K s p q join restore \<longleftrightarrow>
     ss_open s \<and> mr_status (ss_record s) = StatusActive \<and> mr_phase (ss_record s) = p \<and>
     (allowedTransition (mr_kind (ss_record s)) p q \<or> forwardRecoveryTransition s p q join \<or>
      validRestoreControlTransition (ss_record s) p q restore \<or>
      validRestoreAppGroupTransition K (ss_record s) p q restore)"

text \<open>The states a transition must and must not carry, in the order of the code.\<close>

definition transition_state_error ::
  "session \<Rightarrow> phase \<Rightarrow> join_authority option \<Rightarrow> restore_state option \<Rightarrow> upgrade_data_state option \<Rightarrow> session_error option" where
  "transition_state_error s q join restore data =
     (let r = ss_record s in
      first_err
        (if mr_kind r = KindRestoreActivation
         then check (join \<noteq> None \<or> restore = None \<or> data \<noteq> None) RestoreStateRequired
         else check (restore \<noteq> None \<or> (data \<noteq> None \<and> mr_kind r \<noteq> KindUpgrade)) RestoreStateOnUpgrade)
     (first_err (check (mr_upgrade_data r \<noteq> None \<and> data = None) DataStateNeedsAPI)
     (first_err (check (mr_kind r = KindUpgrade \<and> data = None \<and> upgradeDataActivationPhase q \<and>
                        q \<noteq> PhaseRollbackSucceeded) DataPhaseNeedsAPI)
                (check (data \<noteq> None \<and> join \<noteq> None) DataGrantsJoin))))"

definition transition_record ::
  "mutation_record \<Rightarrow> phase \<Rightarrow> join_authority option \<Rightarrow> restore_state option \<Rightarrow> upgrade_data_state option \<Rightarrow> nat \<Rightarrow> mutation_record" where
  "transition_record r q join restore data now =
     r\<lparr>mr_phase := q, mr_join := join,
       mr_restore := (if restore \<noteq> None then restore else mr_restore r),
       mr_upgrade_data := (if data \<noteq> None then data else mr_upgrade_data r),
       mr_sequence := mr_sequence r + 1, mr_updated_at := int now\<rparr>"

definition restarts_rollback_generate :: "phase \<Rightarrow> phase \<Rightarrow> bool" where
  "restarts_rollback_generate p q \<longleftrightarrow>
     (p = PhaseRollbackGenerateStarted \<or> p = PhaseRollbackGenerateDone) \<and> q = PhaseRollbackStarted"

definition transition_guard ::
  "'b wire \<Rightarrow> 'b world \<Rightarrow> session \<Rightarrow> phase \<Rightarrow> phase \<Rightarrow> join_authority option \<Rightarrow> restore_state option \<Rightarrow>
   upgrade_data_state option \<Rightarrow> session_error option" where
  "transition_guard W w s p q join restore data =
     first_err (if restarts_rollback_generate p q
                then first_err (RequirePreApplyUpgradeRollback W w s) (check (\<not> ss_claim_lock s) NeedsRecoveryCustody)
                else None)
    (first_err (check (\<not> transition_authorized (w_digests W) s p q join restore) TransitionNotAuthorized)
    (first_err (transition_state_error s q join restore data)
               (journal_current W w s p)))"

definition transitionWithUpgradeData ::
  "'b wire \<Rightarrow> session_env \<Rightarrow> 'b world \<Rightarrow> session \<Rightarrow> phase \<Rightarrow> phase \<Rightarrow> join_authority option \<Rightarrow> restore_state option \<Rightarrow>
   upgrade_data_state option \<Rightarrow> 'b world \<times> session \<times> session_error option" where
  "transitionWithUpgradeData W ev w s p q join restore data =
     (case transition_guard W w s p q join restore data of
        Some e \<Rightarrow> (w, s, Some e)
      | None \<Rightarrow> commit_record W ev w s (transition_record (ss_record s) q join restore data (ev_now ev)))"

definition transition ::
  "'b wire \<Rightarrow> session_env \<Rightarrow> 'b world \<Rightarrow> session \<Rightarrow> phase \<Rightarrow> phase \<Rightarrow> join_authority option \<Rightarrow> restore_state option \<Rightarrow>
   'b world \<times> session \<times> session_error option" where
  "transition W ev w s p q join restore = transitionWithUpgradeData W ev w s p q join restore None"

definition Transition ::
  "'b wire \<Rightarrow> session_env \<Rightarrow> 'b world \<Rightarrow> session \<Rightarrow> phase \<Rightarrow> phase \<Rightarrow> 'b world \<times> session \<times> session_error option" where
  "Transition W ev w s p q = transition W ev w s p q None None"

text \<open>Copies of the slices are never nil.\<close>

definition copied_progress :: "restore_progress \<Rightarrow> restore_progress" where
  "copied_progress n =
     n\<lparr>pr_rollback_prepared := Some (items (pr_rollback_prepared n)), pr_activated := Some (items (pr_activated n))\<rparr>"

definition TransitionRestoreActivation ::
  "'b wire \<Rightarrow> session_env \<Rightarrow> 'b world \<Rightarrow> session \<Rightarrow> phase \<Rightarrow> phase \<Rightarrow> restore_progress \<Rightarrow>
   'b world \<times> session \<times> session_error option" where
  "TransitionRestoreActivation W ev w s p q n =
     (case mr_restore (ss_record s) of
        None \<Rightarrow> (w, s, Some RestoreSessionRequired)
      | Some t \<Rightarrow>
          if mr_kind (ss_record s) \<noteq> KindRestoreActivation then (w, s, Some RestoreSessionRequired)
          else case validateRestoreActivationProgressTransition (w_digests W) (mr_phase (ss_record s)) q t (copied_progress n) of
            Some e \<Rightarrow> (w, s, Some (InvalidRecord e))
          | None \<Rightarrow> transition W ev w s p q None (Some (with_progress t (copied_progress n))))"

text \<open>\<open>strings.HasPrefix(next, "rollback-")\<close> on the text of the phase.\<close>

definition rollback_text :: "phase \<Rightarrow> bool" where
  "rollback_text q = has_prefix (phase_text q) ''rollback-''"

definition signed_executor :: "session \<Rightarrow> phase \<Rightarrow> release_authority" where
  "signed_executor s q = (if rollback_text q then mr_prior (ss_record s) else mr_target (ss_record s))"

definition join_refused :: "session \<Rightarrow> phase \<Rightarrow> string \<Rightarrow> string \<Rightarrow> string \<Rightarrow> session_error option" where
  "join_refused s q command version executable =
     first_err (check (\<not> joinPhase q \<or> command \<notin> {''generate'', ''apply'', ''verify''} \<or> blank version \<or>
                       \<not> canonicalDigest executable) JoinAuthorityInvalid)
               (check (version \<noteq> ra_version (signed_executor s q) \<or>
                       executable \<noteq> ra_executable (signed_executor s q)) JoinNotSignedExecutor)"

text \<open>The new signed phase hands the claim lock of a recovery to the child it authorises.\<close>

definition hand_over :: "'b world \<Rightarrow> session \<Rightarrow> 'b world \<times> session" where
  "hand_over w s =
     (if ss_claim_lock s
      then (release_claim (mr_operation_id (ss_record s)) w, s\<lparr>ss_claim_lock := False, ss_claimant_gone := False\<rparr>)
      else (w, s))"

definition BeginJoin ::
  "'b wire \<Rightarrow> session_funs \<Rightarrow> session_env \<Rightarrow> 'b world \<Rightarrow> session \<Rightarrow> phase \<Rightarrow> phase \<Rightarrow> string \<Rightarrow> string \<Rightarrow> string \<Rightarrow>
   'b world \<times> session \<times> (session_error + string)" where
  "BeginJoin W F ev w s p q command version executable =
     (case join_refused s q command version executable of
        Some e \<Rightarrow> (w, s, Inl e)
      | None \<Rightarrow>
         (case ev_nonce ev of
            None \<Rightarrow> (w, s, Inl NonceUnavailable)
          | Some nonce \<Rightarrow>
             (case transition W ev w s p q
                (Some \<lparr>jn_command = command, jn_binary_version = version, jn_executable = executable,
                       jn_nonce = fn_nonce_digest F nonce\<rparr>) None of
                (w1, s1, Some e) \<Rightarrow> (w1, s1, Inl e)
              | (w1, s1, None) \<Rightarrow> (case hand_over w1 s1 of (w2, s2) \<Rightarrow> (w2, s2, Inr nonce)))))"

definition forward_custody :: "session \<Rightarrow> phase \<Rightarrow> bool" where
  "forward_custody s p \<longleftrightarrow> ss_open s \<and> ss_claim_lock s \<and> mr_kind (ss_record s) = KindUpgrade \<and>
     mr_status (ss_record s) = StatusActive \<and> mr_upgrade_data (ss_record s) = None \<and> mr_phase (ss_record s) = p"

definition BeginForwardRecoveryJoin ::
  "'b wire \<Rightarrow> session_funs \<Rightarrow> session_env \<Rightarrow> 'b world \<Rightarrow> session \<Rightarrow> phase \<Rightarrow> string \<Rightarrow> string \<Rightarrow>
   'b world \<times> session \<times> (session_error + string)" where
  "BeginForwardRecoveryJoin W F ev w s p version executable =
     (if \<not> forward_custody s p \<or> \<not> ForwardRecoveryPhase p then (w, s, Inl ForwardNeedsCustody)
      else case BeginJoin W F ev w (s\<lparr>ss_forward := True\<rparr>) p PhaseTargetApplyStarted ''apply'' version executable of
        (w1, s1, res) \<Rightarrow> (w1, s1\<lparr>ss_forward := False\<rparr>, res))"

definition retarget_accepted :: "session_funs \<Rightarrow> release_authority \<Rightarrow> release_authority \<Rightarrow> bool" where
  "retarget_accepted F old tgt \<longleftrightarrow>
     (let order = fn_semver_compare F (''v'' @ ra_version tgt) (''v'' @ ra_version old) in
      ra_authority old = [] \<and> fn_semver_valid F (''v'' @ ra_version old) \<and> ra_authority tgt = [] \<and>
      validReleaseAuthority tgt \<and> \<not> order < 0 \<and> \<not> (order = 0 \<and> tgt \<noteq> old))"

definition retarget_refused ::
  "'b wire \<Rightarrow> session_funs \<Rightarrow> 'b world \<Rightarrow> session \<Rightarrow> phase \<Rightarrow> release_authority \<Rightarrow> session_error option" where
  "retarget_refused W F w s p tgt =
     first_err (check (\<not> forward_custody s p) ForwardNeedsCustody)
    (first_err (check (ForwardRecoveryAdmitted W w s \<noteq> Inr True) ForwardNotAdmitted)
               (check (\<not> retarget_accepted F (mr_target (ss_record s)) tgt) RetargetRefused))"

text \<open>The record of the session carries the new target while the join begins.\<close>

definition retargeted :: "session \<Rightarrow> release_authority \<Rightarrow> session" where
  "retargeted s tgt = s\<lparr>ss_record := (ss_record s)\<lparr>mr_target := tgt\<rparr>, ss_forward := True, ss_retarget := True\<rparr>"

definition restore_target :: "session \<Rightarrow> phase \<Rightarrow> release_authority \<Rightarrow> session_error + string \<Rightarrow> session" where
  "restore_target s p old res =
     (case res of
        Inl _ \<Rightarrow> if mr_phase (ss_record s) = p then s\<lparr>ss_record := (ss_record s)\<lparr>mr_target := old\<rparr>\<rparr> else s
      | Inr _ \<Rightarrow> s)\<lparr>ss_forward := False, ss_retarget := False\<rparr>"

definition BeginForwardRetargetJoin ::
  "'b wire \<Rightarrow> session_funs \<Rightarrow> session_env \<Rightarrow> 'b world \<Rightarrow> session \<Rightarrow> phase \<Rightarrow> release_authority \<Rightarrow>
   'b world \<times> session \<times> (session_error + string)" where
  "BeginForwardRetargetJoin W F ev w s p tgt =
     (case retarget_refused W F w s p tgt of
        Some e \<Rightarrow> (w, s, Inl e)
      | None \<Rightarrow>
         (case BeginJoin W F ev w (retargeted s tgt) p PhaseTargetGenerateStarted ''generate''
                 (ra_version tgt) (ra_executable tgt) of
            (w1, s1, res) \<Rightarrow> (w1, restore_target s1 p (mr_target (ss_record s)) res, res)))"

section \<open>Completion and reconciliation\<close>

definition Complete ::
  "'b wire \<Rightarrow> session_env \<Rightarrow> 'b world \<Rightarrow> session \<Rightarrow> mutation_status \<Rightarrow> 'b world \<times> session \<times> session_error option" where
  "Complete W ev w s status =
     (let r = ss_record s in
      if \<not> ss_open s then (w, s, Some SessionRequired)
      else if status \<noteq> StatusSucceeded \<and> status \<noteq> StatusRecovered then (w, s, Some TerminalStatusInvalid)
      else if status = StatusSucceeded \<and> mr_phase r \<noteq> PhaseCommitSucceeded then (w, s, Some SucceededNeedsCommit)
      else if status = StatusRecovered \<and> mr_phase r \<noteq> PhaseRollbackSucceeded \<and>
              \<not> (ss_release s \<and> mr_phase r = PhasePrepared) then (w, s, Some RecoveredNeedsRollback)
      else if mr_status r = status
      then (case loadRecord W (wd_store w) of
              Inr (Some (c, d)) \<Rightarrow>
                (w, s, check (mr_operation_id c \<noteq> mr_operation_id r \<or> d \<noteq> ss_digest s) JournalChanged)
            | _ \<Rightarrow> (w, s, Some JournalChanged))
      else if mr_status r \<noteq> StatusActive then (w, s, Some SessionRequired)
      else case journal_current W w s (mr_phase r) of
        Some e \<Rightarrow> (w, s, Some e)
      | None \<Rightarrow>
          commit_record W ev w s
            (r\<lparr>mr_status := status, mr_join := None, mr_sequence := mr_sequence r + 1, mr_updated_at := int (ev_now ev)\<rparr>))"

definition CompletePreparedRelease ::
  "'b wire \<Rightarrow> session_env \<Rightarrow> 'b world \<Rightarrow> session \<Rightarrow> 'b world \<times> session \<times> session_error option" where
  "CompletePreparedRelease W ev w s =
     (case PreparedReleaseAdmitted W w s of
        Inl e \<Rightarrow> (w, s, Some e)
      | Inr False \<Rightarrow> (w, s, Some NotPreparedRelease)
      | Inr True \<Rightarrow>
         (case Complete W ev w (s\<lparr>ss_release := True\<rparr>) StatusRecovered of
            (w1, s1, e) \<Rightarrow> (w1, s1\<lparr>ss_release := False\<rparr>, e)))"

definition ReconcileForRecovery ::
  "'b wire \<Rightarrow> session_env \<Rightarrow> 'b world \<Rightarrow> session \<Rightarrow> 'b world \<times> session \<times> session_error option" where
  "ReconcileForRecovery W ev w s =
     (if \<not> ss_open s \<or> mr_operation_id (ss_record s) = [] then (w, s, Some SessionRequired)
      else case recoverLatestRecord W (ev_active ev) (wd_store w) (mr_operation_id (ss_record s)) of
        (st, Inl x) \<Rightarrow> (w\<lparr>wd_store := st\<rparr>, s, Some (Fault x))
      | (st, Inr (r, d)) \<Rightarrow>
          if mr_operation_id r \<noteq> mr_operation_id (ss_record s) then (w\<lparr>wd_store := st\<rparr>, s, Some ReconciledOther)
          else (w\<lparr>wd_store := st\<rparr>, s\<lparr>ss_record := r, ss_digest := d\<rparr>, None))"

section \<open>Data activation\<close>

definition BeginUpgradeDataActivation ::
  "'b wire \<Rightarrow> session_env \<Rightarrow> 'b world \<Rightarrow> session \<Rightarrow> upgrade_data_authority \<Rightarrow> 'b world \<times> session \<times> session_error option" where
  "BeginUpgradeDataActivation W ev w s a =
     (let r = ss_record s; t = \<lparr>us_authority = a, us_completed = Some [], us_in_flight = None\<rparr> in
      if \<not> ss_open s \<or> mr_kind r \<noteq> KindUpgrade \<or> mr_status r \<noteq> StatusActive \<or>
         \<not> upgradeDataActivationStartPhase (mr_phase r) \<or> mr_upgrade_data r \<noteq> None
      then (w, s, Some DataActivationNeedsSession)
      else case validateUpgradeDataActivationStateForPhase (w_digests W) PhaseRollbackDataQuiesceStarted t of
        Some e \<Rightarrow> (w, s, Some (InvalidRecord e))
      | None \<Rightarrow>
          transitionWithUpgradeData W ev w s (mr_phase r) PhaseRollbackDataQuiesceStarted None None (Some t))"

definition TransitionUpgradeDataActivation ::
  "'b wire \<Rightarrow> session_env \<Rightarrow> 'b world \<Rightarrow> session \<Rightarrow> phase \<Rightarrow> phase \<Rightarrow> upgrade_data_progress \<Rightarrow>
   'b world \<times> session \<times> session_error option" where
  "TransitionUpgradeDataActivation W ev w s p q n =
     (case mr_upgrade_data (ss_record s) of
        None \<Rightarrow> (w, s, Some DataStateMissing)
      | Some t \<Rightarrow>
          if \<not> ss_open s \<or> mr_kind (ss_record s) \<noteq> KindUpgrade then (w, s, Some DataStateMissing)
          else case validateUpgradeDataActivationProgressTransition (w_digests W) p q t n of
            Some e \<Rightarrow> (w, s, Some (InvalidRecord e))
          | None \<Rightarrow> transitionWithUpgradeData W ev w s p q None None (Some (with_data_progress t n)))"

section \<open>Controls, app groups and closures of a restore\<close>

definition RecordRestoreControls ::
  "'b wire \<Rightarrow> session_env \<Rightarrow> 'b world \<Rightarrow> session \<Rightarrow> runtime_control list \<Rightarrow> 'b world \<times> session \<times> session_error option" where
  "RecordRestoreControls W ev w s cs =
     (case mr_restore (ss_record s) of
        None \<Rightarrow> (w, s, Some RestoreStateRequired)
      | Some t \<Rightarrow> transition W ev w s (mr_phase (ss_record s)) (mr_phase (ss_record s)) None (Some (t\<lparr>rs_controls := cs\<rparr>)))"

definition overlaps_controls :: "app_group_control list \<Rightarrow> runtime_control list \<Rightarrow> bool" where
  "overlaps_controls gs cs =
     list_ex (\<lambda>g. list_ex (\<lambda>c. list_ex (\<lambda>l. rc_container l = qc_id c) cs)
       (items (containers (ag_original g)))) gs"

definition RecordRestoreAppGroups ::
  "'b wire \<Rightarrow> session_env \<Rightarrow> 'b world \<Rightarrow> session \<Rightarrow> app_group_control list \<Rightarrow> 'b world \<times> session \<times> session_error option" where
  "RecordRestoreAppGroups W ev w s gs =
     (case mr_restore (ss_record s) of
        None \<Rightarrow> (w, s, Some RestoreStateRequired)
      | Some t \<Rightarrow>
          if overlaps_controls gs (rs_controls t) then (w, s, Some GroupOverlapsControl)
          else transition W ev w s (mr_phase (ss_record s)) (mr_phase (ss_record s)) None (Some (t\<lparr>rs_groups := gs\<rparr>)))"

definition VerifyRestoreAppGroup ::
  "'b wire \<Rightarrow> 'b world \<Rightarrow> session \<Rightarrow> app_group_control \<Rightarrow> bool \<Rightarrow> session_error option" where
  "VerifyRestoreAppGroup W w s g completed =
     (if \<not> ss_open s then Some RestoreSessionRequired
      else case loadRecord W (wd_store w) of
        Inl x \<Rightarrow> Some (Fault x)
      | Inr None \<Rightarrow> Some GroupAuthorityChanged
      | Inr (Some (c, d)) \<Rightarrow>
         (case mr_restore c of
            None \<Rightarrow> Some GroupAuthorityChanged
          | Some t \<Rightarrow>
              if d \<noteq> ss_digest s \<or> mr_operation_id c \<noteq> journal_operation_id (ag_binding g) \<or>
                 mr_owner_ref c \<noteq> owner_ref (ag_binding g) \<or>
                 (completed \<and> mr_status c \<noteq> StatusSucceeded \<and> mr_status c \<noteq> StatusRecovered)
              then Some GroupAuthorityChanged
              else check (g \<notin> set (rs_groups t)) GroupDiffers))"

definition RestoreAppGroupClosed :: "digest_env \<Rightarrow> session \<Rightarrow> app_group_control \<Rightarrow> bool" where
  "RestoreAppGroupClosed K s g =
     (case mr_restore (ss_record s) of
        None \<Rightarrow> False
      | Some t \<Rightarrow> list_ex (\<lambda>a. cl_group_id a = group_id (ag_binding g) \<and> cl_completion_digest a = group_digest K g)
          (rs_closures t))"

definition AcknowledgeRestoreAppGroupClose ::
  "'b wire \<Rightarrow> session_env \<Rightarrow> 'b world \<Rightarrow> session \<Rightarrow> app_group_control \<Rightarrow> 'b world \<times> session \<times> session_error option" where
  "AcknowledgeRestoreAppGroupClose W ev w s g =
     (case VerifyRestoreAppGroup W w s g True of
        Some e \<Rightarrow> (w, s, Some e)
      | None \<Rightarrow>
          if \<not> AppGroupRestored g then (w, s, Some GroupUnresolved)
          else if RestoreAppGroupClosed (w_digests W) s g then (w, s, None)
          else (case loadRecord W (wd_store w) of
            Inl x \<Rightarrow> (w, s, Some (Fault x))
          | Inr None \<Rightarrow> (w, s, Some ClosureJournalChanged)
          | Inr (Some (c, d)) \<Rightarrow>
              if d \<noteq> ss_digest s \<or> c \<noteq> ss_record s then (w, s, Some ClosureJournalChanged)
              else (case mr_restore (ss_record s) of
                None \<Rightarrow> (w, s, Some NilRestore)
              | Some t \<Rightarrow>
                  let r = (ss_record s)\<lparr>mr_restore := Some (t\<lparr>rs_closures := rs_closures t @
                        [\<lparr>cl_group_id = group_id (ag_binding g),
                          cl_completion_digest = group_digest (w_digests W) g\<rparr>]\<rparr>)\<rparr> in
                  (case validateRestoreAppGroupClosures (w_digests W) r of
                     Some e \<Rightarrow> (w, s, Some (InvalidRecord e))
                   | None \<Rightarrow>
                       commit_record W ev w s
                         (r\<lparr>mr_sequence := mr_sequence r + 1, mr_updated_at := int (ev_now ev)\<rparr>)))))"

definition RequireRestoreAppGroupClosures :: "'b wire \<Rightarrow> 'b world \<Rightarrow> session \<Rightarrow> session_error option" where
  "RequireRestoreAppGroupClosures W w s =
     (if \<not> ss_open s then Some RestoreSessionRequired
      else case loadRecord W (wd_store w) of
        Inl x \<Rightarrow> Some (Fault x)
      | Inr None \<Rightarrow> Some ClosureJournalChanged
      | Inr (Some (c, d)) \<Rightarrow>
          if d \<noteq> ss_digest s \<or> mr_operation_id c \<noteq> mr_operation_id (ss_record s) then Some ClosureJournalChanged
          else check (RestoreAppGroupClosuresPending c) ClosuresPending)"

definition ReadRestoreActivationRecord ::
  "'b wire \<Rightarrow> 'b world \<Rightarrow> string \<Rightarrow> session_error + mutation_record" where
  "ReadRestoreActivationRecord W w op =
     (if \<not> operationPattern op then Inl OperationIDUnusable
      else ebind (faulty (latestHistoryRecord W (wd_store w) op)) (\<lambda>(r, d).
        if mr_kind r \<noteq> KindRestoreActivation \<or> mr_restore r = None then Inl RestoreHistoryInvalid else Inr r))"

definition ReadRestoreAppGroupRecord ::
  "'b wire \<Rightarrow> 'b world \<Rightarrow> string \<Rightarrow> session_error + mutation_record" where
  "ReadRestoreAppGroupRecord W w op =
     ebind (ReadRestoreActivationRecord W w op) (\<lambda>r.
       case mr_restore r of
         None \<Rightarrow> Inl NilRestore
       | Some t \<Rightarrow> if rs_groups t = [] then Inl RestoreHistoryInvalid else Inr r)"

section \<open>Beginning an operation\<close>

record begin_request =
  bq_operation_id :: string
  bq_owner_ref :: string
  bq_checkpoint :: checkpoint_authority
  bq_target :: release_authority
  bq_prior :: release_authority

definition no_active_mutation :: "'b wire \<Rightarrow> 'b world \<Rightarrow> session_error option" where
  "no_active_mutation W w =
     (case loadRecord W (wd_store w) of
        Inl x \<Rightarrow> Some (Fault x)
      | Inr None \<Rightarrow> None
      | Inr (Some (c, _)) \<Rightarrow> check (recordBlocksMutation c) ActiveMutation)"

text \<open>The checks of a prepared request and the first record.\<close>

definition first_refused :: "'b wire \<Rightarrow> session_env \<Rightarrow> 'b world \<Rightarrow> mutation_record \<Rightarrow> session_error option" where
  "first_refused W ev w r =
     first_err (check (\<not> operationPattern (mr_operation_id r)) OperationIDUnusable)
    (first_err (check (mr_operation_id r \<in> operations (wd_store w)) OperationIDUsed)
               (case ev_owner ev of
                  None \<Rightarrow> Some OwnerUnavailable
                | Some owner \<Rightarrow>
                    first_err (check (mr_owner_ref r \<noteq> owner) OwnerDiffers)
                              (map_option InvalidRecord (validateRecord (w_digests W) r))))"

definition first_record ::
  "'b wire \<Rightarrow> session_env \<Rightarrow> 'b world \<Rightarrow> session \<Rightarrow> mutation_record \<Rightarrow> 'b world \<times> session \<times> session_error option" where
  "first_record W ev w s r =
     (case first_refused W ev w r of
        Some e \<Rightarrow> (w, s, Some e)
      | None \<Rightarrow>
         (case persistRecord W (ev_history ev) (ev_active ev) (wd_store w) r [] of
            (st, r', d, Some x) \<Rightarrow> (w\<lparr>wd_store := st\<rparr>, s, Some (Fault x))
          | (st, r', d, None) \<Rightarrow> (w\<lparr>wd_store := st\<rparr>, s\<lparr>ss_record := r', ss_digest := d\<rparr>, None)))"

definition upgrade_first_record :: "'b wire \<Rightarrow> nat \<Rightarrow> begin_request \<Rightarrow> mutation_record" where
  "upgrade_first_record W now q =
     \<lparr>mr_api_version = APIVersion, mr_operation_id = bq_operation_id q, mr_kind = KindUpgrade,
      mr_workspace_hash = w_workspace W, mr_owner_ref = bq_owner_ref q, mr_status = StatusActive,
      mr_phase = PhasePrepared, mr_sequence = 1, mr_previous = [], mr_checkpoint = bq_checkpoint q,
      mr_target = bq_target q, mr_prior = bq_prior q, mr_restore = None, mr_upgrade_data = None,
      mr_join = None, mr_updated_at = int now, mr_signature = no_signature\<rparr>"

definition restore_first_record :: "'b wire \<Rightarrow> nat \<Rightarrow> restore_authority \<Rightarrow> mutation_record" where
  "restore_first_record W now a =
     \<lparr>mr_api_version = APIVersion, mr_operation_id = au_operation_id a, mr_kind = KindRestoreActivation,
      mr_workspace_hash = w_workspace W, mr_owner_ref = au_owner_ref a, mr_status = StatusActive,
      mr_phase = PhasePrepared, mr_sequence = 1, mr_previous = [], mr_checkpoint = no_checkpoint,
      mr_target = no_release, mr_prior = no_release,
      mr_restore = Some \<lparr>rs_closures = [], rs_groups = [], rs_controls = [], rs_authority = a,
        rs_rollback_prepared = Some [], rs_activated = Some [], rs_in_flight = None\<rparr>,
      mr_upgrade_data = None, mr_join = None, mr_updated_at = int now, mr_signature = no_signature\<rparr>"

text \<open>\<open>prepare\<close> runs under the lock; \<open>None\<close> is its failure.\<close>

definition begin_prepared ::
  "'b wire \<Rightarrow> session_env \<Rightarrow> 'b world \<Rightarrow> session_error option \<Rightarrow> mutation_record option \<Rightarrow> 'b world \<times> (session_error + session)" where
  "begin_prepared W ev w refused request =
     (case openLocked w of
        Inl e \<Rightarrow> (w, Inl e)
      | Inr (w1, s) \<Rightarrow>
          let fail = (\<lambda>w e. (fst (Close w s), Inl e)) in
          (case no_active_mutation W w1 of
             Some e \<Rightarrow> fail w1 e
           | None \<Rightarrow>
               if \<not> ev_settled ev then fail w1 ControlsUnsettled
               else (case refused of
                 Some e \<Rightarrow> fail w1 e
               | None \<Rightarrow>
                  (case request of
                     None \<Rightarrow> fail w1 PreparationFailed
                   | Some r \<Rightarrow>
                      (case first_record W ev w1 s r of
                         (w2, s2, Some e) \<Rightarrow> fail w2 e
                       | (w2, s2, None) \<Rightarrow> (w2, Inr s2))))))"

definition BeginUpgradePrepared ::
  "'b wire \<Rightarrow> session_env \<Rightarrow> 'b world \<Rightarrow> begin_request option \<Rightarrow> 'b world \<times> (session_error + session)" where
  "BeginUpgradePrepared W ev w prepare =
     begin_prepared W ev w None (map_option (upgrade_first_record W (ev_now ev)) prepare)"

definition BeginUpgrade ::
  "'b wire \<Rightarrow> session_env \<Rightarrow> 'b world \<Rightarrow> begin_request \<Rightarrow> 'b world \<times> (session_error + session)" where
  "BeginUpgrade W ev w q = BeginUpgradePrepared W ev w (Some q)"

text \<open>
  \<open>beginRestoreActivationPreparedContext\<close>: also tells whether the caller's abort cleanup ran, which it
  does on every failure once the lock is held.
\<close>

definition BeginRestoreActivationPrepared ::
  "'b wire \<Rightarrow> session_env \<Rightarrow> 'b world \<Rightarrow> string \<Rightarrow> restore_authority option \<Rightarrow>
   'b world \<times> (session_error + session) \<times> bool" where
  "BeginRestoreActivationPrepared W ev w operation prepare =
     (case begin_prepared W ev w
        (check (operation \<noteq> [] \<and> \<not> operationPattern operation) OperationIDUnusable)
        (map_option (restore_first_record W (ev_now ev)) prepare) of
        (w1, Inl e) \<Rightarrow> (w1, Inl e, \<not> wd_lock w)
      | (w1, Inr s) \<Rightarrow> (w1, Inr s, False))"

section \<open>Recovery\<close>

definition recovered_record ::
  "'b wire \<Rightarrow> session_env \<Rightarrow> 'b world \<Rightarrow> string \<Rightarrow> 'b world \<times> (session_error + entry)" where
  "recovered_record W ev w op =
     (let repair = (case recoverLatestRecord W (ev_active ev) (wd_store w) op of
            (st, res) \<Rightarrow> (w\<lparr>wd_store := st\<rparr>, faulty res)) in
      case loadRecord W (wd_store w) of
        Inr (Some (c, d)) \<Rightarrow> if mr_operation_id c = op then (w, Inr (c, d)) else repair
      | _ \<Rightarrow> repair)"

definition OpenRecovery ::
  "'b wire \<Rightarrow> session_env \<Rightarrow> 'b world \<Rightarrow> string \<Rightarrow> 'b world \<times> (session_error + session)" where
  "OpenRecovery W ev w op =
     (case openLocked w of
        Inl e \<Rightarrow> (w, Inl e)
      | Inr (w1, s) \<Rightarrow>
         (case recovered_record W ev w1 op of
            (w2, Inl e) \<Rightarrow> (fst (Close w2 s), Inl e)
          | (w2, Inr (r, d)) \<Rightarrow>
              if mr_operation_id r \<noteq> op then (fst (Close w2 s), Inl NotExactMutation)
              else (case acquireRecoveryClaimLock ev w2 (s\<lparr>ss_record := r, ss_digest := d\<rparr>) of
                (w3, s3, Some e) \<Rightarrow> (fst (Close w3 s3), Inl e)
              | (w3, s3, None) \<Rightarrow> (w3, Inr s3))))"

definition openRecoveryForKind ::
  "'b wire \<Rightarrow> session_env \<Rightarrow> 'b world \<Rightarrow> string \<Rightarrow> mutation_kind \<Rightarrow> 'b world \<times> (session_error + session)" where
  "openRecoveryForKind W ev w op k =
     (case OpenRecovery W ev w op of
        (w1, Inl e) \<Rightarrow> (w1, Inl e)
      | (w1, Inr s) \<Rightarrow> if mr_kind (ss_record s) \<noteq> k then (fst (Close w1 s), Inl KindDiffers) else (w1, Inr s))"

definition OpenUpgradeRecovery ::
  "'b wire \<Rightarrow> session_env \<Rightarrow> 'b world \<Rightarrow> string \<Rightarrow> 'b world \<times> (session_error + session)" where
  "OpenUpgradeRecovery W ev w op = openRecoveryForKind W ev w op KindUpgrade"

definition OpenRestoreActivationRecovery ::
  "'b wire \<Rightarrow> session_env \<Rightarrow> 'b world \<Rightarrow> string \<Rightarrow> 'b world \<times> (session_error + session)" where
  "OpenRestoreActivationRecovery W ev w op = openRecoveryForKind W ev w op KindRestoreActivation"

section \<open>Admission of ordinary mutations and of joined children\<close>

definition ActiveRecord :: "'b wire \<Rightarrow> 'b world \<Rightarrow> session_error + mutation_record option" where
  "ActiveRecord W w =
     (case loadRecord W (wd_store w) of
        Inl x \<Rightarrow> Inl (Fault x)
      | Inr None \<Rightarrow> Inr None
      | Inr (Some (c, _)) \<Rightarrow> Inr (if recordBlocksMutation c then Some c else None))"

definition RequireIdle :: "'b wire \<Rightarrow> session_env \<Rightarrow> 'b world \<Rightarrow> session_error option" where
  "RequireIdle W ev w =
     (if \<not> ev_settled ev then Some ControlsUnsettled
      else case ActiveRecord W w of
        Inl e \<Rightarrow> Some e
      | Inr None \<Rightarrow> None
      | Inr (Some _) \<Rightarrow> Some ActiveMutation)"

record join_request =
  jq_operation_id :: string
  jq_phase :: phase
  jq_binary_version :: string
  jq_executable :: string
  jq_nonce :: string
  jq_command :: string

definition joinAuthority :: "mutation_record \<Rightarrow> string \<times> string" where
  "joinAuthority r =
     (case map_of
        [(PhaseTargetGenerateStarted, (ra_version (mr_target r), ''generate'')),
         (PhaseTargetApplyStarted, (ra_version (mr_target r), ''apply'')),
         (PhaseTargetVerifyStarted, (ra_version (mr_target r), ''verify'')),
         (PhaseRollbackGenerateStarted, (ra_version (mr_prior r), ''generate'')),
         (PhaseRollbackApplyStarted, (ra_version (mr_prior r), ''apply'')),
         (PhaseRollbackVerifyStarted, (ra_version (mr_prior r), ''verify''))] (mr_phase r) of
        Some a \<Rightarrow> a | None \<Rightarrow> ([], []))"

text \<open>
  \<open>claimJoin\<close> loads the journal again under the claim lock; \<open>w\<close> is the world at that moment.
\<close>

definition claim_refused :: "'b wire \<Rightarrow> 'b world \<Rightarrow> mutation_record \<Rightarrow> string \<Rightarrow> session_error option" where
  "claim_refused W w r digest =
     first_err (check (mr_join r = None) NilJoin)
    (first_err (check (mr_operation_id r \<in> set (wd_claim_locks w)) ClaimLockHeld)
               (case loadRecord W (wd_store w) of
                  Inl x \<Rightarrow> Some (Fault x)
                | Inr None \<Rightarrow> Some JoinDiffers
                | Inr (Some (c, d)) \<Rightarrow>
                    check (mr_status c \<noteq> StatusActive \<or> mr_operation_id c \<noteq> mr_operation_id r \<or> d \<noteq> digest) JoinDiffers))"

definition claim_of :: "session_env \<Rightarrow> mutation_record \<Rightarrow> join_authority \<Rightarrow> join_claim" where
  "claim_of ev r j =
     \<lparr>jc_api_version = claim_api_version, jc_operation_id = mr_operation_id r, jc_sequence = mr_sequence r,
      jc_phase = mr_phase r, jc_command = jn_command j, jc_nonce = jn_nonce j, jc_executable = jn_executable j,
      jc_claimed_at = ev_now ev, jc_custody = JoinClaimCustodyLifetime\<rparr>"

text \<open>The claim file never replaces another one.\<close>

definition write_claim :: "write_outcome \<Rightarrow> string \<Rightarrow> join_claim \<Rightarrow> 'b world \<Rightarrow> 'b world \<times> bool" where
  "write_claim out path claim w =
     (let real = no_replace (map_of (wd_claims w) path \<noteq> None) out in
      (if takes_effect real then w\<lparr>wd_claims := AList.update path (Some claim) (wd_claims w)\<rparr> else w, real = Written))"

definition claimJoin ::
  "'b wire \<Rightarrow> session_env \<Rightarrow> 'b world \<Rightarrow> mutation_record \<Rightarrow> string \<Rightarrow> 'b world \<times> session_error option" where
  "claimJoin W ev w r digest =
     (case claim_refused W w r digest of
        Some e \<Rightarrow> (w, Some e)
      | None \<Rightarrow>
         (case (mr_join r, joinClaimPath r) of
            (Some j, Some path) \<Rightarrow>
              (case write_claim (ev_claim ev) path (claim_of ev r j) w of
                 (w1, False) \<Rightarrow> (w1, Some NonceClaimed)
               | (w1, True) \<Rightarrow> (w1\<lparr>wd_claim_locks := mr_operation_id r # wd_claim_locks w1\<rparr>, None))
          | _ \<Rightarrow> (w, Some NilJoin)))"

definition join_authorized :: "session_funs \<Rightarrow> mutation_record \<Rightarrow> join_request \<Rightarrow> bool" where
  "join_authorized F r q \<longleftrightarrow>
     jq_binary_version q = fst (joinAuthority r) \<and> jq_command q = snd (joinAuthority r) \<and>
     (case mr_join r of None \<Rightarrow> False
      | Some j \<Rightarrow> jq_binary_version q = jn_binary_version j \<and> jq_command q = jn_command j \<and>
          jq_executable q = jn_executable j \<and> fn_nonce_digest F (jq_nonce q) = jn_nonce j)"

definition blank_request :: "join_request \<Rightarrow> bool" where
  "blank_request q \<longleftrightarrow> blank (jq_operation_id q) \<and> blank (phase_text (jq_phase q))"

definition validate_join_request ::
  "'b wire \<Rightarrow> session_funs \<Rightarrow> 'b world \<Rightarrow> join_request \<Rightarrow> session_error + entry" where
  "validate_join_request W F w q =
     (if \<not> operationPattern (jq_operation_id q) \<or> blank (phase_text (jq_phase q)) then Inl JoinNotExactRequest
      else case loadRecord W (wd_store w) of
        Inl x \<Rightarrow> Inl (Fault x)
      | Inr None \<Rightarrow> Inl JoinDiffers
      | Inr (Some (r, d)) \<Rightarrow>
          if mr_status r \<noteq> StatusActive \<or> mr_operation_id r \<noteq> jq_operation_id q \<or> mr_phase r \<noteq> jq_phase q
          then Inl JoinDiffers
          else if \<not> join_authorized F r q then Inl JoinUnauthorized
          else Inr (r, d))"

definition InspectJoin :: "'b wire \<Rightarrow> session_funs \<Rightarrow> session_env \<Rightarrow> 'b world \<Rightarrow> join_request \<Rightarrow> session_error option" where
  "InspectJoin W F ev w q =
     (if blank_request q then RequireIdle W ev w
      else case validate_join_request W F w q of Inl e \<Rightarrow> Some e | Inr _ \<Rightarrow> None)"

text \<open>
  The result of an admission: \<open>Some op\<close> when the child now holds the claim lock of \<open>op\<close>.
\<close>

definition admitJoin ::
  "'b wire \<Rightarrow> session_funs \<Rightarrow> session_env \<Rightarrow> 'b world \<Rightarrow> join_request \<Rightarrow> 'b world \<times> (session_error + string option)" where
  "admitJoin W F ev w q =
     (if blank_request q
      then (w, case RequireIdle W ev w of Some e \<Rightarrow> Inl e | None \<Rightarrow> Inr None)
      else case validate_join_request W F w q of
        Inl e \<Rightarrow> (w, Inl e)
      | Inr (r, d) \<Rightarrow>
         (case claimJoin W ev w r d of
            (w1, Some e) \<Rightarrow> (w1, Inl e)
          | (w1, None) \<Rightarrow> (w1, Inr (Some (mr_operation_id r)))))"

definition InspectUpgradeTargetApplySnapshot ::
  "'b wire \<Rightarrow> session_funs \<Rightarrow> session_env \<Rightarrow> 'b world \<Rightarrow> join_request \<Rightarrow> session_error + string" where
  "InspectUpgradeTargetApplySnapshot W F ev w q =
     (if jq_phase q \<noteq> PhaseTargetApplyStarted \<or> jq_command q \<noteq> ''apply'' then Inl SnapshotNotAdmitted
      else case InspectJoin W F ev w q of
        Some e \<Rightarrow> Inl e
      | None \<Rightarrow>
         (case loadRecord W (wd_store w) of
            Inl x \<Rightarrow> Inl (Fault x)
          | Inr None \<Rightarrow> Inl SnapshotNotAdmitted
          | Inr (Some (r, _)) \<Rightarrow>
              if mr_kind r \<noteq> KindUpgrade \<or> mr_status r \<noteq> StatusActive \<or> mr_operation_id r \<noteq> jq_operation_id q \<or>
                 mr_phase r \<noteq> jq_phase q \<or> cp_executor_state (mr_checkpoint r) = []
              then Inl SnapshotNotAdmitted
              else Inr (cp_executor_state (mr_checkpoint r))))"

text \<open>
  \<open>withIdleMutation\<close>: the callback is any change of the world with a verdict. A joined child keeps its
  claim lock until the callback returned, an ordinary mutation keeps the lifecycle lock.
\<close>

definition withIdleMutation ::
  "'b wire \<Rightarrow> session_funs \<Rightarrow> session_env \<Rightarrow> 'b world \<Rightarrow> join_request \<Rightarrow>
   ('b world \<Rightarrow> 'b world \<times> session_error option) \<Rightarrow> 'b world \<times> session_error option" where
  "withIdleMutation W F ev w q execute =
     (if \<not> blank_request q
      then if \<not> ev_settled ev then (w, Some ControlsUnsettled)
           else (case admitJoin W F ev w q of
             (w1, Inl e) \<Rightarrow> (w1, Some e)
           | (w1, Inr held) \<Rightarrow>
              (case execute w1 of
                 (w2, e) \<Rightarrow> (case held of None \<Rightarrow> w2 | Some op \<Rightarrow> release_claim op w2, e)))
      else (case openLocked w of
        Inl e \<Rightarrow> (w, Some e)
      | Inr (w1, s) \<Rightarrow>
         (case no_active_mutation W w1 of
            Some e \<Rightarrow> (fst (Close w1 s), Some e)
          | None \<Rightarrow>
              if \<not> ev_settled ev then (fst (Close w1 s), Some ControlsUnsettled)
              else (case execute w1 of (w2, e) \<Rightarrow> (fst (Close w2 s), e)))))"

section \<open>How a write can leave the journal\<close>

text \<open>
  The ways a write can end, for a record whose file does not exist yet: nothing but perhaps an
  empty directory, the history entry alone, or the entry and the pointer.
\<close>

lemma make_dir_simps [simp]:
  "js_active (make_dir op st) = js_active st"
  "dir_of (make_dir op st) x = dir_of st x"
  "operations (make_dir op st) = insert op (operations st)"
  "map_of (js_dirs (make_dir op st)) x = (if x = op then Some (dir_of st op) else map_of (js_dirs st) x)"
  by (simp_all add: make_dir_def)

lemma with_entry_simps [simp]:
  "js_active (with_entry W r st) = js_active st"
  "dir_of (with_entry W r st) x =
     (if x = mr_operation_id r
      then dir_of st x @ [(history_name (mr_sequence r) (digest_of W (w_encode W r)), w_encode W r)] else dir_of st x)"
  "operations (with_entry W r st) = insert (mr_operation_id r) (operations st)"
  by (simp_all add: with_entry_def)

lemma with_pointer_simps [simp]:
  "js_active (with_pointer W r st) = Some (w_encode W r)"
  "dir_of (with_pointer W r st) x = dir_of st x"
  "operations (with_pointer W r st) = operations st"
  "latestHistoryRecord W (with_pointer W r st) op = latestHistoryRecord W st op"
  "js_dirs (with_pointer W r st) = js_dirs st"
  by (simp_all add: with_pointer_def dir_of_def)

definition entry_name :: "'b wire \<Rightarrow> mutation_record \<Rightarrow> string" where
  "entry_name W r = history_name (mr_sequence r) (digest_of W (w_encode W r))"

text \<open>The directory of an operation as a write finds it, with what the write leaves besides its record.\<close>

definition begun :: "'b wire \<Rightarrow> string \<Rightarrow> temporary option \<Rightarrow> 'b \<Rightarrow> 'b journal_store \<Rightarrow> 'b journal_store" where
  "begun W op t raw st = leave_in W op t raw (make_dir op st)"

lemma begun_simps [simp]:
  "js_active (begun W op t raw st) = js_active st"
  "dir_of (begun W op t raw st) x = (if x = op then leave W t raw (dir_of st op) else dir_of st x)"
  "operations (begun W op t raw st) = insert op (operations st)"
  "map_of (js_dirs (begun W op t raw st)) x = (if x = op then Some (leave W t raw (dir_of st op)) else map_of (js_dirs st) x)"
  by (simp_all add: begun_def leave_in_map)

lemma persist_shape:
  assumes "persistRecord W oh oa st r prev = (st', r', d, e)"
    and "\<And>sg. map_of (dir_of st (mr_operation_id r)) (entry_name W (sealed r prev sg)) = None"
  obtains (unwritten) t raw where "st' = st \<or> st' = begun W (mr_operation_id r) t raw st" "d = []" "e \<noteq> None"
    | (entry) sg t raw where "r' = sealed r prev sg" "st' = with_entry W r' (begun W (mr_operation_id r) t raw st)"
        "d = [] \<or> d = digest_of W (w_encode W r')" "e \<noteq> None"
    | (pointer) sg t raw where "r' = sealed r prev sg"
        "st' = with_pointer W r' (with_entry W r' (begun W (mr_operation_id r) t raw st))"
        "d = digest_of W (w_encode W r')" "e = None \<longrightarrow> reread W st' r' d = None"
proof (cases "previous_unchanged W st prev")
  case (Some x)
  with assms(1) have "st' = st" "d = []" "e = Some x" by (simp_all add: persistRecord_def)
  with unwritten show thesis by simp
next
  case p: None
  let ?r1 = "sealed r prev no_signature" and ?op = "mr_operation_id r"
  show thesis
  proof (cases "w_sign W (signingBytes W ?r1)")
    case None
    with p assms(1) unwritten show thesis by (auto simp: persistRecord_def sealed_def Let_def)
  next
    case (Some sg)
    define q where "q = sealed r prev sg"
    let ?raw = "w_encode W q"
    let ?m = "begun W ?op (leftover oh) ?raw st"
    have q: "mr_operation_id q = ?op"
      by (simp add: q_def)
    have fresh: "map_of (dir_of st ?op) (history_name (mr_sequence q) (digest_of W ?raw)) = None"
      using assms(2) [of sg] by (simp add: q_def entry_name_def)
    then have fresh': "map_of (dir_of ?m ?op) (history_name (mr_sequence q) (digest_of W ?raw)) = None"
      by (simp add: begun_def leave_map history_name_not_temp)
    have we: "set_dir ?op (dir_of ?m ?op @ [(history_name (mr_sequence q) (digest_of W ?raw), ?raw)]) ?m = with_entry W q ?m"
      by (simp add: with_entry_def q)
    have wh: "write_history W oh ?op (history_name (mr_sequence q) (digest_of W ?raw)) ?raw (make_dir ?op st) =
        (if takes_effect oh then (with_entry W q ?m, settleJournalWrite oh (Some ?raw) ?raw)
         else (?m, settleJournalWrite oh None ?raw))"
      unfolding write_history_def using fresh fresh' we by (simp add: no_replace_def Let_def map_add_def q begun_def)
    have wa: "write_active oa ?raw st1 = (if takes_effect oa then (with_pointer W q st1, settleJournalWrite oa (Some ?raw) ?raw)
      else (st1, settleJournalWrite oa (js_active st1) ?raw))" for st1
      by (simp add: write_active_def with_pointer_def Let_def)
    have same: "with_pointer W q st1 = st1" if "settleJournalWrite oa (js_active st1) ?raw = None" "\<not> takes_effect oa" for st1
      using that by (cases oa) (auto simp: settleJournalWrite_def takes_effect_def with_pointer_def split: if_splits)
    have noeff: "settleJournalWrite oh None ?raw \<noteq> None" if "\<not> takes_effect oh"
      using that by (cases oh) (auto simp: settleJournalWrite_def takes_effect_def)
    have pr: "(if w_size W ?raw > maxRecordBytes then (st, q, [], Some Oversize)
        else (case write_history W oh ?op (history_name (mr_sequence q) (digest_of W ?raw)) ?raw (make_dir ?op st) of
         (st1, Some x) \<Rightarrow> (st1, q, [], Some x)
       | (st1, None) \<Rightarrow>
          (case write_active oa ?raw st1 of
             (st2, Some x) \<Rightarrow> (st2, q, digest_of W ?raw, Some x)
           | (st2, None) \<Rightarrow> (st2, q, digest_of W ?raw, reread W st2 q (digest_of W ?raw))))) = (st', r', d, e)"
      using assms(1) p Some unfolding q_def sealed_def
      by (simp add: persistRecord_def Let_def cong: option.case_cong prod.case_cong if_cong)
    show thesis
    proof (cases "w_size W ?raw > maxRecordBytes")
      case True
      with pr unwritten show thesis by auto
    next
      case False
      show thesis
      proof (cases "takes_effect oh \<and> settleJournalWrite oh (Some ?raw) ?raw = None")
        case h: False
        show thesis
        proof (cases "takes_effect oh")
          case True
          with h obtain x where x: "settleJournalWrite oh (Some ?raw) ?raw = Some x" by auto
          with pr False True wh have "st' = with_entry W q ?m" "r' = q" "d = []" "e = Some x" by auto
          then show thesis by (intro entry [of sg "leftover oh" ?raw]) (simp_all add: q_def)
        next
          case no: False
          with noeff obtain x where "settleJournalWrite oh None ?raw = Some x" by auto
          with pr False wh no have "st' = ?m" "d = []" "e = Some x" by auto
          then show thesis by (intro unwritten [of "leftover oh" ?raw]) simp_all
        qed
      next
        case h: True
        let ?e = "with_entry W q ?m"
        show thesis
        proof (cases "write_active oa ?raw ?e")
          case (Pair st2 res)
          show thesis
          proof (cases res)
            case (Some x)
            with pr False h wh Pair have res: "st' = st2" "r' = q" "d = digest_of W ?raw" "e = Some x"
              by auto
            show thesis
            proof (cases "takes_effect oa")
              case True
              with Pair wa res show thesis by (intro pointer [of sg "leftover oh" ?raw]) (auto simp: q_def)
            next
              case no: False
              with Pair wa res show thesis by (intro entry [of sg "leftover oh" ?raw]) (auto simp: q_def)
            qed
          next
            case None
            with pr False h wh Pair have res: "st' = st2" "r' = q" "d = digest_of W ?raw" "e = reread W st2 q (digest_of W ?raw)"
              by auto
            have "st2 = with_pointer W q ?e"
              using Pair None wa same [of ?e] by (cases "takes_effect oa") auto
            with res show thesis by (intro pointer [of sg "leftover oh" ?raw]) (auto simp: q_def)
          qed
        qed
      qed
    qed
  qed
qed

text \<open>A write without an error is readable: the journal then loads to the written record.\<close>

lemma reread_loads:
  assumes "lawful_wire W" and "reread W st r d = None" and "js_active st = Some (w_encode W r)"
  shows "loadRecord W st = Inr (Some (r, d))"
proof -
  obtain l where l: "loadRecord W st = Inr (Some (l, d))"
    using assms(2) by (auto simp: reread_def split: sum.splits option.splits)
  then have "decodeRecord W (w_encode W r) = Inr (l, d)"
    using assms(3) by (auto simp: loadRecord_Some)
  then have "l = r"
    using assms(1) by (simp add: decodeRecord_Inr lawful_wire_def)
  with l show ?thesis by simp
qed

lemma commit_record_store:
  "commit_record W ev w s r = (w', s', e) \<Longrightarrow>
     w' = w\<lparr>wd_store := wd_store w'\<rparr> \<and> s' = s\<lparr>ss_record := ss_record s', ss_digest := ss_digest s'\<rparr>"
  by (auto simp: commit_record_def split: prod.splits if_splits)

lemma journal_current_None:
  "journal_current W w s p = None \<longleftrightarrow>
     (\<exists>c. loadRecord W (wd_store w) = Inr (Some (c, ss_digest s)) \<and>
        mr_operation_id c = mr_operation_id (ss_record s) \<and> mr_sequence c = mr_sequence (ss_record s) \<and> mr_phase c = p)"
  by (auto simp: journal_current_def split: sum.splits option.splits)

text \<open>The file of a successor does not exist while the journal loads.\<close>

lemma successor_fresh:
  assumes "loadRecord W st = Inr (Some (c, d))" and "mr_operation_id r = mr_operation_id c"
    and "mr_sequence r = mr_sequence c + 1"
  shows "map_of (dir_of st (mr_operation_id r)) (entry_name W (sealed r prev sg)) = None"
proof -
  obtain l where "latestHistoryRecord W st (mr_operation_id c) = Inr (l, d)" "mr_sequence l = mr_sequence c"
    using loaded_dir(2) [OF assms(1)] by blast
  with fresh_name [OF loaded_dir(1) [OF assms(1)], of W l d r] assms(2,3) show ?thesis
    by (simp add: entry_name_def)
qed

lemma commit_ok:
  assumes "lawful_wire W" and "commit_record W ev w s r = (w', s', None)"
    and "loadRecord W (wd_store w) = Inr (Some (c, d))" and "mr_operation_id r = mr_operation_id c"
    and "mr_sequence r = mr_sequence c + 1"
  shows "loadRecord W (wd_store w') = Inr (Some (ss_record s', ss_digest s'))"
    and "\<exists>sg. ss_record s' = sealed r (ss_digest s) sg" and "validateRecord (w_digests W) (ss_record s') = None"
proof -
  obtain st q dd e where p: "persistRecord W (ev_history ev) (ev_active ev) (wd_store w) r (ss_digest s) = (st, q, dd, e)"
    by (metis prod_cases4)
  have eq: "e = None" "wd_store w' = st" "ss_record s' = q" "dd \<noteq> [] \<Longrightarrow> ss_digest s' = dd"
    using assms(2) p by (auto simp: commit_record_def split: if_splits)
  have "\<exists>sg. q = sealed r (ss_digest s) sg \<and> dd = digest_of W (w_encode W q) \<and> reread W st q dd = None \<and>
      js_active st = Some (w_encode W q)"
    using p successor_fresh [OF assms(3-5)] by (cases rule: persist_shape) (auto simp: eq(1))
  then obtain sg where q: "q = sealed r (ss_digest s) sg" "dd = digest_of W (w_encode W q)" "reread W st q dd = None"
    "js_active st = Some (w_encode W q)" by blast
  have "dd \<noteq> []"
    using q(2) by (simp add: digest_of_def sha256_prefix_def)
  with eq reread_loads [OF assms(1) q(3,4)] show l: "loadRecord W (wd_store w') = Inr (Some (ss_record s', ss_digest s'))"
    by simp
  show "\<exists>sg. ss_record s' = sealed r (ss_digest s) sg"
    using q(1) eq by blast
  show "validateRecord (w_digests W) (ss_record s') = None"
    using l by (auto simp: loadRecord_Some decodeRecord_Inr)
qed

end
