(* ===== verification/LifecycleSystem.thy ===== *)
theory LifecycleSystem
  imports MutationSession
begin

text \<open>
  The processes around one journal: every write of every session keeps the history of its operation
  authorised, the locks of sessions and joined children exclude each other, and both hold in every
  state the processes reach, whatever writes fail and whenever a process stops.
\<close>

section \<open>Records on file\<close>

definition filed :: "'b wire \<Rightarrow> 'b journal_store \<Rightarrow> mutation_record \<Rightarrow> string \<Rightarrow> bool" where
  "filed W st r d \<longleftrightarrow> d = digest_of W (w_encode W r) \<and>
     (entry_name W r, w_encode W r) \<in> set (dir_of st (mr_operation_id r))"

lemma entry_name_not_temp [simp]: "\<not> has_prefix (entry_name W r) temp_prefix"
  by (simp add: entry_name_def history_name_not_temp)

text \<open>Every proper file of a directory that reads back is an entry.\<close>

lemma read_entries_file:
  assumes "read_entries W op fs = Inr hs" and "(name, raw) \<in> set fs" and "\<not> has_prefix name temp_prefix"
  shows "\<exists>r d. decodeRecord W raw = Inr (r, d) \<and> (r, d) \<in> set hs"
  using assms
proof (induction fs arbitrary: hs)
  case (Cons f fs)
  obtain n x where f: "f = (n, x)" by fastforce
  show ?case
  proof (cases "has_prefix n temp_prefix")
    case True
    with Cons f show ?thesis by (auto split: if_splits)
  next
    case False
    with Cons.prems(1) f obtain r1 d1 hs1 where
      "decodeRecord W x = Inr (r1, d1)" "read_entries W op fs = Inr hs1" "hs = (r1, d1) # hs1"
      by (auto split: if_splits prod.splits)
    with Cons f show ?thesis by auto
  qed
qed simp

lemma history_of_Inr:
  assumes "latestHistoryRecord W st op = Inr h"
  obtains hs where "map_of (js_dirs st) op = Some (dir_of st op)" "length (dir_of st op) \<le> 256"
    "read_entries W op (dir_of st op) = Inr hs" "history_of W st op = sort_key entry_key hs"
    "check_history (sort_key entry_key hs) = Inr h" "length hs \<le> 256"
proof -
  obtain fs hs where "map_of (js_dirs st) op = Some fs" "length fs \<le> 256" "read_entries W op fs = Inr hs"
    "check_history (sort_key entry_key hs) = Inr h"
    using assms by (auto simp: latest_Inr)
  moreover from this have "dir_of st op = fs"
    by (simp add: dir_of_def)
  ultimately show thesis
    using that [of hs] read_entries_length [of W op fs hs] by (auto simp: history_of_def)
qed

lemma filed_in_history:
  assumes "lawful_wire W" and "latestHistoryRecord W st (mr_operation_id r) = Inr h" and "filed W st r d"
  shows "(r, d) \<in> set (history_of W st (mr_operation_id r))"
proof -
  from assms(2) obtain hs where hs: "read_entries W (mr_operation_id r) (dir_of st (mr_operation_id r)) = Inr hs"
    "history_of W st (mr_operation_id r) = sort_key entry_key hs"
    by (rule history_of_Inr)
  obtain r1 d1 where "decodeRecord W (w_encode W r) = Inr (r1, d1)" "(r1, d1) \<in> set hs"
    using read_entries_file [OF hs(1)] assms(3) by (metis entry_name_not_temp filed_def)
  then show ?thesis
    using assms(1,3) hs(2) by (auto simp: decodeRecord_Inr lawful_wire_def filed_def)
qed

lemma history_sequence:
  assumes "latestHistoryRecord W st op = Inr h" and "i < length (history_of W st op)"
  shows "unat (mr_sequence (fst (history_of W st op ! i))) = i + 1"
proof -
  from assms(1) obtain hs where hs: "history_of W st op = sort_key entry_key hs"
    "check_history (sort_key entry_key hs) = Inr h" "length hs \<le> 256"
    by (rule history_of_Inr)
  then show ?thesis
    using check_history_nth(1) [OF hs(2), of i] unat_small [of "i + 1"] assms(2) by simp
qed

lemma history_unique:
  assumes "latestHistoryRecord W st op = Inr h" and "x \<in> set (history_of W st op)" and "y \<in> set (history_of W st op)"
    and "mr_sequence (fst x) = mr_sequence (fst y)"
  shows "x = y"
proof -
  obtain i j where "x = history_of W st op ! i" "y = history_of W st op ! j"
    "i < length (history_of W st op)" "j < length (history_of W st op)"
    using assms(2,3) by (auto simp: in_set_conv_nth)
  with history_sequence [OF assms(1)] assms(4) show ?thesis
    by (metis add_right_cancel)
qed

lemma history_last:
  assumes "latestHistoryRecord W st op = Inr h"
  shows "history_of W st op \<noteq> []" and "last (history_of W st op) = h"
  using history_of_latest [of W st op "fst h" "snd h"] assms by simp_all

section \<open>Authorised histories\<close>

text \<open>
  What no write changes: everything but phase, join, progress, closures and status, and the
  target, which a forward retarget supersedes.
\<close>

definition keeps_authority :: "mutation_record \<Rightarrow> mutation_record \<Rightarrow> bool" where
  "keeps_authority a b \<longleftrightarrow>
     mr_api_version b = mr_api_version a \<and> mr_operation_id b = mr_operation_id a \<and> mr_kind b = mr_kind a \<and>
     mr_workspace_hash b = mr_workspace_hash a \<and> mr_owner_ref b = mr_owner_ref a \<and>
     mr_checkpoint b = mr_checkpoint a \<and> mr_prior b = mr_prior a \<and>
     map_option rs_authority (mr_restore b) = map_option rs_authority (mr_restore a) \<and>
     (mr_upgrade_data a \<noteq> None \<longrightarrow>
        map_option us_authority (mr_upgrade_data b) = map_option us_authority (mr_upgrade_data a))"

definition phase_step :: "mutation_record list \<Rightarrow> mutation_record \<Rightarrow> mutation_record \<Rightarrow> bool" where
  "phase_step pre a b \<longleftrightarrow> mr_status a = StatusActive \<and> mr_status b = StatusActive \<and>
     (restarts_rollback_generate (mr_phase a) (mr_phase b) \<longrightarrow> (\<forall>r \<in> set pre. mr_phase r \<in> set pre_apply_phases)) \<and>
     (allowedTransition (mr_kind a) (mr_phase a) (mr_phase b) \<or>
      (mr_kind a = KindRestoreActivation \<and> mr_phase b = mr_phase a) \<or>
      (mr_kind a = KindUpgrade \<and> mr_upgrade_data a = None \<and> mr_upgrade_data b = None \<and>
       (\<exists>r \<in> set pre. mr_phase r \<notin> set pre_apply_phases) \<and>
       (mr_phase b = PhaseTargetGenerateStarted \<or>
        (ForwardRecoveryPhase (mr_phase a) \<and> mr_phase b = PhaseTargetApplyStarted))))"

definition terminal_step :: "mutation_record list \<Rightarrow> mutation_record \<Rightarrow> mutation_record \<Rightarrow> bool" where
  "terminal_step pre a b \<longleftrightarrow> mr_phase b = mr_phase a \<and>
     ((mr_status a = StatusActive \<and>
       (mr_status b = StatusSucceeded \<and> mr_phase a = PhaseCommitSucceeded \<or>
        mr_status b = StatusRecovered \<and>
          (mr_phase a = PhaseRollbackSucceeded \<or> (\<forall>r \<in> set pre. mr_phase r = PhasePrepared \<and> mr_join r = None)))) \<or>
      (mr_status a \<noteq> StatusActive \<and> mr_status b = mr_status a \<and> mr_kind a = KindRestoreActivation))"

definition entry_ok :: "mutation_record list \<Rightarrow> mutation_record \<Rightarrow> bool" where
  "entry_ok pre b \<longleftrightarrow> keeps_authority (last pre) b \<and>
     (phase_step pre (last pre) b \<or> terminal_step pre (last pre) b)"

definition origin_ok :: "mutation_record \<Rightarrow> bool" where
  "origin_ok r \<longleftrightarrow> mr_phase r = PhasePrepared \<and> mr_status r = StatusActive \<and> mr_sequence r = 1 \<and> mr_join r = None"

definition authorised :: "mutation_record list \<Rightarrow> bool" where
  "authorised rs \<longleftrightarrow> (rs \<noteq> [] \<longrightarrow> origin_ok (hd rs)) \<and>
     (\<forall>i. Suc i < length rs \<longrightarrow> entry_ok (take (Suc i) rs) (rs ! Suc i))"

lemma authorised_snoc:
  assumes "authorised rs" and "if rs = [] then origin_ok r else entry_ok rs r"
  shows "authorised (rs @ [r])"
  unfolding authorised_def
proof (intro conjI allI impI)
  show "origin_ok (hd (rs @ [r]))"
    using assms by (cases rs) (auto simp: authorised_def)
  fix i assume "Suc i < length (rs @ [r])"
  then consider "Suc i < length rs" | "Suc i = length rs" by force
  then show "entry_ok (take (Suc i) (rs @ [r])) ((rs @ [r]) ! Suc i)"
  proof cases
    case 1
    with assms(1) show ?thesis by (simp add: authorised_def nth_append)
  next
    case 2
    then have "rs \<noteq> []" by auto
    with 2 assms(2) show ?thesis by (simp add: nth_append)
  qed
qed

section \<open>The invariant of the journal\<close>

definition store_ok :: "'b wire \<Rightarrow> 'b journal_store \<Rightarrow> bool" where
  "store_ok W st \<longleftrightarrow>
     (\<forall>raw c d. js_active st = Some raw \<longrightarrow> decodeRecord W raw = Inr (c, d) \<longrightarrow> filed W st c d) \<and>
     (\<forall>op h. latestHistoryRecord W st op = Inr h \<longrightarrow> authorised (map fst (history_of W st op)))"

lemma store_okD:
  assumes "store_ok W st"
  shows "js_active st = Some raw \<Longrightarrow> decodeRecord W raw = Inr (c, d) \<Longrightarrow> filed W st c d"
    and "latestHistoryRecord W st op = Inr h \<Longrightarrow> authorised (map fst (history_of W st op))"
  using assms unfolding store_ok_def by blast+

text \<open>What loads is the last entry of its history, whatever SHA-256 does.\<close>

lemma loaded_is_last:
  assumes "lawful_wire W" and "store_ok W st" and "loadRecord W st = Inr (Some (c, d))"
  shows "last (history_of W st (mr_operation_id c)) = (c, d)" and "filed W st c d"
    and "latestHistoryRecord W st (mr_operation_id c) = Inr (c, d)"
proof -
  obtain l where l: "latestHistoryRecord W st (mr_operation_id c) = Inr (l, d)" "mr_sequence l = mr_sequence c"
    using loaded_dir(2) [OF assms(3)] by blast
  show f: "filed W st c d"
    using loaded_dir(4) [OF assms(3)] store_okD(1) [OF assms(2)] by blast
  have "(l, d) = (c, d)"
  proof (rule history_unique [OF l(1)])
    show "(l, d) \<in> set (history_of W st (mr_operation_id c))"
      using history_last [OF l(1)] last_in_set by metis
    show "(c, d) \<in> set (history_of W st (mr_operation_id c))"
      by (rule filed_in_history [OF assms(1) l(1) f])
  qed (use l(2) in simp)
  then show "latestHistoryRecord W st (mr_operation_id c) = Inr (c, d)"
    using l(1) by simp
  from history_last(2) [OF this] show "last (history_of W st (mr_operation_id c)) = (c, d)" .
qed

lemma filed_grows:
  "filed W st c d \<Longrightarrow> filed W (begun W op t raw st) c d"
  "filed W st c d \<Longrightarrow> filed W (with_entry W r st) c d"
  "filed W (with_pointer W r st) c d \<longleftrightarrow> filed W st c d"
  using leave_subset by (fastforce simp: filed_def)+

lemma filed_written:
  "filed W (with_entry W r st) r (digest_of W (w_encode W r))"
  by (simp add: filed_def entry_name_def)

lemma history_frame:
  "dir_of st op = dir_of st' op \<Longrightarrow> history_of W st op = history_of W st' op"
  by (simp add: history_of_def)

text \<open>The history after an entry was appended, whether or not it was readable before.\<close>

lemma appended_history:
  assumes "lawful_wire W" and "latestHistoryRecord W st op = Inr (l, d0)" and "mr_sequence r = mr_sequence l + 1"
    and "mr_operation_id r = op" and "latestHistoryRecord W (with_entry W r st) op = Inr h"
  shows "history_of W (with_entry W r st) op = history_of W st op @ [(r, digest_of W (w_encode W r))]"
proof -
  let ?d = "digest_of W (w_encode W r)"
  from assms(2) obtain hs where hs: "read_entries W op (dir_of st op) = Inr hs"
    "history_of W st op = sort_key entry_key hs" "check_history (sort_key entry_key hs) = Inr (l, d0)" "length hs \<le> 256"
    by (rule history_of_Inr)
  from assms(5) obtain ks where ks: "read_entries W op (dir_of (with_entry W r st) op) = Inr ks"
    "history_of W (with_entry W r st) op = sort_key entry_key ks"
    by (rule history_of_Inr)
  have "dir_of (with_entry W r st) op = dir_of st op @ [(history_name (mr_sequence r) ?d, w_encode W r)]"
    using assms(4) by simp
  then obtain r1 d1 where "decodeRecord W (w_encode W r) = Inr (r1, d1)" "ks = hs @ [(r1, d1)]"
    using ks(1) hs(1)
    by (cases "decodeRecord W (w_encode W r)")
      (auto simp: read_entries_append history_name_not_temp split: if_splits)
  moreover from this have "r1 = r" "d1 = ?d"
    using assms(1) by (simp_all add: decodeRecord_Inr lawful_wire_def)
  moreover have "sort_key entry_key (hs @ [(r, ?d)]) = sort_key entry_key hs @ [(r, ?d)]"
  proof (rule sort_key_snoc)
    fix y assume "y \<in> set hs"
    then have "unat (mr_sequence (fst y)) \<le> length hs"
      using history_sequences(1) [OF hs(3,4)] by simp
    moreover have "unat (mr_sequence l) = length hs"
      using history_sequences(2) [OF hs(3,4)] by simp
    then have "unat (mr_sequence r) = length hs + 1"
      using assms(3) hs(4) by (simp add: unat_word_ariths)
    ultimately have "mr_sequence (fst y) < mr_sequence r"
      by (simp add: word_less_nat_alt)
    then show "entry_key y \<le> entry_key (r, ?d)"
      by (simp add: entry_key_def)
  qed
  ultimately show ?thesis
    using ks(2) hs(2) by simp
qed

section \<open>Writes keep the invariant\<close>

lemma decode_encoded:
  "lawful_wire W \<Longrightarrow> decodeRecord W (w_encode W r) = Inr (c, d) \<Longrightarrow> c = r \<and> d = digest_of W (w_encode W r)"
  by (simp add: decodeRecord_Inr lawful_wire_def)

lemma store_ok_entry:
  assumes "store_ok W st"
    and "\<And>h. latestHistoryRecord W (with_entry W r st) (mr_operation_id r) = Inr h \<Longrightarrow>
      authorised (map fst (history_of W (with_entry W r st) (mr_operation_id r)))"
  shows "store_ok W (with_entry W r st)"
  unfolding store_ok_def
proof (intro conjI allI impI)
  fix raw c d assume "js_active (with_entry W r st) = Some raw" "decodeRecord W raw = Inr (c, d)"
  then show "filed W (with_entry W r st) c d"
    by (intro filed_grows(2) store_okD(1) [OF assms(1)]) simp_all
next
  fix op h assume h: "latestHistoryRecord W (with_entry W r st) op = Inr h"
  show "authorised (map fst (history_of W (with_entry W r st) op))"
  proof (cases "op = mr_operation_id r")
    case True
    with h assms(2) show ?thesis by simp
  next
    case False
    then have "latestHistoryRecord W (with_entry W r st) op = latestHistoryRecord W st op"
      by (intro latest_frame) (simp add: with_entry_def)
    with h store_okD(2) [OF assms(1)] False show ?thesis
      using history_frame [of "with_entry W r st" op st W] by simp
  qed
qed

lemma store_ok_pointer:
  assumes "lawful_wire W" and "store_ok W st" and "filed W st r (digest_of W (w_encode W r))"
  shows "store_ok W (with_pointer W r st)"
  unfolding store_ok_def
proof (intro conjI allI impI)
  fix raw c d assume "js_active (with_pointer W r st) = Some raw" "decodeRecord W raw = Inr (c, d)"
  then have "c = r \<and> d = digest_of W (w_encode W r)"
    by (metis decode_encoded [OF assms(1)] option.inject with_pointer_simps(1))
  with assms(3) show "filed W (with_pointer W r st) c d"
    by (simp add: filed_grows)
next
  fix op h assume "latestHistoryRecord W (with_pointer W r st) op = Inr h"
  then show "authorised (map fst (history_of W (with_pointer W r st) op))"
    using store_okD(2) [OF assms(2)] history_frame [of "with_pointer W r st" op st W] by simp
qed

text \<open>What a write leaves besides its record changes no history that still reads back.\<close>

lemma begun_latest:
  assumes "latestHistoryRecord W (begun W op t raw st) x = Inr h"
  shows "latestHistoryRecord W st x = Inr h" and "history_of W (begun W op t raw st) x = history_of W st x"
proof -
  let ?m = "make_dir op st"
  have m: "latestHistoryRecord W ?m x = Inr h"
    using leave_latest assms unfolding begun_def by fastforce
  show l: "latestHistoryRecord W st x = Inr h"
  proof (cases "x = op \<and> op \<notin> operations st")
    case True
    then have "dir_of st op = []" by (auto simp: dir_of_def operations_map split: option.split)
    with m True show ?thesis by (auto simp: latestHistoryRecord_def check_history_def)
  next
    case False
    then have "map_of (js_dirs ?m) x = map_of (js_dirs st) x" by (auto simp: operations_map dir_of_def)
    with m show ?thesis using latest_frame by metis
  qed
  from assms obtain hs where hs: "read_entries W x (dir_of (begun W op t raw st) x) = Inr hs"
    "history_of W (begun W op t raw st) x = sort_key entry_key hs"
    by (rule history_of_Inr)
  then have "read_entries W x (dir_of st x) = Inr hs" using leave_read by (auto split: if_splits)
  with hs(2) show "history_of W (begun W op t raw st) x = history_of W st x" by (simp add: history_of_def)
qed

lemma store_ok_begun:
  assumes "store_ok W st"
  shows "store_ok W (begun W op t raw st)"
  unfolding store_ok_def
proof (intro conjI allI impI)
  fix bytes c d assume "js_active (begun W op t raw st) = Some bytes" "decodeRecord W bytes = Inr (c, d)"
  then show "filed W (begun W op t raw st) c d"
    by (intro filed_grows(1) store_okD(1) [OF assms(1)]) simp_all
next
  fix x h assume h: "latestHistoryRecord W (begun W op t raw st) x = Inr h"
  then show "authorised (map fst (history_of W (begun W op t raw st) x))"
    using begun_latest [OF h] store_okD(2) [OF assms(1)] by simp
qed

lemma begun_before_entry:
  assumes "latestHistoryRecord W (with_entry W r (begun W op t raw st)) op = Inr h" and "mr_operation_id r = op"
    and "latestHistoryRecord W st op = Inr (l, d)"
  shows "latestHistoryRecord W (begun W op t raw st) op = Inr (l, d)"
proof -
  let ?fs = "leave W t raw (dir_of st op)"
  from assms(1) obtain ks where ks: "length (dir_of (with_entry W r (begun W op t raw st)) op) \<le> 256"
    "read_entries W op (dir_of (with_entry W r (begun W op t raw st)) op) = Inr ks"
    by (rule history_of_Inr)
  then obtain hs where hs: "read_entries W op ?fs = Inr hs"
    using assms(2) by (cases "read_entries W op ?fs") (auto simp: read_entries_append)
  from assms(3) obtain hs' where "read_entries W op (dir_of st op) = Inr hs'" "check_history (sort_key entry_key hs') = Inr (l, d)"
    by (rule history_of_Inr)
  then show ?thesis using hs leave_read [OF hs] ks(1) assms(2) by (auto simp: latest_Inr)
qed

text \<open>A record may follow the history of its operation, or open a new one.\<close>

definition may_follow :: "'b wire \<Rightarrow> 'b journal_store \<Rightarrow> mutation_record \<Rightarrow> bool" where
  "may_follow W st r \<longleftrightarrow>
     (if mr_operation_id r \<in> operations st
      then \<exists>l d. latestHistoryRecord W st (mr_operation_id r) = Inr (l, d) \<and> mr_sequence r = mr_sequence l + 1 \<and>
             entry_ok (map fst (history_of W st (mr_operation_id r))) r
      else origin_ok r)"

lemma may_follow_fresh:
  assumes "may_follow W st r"
  shows "map_of (dir_of st (mr_operation_id r)) (entry_name W r) = None"
proof (cases "mr_operation_id r \<in> operations st")
  case True
  then obtain l d where l: "latestHistoryRecord W st (mr_operation_id r) = Inr (l, d)" "mr_sequence r = mr_sequence l + 1"
    using assms by (auto simp: may_follow_def)
  then have "map_of (js_dirs st) (mr_operation_id r) = Some (dir_of st (mr_operation_id r))"
    by (auto simp: latest_Inr dir_of_def)
  from fresh_name [OF this l] show ?thesis by (simp add: entry_name_def)
next
  case False
  then show ?thesis by (auto simp: dir_of_def operations_map split: option.split)
qed

lemma followed_authorised:
  assumes "lawful_wire W" and "store_ok W st" and "may_follow W st r"
    and "latestHistoryRecord W (with_entry W r (begun W (mr_operation_id r) t raw st)) (mr_operation_id r) = Inr h"
  shows "authorised (map fst (history_of W (with_entry W r (begun W (mr_operation_id r) t raw st)) (mr_operation_id r)))"
proof (cases "mr_operation_id r \<in> operations st")
  case True
  let ?op = "mr_operation_id r" and ?m = "begun W (mr_operation_id r) t raw st"
  obtain l d where l: "latestHistoryRecord W st ?op = Inr (l, d)" "mr_sequence r = mr_sequence l + 1"
    "entry_ok (map fst (history_of W st ?op)) r"
    using assms(3) True by (auto simp: may_follow_def)
  note m = begun_before_entry [OF assms(4) refl l(1)]
  have "history_of W (with_entry W r ?m) ?op = history_of W st ?op @ [(r, digest_of W (w_encode W r))]"
    using appended_history [OF assms(1) m l(2) refl assms(4)] begun_latest(2) [OF m] by simp
  with l(3) history_last(1) [OF l(1)] store_okD(2) [OF assms(2) l(1)] show ?thesis
    by (auto intro!: authorised_snoc)
next
  case False
  let ?op = "mr_operation_id r" and ?st = "with_entry W r (begun W (mr_operation_id r) t raw st)"
  have "dir_of st ?op = []"
    using False by (auto simp: dir_of_def operations_map split: option.split)
  then have dir: "dir_of ?st ?op = leave W t raw [] @ [(entry_name W r, w_encode W r)]"
    by (simp add: entry_name_def)
  from assms(4) obtain hs where hs: "read_entries W ?op (dir_of ?st ?op) = Inr hs"
    "history_of W ?st ?op = sort_key entry_key hs"
    by (rule history_of_Inr)
  have none: "read_entries W ?op (leave W t raw []) = Inr ks \<Longrightarrow> ks = []" for ks
    using leave_read [of W ?op t raw "[]" ks] by simp
  obtain r1 d1 where "decodeRecord W (w_encode W r) = Inr (r1, d1)" "hs = [(r1, d1)]"
    using dir hs(1) none
    by (cases "decodeRecord W (w_encode W r)"; cases "read_entries W ?op (leave W t raw [])")
      (auto simp: read_entries_append split: if_splits)
  moreover from this have "r1 = r"
    by (simp add: decode_encoded [OF assms(1)])
  ultimately show ?thesis
    using hs(2) False assms(3) by (simp add: authorised_def may_follow_def)
qed

lemma persist_preserves:
  assumes "lawful_wire W" and "store_ok W st" and "\<And>sg. may_follow W st (sealed r prev sg)"
    and "persistRecord W oh oa st r prev = (st', r', d, e)"
  shows "store_ok W st'" and "d \<noteq> [] \<Longrightarrow> filed W st' r' d" and "filed W st c x \<Longrightarrow> filed W st' c x"
proof -
  let ?m = "\<lambda>t raw. begun W (mr_operation_id r) t raw st"
  have fresh: "\<And>sg. map_of (dir_of st (mr_operation_id r)) (entry_name W (sealed r prev sg)) = None"
    using may_follow_fresh [OF assms(3)] by simp
  have written: "store_ok W (with_entry W (sealed r prev sg) (?m t raw))" for sg t raw
    by (rule store_ok_entry [OF store_ok_begun [OF assms(2)]])
      (use followed_authorised [OF assms(1,2,3), of sg] in simp)
  have "store_ok W st' \<and> (d \<noteq> [] \<longrightarrow> filed W st' r' d) \<and> (filed W st c x \<longrightarrow> filed W st' c x)"
    using assms(4) fresh
  proof (cases rule: persist_shape)
    case (unwritten t raw)
    with assms(2) store_ok_begun show ?thesis by (auto simp: filed_grows)
  next
    case (entry sg t raw)
    with written [of sg t raw] show ?thesis
      by (auto simp: filed_grows filed_written)
  next
    case (pointer sg t raw)
    have "store_ok W (with_pointer W r' (with_entry W r' (?m t raw)))"
      unfolding pointer(1) by (rule store_ok_pointer [OF assms(1) written filed_written])
    with pointer show ?thesis by (simp add: filed_grows filed_written)
  qed
  then show "store_ok W st'" "d \<noteq> [] \<Longrightarrow> filed W st' r' d" "filed W st c x \<Longrightarrow> filed W st' c x"
    by simp_all
qed

text \<open>
  The record of a session is on file, except for the target that a failed forward retarget may
  have put back.
\<close>

definition session_filed :: "'b wire \<Rightarrow> 'b journal_store \<Rightarrow> session \<Rightarrow> bool" where
  "session_filed W st s \<longleftrightarrow> mr_operation_id (ss_record s) \<noteq> [] \<longrightarrow>
     (\<exists>t. filed W st ((ss_record s)\<lparr>mr_target := t\<rparr>) (ss_digest s))"

lemma operationPattern_nonempty: "operationPattern op \<Longrightarrow> op \<noteq> []"
  by (auto simp: operationPattern_def)

lemma session_is_last:
  assumes "lawful_wire W" and "store_ok W (wd_store w)" and "session_filed W (wd_store w) s"
    and "journal_current W w s p = None"
  obtains t where "loadRecord W (wd_store w) = Inr (Some ((ss_record s)\<lparr>mr_target := t\<rparr>, ss_digest s))"
    "latestHistoryRecord W (wd_store w) (mr_operation_id (ss_record s)) = Inr ((ss_record s)\<lparr>mr_target := t\<rparr>, ss_digest s)"
    "last (map fst (history_of W (wd_store w) (mr_operation_id (ss_record s)))) = (ss_record s)\<lparr>mr_target := t\<rparr>"
    "history_of W (wd_store w) (mr_operation_id (ss_record s)) \<noteq> []"
    "mr_phase (ss_record s) = p"
proof -
  let ?st = "wd_store w" and ?r = "ss_record s"
  obtain c where c: "loadRecord W ?st = Inr (Some (c, ss_digest s))" "mr_operation_id c = mr_operation_id ?r"
    "mr_sequence c = mr_sequence ?r" "mr_phase c = p"
    using assms(4) by (auto simp: journal_current_None)
  note last = loaded_is_last [OF assms(1,2) c(1)]
  have "operationPattern (mr_operation_id c)"
    using c(1) by (auto simp: loadRecord_Some decodeRecord_Inr validateRecord_None validate_base_def)
  then obtain t where t: "filed W ?st (?r\<lparr>mr_target := t\<rparr>) (ss_digest s)"
    using assms(3) c(2) operationPattern_nonempty by (auto simp: session_filed_def)
  have lat: "latestHistoryRecord W ?st (mr_operation_id ?r) = Inr (c, ss_digest s)"
    using last(3) c(2) by simp
  have "(c, ss_digest s) = (?r\<lparr>mr_target := t\<rparr>, ss_digest s)"
  proof (rule history_unique [OF lat])
    show "(c, ss_digest s) \<in> set (history_of W ?st (mr_operation_id ?r))"
      using history_last [OF lat] last_in_set by metis
    show "(?r\<lparr>mr_target := t\<rparr>, ss_digest s) \<in> set (history_of W ?st (mr_operation_id ?r))"
      using filed_in_history [OF assms(1) _ t] lat by simp
  qed (use c(3) in simp)
  then have eq: "c = ?r\<lparr>mr_target := t\<rparr>" by simp
  show thesis
  proof (rule that [of t])
    show "loadRecord W ?st = Inr (Some (?r\<lparr>mr_target := t\<rparr>, ss_digest s))"
      "latestHistoryRecord W ?st (mr_operation_id ?r) = Inr (?r\<lparr>mr_target := t\<rparr>, ss_digest s)"
      using c(1) lat eq by simp_all
    show "last (map fst (history_of W ?st (mr_operation_id ?r))) = ?r\<lparr>mr_target := t\<rparr>"
      "history_of W ?st (mr_operation_id ?r) \<noteq> []"
      using history_last [OF lat] eq by (simp_all add: last_map)
    show "mr_phase ?r = p" using c(4) eq by simp
  qed
qed

lemma commit_preserves:
  assumes "lawful_wire W" and "store_ok W (wd_store w)" and "session_filed W (wd_store w) s"
    and "journal_current W w s p = None" and "commit_record W ev w s r = (w', s', e)"
    and "mr_operation_id r = mr_operation_id (ss_record s)" and "mr_sequence r = mr_sequence (ss_record s) + 1"
    and "\<And>sg. entry_ok (map fst (history_of W (wd_store w) (mr_operation_id (ss_record s)))) (sealed r (ss_digest s) sg)"
  shows "store_ok W (wd_store w') \<and> session_filed W (wd_store w') s'"
proof -
  let ?st = "wd_store w"
  obtain st q dd x where p: "persistRecord W (ev_history ev) (ev_active ev) ?st r (ss_digest s) = (st, q, dd, x)"
    by (metis prod_cases4)
  obtain t where "latestHistoryRecord W ?st (mr_operation_id (ss_record s)) = Inr ((ss_record s)\<lparr>mr_target := t\<rparr>, ss_digest s)"
    by (rule session_is_last [OF assms(1-4)])
  then have "may_follow W ?st (sealed r (ss_digest s) sg)" for sg
    using assms(6-8) latest_operation by (fastforce simp: may_follow_def)
  note pp = persist_preserves [OF assms(1,2) this p]
  have "x = None \<Longrightarrow> dd \<noteq> []"
    using p by (auto simp: persistRecord_def digest_of_def sha256_prefix_def Let_def split: option.splits if_splits prod.splits)
  then consider "dd \<noteq> []" "w' = w\<lparr>wd_store := st\<rparr>" "s' = s\<lparr>ss_record := q, ss_digest := dd\<rparr>"
    | "dd = []" "w' = w\<lparr>wd_store := st\<rparr>" "s' = s"
    using assms(5) p by (cases "dd = []"; cases x) (auto simp: commit_record_def)
  then show ?thesis
  proof cases
    case 1
    then show ?thesis
      using pp(1,2) by (auto simp: session_filed_def intro!: exI [of _ "mr_target q"])
  next
    case 2
    then show ?thesis
      using pp(1,3) assms(3) by (auto simp: session_filed_def)
  qed
qed

section \<open>Every operation of a session keeps the invariant\<close>

text \<open>What the scans of the history say of its entries.\<close>

lemma history_file:
  assumes "latestHistoryRecord W st op = Inr h" and "x \<in> set (history_of W st op)"
  shows "\<exists>name raw. (name, raw) \<in> set (dir_of st op) \<and> \<not> has_prefix name temp_prefix \<and> decodeRecord W raw = Inr x \<and>
    filed W st (fst x) (snd x) \<and> mr_operation_id (fst x) = op"
proof -
  from assms(1) obtain hs where hs: "read_entries W op (dir_of st op) = Inr hs" "history_of W st op = sort_key entry_key hs"
    by (rule history_of_Inr)
  obtain r d where x: "x = (r, d)" by fastforce
  with assms(2) hs have "(r, d) \<in> set hs" by simp
  from read_entries_files [OF hs(1) this] obtain raw where
    raw: "(history_name (mr_sequence r) d, raw) \<in> set (dir_of st op)" "decodeRecord W raw = Inr (r, d)" "mr_operation_id r = op"
    by blast
  then have "filed W st r d"
    by (auto simp: filed_def entry_name_def decodeRecord_Inr)
  with raw x show ?thesis using history_name_not_temp by auto
qed

lemma latest_filed:
  "latestHistoryRecord W st op = Inr (r, d) \<Longrightarrow> filed W st r d \<and> mr_operation_id r = op"
  using history_file [of W st op "(r, d)" "(r, d)"] history_last [of W st op "(r, d)"] last_in_set by fastforce

lemma admitted_scan_False:
  "admitted_scan W fs = Inr False \<Longrightarrow> (name, raw) \<in> set fs \<Longrightarrow> \<not> has_prefix name temp_prefix \<Longrightarrow>
     \<exists>r d. decodeRecord W raw = Inr (r, d) \<and> mr_phase r \<in> set pre_apply_phases"
  by (induction W fs rule: admitted_scan.induct) (auto simp: faulty_def map_sum_def split: if_splits sum.splits)

lemma admitted_scan_True:
  "admitted_scan W fs = Inr True \<Longrightarrow>
     \<exists>name raw r d. (name, raw) \<in> set fs \<and> \<not> has_prefix name temp_prefix \<and> decodeRecord W raw = Inr (r, d) \<and>
       mr_phase r \<notin> set pre_apply_phases"
  by (induction W fs rule: admitted_scan.induct) (fastforce simp: faulty_def map_sum_def split: if_splits sum.splits)+

lemma prepared_scan_True:
  "prepared_scan W fs = Inr True \<Longrightarrow> (name, raw) \<in> set fs \<Longrightarrow> \<not> has_prefix name temp_prefix \<Longrightarrow>
     \<exists>r d. decodeRecord W raw = Inr (r, d) \<and> mr_phase r = PhasePrepared \<and> mr_join r = None"
  by (induction W fs rule: prepared_scan.induct) (auto simp: faulty_def map_sum_def split: if_splits sum.splits)

lemma target_apply_admitted:
  assumes "targetApplyAdmitted W w s = Inr b"
  shows "if b then \<exists>r \<in> set (map fst (history_of W (wd_store w) (mr_operation_id (ss_record s)))). mr_phase r \<notin> set pre_apply_phases
    else \<forall>r \<in> set (map fst (history_of W (wd_store w) (mr_operation_id (ss_record s)))). mr_phase r \<in> set pre_apply_phases"
proof -
  let ?st = "wd_store w" and ?op = "mr_operation_id (ss_record s)"
  obtain l d where l: "latestHistoryRecord W ?st ?op = Inr (l, d)" "admitted_scan W (dir_of ?st ?op) = Inr b"
    using assms by (auto simp: targetApplyAdmitted_def Let_def split: sum.splits if_splits)
  show ?thesis
  proof (cases b)
    case True
    with l(2) obtain name raw r d1 where r: "(name, raw) \<in> set (dir_of ?st ?op)" "\<not> has_prefix name temp_prefix"
      "decodeRecord W raw = Inr (r, d1)" "mr_phase r \<notin> set pre_apply_phases"
      using admitted_scan_True [of W "dir_of ?st ?op"] by auto
    from l(1) obtain hs where "read_entries W ?op (dir_of ?st ?op) = Inr hs" "history_of W ?st ?op = sort_key entry_key hs"
      by (rule history_of_Inr)
    with read_entries_file r(1-3) have "(r, d1) \<in> set (history_of W ?st ?op)"
      by fastforce
    with r(4) True show ?thesis by force
  next
    case False
    with l show ?thesis
      using history_file [OF l(1)] admitted_scan_False [of W "dir_of ?st ?op"] by fastforce
  qed
qed

lemma prepared_release_admitted:
  assumes "PreparedReleaseAdmitted W w s = Inr True"
  shows "\<forall>r \<in> set (map fst (history_of W (wd_store w) (mr_operation_id (ss_record s)))). mr_phase r = PhasePrepared \<and> mr_join r = None"
proof -
  let ?st = "wd_store w" and ?op = "mr_operation_id (ss_record s)"
  obtain l d where l: "latestHistoryRecord W ?st ?op = Inr (l, d)" "prepared_scan W (dir_of ?st ?op) = Inr True"
    using assms by (auto simp: PreparedReleaseAdmitted_def Let_def split: sum.splits if_splits)
  then show ?thesis
    using history_file [OF l(1)] prepared_scan_True [of W "dir_of ?st ?op"] by fastforce
qed

lemma forward_not_pre_apply: "ForwardRecoveryPhase p \<Longrightarrow> p \<notin> set pre_apply_phases"
  by (auto simp: ForwardRecoveryPhase_def pre_apply_phases_def)

lemma more_sealed_simps [simp]:
  "mr_api_version (sealed r p s) = mr_api_version r" "mr_checkpoint (sealed r p s) = mr_checkpoint r"
  "mr_prior (sealed r p s) = mr_prior r" "mr_target (sealed r p s) = mr_target r"
  by (simp_all add: sealed_def)

lemma transition_record_simps [simp]:
  "mr_api_version (transition_record r q j t u now) = mr_api_version r"
  "mr_operation_id (transition_record r q j t u now) = mr_operation_id r"
  "mr_kind (transition_record r q j t u now) = mr_kind r"
  "mr_workspace_hash (transition_record r q j t u now) = mr_workspace_hash r"
  "mr_owner_ref (transition_record r q j t u now) = mr_owner_ref r"
  "mr_status (transition_record r q j t u now) = mr_status r"
  "mr_checkpoint (transition_record r q j t u now) = mr_checkpoint r"
  "mr_prior (transition_record r q j t u now) = mr_prior r" "mr_target (transition_record r q j t u now) = mr_target r"
  "mr_phase (transition_record r q j t u now) = q" "mr_join (transition_record r q j t u now) = j"
  "mr_sequence (transition_record r q j t u now) = mr_sequence r + 1"
  "mr_restore (transition_record r q j t u now) = (if t \<noteq> None then t else mr_restore r)"
  "mr_upgrade_data (transition_record r q j t u now) = (if u \<noteq> None then u else mr_upgrade_data r)"
  by (simp_all add: transition_record_def)

definition session_history :: "'b wire \<Rightarrow> 'b world \<Rightarrow> session \<Rightarrow> mutation_record list" where
  "session_history W w s = map fst (history_of W (wd_store w) (mr_operation_id (ss_record s)))"

text \<open>
  A transition writes an authorised entry, if the states it carries keep the authority and a
  retarget was admitted by the history.
\<close>

lemma transition_entry_ok:
  assumes "lawful_wire W" and "store_ok W (wd_store w)" and "session_filed W (wd_store w) s"
    and "transition_guard W w s p q join restore data = None"
    and "restore \<noteq> None \<Longrightarrow> map_option rs_authority restore = map_option rs_authority (mr_restore (ss_record s))"
    and "data \<noteq> None \<Longrightarrow> mr_upgrade_data (ss_record s) \<noteq> None \<Longrightarrow>
      map_option us_authority data = map_option us_authority (mr_upgrade_data (ss_record s))"
    and "ss_retarget s \<Longrightarrow> \<exists>r \<in> set (session_history W w s). mr_phase r \<notin> set pre_apply_phases"
  shows "entry_ok (session_history W w s) (sealed (transition_record (ss_record s) q join restore data now) d sg)"
proof -
  let ?r = "ss_record s" and ?b = "sealed (transition_record (ss_record s) q join restore data now) d sg"
  have g: "restarts_rollback_generate p q \<longrightarrow> RequirePreApplyUpgradeRollback W w s = None"
    "transition_authorized (w_digests W) s p q join restore" "transition_state_error s q join restore data = None"
    "journal_current W w s p = None"
    using assms(4) by (auto simp: transition_guard_def)
  obtain t where last: "last (session_history W w s) = ?r\<lparr>mr_target := t\<rparr>" "mr_phase ?r = p"
    "history_of W (wd_store w) (mr_operation_id ?r) \<noteq> []"
    using session_is_last [OF assms(1-3) g(4)] by (metis session_history_def)
  have mem: "?r\<lparr>mr_target := t\<rparr> \<in> set (session_history W w s)"
    using last(1,3) last_in_set by (metis Nil_is_map_conv session_history_def)
  have active: "mr_status ?r = StatusActive"
    using g(2) by (simp add: transition_authorized_def)
  have kept: "keeps_authority (?r\<lparr>mr_target := t\<rparr>) ?b"
    using assms(5,6) by (auto simp: keeps_authority_def)
  have restart: "restarts_rollback_generate p q \<longrightarrow> (\<forall>r \<in> set (session_history W w s). mr_phase r \<in> set pre_apply_phases)"
  proof
    assume "restarts_rollback_generate p q"
    with g(1) have "targetApplyAdmitted W w s = Inr False"
      by (auto simp: RequirePreApplyUpgradeRollback_def Let_def split: sum.splits bool.splits if_splits)
    from target_apply_admitted [OF this] show "\<forall>r \<in> set (session_history W w s). mr_phase r \<in> set pre_apply_phases"
      by (simp add: session_history_def)
  qed
  have "phase_step (session_history W w s) (?r\<lparr>mr_target := t\<rparr>) ?b"
    using g(2) unfolding transition_authorized_def
  proof (elim conjE disjE)
    assume "allowedTransition (mr_kind ?r) p q"
    with active restart last(2) show ?thesis by (simp add: phase_step_def)
  next
    assume f: "forwardRecoveryTransition s p q join"
    then obtain j where j: "join = Some j" "mr_kind ?r = KindUpgrade" "mr_upgrade_data ?r = None"
      by (auto simp: forwardRecoveryTransition_def split: option.splits if_splits)
    with g(3) have "data = None"
      by (simp add: transition_state_error_def)
    moreover have "\<exists>r \<in> set (session_history W w s). mr_phase r \<notin> set pre_apply_phases"
    proof (cases "ss_retarget s")
      case False
      with f j have "ForwardRecoveryPhase p"
        by (simp add: forwardRecoveryTransition_def split: if_splits)
      then have "mr_phase (?r\<lparr>mr_target := t\<rparr>) \<notin> set pre_apply_phases"
        using forward_not_pre_apply last(2) by simp
      with mem show ?thesis by (rule rev_bexI)
    qed (rule assms(7))
    moreover have "q = PhaseTargetGenerateStarted \<or> (ForwardRecoveryPhase p \<and> q = PhaseTargetApplyStarted)"
      using f j by (auto simp: forwardRecoveryTransition_def split: if_splits)
    ultimately show ?thesis
      using j active restart last(2) by (auto simp: phase_step_def)
  next
    assume "validRestoreControlTransition ?r p q restore"
    then have "mr_kind ?r = KindRestoreActivation" "q = p"
      by (auto simp: validRestoreControlTransition_def split: option.splits if_splits)
    with active restart last(2) show ?thesis by (simp add: phase_step_def)
  next
    assume "validRestoreAppGroupTransition (w_digests W) ?r p q restore"
    then have "mr_kind ?r = KindRestoreActivation" "q = p"
      by (auto simp: validRestoreAppGroupTransition_def split: option.splits if_splits)
    with active restart last(2) show ?thesis by (simp add: phase_step_def)
  qed
  with kept last(1) show ?thesis
    by (simp add: entry_ok_def)
qed

lemma transition_preserves:
  assumes "lawful_wire W" and "store_ok W (wd_store w)" and "session_filed W (wd_store w) s"
    and "transitionWithUpgradeData W ev w s p q join restore data = (w', s', e)"
    and "restore \<noteq> None \<Longrightarrow> map_option rs_authority restore = map_option rs_authority (mr_restore (ss_record s))"
    and "data \<noteq> None \<Longrightarrow> mr_upgrade_data (ss_record s) \<noteq> None \<Longrightarrow>
      map_option us_authority data = map_option us_authority (mr_upgrade_data (ss_record s))"
    and "ss_retarget s \<Longrightarrow> \<exists>r \<in> set (session_history W w s). mr_phase r \<notin> set pre_apply_phases"
  shows "store_ok W (wd_store w') \<and> session_filed W (wd_store w') s'"
proof (cases "transition_guard W w s p q join restore data")
  case (Some x)
  with assms(2-4) show ?thesis by (auto simp: transitionWithUpgradeData_def)
next
  case None
  then have c: "commit_record W ev w s (transition_record (ss_record s) q join restore data (ev_now ev)) = (w', s', e)"
    and j: "journal_current W w s p = None"
    using assms(4) by (auto simp: transitionWithUpgradeData_def transition_guard_def)
  show ?thesis
    by (rule commit_preserves [OF assms(1-3) j c])
      (use transition_entry_ok [OF assms(1-3) None assms(5-7)] in \<open>auto simp: session_history_def\<close>)
qed

lemma session_filed_update [simp]:
  "session_filed W st (s\<lparr>ss_forward := b\<rparr>) = session_filed W st s"
  "session_filed W st (s\<lparr>ss_retarget := b\<rparr>) = session_filed W st s"
  "session_filed W st (s\<lparr>ss_release := b\<rparr>) = session_filed W st s"
  "session_filed W st (s\<lparr>ss_claim_lock := b\<rparr>) = session_filed W st s"
  "session_filed W st (s\<lparr>ss_claimant_gone := b\<rparr>) = session_filed W st s"
  "session_filed W st (s\<lparr>ss_record := (ss_record s)\<lparr>mr_target := t\<rparr>\<rparr>) = session_filed W st s"
  by (simp_all add: session_filed_def)

lemma release_claim_store [simp]: "wd_store (release_claim op w) = wd_store w"
  by (simp add: release_claim_def)

text \<open>A join either fails before anything changed or is a transition, perhaps with a hand-over.\<close>

lemma BeginJoin_cases:
  assumes "BeginJoin W F ev w s p q command version executable = (w', s', res)"
  obtains (denied) "w' = w" "s' = s"
    | (failed) j e where "transitionWithUpgradeData W ev w s p q (Some j) None None = (w', s', e)"
    | (handed) j w1 s1 where "transitionWithUpgradeData W ev w s p q (Some j) None None = (w1, s1, None)"
        "ss_claim_lock s1" "w' = release_claim (mr_operation_id (ss_record s1)) w1"
        "s' = s1\<lparr>ss_claim_lock := False, ss_claimant_gone := False\<rparr>"
proof (cases "join_refused s q command version executable")
  case (Some x)
  with assms denied show thesis by (simp add: BeginJoin_def)
next
  case None
  note ok = this
  show thesis
  proof (cases "ev_nonce ev")
    case None
    with ok assms denied show thesis by (simp add: BeginJoin_def)
  next
    case (Some nonce)
    let ?j = "\<lparr>jn_command = command, jn_binary_version = version, jn_executable = executable,
                   jn_nonce = fn_nonce_digest F nonce\<rparr>"
    obtain w1 s1 e where tr: "transitionWithUpgradeData W ev w s p q (Some ?j) None None = (w1, s1, e)"
      by (metis prod_cases3)
    show thesis
    proof (cases e)
      case (Some x)
      with ok \<open>ev_nonce ev = Some nonce\<close> tr assms have "w' = w1" "s' = s1"
        by (auto simp: BeginJoin_def transition_def)
      with tr show thesis by (intro failed [of ?j e]) simp
    next
      case none: None
      with ok Some tr assms have "(w', s') = hand_over w1 s1"
        by (auto simp: BeginJoin_def transition_def split: prod.splits)
      with tr none show thesis
        by (cases "ss_claim_lock s1") (auto simp: hand_over_def intro: failed [of ?j] handed [of ?j])
    qed
  qed
qed

lemma BeginJoin_preserves:
  assumes "lawful_wire W" and "store_ok W (wd_store w)" and "session_filed W (wd_store w) s"
    and "BeginJoin W F ev w s p q command version executable = (w', s', res)"
    and "ss_retarget s \<Longrightarrow> \<exists>r \<in> set (session_history W w s). mr_phase r \<notin> set pre_apply_phases"
  shows "store_ok W (wd_store w') \<and> session_filed W (wd_store w') s'"
  using assms(4)
proof (cases rule: BeginJoin_cases)
  case denied
  with assms(2,3) show ?thesis by simp
next
  case failed
  from transition_preserves [OF assms(1-3) this _ _ assms(5)] show ?thesis by simp
next
  case handed
  from transition_preserves [OF assms(1-3) handed(1) _ _ assms(5)] handed(3,4) show ?thesis by simp
qed

lemma retargeted_simps [simp]:
  "session_history W w (retargeted s tgt) = session_history W w s"
  "session_filed W st (retargeted s tgt) = session_filed W st s"
  "journal_current W w (retargeted s tgt) p = journal_current W w s p"
  "session_filed W st (restore_target s p old res) = session_filed W st s"
  by (simp_all add: retargeted_def restore_target_def session_history_def session_filed_def journal_current_def
      split: sum.split option.split)

lemma BeginJoin_stale:
  "journal_current W w s p \<noteq> None \<Longrightarrow> \<exists>e. BeginJoin W F ev w s p q command version executable = (w, s, Inl e)"
  by (auto simp: BeginJoin_def transition_def transitionWithUpgradeData_def transition_guard_def
      split: option.split)

lemma retarget_admitted:
  assumes "lawful_wire W" and "store_ok W (wd_store w)" and "session_filed W (wd_store w) s"
    and "retarget_refused W F w s p tgt = None" and "journal_current W w s p = None"
  shows "\<exists>r \<in> set (session_history W w s). mr_phase r \<notin> set pre_apply_phases"
proof -
  have f: "forward_custody s p" "ForwardRecoveryAdmitted W w s = Inr True"
    using assms(4) by (simp_all add: retarget_refused_def)
  obtain t where t: "last (session_history W w s) = (ss_record s)\<lparr>mr_target := t\<rparr>" "session_history W w s \<noteq> []"
    using session_is_last [OF assms(1-3,5)] by (metis Nil_is_map_conv session_history_def)
  have "ForwardRecoveryPhase (mr_phase (ss_record s)) \<or> targetApplyAdmitted W w s = Inr True"
    using f(2) by (simp add: ForwardRecoveryAdmitted_def Let_def split: if_splits)
  then show ?thesis
  proof
    assume "ForwardRecoveryPhase (mr_phase (ss_record s))"
    then have "mr_phase (last (session_history W w s)) \<notin> set pre_apply_phases"
      using t(1) forward_not_pre_apply by simp
    with t(2) show ?thesis using last_in_set by blast
  next
    assume "targetApplyAdmitted W w s = Inr True"
    from target_apply_admitted [OF this] show ?thesis by (simp add: session_history_def)
  qed
qed

lemma retarget_preserves:
  assumes "lawful_wire W" and "store_ok W (wd_store w)" and "session_filed W (wd_store w) s"
    and "BeginForwardRetargetJoin W F ev w s p tgt = (w', s', res)"
  shows "store_ok W (wd_store w') \<and> session_filed W (wd_store w') s'"
proof (cases "retarget_refused W F w s p tgt")
  case (Some e)
  with assms(2-4) show ?thesis by (simp add: BeginForwardRetargetJoin_def)
next
  case None
  obtain w1 s1 r where b: "BeginJoin W F ev w (retargeted s tgt) p PhaseTargetGenerateStarted ''generate''
      (ra_version tgt) (ra_executable tgt) = (w1, s1, r)"
    by (metis prod_cases3)
  have res: "w' = w1" "s' = restore_target s1 p (mr_target (ss_record s)) res"
    using assms(4) None b by (auto simp: BeginForwardRetargetJoin_def)
  have "store_ok W (wd_store w1) \<and> session_filed W (wd_store w1) s1"
  proof (cases "journal_current W w s p = None")
    case True
    from BeginJoin_preserves [OF assms(1,2) _ b] retarget_admitted [OF assms(1-3) None True] assms(3)
    show ?thesis by simp
  next
    case False
    with BeginJoin_stale [of W w "retargeted s tgt" p] b assms(2,3) show ?thesis
      by (metis prod.inject retargeted_simps(2,3))
  qed
  with res show ?thesis by simp
qed

text \<open>The calls a session offers.\<close>

inductive session_call ::
  "'b wire \<Rightarrow> session_funs \<Rightarrow> 'b world \<Rightarrow> session \<Rightarrow> 'b world \<Rightarrow> session \<Rightarrow> bool" for W F where
  plain: "Transition W ev w s p q = (w', s', e) \<Longrightarrow> session_call W F w s w' s'"
| restore: "TransitionRestoreActivation W ev w s p q n = (w', s', e) \<Longrightarrow> session_call W F w s w' s'"
| join: "BeginJoin W F ev w s p q command version executable = (w', s', res) \<Longrightarrow> session_call W F w s w' s'"
| forward: "BeginForwardRecoveryJoin W F ev w s p version executable = (w', s', res) \<Longrightarrow> session_call W F w s w' s'"
| retarget: "BeginForwardRetargetJoin W F ev w s p tgt = (w', s', res) \<Longrightarrow> session_call W F w s w' s'"
| complete: "Complete W ev w s status = (w', s', e) \<Longrightarrow> session_call W F w s w' s'"
| release: "CompletePreparedRelease W ev w s = (w', s', e) \<Longrightarrow> session_call W F w s w' s'"
| reconcile: "ReconcileForRecovery W ev w s = (w', s', e) \<Longrightarrow> session_call W F w s w' s'"
| data_begin: "BeginUpgradeDataActivation W ev w s a = (w', s', e) \<Longrightarrow> session_call W F w s w' s'"
| data: "TransitionUpgradeDataActivation W ev w s p q m = (w', s', e) \<Longrightarrow> session_call W F w s w' s'"
| controls: "RecordRestoreControls W ev w s cs = (w', s', e) \<Longrightarrow> session_call W F w s w' s'"
| groups: "RecordRestoreAppGroups W ev w s gs = (w', s', e) \<Longrightarrow> session_call W F w s w' s'"
| acknowledge: "AcknowledgeRestoreAppGroupClose W ev w s g = (w', s', e) \<Longrightarrow> session_call W F w s w' s'"

definition journal_ok :: "'b wire \<Rightarrow> 'b world \<Rightarrow> session \<Rightarrow> bool" where
  "journal_ok W w s \<longleftrightarrow> store_ok W (wd_store w) \<and> session_filed W (wd_store w) s"

lemma journal_okD: "journal_ok W w s \<Longrightarrow> store_ok W (wd_store w)" "journal_ok W w s \<Longrightarrow> session_filed W (wd_store w) s"
  by (simp_all add: journal_ok_def)

lemma restore_call_preserves:
  assumes "lawful_wire W" and "journal_ok W w s" and "\<not> ss_retarget s"
    and "TransitionRestoreActivation W ev w s p q n = (w', s', e)"
  shows "journal_ok W w' s'"
proof -
  consider "w' = w" "s' = s"
    | t where "mr_restore (ss_record s) = Some t"
        "transitionWithUpgradeData W ev w s p q None (Some (with_progress t (copied_progress n))) None = (w', s', e)"
    using assms(4) by (auto simp: TransitionRestoreActivation_def transition_def split: option.splits if_splits)
  then show ?thesis
  proof cases
    case 2
    from transition_preserves [OF assms(1) journal_okD [OF assms(2)] 2(2)] 2(1) assms(3)
    show ?thesis by (simp add: journal_ok_def)
  qed (use assms(2) in simp)
qed

lemma data_calls_preserve:
  assumes "lawful_wire W" and "journal_ok W w s" and "\<not> ss_retarget s"
  shows "BeginUpgradeDataActivation W ev w s a = (w', s', e) \<Longrightarrow> journal_ok W w' s'"
    and "TransitionUpgradeDataActivation W ev w s p q m = (w', s', e) \<Longrightarrow> journal_ok W w' s'"
proof -
  let ?t = "\<lparr>us_authority = a, us_completed = Some [], us_in_flight = None\<rparr>"
  assume "BeginUpgradeDataActivation W ev w s a = (w', s', e)"
  then consider "w' = w" "s' = s"
    | "mr_upgrade_data (ss_record s) = None" "transitionWithUpgradeData W ev w s (mr_phase (ss_record s))
        PhaseRollbackDataQuiesceStarted None None (Some ?t) = (w', s', e)"
    by (auto simp: BeginUpgradeDataActivation_def Let_def split: option.splits if_splits)
  then show "journal_ok W w' s'"
  proof cases
    case 2
    from transition_preserves [OF assms(1) journal_okD [OF assms(2)] 2(2)] 2(1) assms(3)
    show ?thesis by (simp add: journal_ok_def)
  qed (use assms(2) in simp)
next
  assume "TransitionUpgradeDataActivation W ev w s p q m = (w', s', e)"
  then consider "w' = w" "s' = s"
    | t where "mr_upgrade_data (ss_record s) = Some t"
        "transitionWithUpgradeData W ev w s p q None None (Some (with_data_progress t m)) = (w', s', e)"
    by (auto simp: TransitionUpgradeDataActivation_def split: option.splits if_splits)
  then show "journal_ok W w' s'"
  proof cases
    case 2
    from transition_preserves [OF assms(1) journal_okD [OF assms(2)] 2(2)] 2(1) assms(3)
    show ?thesis by (simp add: journal_ok_def with_data_progress_def)
  qed (use assms(2) in simp)
qed

lemma record_calls_preserve:
  assumes "lawful_wire W" and "journal_ok W w s" and "\<not> ss_retarget s"
  shows "RecordRestoreControls W ev w s cs = (w', s', e) \<Longrightarrow> journal_ok W w' s'"
    and "RecordRestoreAppGroups W ev w s gs = (w', s', e) \<Longrightarrow> journal_ok W w' s'"
proof -
  have step: "journal_ok W w' s'" if "mr_restore (ss_record s) = Some t" "rs_authority u = rs_authority t"
    "transitionWithUpgradeData W ev w s (mr_phase (ss_record s)) (mr_phase (ss_record s)) None (Some u) None = (w', s', e)" for t u
    using transition_preserves [OF assms(1) journal_okD [OF assms(2)] that(3)] that(1,2) assms(3)
    by (simp add: journal_ok_def)
  show "RecordRestoreControls W ev w s cs = (w', s', e) \<Longrightarrow> journal_ok W w' s'"
    using step [of _ "_\<lparr>rs_controls := cs\<rparr>"] assms(2)
    by (auto simp: RecordRestoreControls_def transition_def split: option.splits)
  show "RecordRestoreAppGroups W ev w s gs = (w', s', e) \<Longrightarrow> journal_ok W w' s'"
    using step [of _ "_\<lparr>rs_groups := gs\<rparr>"] assms(2)
    by (auto simp: RecordRestoreAppGroups_def transition_def split: option.splits if_splits)
qed

lemma Complete_preserves:
  assumes "lawful_wire W" and "journal_ok W w s" and "Complete W ev w s status = (w', s', e)"
    and "ss_release s \<Longrightarrow> \<forall>r \<in> set (session_history W w s). mr_phase r = PhasePrepared \<and> mr_join r = None"
  shows "journal_ok W w' s'"
proof -
  let ?r = "ss_record s"
  let ?b = "?r\<lparr>mr_status := status, mr_join := None, mr_sequence := mr_sequence ?r + 1, mr_updated_at := int (ev_now ev)\<rparr>"
  consider "w' = w" "s' = s"
    | "status = StatusSucceeded \<or> status = StatusRecovered" "mr_status ?r = StatusActive"
      "status = StatusSucceeded \<longrightarrow> mr_phase ?r = PhaseCommitSucceeded"
      "status = StatusRecovered \<longrightarrow> mr_phase ?r = PhaseRollbackSucceeded \<or> ss_release s \<and> mr_phase ?r = PhasePrepared"
      "journal_current W w s (mr_phase ?r) = None" "commit_record W ev w s ?b = (w', s', e)"
    using assms(3) by (auto simp: Complete_def Let_def split: option.splits sum.splits if_splits)
  then show ?thesis
  proof cases
    case 2
    obtain t where last: "last (session_history W w s) = ?r\<lparr>mr_target := t\<rparr>"
      using session_is_last [OF assms(1) journal_okD [OF assms(2)] 2(5)] by (metis session_history_def)
    have "entry_ok (session_history W w s) (sealed ?b d sg)" for d sg
      using last 2(1-4) assms(4) by (auto simp: entry_ok_def keeps_authority_def terminal_step_def sealed_def)
    then show ?thesis
      using commit_preserves [OF assms(1) journal_okD [OF assms(2)] 2(5,6)] by (simp add: journal_ok_def session_history_def)
  qed (use assms(2) in simp)
qed

lemma release_preserves:
  assumes "lawful_wire W" and "journal_ok W w s" and "CompletePreparedRelease W ev w s = (w', s', e)"
  shows "journal_ok W w' s'"
proof (cases "PreparedReleaseAdmitted W w s = Inr True")
  case True
  obtain w1 s1 e1 where c: "Complete W ev w (s\<lparr>ss_release := True\<rparr>) StatusRecovered = (w1, s1, e1)"
    by (metis prod_cases3)
  have "journal_ok W w (s\<lparr>ss_release := True\<rparr>)"
    using assms(2) by (simp add: journal_ok_def)
  from Complete_preserves [OF assms(1) this c] prepared_release_admitted [OF True]
  have "journal_ok W w1 s1" by (simp add: session_history_def)
  with c True assms(3) show ?thesis by (auto simp: CompletePreparedRelease_def journal_ok_def)
next
  case False
  with assms(2,3) show ?thesis
    by (auto simp: CompletePreparedRelease_def split: sum.splits bool.splits)
qed

lemma acknowledge_preserves:
  assumes "lawful_wire W" and "journal_ok W w s" and "AcknowledgeRestoreAppGroupClose W ev w s g = (w', s', e)"
  shows "journal_ok W w' s'"
proof -
  let ?r = "ss_record s"
  let ?b = "\<lambda>t. ?r\<lparr>mr_restore := Some (t\<lparr>rs_closures := rs_closures t @
                        [\<lparr>cl_group_id = group_id (ag_binding g),
                          cl_completion_digest = group_digest (w_digests W) g\<rparr>]\<rparr>)\<rparr>
                        \<lparr>mr_sequence := mr_sequence ?r + 1, mr_updated_at := int (ev_now ev)\<rparr>"
  consider "w' = w" "s' = s"
    | t where "VerifyRestoreAppGroup W w s g True = None" "loadRecord W (wd_store w) = Inr (Some (?r, ss_digest s))"
        "mr_restore ?r = Some t" "commit_record W ev w s (?b t) = (w', s', e)"
    using assms(3) by (auto simp: AcknowledgeRestoreAppGroupClose_def Let_def split: option.splits sum.splits if_splits prod.splits)
  then show ?thesis
  proof cases
    case (2 t)
    have cur: "journal_current W w s (mr_phase ?r) = None"
      using 2(2) by (simp add: journal_current_def)
    obtain u where "last (session_history W w s) = ?r\<lparr>mr_target := u\<rparr>"
      using session_is_last [OF assms(1) journal_okD [OF assms(2)] cur] by (metis session_history_def)
    moreover have "mr_status ?r \<noteq> StatusActive"
      using 2(1-3) by (cases "mr_status ?r = StatusActive") (auto simp: VerifyRestoreAppGroup_def split: if_splits)
    moreover have "mr_kind ?r = KindRestoreActivation"
      using 2(2,3) by (auto simp: loadRecord_Some decodeRecord_Inr validateRecord_None validate_base_def validate_kind_def
          split: if_splits)
    ultimately have "entry_ok (session_history W w s) (sealed (?b t) d sg)" for d sg
      using 2(3) by (simp add: entry_ok_def keeps_authority_def terminal_step_def sealed_def)
    then show ?thesis
      using commit_preserves [OF assms(1) journal_okD [OF assms(2)] cur 2(4)] by (simp add: journal_ok_def session_history_def)
  qed (use assms(2) in simp)
qed

text \<open>A repaired pointer is on file, and so is the record that recovery returns.\<close>

lemma recover_preserves:
  assumes "lawful_wire W" and "store_ok W st" and "recoverLatestRecord W oa st op = (st', res)"
  shows "store_ok W st' \<and> (\<forall>r d. res = Inr (r, d) \<longrightarrow> filed W st' r d \<and> mr_operation_id r = op) \<and>
    (\<forall>r d. filed W st r d \<longrightarrow> filed W st' r d)"
proof -
  let ?R = "recoverLatestRecord W oa st op"
  consider (same) "st' = st" "\<forall>r d. res = Inr (r, d) \<longrightarrow> latestHistoryRecord W st op = Inr (r, d)"
    | (repaired) l d where "latestHistoryRecord W st op = Inr (l, d)" "st' = with_pointer W l st"
        "\<forall>r x. res = Inr (r, x) \<longrightarrow> (r, x) = (l, d)"
  proof (cases "latestHistoryRecord W st op")
    case (Inl x)
    then have "fst ?R = st" "\<forall>h. snd ?R \<noteq> Inr h"
      by (simp_all add: recoverLatestRecord_def)
    with assms(3) same show thesis by simp
  next
    case (Inr h)
    obtain l d where h: "h = (l, d)" by fastforce
    have "fst ?R = st \<or> fst ?R = with_pointer W l st"
      using Inr h by (simp add: recoverLatestRecord_def with_pointer_def Let_def split: sum.split bool.split)
    moreover have "\<forall>k. snd ?R = Inr k \<longrightarrow> k = (l, d)"
      using Inr h by (simp add: recoverLatestRecord_def Let_def split: sum.split bool.split)
    ultimately show thesis
      using assms(3) Inr h same repaired [of l d] by auto
  qed
  then show ?thesis
  proof cases
    case same
    with assms(2) latest_filed show ?thesis by blast
  next
    case repaired
    have f: "filed W st l d" "mr_operation_id l = op"
      using latest_filed [OF repaired(1)] by simp_all
    then have "store_ok W st'"
      unfolding repaired(2) by (intro store_ok_pointer [OF assms(1,2)]) (simp add: filed_def)
    with f repaired show ?thesis by (auto simp: filed_grows)
  qed
qed

lemma reconcile_preserves:
  assumes "lawful_wire W" and "journal_ok W w s" and "ReconcileForRecovery W ev w s = (w', s', e)"
  shows "journal_ok W w' s'"
proof (cases "\<not> ss_open s \<or> mr_operation_id (ss_record s) = []")
  case True
  with assms(2,3) show ?thesis by (auto simp: ReconcileForRecovery_def)
next
  case False
  obtain st res where r: "recoverLatestRecord W (ev_active ev) (wd_store w) (mr_operation_id (ss_record s)) = (st, res)"
    by fastforce
  note rp = recover_preserves [OF assms(1) journal_okD(1) [OF assms(2)] r]
  have stale: "session_filed W st s"
    using rp journal_okD(2) [OF assms(2)] unfolding session_filed_def by blast
  show ?thesis
  proof (cases res)
    case (Inl x)
    with False r assms(3) rp stale show ?thesis by (auto simp: ReconcileForRecovery_def journal_ok_def)
  next
    case (Inr h)
    obtain l d where h: "h = (l, d)" by fastforce
    with Inr rp have "filed W st l d" "mr_operation_id l = mr_operation_id (ss_record s)" by auto
    moreover have "w' = w\<lparr>wd_store := st\<rparr>" "s' = s\<lparr>ss_record := l, ss_digest := d\<rparr>"
      using False r assms(3) Inr h \<open>mr_operation_id l = mr_operation_id (ss_record s)\<close>
      by (auto simp: ReconcileForRecovery_def)
    ultimately show ?thesis
      using rp by (auto simp: journal_ok_def session_filed_def intro!: exI [of _ "mr_target l"])
  qed
qed

lemma join_call_preserves:
  assumes "lawful_wire W" and "journal_ok W w s" and "\<not> ss_retarget s"
    and "BeginJoin W F ev w s p q command version executable = (w', s', res)"
  shows "journal_ok W w' s'"
  using BeginJoin_preserves [OF assms(1) journal_okD [OF assms(2)] assms(4)] assms(3) by (simp add: journal_ok_def)

lemma forward_call_preserves:
  assumes "lawful_wire W" and "journal_ok W w s" and "\<not> ss_retarget s"
    and "BeginForwardRecoveryJoin W F ev w s p version executable = (w', s', res)"
  shows "journal_ok W w' s'"
proof (cases "\<not> forward_custody s p \<or> \<not> ForwardRecoveryPhase p")
  case True
  with assms(2,4) show ?thesis by (auto simp: BeginForwardRecoveryJoin_def)
next
  case False
  obtain w1 s1 r where b: "BeginJoin W F ev w (s\<lparr>ss_forward := True\<rparr>) p PhaseTargetApplyStarted ''apply'' version executable = (w1, s1, r)"
    by (metis prod_cases3)
  have "journal_ok W w1 s1"
    by (rule join_call_preserves [OF assms(1) _ _ b]) (use assms(2,3) in \<open>simp_all add: journal_ok_def\<close>)
  with False b assms(4) show ?thesis by (auto simp: BeginForwardRecoveryJoin_def journal_ok_def)
qed

lemma call_preserves:
  assumes "session_call W F w s w' s'" and "lawful_wire W" and "journal_ok W w s" and "\<not> ss_retarget s" and "\<not> ss_release s"
  shows "journal_ok W w' s'"
  using assms(1)
proof cases
  case (plain ev p q e)
  then have "transitionWithUpgradeData W ev w s p q None None None = (w', s', e)"
    by (simp add: Transition_def transition_def)
  from transition_preserves [OF assms(2) journal_okD [OF assms(3)] this] assms(4) show ?thesis
    by (simp add: journal_ok_def)
next
  case (retarget ev p tgt res)
  from retarget_preserves [OF assms(2) journal_okD [OF assms(3)] this] show ?thesis
    by (simp add: journal_ok_def)
next
  case (complete ev status e)
  from Complete_preserves [OF assms(2,3) this] assms(5) show ?thesis by simp
next
  case (restore ev p q n e)
  from restore_call_preserves [OF assms(2,3,4) this] show ?thesis .
next
  case (join ev p q command version executable res)
  from join_call_preserves [OF assms(2,3,4) this] show ?thesis .
next
  case (forward ev p version executable res)
  from forward_call_preserves [OF assms(2,3,4) this] show ?thesis .
next
  case (release ev e)
  from release_preserves [OF assms(2,3) this] show ?thesis .
next
  case (reconcile ev e)
  from reconcile_preserves [OF assms(2,3) this] show ?thesis .
next
  case (data_begin ev a e)
  from data_calls_preserve(1) [OF assms(2,3,4) this] show ?thesis .
next
  case (data ev p q m e)
  from data_calls_preserve(2) [OF assms(2,3,4) this] show ?thesis .
next
  case (controls ev cs e)
  from record_calls_preserve(1) [OF assms(2,3,4) this] show ?thesis .
next
  case (groups ev gs e)
  from record_calls_preserve(2) [OF assms(2,3,4) this] show ?thesis .
next
  case (acknowledge ev g e)
  from acknowledge_preserves [OF assms(2,3) this] show ?thesis .
qed

section \<open>What the calls leave alone\<close>

definition keeps_locks :: "'b world \<Rightarrow> session \<Rightarrow> 'b world \<Rightarrow> session \<Rightarrow> bool" where
  "keeps_locks w s w' s' \<longleftrightarrow>
     wd_lock w' = wd_lock w \<and> wd_claims w' = wd_claims w \<and> wd_claim_locks w' = wd_claim_locks w \<and>
     ss_open s' = ss_open s \<and> ss_lock s' = ss_lock s \<and> ss_claim_lock s' = ss_claim_lock s \<and>
     ss_retarget s' = ss_retarget s \<and> ss_release s' = ss_release s \<and>
     mr_operation_id (ss_record s') = mr_operation_id (ss_record s)"

lemma keeps_locks_refl [simp]: "keeps_locks w s w s"
  by (simp add: keeps_locks_def)

lemma persist_operation:
  "persistRecord W oh oa st r prev = (st', r', d, e) \<Longrightarrow> mr_operation_id r' = mr_operation_id r"
  by (auto simp: persistRecord_def Let_def split: option.splits if_splits prod.splits)

lemma commit_keeps_locks:
  assumes "commit_record W ev w s r = (w', s', e)" and "mr_operation_id r = mr_operation_id (ss_record s)"
  shows "keeps_locks w s w' s'"
proof -
  obtain st q dd x where p: "persistRecord W (ev_history ev) (ev_active ev) (wd_store w) r (ss_digest s) = (st, q, dd, x)"
    by (metis prod_cases4)
  from persist_operation [OF p] p assms show ?thesis
    by (cases "dd = []"; cases x) (auto simp: commit_record_def keeps_locks_def)
qed

lemma transition_keeps_locks:
  "transitionWithUpgradeData W ev w s p q join restore data = (w', s', e) \<Longrightarrow> keeps_locks w s w' s'"
  using commit_keeps_locks [of W ev w s _ w' s' e]
  by (auto simp: transitionWithUpgradeData_def split: option.splits)

lemma Complete_keeps_locks:
  assumes "Complete W ev w s status = (w', s', e)"
  shows "keeps_locks w s w' s'"
proof -
  consider "w' = w" "s' = s"
    | r where "commit_record W ev w s r = (w', s', e)" "mr_operation_id r = mr_operation_id (ss_record s)"
    using assms by (auto simp: Complete_def Let_def split: option.splits sum.splits if_splits)
  then show ?thesis by cases (use commit_keeps_locks in \<open>auto\<close>)
qed

text \<open>A call changes the locks in one way only: a new join hands the claim lock to its child.\<close>

definition hands_over :: "'b world \<Rightarrow> session \<Rightarrow> 'b world \<Rightarrow> session \<Rightarrow> bool" where
  "hands_over w s w' s' \<longleftrightarrow>
     wd_lock w' = wd_lock w \<and> wd_claims w' = wd_claims w \<and> ss_claim_lock s \<and> \<not> ss_claim_lock s' \<and>
     wd_claim_locks w' = remove1 (mr_operation_id (ss_record s)) (wd_claim_locks w) \<and>
     ss_open s' = ss_open s \<and> ss_lock s' = ss_lock s \<and>
     ss_retarget s' = ss_retarget s \<and> ss_release s' = ss_release s \<and>
     mr_operation_id (ss_record s') = mr_operation_id (ss_record s)"

lemma BeginJoin_locks:
  assumes "BeginJoin W F ev w s p q command version executable = (w', s', res)"
  shows "keeps_locks w s w' s' \<or> hands_over w s w' s'"
  using assms
proof (cases rule: BeginJoin_cases)
  case failed
  then show ?thesis using transition_keeps_locks by blast
next
  case handed
  from transition_keeps_locks [OF handed(1)] have "hands_over w s w' s'"
    unfolding handed(3,4) using handed(2) by (simp add: keeps_locks_def hands_over_def release_claim_def)
  then show ?thesis ..
qed simp

lemma locks_update [simp]:
  "keeps_locks w (s\<lparr>ss_forward := b\<rparr>) w' s' = keeps_locks w s w' s'"
  "keeps_locks w s w' (s'\<lparr>ss_forward := b\<rparr>) = keeps_locks w s w' s'"
  "hands_over w (s\<lparr>ss_forward := b\<rparr>) w' s' = hands_over w s w' s'"
  "hands_over w s w' (s'\<lparr>ss_forward := b\<rparr>) = hands_over w s w' s'"
  by (simp_all add: keeps_locks_def hands_over_def)

lemma BeginForwardRecoveryJoin_locks:
  assumes "BeginForwardRecoveryJoin W F ev w s p version executable = (w', s', res)"
  shows "keeps_locks w s w' s' \<or> hands_over w s w' s'"
proof (cases "\<not> forward_custody s p \<or> \<not> ForwardRecoveryPhase p")
  case True
  with assms have "w' = w \<and> s' = s"
    unfolding BeginForwardRecoveryJoin_def by simp
  then show ?thesis by simp
next
  case False
  obtain w1 s1 r where b: "BeginJoin W F ev w (s\<lparr>ss_forward := True\<rparr>) p PhaseTargetApplyStarted ''apply'' version executable = (w1, s1, r)"
    by (metis prod_cases3)
  have "w' = w1 \<and> s' = s1\<lparr>ss_forward := False\<rparr>"
    using assms False b unfolding BeginForwardRecoveryJoin_def by simp
  with BeginJoin_locks [OF b] show ?thesis by simp
qed

lemma retarget_locks:
  assumes "BeginForwardRetargetJoin W F ev w s p tgt = (w', s', res)" and "\<not> ss_retarget s"
  shows "keeps_locks w s w' s' \<or> hands_over w s w' s'"
proof (cases "retarget_refused W F w s p tgt")
  case (Some e)
  with assms show ?thesis by (simp add: BeginForwardRetargetJoin_def)
next
  case None
  obtain w1 s1 r where b: "BeginJoin W F ev w (retargeted s tgt) p PhaseTargetGenerateStarted ''generate''
      (ra_version tgt) (ra_executable tgt) = (w1, s1, r)"
    by (metis prod_cases3)
  have "w' = w1" "s' = restore_target s1 p (mr_target (ss_record s)) r"
    using assms(1) None b by (auto simp: BeginForwardRetargetJoin_def)
  with BeginJoin_locks [OF b] assms(2) show ?thesis
    by (auto simp: keeps_locks_def hands_over_def retargeted_def restore_target_def split: sum.split)
qed

lemma call_locks:
  assumes "session_call W F w s w' s'" and "\<not> ss_retarget s" and "\<not> ss_release s"
  shows "keeps_locks w s w' s' \<or> hands_over w s w' s'"
  using assms(1)
proof cases
  case plain
  then show ?thesis
    using transition_keeps_locks by (auto simp: Transition_def transition_def)
next
  case restore
  then show ?thesis
    using transition_keeps_locks by (auto simp: TransitionRestoreActivation_def transition_def split: option.splits if_splits)
next
  case join
  then show ?thesis by (rule BeginJoin_locks)
next
  case forward
  then show ?thesis by (rule BeginForwardRecoveryJoin_locks)
next
  case retarget
  then show ?thesis by (rule retarget_locks [OF _ assms(2)])
next
  case complete
  then show ?thesis using Complete_keeps_locks by blast
next
  case (release ev e)
  obtain w1 s1 e1 where c: "Complete W ev w (s\<lparr>ss_release := True\<rparr>) StatusRecovered = (w1, s1, e1)"
    by (metis prod_cases3)
  from Complete_keeps_locks [OF c] c release assms(3) show ?thesis
    by (auto simp: CompletePreparedRelease_def keeps_locks_def split: sum.splits bool.splits)
next
  case (reconcile ev e)
  then show ?thesis
    by (auto simp: ReconcileForRecovery_def keeps_locks_def split: prod.splits sum.splits if_splits)
next
  case data_begin
  then show ?thesis
    using transition_keeps_locks by (auto simp: BeginUpgradeDataActivation_def Let_def split: option.splits if_splits)
next
  case data
  then show ?thesis
    using transition_keeps_locks by (auto simp: TransitionUpgradeDataActivation_def split: option.splits if_splits)
next
  case controls
  then show ?thesis
    using transition_keeps_locks by (auto simp: RecordRestoreControls_def transition_def split: option.splits)
next
  case groups
  then show ?thesis
    using transition_keeps_locks by (auto simp: RecordRestoreAppGroups_def transition_def split: option.splits if_splits)
next
  case (acknowledge ev g e)
  then consider "w' = w" "s' = s"
    | r where "commit_record W ev w s r = (w', s', e)" "mr_operation_id r = mr_operation_id (ss_record s)"
    by (auto simp: AcknowledgeRestoreAppGroupClose_def Let_def split: option.splits sum.splits if_splits prod.splits)
  then show ?thesis by cases (use commit_keeps_locks in \<open>auto\<close>)
qed

section \<open>Processes around one journal\<close>

text \<open>
  One session at a time holds the lifecycle lock; children run beside it, each holding the claim
  lock of its operation. A process that stops closes its session: the kernel frees its locks. A
  process that stops in the middle of a write is a call whose write failed, followed by the close.
\<close>

datatype 'b system = System (the_world: "'b world") (the_session: "session option") (the_children: "string list")

inductive opens ::
  "'b wire \<Rightarrow> 'b world \<Rightarrow> 'b world \<times> (session_error + session) \<Rightarrow> bool" for W where
  upgrade: "opens W w (BeginUpgradePrepared W ev w prepare)"
| restoring: "BeginRestoreActivationPrepared W ev w operation request = (w', res, aborted) \<Longrightarrow> opens W w (w', res)"
| recovery: "opens W w (OpenRecovery W ev w op)"
| kind_recovery: "opens W w (openRecoveryForKind W ev w op k)"

inductive lifecycle_step :: "'b wire \<Rightarrow> session_funs \<Rightarrow> 'b system \<Rightarrow> 'b system \<Rightarrow> bool" for W F where
  opened: "opens W w (w', Inr s) \<Longrightarrow> lifecycle_step W F (System w m ch) (System w' (Some s) ch)"
| refused: "opens W w (w', Inl e) \<Longrightarrow> lifecycle_step W F (System w m ch) (System w' m ch)"
| called: "session_call W F w s w' s' \<Longrightarrow> lifecycle_step W F (System w (Some s) ch) (System w' (Some s') ch)"
| closed: "Close w s = (w', s') \<Longrightarrow> lifecycle_step W F (System w (Some s) ch) (System w' None ch)"
| child: "admitJoin W F ev w q = (w', Inr (Some op)) \<Longrightarrow> lifecycle_step W F (System w m ch) (System w' m (op # ch))"
| denied: "admitJoin W F ev w q = (w', Inl e) \<Longrightarrow> lifecycle_step W F (System w m ch) (System w' m ch)"
| child_ends: "op \<in> set ch \<Longrightarrow> lifecycle_step W F (System w m ch) (System (release_claim op w) m (remove1 op ch))"

definition initial_world :: "'b world" where
  "initial_world = \<lparr>wd_store = \<lparr>js_active = None, js_dirs = []\<rparr>, wd_lock = False, wd_claim_locks = [], wd_claims = []\<rparr>"

inductive reachable :: "'b wire \<Rightarrow> session_funs \<Rightarrow> 'b system \<Rightarrow> bool" for W F where
  start: "reachable W F (System initial_world None [])"
| step: "reachable W F x \<Longrightarrow> lifecycle_step W F x y \<Longrightarrow> reachable W F y"

definition session_held :: "'b world \<Rightarrow> session \<Rightarrow> string list \<Rightarrow> bool" where
  "session_held w s ch \<longleftrightarrow> ss_open s \<and> ss_lock s \<and> \<not> ss_retarget s \<and> \<not> ss_release s \<and>
     (ss_claim_lock s \<longrightarrow> mr_operation_id (ss_record s) \<in> set (wd_claim_locks w) \<and>
        mr_operation_id (ss_record s) \<notin> set ch)"

definition claims_held :: "'b world \<Rightarrow> session option \<Rightarrow> string list \<Rightarrow> bool" where
  "claims_held w m ch \<longleftrightarrow> distinct (wd_claim_locks w) \<and> distinct ch \<and>
     set (wd_claim_locks w) = set ch \<union> (case m of None \<Rightarrow> {}
       | Some s \<Rightarrow> if ss_claim_lock s then {mr_operation_id (ss_record s)} else {})"

definition system_ok :: "'b wire \<Rightarrow> 'b system \<Rightarrow> bool" where
  "system_ok W x = (case x of System w m ch \<Rightarrow>
     store_ok W (wd_store w) \<and> (wd_lock w \<longleftrightarrow> m \<noteq> None) \<and> claims_held w m ch \<and>
     (case m of None \<Rightarrow> True | Some s \<Rightarrow> session_filed W (wd_store w) s \<and> session_held w s ch))"

section \<open>The invariant of the system\<close>

text \<open>What opening a session guarantees, whether it succeeds or not.\<close>

definition opened_ok :: "'b wire \<Rightarrow> 'b world \<Rightarrow> 'b world \<Rightarrow> session_error + session \<Rightarrow> bool" where
  "opened_ok W w w' res \<longleftrightarrow> store_ok W (wd_store w') \<and> (wd_lock w \<longrightarrow> w' = w) \<and>
     (case res of
        Inl _ \<Rightarrow> wd_lock w' = wd_lock w \<and> wd_claim_locks w' = wd_claim_locks w
      | Inr s \<Rightarrow> \<not> wd_lock w \<and> wd_lock w' \<and> session_filed W (wd_store w') s \<and>
          ss_open s \<and> ss_lock s \<and> \<not> ss_retarget s \<and> \<not> ss_release s \<and>
          (if ss_claim_lock s
           then mr_operation_id (ss_record s) \<notin> set (wd_claim_locks w) \<and>
                wd_claim_locks w' = mr_operation_id (ss_record s) # wd_claim_locks w
           else wd_claim_locks w' = wd_claim_locks w))"

definition new_session :: session where
  "new_session =
     \<lparr>ss_open = True, ss_lock = True, ss_claim_lock = False, ss_record = zero_record, ss_digest = [],
      ss_claimant_gone = False, ss_forward = False, ss_retarget = False, ss_release = False\<rparr>"

lemma openLocked_simp: "openLocked w = (if wd_lock w then Inl LockHeld else Inr (w\<lparr>wd_lock := True\<rparr>, new_session))"
  by (simp add: openLocked_def new_session_def)

lemma Close_new: "\<not> ss_claim_lock s \<Longrightarrow> ss_lock s \<Longrightarrow> fst (Close w s) = w\<lparr>wd_lock := False\<rparr>"
  by (simp add: Close_def Let_def)

lemma new_session_simps [simp]:
  "ss_open new_session" "ss_lock new_session" "\<not> ss_claim_lock new_session" "\<not> ss_retarget new_session"
  "\<not> ss_release new_session"
  by (simp_all add: new_session_def)

lemma origin_sealed [simp]: "origin_ok (sealed r p sg) = origin_ok r"
  by (simp add: origin_ok_def)

lemma persist_ok_digest:
  "persistRecord W oh oa st r prev = (st', r', d, None) \<Longrightarrow> d \<noteq> []"
  by (auto simp: persistRecord_def digest_of_def sha256_prefix_def Let_def split: option.splits if_splits prod.splits)

lemma first_record_ok:
  assumes "lawful_wire W" and "store_ok W (wd_store w)" and "origin_ok r" and "first_record W ev w s r = (w', s', e)"
  shows "store_ok W (wd_store w') \<and> w' = w\<lparr>wd_store := wd_store w'\<rparr> \<and> (e = None \<longrightarrow> session_filed W (wd_store w') s') \<and>
    s' = s\<lparr>ss_record := ss_record s', ss_digest := ss_digest s'\<rparr>"
proof -
  obtain st q d x where p: "persistRecord W (ev_history ev) (ev_active ev) (wd_store w) r [] = (st, q, d, x)"
    by (metis prod_cases4)
  show ?thesis
  proof (cases "first_refused W ev w r")
    case (Some y)
    with assms(2,4) show ?thesis by (auto simp: first_record_def)
  next
    case None
    note ok = this
    then have m: "may_follow W (wd_store w) (sealed r [] sg)" for sg
      using assms(3) by (simp add: may_follow_def first_refused_def)
    show ?thesis
    proof (cases x)
      case (Some y)
      with ok p assms(4) have "w' = w\<lparr>wd_store := st\<rparr>" "s' = s" "e = Some (Fault y)"
        by (auto simp: first_record_def)
      with persist_preserves(1) [OF assms(1,2) m p] show ?thesis by simp
    next
      case None
      with ok p assms(4) have eq: "w' = w\<lparr>wd_store := st\<rparr>" "s' = s\<lparr>ss_record := q, ss_digest := d\<rparr>"
        by (auto simp: first_record_def)
      have "filed W st q d"
        using persist_preserves(2) [OF assms(1,2) m p] persist_ok_digest p None by blast
      then have "session_filed W st s'"
        unfolding session_filed_def eq(2) by (intro impI exI [of _ "mr_target q"]) simp
      with persist_preserves(1) [OF assms(1,2) m p] eq show ?thesis by simp
    qed
  qed
qed

lemma begin_prepared_ok:
  assumes "lawful_wire W" and "store_ok W (wd_store w)" and "\<And>r. request = Some r \<Longrightarrow> origin_ok r"
    and "begin_prepared W ev w refused request = (w', res)"
  shows "opened_ok W w w' res"
proof (cases "wd_lock w")
  case True
  with assms(2,4) show ?thesis by (auto simp: begin_prepared_def openLocked_simp opened_ok_def)
next
  case False
  let ?w = "w\<lparr>wd_lock := True\<rparr>"
  have undo: "opened_ok W w (w\<lparr>wd_store := st, wd_lock := False\<rparr>) (Inl e)" if "store_ok W st" for st e
    using that False by (simp add: opened_ok_def)
  have same: "opened_ok W w (w\<lparr>wd_lock := False\<rparr>) (Inl e)" for e
    using assms(2) False by (simp add: opened_ok_def)
  show ?thesis
  proof (cases "no_active_mutation W ?w = None \<and> ev_settled ev \<and> refused = None \<and> request \<noteq> None")
    case denied: False
    have "w' = w\<lparr>wd_lock := False\<rparr> \<and> (\<exists>e. res = Inl e)"
      using assms(4) False denied
      by (auto simp: begin_prepared_def openLocked_simp Close_new Let_def split: option.splits if_splits prod.splits)
    with same show ?thesis by auto
  next
    case True
    then obtain r where r: "request = Some r" by blast
    obtain w2 s2 e where f: "first_record W ev ?w new_session r = (w2, s2, e)"
      by (metis prod_cases3)
    note fr = first_record_ok [OF assms(1) _ assms(3) [OF r] f]
    show ?thesis
    proof (cases e)
      case (Some x)
      with assms(4) False True r f have "w' = w2\<lparr>wd_lock := False\<rparr>" "res = Inl x"
        by (auto simp: begin_prepared_def openLocked_simp Close_new)
      moreover have "w2\<lparr>wd_lock := False\<rparr> = w\<lparr>wd_store := wd_store w2, wd_lock := False\<rparr>"
        using fr assms(2) by (metis (no_types, lifting) world.select_convs(1) world.surjective world.update_convs(1,2))
      ultimately show ?thesis
        using undo fr assms(2) by simp
    next
      case None
      with assms(4) False True r f have eq: "w' = w2" "res = Inr s2"
        by (auto simp: begin_prepared_def openLocked_simp)
      have fr': "store_ok W (wd_store w2)" "w2 = ?w\<lparr>wd_store := wd_store w2\<rparr>" "session_filed W (wd_store w2) s2"
        "s2 = new_session\<lparr>ss_record := ss_record s2, ss_digest := ss_digest s2\<rparr>"
        using fr assms(2) None by simp_all
      have "wd_lock w2" "wd_claim_locks w2 = wd_claim_locks w"
        by (subst fr'(2), simp)+
      moreover have "ss_open s2" "ss_lock s2" "\<not> ss_claim_lock s2" "\<not> ss_retarget s2" "\<not> ss_release s2"
        by (subst fr'(4), simp)+
      ultimately show ?thesis
        using fr' False eq by (simp add: opened_ok_def)
    qed
  qed
qed

lemma origin_records:
  "origin_ok (upgrade_first_record W now q)" "origin_ok (restore_first_record W now a)"
  by (simp_all add: origin_ok_def upgrade_first_record_def restore_first_record_def)

lemma recovered_record_ok:
  assumes "lawful_wire W" and "store_ok W (wd_store w)" and "recovered_record W ev w op = (w', res)"
  shows "store_ok W (wd_store w') \<and> w' = w\<lparr>wd_store := wd_store w'\<rparr> \<and>
    (\<forall>r d. res = Inr (r, d) \<longrightarrow> filed W (wd_store w') r d)"
proof -
  obtain st x where r: "recoverLatestRecord W (ev_active ev) (wd_store w) op = (st, x)" by fastforce
  consider c d where "loadRecord W (wd_store w) = Inr (Some (c, d))" "w' = w" "res = Inr (c, d)"
    | "w' = w\<lparr>wd_store := st\<rparr>" "res = faulty x"
    using assms(3) r by (auto simp: recovered_record_def Let_def split: sum.splits option.splits if_splits)
  then show ?thesis
  proof cases
    case 1
    with loaded_is_last(2) [OF assms(1,2)] assms(2) show ?thesis by simp
  next
    case 2
    with recover_preserves [OF assms(1,2) r] show ?thesis
      by (cases x) (auto simp: faulty_def)
  qed
qed

lemma acquire_cases:
  assumes "acquireRecoveryClaimLock ev w s = (w', s', e)" and "\<not> ss_claim_lock s"
  obtains (none) "w' = w" "s' = s" "e \<noteq> None"
    | (taken) g where "mr_operation_id (ss_record s) \<notin> set (wd_claim_locks w)"
        "w' = w\<lparr>wd_claim_locks := mr_operation_id (ss_record s) # wd_claim_locks w\<rparr>"
        "s' = s\<lparr>ss_claim_lock := True, ss_claimant_gone := g\<rparr>"
proof (cases "\<not> ss_open s \<or> mr_operation_id (ss_record s) = [] \<or> mr_operation_id (ss_record s) \<in> set (wd_claim_locks w)")
  case True
  with assms(1) have "w' = w" "s' = s" "e \<noteq> None"
    by (auto simp: acquireRecoveryClaimLock_def Let_def split: if_splits)
  then show thesis by (rule none)
next
  case False
  let ?w = "w\<lparr>wd_claim_locks := mr_operation_id (ss_record s) # wd_claim_locks w\<rparr>"
  have "w' = ?w \<and> (s' = s\<lparr>ss_claim_lock := True\<rparr> \<or> s' = s\<lparr>ss_claim_lock := True, ss_claimant_gone := True\<rparr>)"
    using assms(1) False by (auto simp: acquireRecoveryClaimLock_def Let_def split: if_splits option.splits)
  moreover have "s\<lparr>ss_claim_lock := True\<rparr> = s\<lparr>ss_claim_lock := True, ss_claimant_gone := ss_claimant_gone s\<rparr>"
    by simp
  ultimately show thesis
    using False taken by metis
qed

lemma OpenRecovery_ok:
  assumes "lawful_wire W" and "store_ok W (wd_store w)" and "OpenRecovery W ev w op = (w', res)"
  shows "opened_ok W w w' res"
proof (cases "wd_lock w")
  case True
  with assms(2,3) show ?thesis by (auto simp: OpenRecovery_def openLocked_simp opened_ok_def)
next
  case False
  let ?w = "w\<lparr>wd_lock := True\<rparr>"
  obtain w2 r where rr: "recovered_record W ev ?w op = (w2, r)" by fastforce
  note ok = recovered_record_ok [OF assms(1) _ rr]
  have w2: "store_ok W (wd_store w2)" "w2 = ?w\<lparr>wd_store := wd_store w2\<rparr>"
    using ok assms(2) by simp_all
  have c2: "wd_claim_locks w2 = wd_claim_locks w" "wd_lock w2"
    by (subst w2(2), simp)+
  have undo: "opened_ok W w (w2\<lparr>wd_lock := False\<rparr>) (Inl e)" for e
    using w2(1) c2 False by (simp add: opened_ok_def)
  show ?thesis
  proof (cases r)
    case (Inl e)
    with assms(3) False rr have "w' = w2\<lparr>wd_lock := False\<rparr>" "res = Inl e"
      by (auto simp: OpenRecovery_def openLocked_simp Close_new)
    with undo show ?thesis by simp
  next
    case (Inr h)
    obtain c d where h: "h = (c, d)" by fastforce
    with Inr ok assms(2) have f: "filed W (wd_store w2) c d" by simp
    let ?s = "new_session\<lparr>ss_record := c, ss_digest := d\<rparr>"
    show ?thesis
    proof (cases "mr_operation_id c = op")
      case other: False
      with assms(3) False rr Inr h have "w' = w2\<lparr>wd_lock := False\<rparr> \<and> res = Inl NotExactMutation"
        by (simp add: OpenRecovery_def openLocked_simp Close_new)
      with undo show ?thesis by simp
    next
      case True
      obtain w3 s3 e where a: "acquireRecoveryClaimLock ev w2 ?s = (w3, s3, e)"
        by (metis prod_cases3)
      have eq: "(w', res) = (case e of Some x \<Rightarrow> (fst (Close w3 s3), Inl x) | None \<Rightarrow> (w3, Inr s3))"
        using assms(3) False rr Inr h True a by (simp add: OpenRecovery_def openLocked_simp split: option.split)
      have "\<not> ss_claim_lock ?s" by simp
      with a show ?thesis
      proof (cases rule: acquire_cases)
        case none
        with eq undo show ?thesis by (cases e) (auto simp: Close_new)
      next
        case (taken g)
        show ?thesis
        proof (cases e)
          case (Some x)
          then have "w' = fst (Close w3 s3)" "res = Inl x"
            using eq by simp_all
          moreover have "fst (Close w3 s3) = w2\<lparr>wd_lock := False\<rparr>"
            using taken by (simp add: Close_def Let_def release_claim_def)
          ultimately show ?thesis using undo by simp
        next
          case None
          with eq have "w' = w3" "res = Inr s3" by simp_all
          with taken w2(1) c2 f False show ?thesis
            by (auto simp: opened_ok_def session_filed_def intro!: exI [of _ "mr_target c"])
        qed
      qed
    qed
  qed
qed

lemma kind_recovery_ok:
  assumes "lawful_wire W" and "store_ok W (wd_store w)" and "openRecoveryForKind W ev w op k = (w', res)"
  shows "opened_ok W w w' res"
proof -
  obtain w1 r where o: "OpenRecovery W ev w op = (w1, r)" by fastforce
  note ok = OpenRecovery_ok [OF assms(1,2) o]
  show ?thesis
  proof (cases r)
    case (Inl e)
    with o assms(3) ok show ?thesis by (simp add: openRecoveryForKind_def)
  next
    case (Inr s)
    show ?thesis
    proof (cases "mr_kind (ss_record s) = k")
      case True
      with Inr o assms(3) ok show ?thesis by (simp add: openRecoveryForKind_def)
    next
      case False
      with Inr o assms(3) have "w' = fst (Close w1 s)" "res = Inl KindDiffers"
        by (simp_all add: openRecoveryForKind_def)
      then show ?thesis
        using ok Inr by (cases "ss_claim_lock s") (auto simp: opened_ok_def Close_def Let_def release_claim_def)
    qed
  qed
qed

lemma opens_ok:
  assumes "opens W w (w', res)" and "lawful_wire W" and "store_ok W (wd_store w)"
  shows "opened_ok W w w' res"
  using assms(1)
proof cases
  case (upgrade ev prepare)
  then have b: "begin_prepared W ev w None (map_option (upgrade_first_record W (ev_now ev)) prepare) = (w', res)"
    by (simp add: BeginUpgradePrepared_def)
  show ?thesis
    by (rule begin_prepared_ok [OF assms(2,3) _ b]) (auto simp: origin_records)
next
  case (restoring ev operation request aborted)
  then have b: "begin_prepared W ev w (check (operation \<noteq> [] \<and> \<not> operationPattern operation) OperationIDUnusable)
      (map_option (restore_first_record W (ev_now ev)) request) = (w', res)"
    by (auto simp: BeginRestoreActivationPrepared_def split: prod.splits sum.splits)
  show ?thesis
    by (rule begin_prepared_ok [OF assms(2,3) _ b]) (auto simp: origin_records)
next
  case (recovery ev op)
  then show ?thesis using OpenRecovery_ok [OF assms(2,3)] by metis
next
  case (kind_recovery ev op k)
  then show ?thesis using kind_recovery_ok [OF assms(2,3)] by metis
qed

lemma initial_ok: "system_ok W (System initial_world None [])"
proof -
  have "latestHistoryRecord W (wd_store initial_world) op = Inl HistoryMissing" for op
    by (simp add: initial_world_def latestHistoryRecord_def)
  then show ?thesis
    by (simp add: system_ok_def claims_held_def store_ok_def) (simp add: initial_world_def)
qed

lemma opened_step_ok:
  assumes "opened_ok W w w' res" and "system_ok W (System w m ch)"
  shows "case res of Inl e \<Rightarrow> system_ok W (System w' m ch) | Inr s \<Rightarrow> system_ok W (System w' (Some s) ch)"
proof (cases res)
  case (Inl e)
  show ?thesis
  proof (cases m)
    case None
    with Inl assms show ?thesis by (auto simp: opened_ok_def system_ok_def claims_held_def)
  next
    case (Some s)
    then have "w' = w"
      using assms by (simp add: opened_ok_def system_ok_def)
    with Inl assms(2) show ?thesis by simp
  qed
next
  case (Inr s)
  then have "m = None"
    using assms by (auto simp: opened_ok_def system_ok_def)
  with Inr assms show ?thesis
    by (auto simp: opened_ok_def system_ok_def claims_held_def session_held_def split: if_splits)
qed

lemma call_step_ok:
  assumes "session_call W F w s w' s'" and "lawful_wire W" and "system_ok W (System w (Some s) ch)"
  shows "system_ok W (System w' (Some s') ch)"
proof -
  have s: "journal_ok W w s" "\<not> ss_retarget s" "\<not> ss_release s" "session_held w s ch" "claims_held w (Some s) ch" "wd_lock w"
    using assms(3) by (auto simp: system_ok_def journal_ok_def session_held_def)
  have "journal_ok W w' s'"
    by (rule call_preserves [OF assms(1,2) s(1-3)])
  moreover have "session_held w' s' ch \<and> claims_held w' (Some s') ch \<and> wd_lock w'"
    using call_locks [OF assms(1) s(2,3)]
  proof
    assume "keeps_locks w s w' s'"
    with s show ?thesis by (simp add: keeps_locks_def session_held_def claims_held_def)
  next
    assume "hands_over w s w' s'"
    with s show ?thesis
      by (auto simp: hands_over_def session_held_def claims_held_def distinct_remove1 set_remove1_eq)
  qed
  ultimately show ?thesis
    by (simp add: system_ok_def journal_ok_def)
qed

lemma close_step_ok:
  assumes "Close w s = (w', s')" and "system_ok W (System w (Some s) ch)"
  shows "system_ok W (System w' None ch)"
proof -
  let ?op = "mr_operation_id (ss_record s)"
  have s: "store_ok W (wd_store w)" "claims_held w (Some s) ch" "session_held w s ch"
    using assms(2) by (simp_all add: system_ok_def)
  have w': "w' = (if ss_claim_lock s then release_claim ?op w else w)\<lparr>wd_lock := False\<rparr>"
    using assms(1) s(3) by (auto simp: Close_def Let_def session_held_def)
  have "set (wd_claim_locks w') = set ch" "distinct (wd_claim_locks w')" "distinct ch"
    using s(2,3) unfolding w'
    by (auto simp: claims_held_def session_held_def release_claim_def set_remove1_eq distinct_remove1 split: if_splits)
  moreover have "wd_store w' = wd_store w" "\<not> wd_lock w'"
    by (simp_all add: w')
  ultimately show ?thesis
    using s(1) by (simp add: system_ok_def claims_held_def)
qed

lemma write_claim_locks:
  "wd_store (fst (write_claim out path c w)) = wd_store w" "wd_lock (fst (write_claim out path c w)) = wd_lock w"
  "wd_claim_locks (fst (write_claim out path c w)) = wd_claim_locks w"
  by (simp_all add: write_claim_def Let_def)

lemma claimJoin_locks:
  assumes "claimJoin W ev w r d = (w1, e)"
  shows "wd_store w1 = wd_store w \<and> wd_lock w1 = wd_lock w \<and>
      (if e = None then mr_operation_id r \<notin> set (wd_claim_locks w) \<and> wd_claim_locks w1 = mr_operation_id r # wd_claim_locks w
       else wd_claim_locks w1 = wd_claim_locks w)"
proof (cases "claim_refused W w r d")
  case (Some x)
  with assms have "w1 = w" "e = Some x" by (simp_all add: claimJoin_def)
  then show ?thesis by simp
next
  case None
  then obtain j path where j: "mr_join r = Some j" "joinClaimPath r = Some path" "mr_operation_id r \<notin> set (wd_claim_locks w)"
    by (auto simp: claim_refused_def joinClaimPath_def)
  obtain w2 b where b: "write_claim (ev_claim ev) path (claim_of ev r j) w = (w2, b)" by fastforce
  with write_claim_locks [of "ev_claim ev" path "claim_of ev r j" w] j None assms show ?thesis
    by (cases b) (auto simp: claimJoin_def)
qed

lemma admitJoin_locks:
  assumes "admitJoin W F ev w q = (w', res)"
  shows "wd_store w' = wd_store w \<and> wd_lock w' = wd_lock w \<and>
    (case res of
       Inr (Some op) \<Rightarrow> op \<notin> set (wd_claim_locks w) \<and> wd_claim_locks w' = op # wd_claim_locks w
     | _ \<Rightarrow> wd_claim_locks w' = wd_claim_locks w)"
proof (cases "blank_request q")
  case True
  with assms show ?thesis by (auto simp: admitJoin_def split: option.split)
next
  case False
  show ?thesis
  proof (cases "validate_join_request W F w q")
    case (Inl e)
    with False assms show ?thesis by (auto simp: admitJoin_def)
  next
    case (Inr h)
    obtain r d where h: "h = (r, d)" by fastforce
    obtain w1 e where c: "claimJoin W ev w r d = (w1, e)" by fastforce
    with claimJoin_locks [OF c] False Inr h assms show ?thesis
      by (cases e) (auto simp: admitJoin_def)
  qed
qed

lemma step_ok:
  assumes "lifecycle_step W F x y" and "lawful_wire W" and "system_ok W x"
  shows "system_ok W y"
  using assms(1)
proof cases
  case (opened w w' s m ch)
  with opened_step_ok [OF opens_ok [OF opened(3) assms(2)]] assms(3) show ?thesis
    by (auto simp: system_ok_def)
next
  case (refused w w' e m ch)
  with opened_step_ok [OF opens_ok [OF refused(3) assms(2)]] assms(3) show ?thesis
    by (auto simp: system_ok_def)
next
  case (called w s w' s' ch)
  with call_step_ok [OF called(3) assms(2)] assms(3) show ?thesis by simp
next
  case (closed w s w' s' ch)
  with close_step_ok assms(3) show ?thesis by metis
next
  case (child ev w q w' op m ch)
  with admitJoin_locks [OF child(3)] assms(3) show ?thesis
    by (cases m) (auto simp: system_ok_def claims_held_def session_held_def split: if_splits)
next
  case (denied ev w q w' e m ch)
  with admitJoin_locks [OF denied(3)] assms(3) show ?thesis
    by (cases m) (auto simp: system_ok_def claims_held_def session_held_def)
next
  case (child_ends op ch w m)
  with assms(3) show ?thesis
    by (cases m) (auto simp: system_ok_def claims_held_def session_held_def release_claim_def set_remove1_eq split: if_splits)
qed

interpretation lifecycle: started_steps "\<lambda>x. lawful_wire W \<longrightarrow> system_ok W x" "lifecycle_step W F"
  "System initial_world None []" for W F
  by unfold_locales (auto intro: initial_ok step_ok)

lemma reachable_steps: "reachable W F x \<Longrightarrow> (lifecycle_step W F)\<^sup>*\<^sup>* (System initial_world None []) x"
  by (induction rule: reachable.induct) auto

lemma reachable_ok: "reachable W F x \<Longrightarrow> lawful_wire W \<Longrightarrow> system_ok W x"
  using lifecycle.reached_valid reachable_steps by blast

section \<open>Properties of the system\<close>

text \<open>
  C1. Every journal the processes can produce holds authorised histories only, whatever writes fail
  and whenever a process stops: a readable history starts with a prepared, active record; each
  further record keeps operation, kind, Owner, checkpoint, prior release and restore authority,
  and is an admitted phase transition, a record inside a restore phase, a forward step after target
  Apply was admitted, or a terminal record; prior Generate is restarted only while no record of the
  history is past it.
\<close>

theorem reachable_history_authorised:
  assumes "reachable W F (System w m ch)" and "lawful_wire W"
    and "latestHistoryRecord W (wd_store w) op = Inr h"
  shows "authorised (map fst (history_of W (wd_store w) op)) \<and> last (history_of W (wd_store w) op) = h"
  using reachable_ok [OF assms(1,2)] store_okD(2) [OF _ assms(3)] history_last(2) [OF assms(3)]
  by (simp add: system_ok_def)

text \<open>
  C5. Mutual exclusion: the lifecycle lock is held exactly while a session is open, each operation
  has at most one joined child, and a session that holds the claim lock of its operation, as every
  recovery does, never runs beside a child of that operation.
\<close>

theorem recovery_excludes_children:
  assumes "reachable W F (System w m ch)" and "lawful_wire W"
  shows "(wd_lock w \<longleftrightarrow> m \<noteq> None) \<and> distinct ch \<and> set ch \<subseteq> set (wd_claim_locks w) \<and>
    (\<forall>s. m = Some s \<longrightarrow> ss_claim_lock s \<longrightarrow> mr_operation_id (ss_record s) \<notin> set ch)"
  using reachable_ok [OF assms] by (auto simp: system_ok_def claims_held_def session_held_def)

text \<open>
  C24. The active pointer cannot be replayed: in every reachable journal the record that loads is
  the last of its history, and no other operation blocks mutations. No property of SHA-256 is used.
\<close>

theorem loaded_record_is_latest:
  assumes "reachable W F (System w m ch)" and "lawful_wire W"
    and "loadRecord W (wd_store w) = Inr (Some (c, d))"
  shows "last (history_of W (wd_store w) (mr_operation_id c)) = (c, d) \<and>
    (\<forall>op r x. latestHistoryRecord W (wd_store w) op = Inr (r, x) \<longrightarrow> recordBlocksMutation r \<longrightarrow>
       recordBlocksMutation c \<and> op = mr_operation_id c)"
proof
  have ok: "store_ok W (wd_store w)"
    using reachable_ok [OF assms(1,2)] by (simp add: system_ok_def)
  show "last (history_of W (wd_store w) (mr_operation_id c)) = (c, d)"
    by (rule loaded_is_last(1) [OF assms(2) ok assms(3)])
  show "\<forall>op r x. latestHistoryRecord W (wd_store w) op = Inr (r, x) \<longrightarrow> recordBlocksMutation r \<longrightarrow>
       recordBlocksMutation c \<and> op = mr_operation_id c"
  proof (intro allI impI)
    fix op r x assume l: "latestHistoryRecord W (wd_store w) op = Inr (r, x)" "recordBlocksMutation r"
    have "op \<in> operations (wd_store w)" "head_of W (wd_store w) op = Some (op, x)"
      using latest_operation [OF l(1)] l by (simp_all add: head_of_def)
    with loaded_dir(3) [OF assms(3)] show "recordBlocksMutation c \<and> op = mr_operation_id c"
      by (cases "recordBlocksMutation c") (auto simp: heads_fit_def heads_Nil heads_single)
  qed
qed

end
