(* ===== verification/LifecycleOutcomes.thy ===== *)
theory LifecycleOutcomes
  imports LifecycleSystem
begin

text \<open>
  What the outcomes of the lifecycle journal mean: what a succeeded and a recovered operation went
  through, when an operation begins and a transition succeeds, that a join is used once, and two
  faults of the code. The concrete upgrade at the end runs through all of it.
\<close>

section \<open>What an authorised history contains\<close>

text \<open>
  The forward phases of a kind, in order. A record in one of them is preceded, in its history, by
  a record in each phase before it.
\<close>

definition forward_chain :: "mutation_kind \<Rightarrow> phase list" where
  "forward_chain k =
     (if k = KindRestoreActivation
      then [PhaseQuiesceStarted, PhaseQuiesced, PhaseRollbackCopyStarted, PhaseRollbackCopySucceeded, PhaseRollbackReady,
            PhaseActivationCopyStarted, PhaseActivationCopySucceeded, PhaseActivationSucceeded, PhaseRuntimeStartStarted,
            PhaseRuntimeStartSucceeded, PhaseVerifyStarted, PhaseVerifySucceeded, PhaseCommitStarted, PhaseCommitSucceeded]
      else [PhaseTargetGenerateStarted, PhaseTargetGenerateSucceeded, PhaseTargetApplyStarted, PhaseTargetApplySucceeded,
            PhaseTargetVerifyStarted, PhaseTargetVerifySucceeded, PhaseCommitStarted, PhaseCommitSucceeded])"

fun position :: "phase list \<Rightarrow> phase \<Rightarrow> nat option" where
  "position [] p = None"
| "position (x # xs) p = (if x = p then Some 0 else map_option Suc (position xs p))"

definition advances :: "mutation_kind \<Rightarrow> phase \<Rightarrow> phase \<Rightarrow> bool" where
  "advances k p q \<longleftrightarrow>
     (case position (forward_chain k) q of
        None \<Rightarrow> True
      | Some 0 \<Rightarrow> True
      | Some (Suc n) \<Rightarrow> (case position (forward_chain k) p of None \<Rightarrow> False | Some m \<Rightarrow> n \<le> m))"

lemma table_advances: "edges_all KindRestoreActivation (advances KindRestoreActivation)"
  "edges_all KindUpgrade (advances KindUpgrade)"
  by (simp_all add: edges_all_def edges_def table_edges_def restore_table_def upgrade_table_def advances_def forward_chain_def)

lemma step_advances:
  assumes "entry_ok pre b" and "mr_kind (last pre) \<in> {KindUpgrade, KindRestoreActivation}"
  shows "advances (mr_kind b) (mr_phase (last pre)) (mr_phase b) \<or> mr_phase b = mr_phase (last pre)"
proof -
  let ?a = "last pre"
  have k: "mr_kind b = mr_kind ?a"
    using assms(1) by (simp add: entry_ok_def keeps_authority_def)
  from assms(1) consider "allowedTransition (mr_kind ?a) (mr_phase ?a) (mr_phase b)"
    | "mr_phase b = mr_phase ?a"
    | "mr_kind ?a = KindUpgrade" "mr_phase b = PhaseTargetGenerateStarted"
    | "mr_kind ?a = KindUpgrade" "ForwardRecoveryPhase (mr_phase ?a)" "mr_phase b = PhaseTargetApplyStarted"
    by (auto simp: entry_ok_def phase_step_def terminal_step_def)
  then show ?thesis
  proof cases
    case 1
    then show ?thesis
      using assms(2) k edges_allD [OF table_advances(1)] edges_allD [OF table_advances(2)] by auto
  next
    case 3
    then show ?thesis using k by (simp add: advances_def forward_chain_def)
  next
    case 4
    then show ?thesis
      using k by (auto simp: advances_def forward_chain_def ForwardRecoveryPhase_def)
  qed simp
qed

lemma position_nth: "position xs p = Some n \<Longrightarrow> n < length xs \<and> xs ! n = p"
  by (induction xs arbitrary: n) (auto split: if_splits)

lemma authorised_kind:
  assumes "authorised rs" and "i < length rs"
  shows "mr_kind (rs ! i) = mr_kind (hd rs) \<and> mr_operation_id (rs ! i) = mr_operation_id (hd rs) \<and>
    mr_owner_ref (rs ! i) = mr_owner_ref (hd rs) \<and> mr_checkpoint (rs ! i) = mr_checkpoint (hd rs) \<and>
    mr_prior (rs ! i) = mr_prior (hd rs)"
  using assms(2)
proof (induction i)
  case 0
  then show ?case by (simp add: hd_conv_nth)
next
  case (Suc i)
  then have "entry_ok (take (Suc i) rs) (rs ! Suc i)"
    using assms(1) by (simp add: authorised_def)
  moreover have "last (take (Suc i) rs) = rs ! i"
    using Suc.prems by (simp add: take_Suc_conv_app_nth)
  ultimately show ?case
    using Suc by (simp add: entry_ok_def keeps_authority_def)
qed

lemma forward_phases_passed:
  assumes "authorised rs" and "mr_kind (hd rs) \<in> {KindUpgrade, KindRestoreActivation}" and "i < length rs"
    and "position (forward_chain (mr_kind (hd rs))) (mr_phase (rs ! i)) = Some n" and "m \<le> n"
  shows "\<exists>j \<le> i. position (forward_chain (mr_kind (hd rs))) (mr_phase (rs ! j)) = Some m"
  using assms(3-5)
proof (induction i arbitrary: n)
  case 0
  then have "mr_phase (rs ! 0) = PhasePrepared"
    using assms(1) by (auto simp: authorised_def origin_ok_def hd_conv_nth)
  with 0 show ?case by (auto simp: forward_chain_def split: if_splits)
next
  case (Suc i)
  have last: "last (take (Suc i) rs) = rs ! i"
    using Suc.prems(1) by (simp add: take_Suc_conv_app_nth)
  have e: "entry_ok (take (Suc i) rs) (rs ! Suc i)"
    using assms(1) Suc.prems(1) by (simp add: authorised_def)
  note k = authorised_kind [OF assms(1), of i] authorised_kind [OF assms(1), of "Suc i"]
  have "advances (mr_kind (hd rs)) (mr_phase (rs ! i)) (mr_phase (rs ! Suc i)) \<or> mr_phase (rs ! Suc i) = mr_phase (rs ! i)"
    using step_advances [OF e] k Suc.prems(1) assms(2) last by simp
  then show ?case
  proof
    assume "mr_phase (rs ! Suc i) = mr_phase (rs ! i)"
    with Suc.IH [of n] Suc.prems show ?thesis by (auto intro: le_SucI)
  next
    assume a: "advances (mr_kind (hd rs)) (mr_phase (rs ! i)) (mr_phase (rs ! Suc i))"
    show ?thesis
    proof (cases "m = n")
      case True
      with Suc.prems(2) show ?thesis by blast
    next
      case False
      then obtain n' where n: "n = Suc n'" "m \<le> n'"
        using Suc.prems(3) by (cases n) auto
      with a Suc.prems(2) obtain l where "position (forward_chain (mr_kind (hd rs))) (mr_phase (rs ! i)) = Some l" "n' \<le> l"
        by (auto simp: advances_def split: option.splits)
      with Suc.IH [of l] Suc.prems(1) n(2) show ?thesis by (auto intro: le_SucI)
    qed
  qed
qed

lemma terminal_phase:
  assumes "authorised rs" and "i < length rs"
  shows "(mr_status (rs ! i) = StatusSucceeded \<longrightarrow> mr_phase (rs ! i) = PhaseCommitSucceeded) \<and>
    (mr_status (rs ! i) \<in> {StatusActive, StatusSucceeded, StatusRecovered}) \<and>
    (mr_status (rs ! i) = StatusRecovered \<longrightarrow> mr_phase (rs ! i) = PhaseRollbackSucceeded \<or>
       (mr_phase (rs ! i) = PhasePrepared \<and> (\<forall>j \<le> i. mr_phase (rs ! j) = PhasePrepared)))"
  using assms(2)
proof (induction i)
  case 0
  then show ?case
    using assms(1) by (auto simp: authorised_def origin_ok_def hd_conv_nth)
next
  case (Suc i)
  have last: "last (take (Suc i) rs) = rs ! i"
    using Suc.prems(1) by (simp add: take_Suc_conv_app_nth)
  have e: "entry_ok (take (Suc i) rs) (rs ! Suc i)"
    using assms(1) Suc.prems(1) by (simp add: authorised_def)
  have mem: "rs ! j \<in> set (take (Suc i) rs)" if "j \<le> i" for j
    using that Suc.prems by (auto simp: in_set_conv_nth intro!: exI [of _ j])
  from e last consider "mr_status (rs ! Suc i) = StatusActive"
    | "mr_phase (rs ! Suc i) = mr_phase (rs ! i)" "mr_status (rs ! Suc i) = StatusSucceeded" "mr_phase (rs ! i) = PhaseCommitSucceeded"
    | "mr_phase (rs ! Suc i) = mr_phase (rs ! i)" "mr_status (rs ! Suc i) = StatusRecovered" "mr_phase (rs ! i) = PhaseRollbackSucceeded"
    | "mr_phase (rs ! Suc i) = mr_phase (rs ! i)" "mr_status (rs ! Suc i) = StatusRecovered"
        "\<forall>r \<in> set (take (Suc i) rs). mr_phase r = PhasePrepared"
    | "mr_phase (rs ! Suc i) = mr_phase (rs ! i)" "mr_status (rs ! Suc i) = mr_status (rs ! i)"
    by (auto simp: entry_ok_def phase_step_def terminal_step_def)
  then show ?case
  proof cases
    case 4
    then have "\<forall>j \<le> i. mr_phase (rs ! j) = PhasePrepared"
      using mem by blast
    with 4 show ?thesis by (simp add: le_Suc_eq)
  next
    case 5
    with Suc show ?thesis by (auto simp: le_Suc_eq)
  qed simp_all
qed

lemma succeeded_passed_chain:
  assumes "authorised rs" and "rs \<noteq> []" and "mr_kind (last rs) \<in> {KindUpgrade, KindRestoreActivation}"
    and "mr_status (last rs) = StatusSucceeded" and "p \<in> set (forward_chain (mr_kind (last rs)))"
  shows "\<exists>r \<in> set rs. mr_phase r = p"
proof -
  let ?i = "length rs - 1"
  have last: "last rs = rs ! ?i" and i: "?i < length rs"
    using assms(2) by (simp_all add: last_conv_nth)
  have k: "mr_kind (last rs) = mr_kind (hd rs)"
    using authorised_kind [OF assms(1) i] last by simp
  have c: "mr_phase (rs ! ?i) = PhaseCommitSucceeded"
    using terminal_phase [OF assms(1) i] assms(4) last by simp
  define n where "n = length (forward_chain (mr_kind (hd rs))) - 1"
  have pos: "position (forward_chain (mr_kind (hd rs))) (mr_phase (rs ! ?i)) = Some n"
    unfolding c n_def by (simp add: forward_chain_def)
  have "\<exists>m \<le> n. position (forward_chain (mr_kind (hd rs))) p = Some m"
    using assms(5) unfolding k n_def by (auto simp: forward_chain_def split: if_splits)
  then obtain m where m: "m \<le> n" "position (forward_chain (mr_kind (hd rs))) p = Some m" by blast
  obtain j where j: "j \<le> ?i" "position (forward_chain (mr_kind (hd rs))) (mr_phase (rs ! j)) = Some m"
    using forward_phases_passed [OF assms(1) _ i pos m(1)] assms(3) k by auto
  have "mr_phase (rs ! j) = p"
    using position_nth [OF j(2)] position_nth [OF m(2)] by simp
  moreover have "rs ! j \<in> set rs"
    using j(1) i by simp
  ultimately show ?thesis by blast
qed

lemma recovered_from:
  assumes "authorised rs" and "i < length rs" and "mr_phase (rs ! i) = PhaseRollbackSucceeded"
  shows "\<exists>r \<in> set rs. mr_phase r \<in> {PhaseRollbackVerifyDone, PhaseRollbackPriorRuntimeVerifySucceeded}"
  using assms(2,3)
proof (induction i)
  case 0
  then show ?case using assms(1) by (auto simp: authorised_def origin_ok_def hd_conv_nth)
next
  case (Suc i)
  have last: "last (take (Suc i) rs) = rs ! i"
    using Suc.prems(1) by (simp add: take_Suc_conv_app_nth)
  have e: "entry_ok (take (Suc i) rs) (rs ! Suc i)"
    using assms(1) Suc.prems(1) by (simp add: authorised_def)
  have pred: "edges_all k (\<lambda>p q. q = PhaseRollbackSucceeded \<longrightarrow>
      p \<in> {PhaseRollbackVerifyDone, PhaseRollbackPriorRuntimeVerifySucceeded})" for k
  proof (rule kind_cases2 [of k])
    have "edges_all KindUpgrade (\<lambda>p q. q = PhaseRollbackSucceeded \<longrightarrow>
        p \<in> {PhaseRollbackVerifyDone, PhaseRollbackPriorRuntimeVerifySucceeded})"
      by (simp add: edges_all_def edges_def table_edges_def upgrade_table_def)
    then show ?thesis if "k \<noteq> KindRestoreActivation"
      by (simp add: edges_kind [OF that])
  qed (simp add: edges_all_def edges_def table_edges_def restore_table_def)
  from e last Suc.prems consider "allowedTransition (mr_kind (rs ! i)) (mr_phase (rs ! i)) (mr_phase (rs ! Suc i))"
    | "mr_phase (rs ! i) = PhaseRollbackSucceeded"
    by (auto simp: entry_ok_def phase_step_def terminal_step_def)
  then show ?case
  proof cases
    case 1
    from edges_allD [OF pred this] Suc.prems have "mr_phase (rs ! i) \<in> {PhaseRollbackVerifyDone, PhaseRollbackPriorRuntimeVerifySucceeded}"
      by simp
    with Suc.prems(1) show ?thesis by (meson Suc_lessD nth_mem)
  next
    case 2
    with Suc show ?thesis by simp
  qed
qed

section \<open>Outcomes of operations\<close>

lemma valid_kind: "validateRecord K r = None \<Longrightarrow> mr_kind r \<in> {KindUpgrade, KindRestoreActivation}"
  by (auto simp: validateRecord_None validate_base_def)

lemma in_set_upto_last: "x \<in> set xs \<Longrightarrow> \<exists>j \<le> length xs - 1. x = xs ! j"
  by (auto simp: in_set_conv_nth) (metis Suc_pred less_Suc_eq_le length_greater_0_conv list.size(3) not_less_zero)

text \<open>
  C16. An operation that the journal calls succeeded went through every forward phase of its kind:
  the history of a succeeded upgrade holds a record of target Generate, Apply and Verify, started
  and succeeded, and of the commit; that of a succeeded restore a record of quiescence, of the
  complete rollback set before any activation copy, of the activation, the runtime start and the
  verification. Forward recovery and retargeting of an upgrade skip none of them.
\<close>

theorem succeeded_operation_passed_all_phases:
  assumes "reachable W F (System w m ch)" and "lawful_wire W"
    and "latestHistoryRecord W (wd_store w) op = Inr (r, d)" and "mr_status r = StatusSucceeded"
  shows "\<forall>p \<in> set (forward_chain (mr_kind r)). \<exists>e \<in> set (history_of W (wd_store w) op). mr_phase (fst e) = p"
proof
  fix p assume p: "p \<in> set (forward_chain (mr_kind r))"
  let ?rs = "map fst (history_of W (wd_store w) op)"
  have a: "authorised ?rs" "?rs \<noteq> []" "last ?rs = r"
    using reachable_ok [OF assms(1,2)] store_okD(2) [OF _ assms(3)] history_last [OF assms(3)]
    by (auto simp: system_ok_def last_map)
  have "mr_kind r \<in> {KindUpgrade, KindRestoreActivation}"
    using latest_operation [OF assms(3)] valid_kind by (auto simp: decodeRecord_Inr)
  from succeeded_passed_chain [OF a(1,2)] this assms(4) p a(3) show
    "\<exists>e \<in> set (history_of W (wd_store w) op). mr_phase (fst e) = p" by auto
qed

text \<open>
  C27. An operation that the journal calls recovered either never left its prepared phase, or a
  record of its history says that the prior runtime was verified.
\<close>

theorem recovered_operation_verified_prior:
  assumes "reachable W F (System w m ch)" and "lawful_wire W"
    and "latestHistoryRecord W (wd_store w) op = Inr (r, d)" and "mr_status r = StatusRecovered"
  shows "(\<forall>e \<in> set (history_of W (wd_store w) op). mr_phase (fst e) = PhasePrepared) \<or>
    (\<exists>e \<in> set (history_of W (wd_store w) op).
       mr_phase (fst e) \<in> {PhaseRollbackVerifyDone, PhaseRollbackPriorRuntimeVerifySucceeded})"
proof -
  let ?rs = "map fst (history_of W (wd_store w) op)" and ?n = "length (history_of W (wd_store w) op) - 1"
  have a: "authorised ?rs" "?rs \<noteq> []" "last ?rs = r"
    using reachable_ok [OF assms(1,2)] store_okD(2) [OF _ assms(3)] history_last [OF assms(3)]
    by (auto simp: system_ok_def last_map)
  then have n: "?n < length ?rs" "?rs ! ?n = r"
    by (auto simp: last_conv_nth)
  have "mr_status (?rs ! ?n) = StatusRecovered"
    using n(2) assms(4) by simp
  with terminal_phase [OF a(1) n(1)] consider "mr_phase (?rs ! ?n) = PhaseRollbackSucceeded"
    | "\<forall>j \<le> ?n. mr_phase (?rs ! j) = PhasePrepared"
    by blast
  then show ?thesis
  proof cases
    case 1
    from recovered_from [OF a(1) n(1) 1] show ?thesis by auto
  next
    case 2
    then have "\<forall>e \<in> set ?rs. mr_phase e = PhasePrepared"
      using in_set_upto_last [of _ ?rs] by force
    then show ?thesis by simp
  qed
qed

text \<open>
  A transition that reports success is durable and exact: it was authorised for the current
  record, the journal then loads to the record of the session, which is valid, one sequence number
  after the old one and chained to its digest.
\<close>

theorem transition_success_is_durable:
  assumes "lawful_wire W" and "transitionWithUpgradeData W ev w s p q join restore data = (w', s', None)"
  shows "transition_authorized (w_digests W) s p q join restore \<and>
    loadRecord W (wd_store w') = Inr (Some (ss_record s', ss_digest s')) \<and>
    validateRecord (w_digests W) (ss_record s') = None \<and> mr_phase (ss_record s') = q \<and>
    mr_sequence (ss_record s') = mr_sequence (ss_record s) + 1 \<and> mr_previous (ss_record s') = ss_digest s \<and>
    mr_join (ss_record s') = join"
proof -
  let ?b = "transition_record (ss_record s) q join restore data (ev_now ev)"
  have g: "transition_guard W w s p q join restore data = None" "commit_record W ev w s ?b = (w', s', None)"
    using assms(2) by (auto simp: transitionWithUpgradeData_def split: option.splits)
  obtain c where c: "loadRecord W (wd_store w) = Inr (Some (c, ss_digest s))"
    "mr_operation_id c = mr_operation_id (ss_record s)" "mr_sequence c = mr_sequence (ss_record s)"
    using g(1) by (auto simp: transition_guard_def journal_current_None)
  note ok = commit_ok [OF assms(1) g(2) c(1)]
  obtain sg where "ss_record s' = sealed ?b (ss_digest s) sg"
    using ok(2) c by auto
  with ok(1,3) c g(1) show ?thesis by (auto simp: transition_guard_def)
qed

lemma begin_prepared_success:
  assumes "begin_prepared W ev w refused request = (w', Inr s)"
  obtains r st where "\<not> wd_lock w" "no_active_mutation W (w\<lparr>wd_lock := True\<rparr>) = None" "refused = None" "request = Some r"
    "first_refused W ev (w\<lparr>wd_lock := True\<rparr>) r = None"
    "persistRecord W (ev_history ev) (ev_active ev) (wd_store w) r [] = (st, ss_record s, ss_digest s, None)"
    "w' = w\<lparr>wd_lock := True, wd_store := st\<rparr>"
proof -
  have free: "\<not> wd_lock w"
    using assms by (auto simp: begin_prepared_def openLocked_simp split: if_splits)
  have c: "no_active_mutation W (w\<lparr>wd_lock := True\<rparr>) = None" "ev_settled ev" "refused = None"
    using assms free by (auto simp: begin_prepared_def openLocked_simp Let_def split: option.splits if_splits)
  obtain r where r: "request = Some r"
    using assms free c by (cases request) (auto simp: begin_prepared_def openLocked_simp)
  have f: "first_record W ev (w\<lparr>wd_lock := True\<rparr>) new_session r = (w', s, None)"
    using assms free c r by (auto simp: begin_prepared_def openLocked_simp split: prod.splits option.splits)
  then have n: "first_refused W ev (w\<lparr>wd_lock := True\<rparr>) r = None"
    by (auto simp: first_record_def split: option.splits)
  obtain st q d x where p: "persistRecord W (ev_history ev) (ev_active ev) (wd_store w) r [] = (st, q, d, x)"
    by (metis prod_cases4)
  then have "x = None"
    using f n by (cases x) (auto simp: first_record_def)
  moreover from this have "w' = w\<lparr>wd_lock := True, wd_store := st\<rparr>" "s = new_session\<lparr>ss_record := q, ss_digest := d\<rparr>"
    using f n p by (auto simp: first_record_def)
  ultimately show thesis
    using that [OF free c(1,3) r n, of st] p by simp
qed

lemma first_write_loads:
  assumes "lawful_wire W" and "mr_operation_id r \<notin> operations st"
    and "persistRecord W oh oa st r [] = (st', r', d, None)"
  shows "loadRecord W st' = Inr (Some (r', d)) \<and> (\<exists>sg. r' = sealed r [] sg)"
proof -
  have "map_of (dir_of st (mr_operation_id r)) (entry_name W (sealed r [] sg)) = None" for sg
    using assms(2) by (auto simp: dir_of_def operations_map split: option.split)
  with assms(3) obtain sg where "r' = sealed r [] sg" "js_active st' = Some (w_encode W r')" "reread W st' r' d = None"
    by (cases rule: persist_shape) auto
  with reread_loads [OF assms(1)] show ?thesis by blast
qed

text \<open>
  An operation begins only on an idle host: a begin that succeeds found the lifecycle lock free
  and no operation that blocks mutations, uses a fresh operation ID, and leaves a journal that
  loads to its first record, with the lock held. A restore begin that fails under the lock has run
  the caller's cleanup, and frees the lock.
\<close>

theorem begin_requires_idle:
  assumes "lawful_wire W" and "BeginUpgradePrepared W ev w prepare = (w', Inr s)"
  shows "\<not> wd_lock w \<and> wd_lock w' \<and>
    (\<forall>c d. loadRecord W (wd_store w) = Inr (Some (c, d)) \<longrightarrow> \<not> recordBlocksMutation c) \<and>
    (\<exists>q. prepare = Some q \<and> bq_operation_id q \<notin> operations (wd_store w) \<and> ev_owner ev = Some (bq_owner_ref q) \<and>
       mr_operation_id (ss_record s) = bq_operation_id q \<and> mr_checkpoint (ss_record s) = bq_checkpoint q) \<and>
    loadRecord W (wd_store w') = Inr (Some (ss_record s, ss_digest s)) \<and>
    mr_phase (ss_record s) = PhasePrepared \<and> mr_sequence (ss_record s) = 1 \<and> mr_previous (ss_record s) = []"
proof -
  have b: "begin_prepared W ev w None (map_option (upgrade_first_record W (ev_now ev)) prepare) = (w', Inr s)"
    using assms(2) by (simp add: BeginUpgradePrepared_def)
  from b obtain r st where r: "\<not> wd_lock w" "no_active_mutation W (w\<lparr>wd_lock := True\<rparr>) = None"
    "map_option (upgrade_first_record W (ev_now ev)) prepare = Some r" "first_refused W ev (w\<lparr>wd_lock := True\<rparr>) r = None"
    "persistRecord W (ev_history ev) (ev_active ev) (wd_store w) r [] = (st, ss_record s, ss_digest s, None)"
    "w' = w\<lparr>wd_lock := True, wd_store := st\<rparr>"
    by (rule begin_prepared_success)
  then obtain q where q: "prepare = Some q" "r = upgrade_first_record W (ev_now ev) q" by auto
  have f: "mr_operation_id r \<notin> operations (wd_store w)" "ev_owner ev = Some (mr_owner_ref r)"
    using r(4) by (auto simp: first_refused_def split: option.splits)
  note l = first_write_loads [OF assms(1) f(1) r(5)]
  have "\<forall>c d. loadRecord W (wd_store w) = Inr (Some (c, d)) \<longrightarrow> \<not> recordBlocksMutation c"
    using r(2) by (auto simp: no_active_mutation_def)
  with l r(1,6) q f show ?thesis
    by (auto simp: upgrade_first_record_def)
qed

theorem failed_restore_begin_cleans_up:
  assumes "BeginRestoreActivationPrepared W ev w operation prepare = (w', Inl e, cleaned)"
  shows "wd_lock w' = wd_lock w \<and> wd_claim_locks w' = wd_claim_locks w \<and> (cleaned \<longleftrightarrow> e \<noteq> LockHeld \<or> \<not> wd_lock w)"
proof -
  let ?refused = "check (operation \<noteq> [] \<and> \<not> operationPattern operation) OperationIDUnusable"
  let ?request = "map_option (restore_first_record W (ev_now ev)) prepare"
  have b: "begin_prepared W ev w ?refused ?request = (w', Inl e)" and c: "cleaned = (\<not> wd_lock w)"
    using assms by (auto simp: BeginRestoreActivationPrepared_def split: prod.splits sum.splits)
  show ?thesis
  proof (cases "wd_lock w")
    case True
    with b c show ?thesis by (auto simp: begin_prepared_def openLocked_simp)
  next
    case False
    let ?w = "w\<lparr>wd_lock := True\<rparr>"
    have fr: "wd_claim_locks w2 = wd_claim_locks w" if "first_record W ev ?w new_session r = (w2, s2, x)" for r w2 s2 x
      using that by (auto simp: first_record_def split: option.splits prod.splits)
    show ?thesis
      using b c False fr
      by (auto simp: begin_prepared_def openLocked_simp Close_new Let_def split: option.splits if_splits prod.splits)
  qed
qed

text \<open>
  An ordinary mutation runs only on an idle host and under the lifecycle lock: if the lock is
  held, an operation blocks mutations or runtime controls are unsettled, the callback does not run
  and nothing changes; otherwise it runs exactly once with the lock held, which is then freed.
\<close>

theorem ordinary_mutation_needs_idle:
  assumes "blank_request q"
  shows "if wd_lock w \<or> no_active_mutation W w \<noteq> None \<or> \<not> ev_settled ev
    then \<exists>e. \<forall>execute. withIdleMutation W F ev w q execute = (w, Some e)
    else withIdleMutation W F ev w q execute =
      (case execute (w\<lparr>wd_lock := True\<rparr>) of (w', e) \<Rightarrow> (w'\<lparr>wd_lock := False\<rparr>, e))"
proof -
  have idle: "no_active_mutation W (w\<lparr>wd_lock := True\<rparr>) = no_active_mutation W w"
    by (simp add: no_active_mutation_def)
  have undo: "w\<lparr>wd_lock := False\<rparr> = w" if "\<not> wd_lock w"
    using that by simp
  show ?thesis
    using assms idle undo
    by (auto simp: withIdleMutation_def openLocked_simp Close_new split: option.split prod.split)
qed

section \<open>Operations that succeed\<close>

text \<open>A host is idle when its journal loads and nothing blocks.\<close>

lemma idle_heads:
  assumes "no_active_mutation W w = None"
  shows "activeHistoryHeads W (wd_store w) = Inr []"
proof -
  consider "loadRecord W (wd_store w) = Inr None"
    | r d where "loadRecord W (wd_store w) = Inr (Some (r, d))" "\<not> recordBlocksMutation r"
    using assms by (auto simp: no_active_mutation_def split: sum.splits option.splits)
  then show ?thesis
  proof cases
    case 1
    then show ?thesis by (cases "activeHistoryHeads W (wd_store w)") (auto simp: loadRecord_def split: option.splits sum.splits if_splits prod.splits)
  next
    case 2
    with loaded_dir(3) [OF 2(1)] show ?thesis by (simp add: heads_fit_def)
  qed
qed

lemma origin_loads:
  assumes "lawful_wire W" and "activeHistoryHeads W st = Inr []" and "mr_operation_id r \<notin> operations st"
    and "readable W r [] sg" and "mr_sequence r = 1"
  defines "q \<equiv> sealed r [] sg"
  shows "loadRecord W (with_pointer W q (with_entry W q (make_dir (mr_operation_id r) st))) =
    Inr (Some (q, digest_of W (w_encode W q)))"
proof -
  let ?op = "mr_operation_id r" and ?d = "digest_of W (w_encode W q)"
  let ?st = "with_entry W q (make_dir ?op st)"
  have op: "mr_operation_id q = ?op" "mr_sequence q = 1" "mr_previous q = []"
    using assms(5) by (simp_all add: q_def)
  have dec: "decodeRecord W (w_encode W q) = Inr (q, ?d)"
    using decode_sealed [OF assms(1,4)] by (simp add: q_def)
  have "dir_of st ?op = []"
    using assms(3) by (auto simp: dir_of_def operations_map split: option.split)
  then have lat: "latestHistoryRecord W ?st ?op = Inr (q, ?d)"
    using dec op by (simp add: latestHistoryRecord_def with_entry_def history_name_not_temp check_history_def)
  have oth: "latestHistoryRecord W ?st x = latestHistoryRecord W st x" if "x \<noteq> ?op" for x
    using that op by (intro latest_frame) (simp add: with_entry_def)
  have ops: "operations ?st = insert ?op (operations st)"
    using op by simp
  have heads: "histories_ok W st" "\<forall>x \<in> operations st. head_of W st x = None"
    using assms(2) by (simp_all add: heads_Nil)
  have "histories_ok W ?st"
    unfolding histories_ok_def ops
  proof
    fix x assume "x \<in> insert ?op (operations st)"
    then show "\<exists>h. latestHistoryRecord W ?st x = Inr h"
      using lat oth heads(1) by (cases "x = ?op") (auto simp: histories_ok_def)
  qed
  moreover have "\<forall>x \<in> operations st. x \<noteq> ?op \<longrightarrow> head_of W ?st x = None"
    using heads(2) oth by (simp add: head_of_def)
  moreover have "head_of W ?st ?op = (if recordBlocksMutation q then Some (?op, ?d) else None)"
    by (simp add: head_of_def lat)
  ultimately have "heads_fit W ?st q ?d"
    using op unfolding heads_fit_def heads_single heads_Nil ops
    by (cases "recordBlocksMutation q") auto
  with dec lat op show ?thesis
    by (simp add: loadRecord_Some with_pointer_def)
qed

lemma written_settles [simp]:
  "settleJournalWrite Written x y = None" "takes_effect Written" "no_replace b Written = (if b then WriteError False True None else Written)"
  "leftover Written = None"
  by (simp_all add: settleJournalWrite_def takes_effect_def no_replace_def)

text \<open>A write whose two file operations succeed, and whose result loads, succeeds.\<close>

lemma persist_succeeds:
  assumes "previous_unchanged W st prev = None" and "readable W r prev sg"
    and "map_of (dir_of st (mr_operation_id r)) (entry_name W (sealed r prev sg)) = None"
  defines "q \<equiv> sealed r prev sg"
  defines "st' \<equiv> with_pointer W q (with_entry W q (make_dir (mr_operation_id r) st))"
  assumes "loadRecord W st' = Inr (Some (q, digest_of W (w_encode W q)))"
  shows "persistRecord W Written Written st r prev = (st', q, digest_of W (w_encode W q), None)"
proof -
  let ?op = "mr_operation_id r" and ?raw = "w_encode W q" and ?m = "make_dir (mr_operation_id r) st"
  let ?d = "digest_of W ?raw"
  have fresh: "map_of (dir_of ?m ?op) (history_name (mr_sequence r) ?d) = None"
    using assms(3) by (simp add: q_def entry_name_def)
  have wh: "write_history W Written ?op (history_name (mr_sequence r) ?d) ?raw ?m = (with_entry W q ?m, None)"
    unfolding write_history_def using fresh by (simp add: Let_def with_entry_def q_def)
  have wa: "write_active Written ?raw (with_entry W q ?m) = (st', None)"
    by (simp add: write_active_def st'_def with_pointer_def Let_def)
  have "reread W st' q ?d = None"
    using assms(6) by (simp add: reread_def)
  then show ?thesis
    using assms(1,2) wh wa unfolding readable_def q_def sealed_def
    by (simp add: persistRecord_def Let_def)
qed

lemma begin_upgrade_succeeds:
  assumes "lawful_wire W" and "\<not> wd_lock w" and "no_active_mutation W w = None" and "ev_settled ev"
    and "operationPattern (bq_operation_id q)" and "bq_operation_id q \<notin> operations (wd_store w)"
    and "ev_owner ev = Some (bq_owner_ref q)" and "ev_history ev = Written" and "ev_active ev = Written"
    and "readable W (upgrade_first_record W (ev_now ev) q) [] sg"
    and "validateRecord (w_digests W) (upgrade_first_record W (ev_now ev) q) = None"
  shows "\<exists>w' s. BeginUpgrade W ev w q = (w', Inr s) \<and> wd_lock w' \<and> ss_open s \<and> ss_lock s \<and> \<not> ss_claim_lock s \<and>
    wd_claim_locks w' = wd_claim_locks w \<and> wd_claims w' = wd_claims w \<and>
    ss_record s = sealed (upgrade_first_record W (ev_now ev) q) [] sg \<and>
    loadRecord W (wd_store w') = Inr (Some (ss_record s, ss_digest s)) \<and>
    length (dir_of (wd_store w') (bq_operation_id q)) = 1"
proof -
  let ?r = "upgrade_first_record W (ev_now ev) q" and ?op = "bq_operation_id q"
  let ?q = "sealed ?r [] sg"
  let ?st = "with_pointer W ?q (with_entry W ?q (make_dir ?op (wd_store w)))"
  have r: "mr_operation_id ?r = ?op" "mr_sequence ?r = 1" "mr_owner_ref ?r = bq_owner_ref q"
    by (simp_all add: upgrade_first_record_def)
  have dir: "dir_of (wd_store w) ?op = []"
    using assms(6) by (auto simp: dir_of_def operations_map split: option.split)
  have loads: "loadRecord W ?st = Inr (Some (?q, digest_of W (w_encode W ?q)))"
    using origin_loads [OF assms(1) idle_heads [OF assms(3)] _ assms(10)] assms(6) r by simp
  have p: "persistRecord W Written Written (wd_store w) ?r [] = (?st, ?q, digest_of W (w_encode W ?q), None)"
    using persist_succeeds [OF _ assms(10), of "wd_store w"] loads dir r by (simp add: previous_unchanged_def)
  have fr: "first_refused W ev (w\<lparr>wd_lock := True\<rparr>) ?r = None"
    using assms(5-7,11) r by (simp add: first_refused_def)
  have idle: "no_active_mutation W (w\<lparr>wd_lock := True\<rparr>) = None"
    using assms(3) by (simp add: no_active_mutation_def)
  let ?s = "new_session\<lparr>ss_record := ?q, ss_digest := digest_of W (w_encode W ?q)\<rparr>"
  have "first_record W ev (w\<lparr>wd_lock := True\<rparr>) new_session ?r = (w\<lparr>wd_lock := True, wd_store := ?st\<rparr>, ?s, None)"
    using fr p assms(8,9) by (simp add: first_record_def)
  then have "BeginUpgrade W ev w q = (w\<lparr>wd_lock := True, wd_store := ?st\<rparr>, Inr ?s)"
    using assms(2,4) idle by (simp add: BeginUpgrade_def BeginUpgradePrepared_def begin_prepared_def openLocked_simp)
  with loads dir r show ?thesis
    by (auto simp: new_session_def)
qed

text \<open>
  An upgrade can begin: on an idle host whose lifecycle lock is free, with a fresh operation ID,
  the Owner's custody and a valid first record, and with two writes that succeed, \<open>BeginUpgrade\<close>
  returns the session of that record, which the journal then loads.
\<close>

theorem idle_host_begins_upgrade:
  assumes "lawful_wire W" and "\<not> wd_lock w" and "no_active_mutation W w = None" and "ev_settled ev"
    and "operationPattern (bq_operation_id q)" and "bq_operation_id q \<notin> operations (wd_store w)"
    and "ev_owner ev = Some (bq_owner_ref q)" and "ev_history ev = Written" and "ev_active ev = Written"
    and "readable W (upgrade_first_record W (ev_now ev) q) [] sg"
    and "validateRecord (w_digests W) (upgrade_first_record W (ev_now ev) q) = None"
  shows "\<exists>w' s. BeginUpgrade W ev w q = (w', Inr s) \<and> wd_lock w' \<and> ss_open s \<and> ss_lock s \<and> \<not> ss_claim_lock s \<and>
    wd_claim_locks w' = wd_claim_locks w \<and> wd_claims w' = wd_claims w \<and>
    ss_record s = sealed (upgrade_first_record W (ev_now ev) q) [] sg \<and>
    loadRecord W (wd_store w') = Inr (Some (ss_record s, ss_digest s)) \<and>
    length (dir_of (wd_store w') (bq_operation_id q)) = 1"
  by (rule begin_upgrade_succeeds [OF assms])

lemma commit_succeeds:
  assumes "lawful_wire W" and "loadRecord W (wd_store w) = Inr (Some (ss_record s, ss_digest s))"
    and "recordBlocksMutation (ss_record s)" and "mr_operation_id b = mr_operation_id (ss_record s)"
    and "mr_sequence b = mr_sequence (ss_record s) + 1" and "readable W b (ss_digest s) sg"
    and "length (dir_of (wd_store w) (mr_operation_id (ss_record s))) < 256"
    and "ev_history ev = Written" and "ev_active ev = Written"
  defines "r \<equiv> sealed b (ss_digest s) sg"
  shows "\<exists>st. commit_record W ev w s b =
      (w\<lparr>wd_store := st\<rparr>, s\<lparr>ss_record := r, ss_digest := digest_of W (w_encode W r)\<rparr>, None) \<and>
    loadRecord W st = Inr (Some (r, digest_of W (w_encode W r))) \<and>
    length (dir_of st (mr_operation_id r)) = length (dir_of (wd_store w) (mr_operation_id (ss_record s))) + 1"
proof -
  let ?op = "mr_operation_id (ss_record s)" and ?st = "with_pointer W r (with_entry W r (wd_store w))"
  have su: "successor_of W (wd_store w) (ss_record s) (ss_digest s) b sg"
    using assms(2-7) by (simp add: successor_of_def)
  have mk: "make_dir ?op (wd_store w) = wd_store w"
    using loaded_dir(1) [OF assms(2)] by (simp add: make_dir_def set_dir_same)
  have loads: "loadRecord W ?st = Inr (Some (r, digest_of W (w_encode W r)))"
    using with_pointer_loads [OF assms(1) su] by (simp add: r_def)
  have pu: "previous_unchanged W (wd_store w) (ss_digest s) = None"
    using loaded_dir(4) [OF assms(2)] by (auto simp: decodeRecord_Inr previous_unchanged_def)
  have "persistRecord W Written Written (wd_store w) b (ss_digest s) = (?st, r, digest_of W (w_encode W r), None)"
    using persist_succeeds [OF pu assms(6) successor_fresh [OF assms(2,4,5)]] loads assms(4) mk by (simp add: r_def)
  moreover have "digest_of W (w_encode W r) \<noteq> []"
    by (simp add: digest_of_def sha256_prefix_def)
  ultimately show ?thesis
    using assms(4,8,9) loads by (intro exI [of _ ?st]) (simp add: commit_record_def r_def)
qed

lemma transition_succeeds:
  assumes "lawful_wire W" and "loadRecord W (wd_store w) = Inr (Some (ss_record s, ss_digest s))"
    and "transition_guard W w s p q join restore data = None"
    and "readable W (transition_record (ss_record s) q join restore data (ev_now ev)) (ss_digest s) sg"
    and "length (dir_of (wd_store w) (mr_operation_id (ss_record s))) < 256"
    and "ev_history ev = Written" and "ev_active ev = Written"
  defines "r \<equiv> sealed (transition_record (ss_record s) q join restore data (ev_now ev)) (ss_digest s) sg"
  shows "\<exists>st. transitionWithUpgradeData W ev w s p q join restore data =
      (w\<lparr>wd_store := st\<rparr>, s\<lparr>ss_record := r, ss_digest := digest_of W (w_encode W r)\<rparr>, None) \<and>
    loadRecord W st = Inr (Some (r, digest_of W (w_encode W r))) \<and>
    length (dir_of st (mr_operation_id r)) = length (dir_of (wd_store w) (mr_operation_id (ss_record s))) + 1"
proof -
  have "mr_status (ss_record s) = StatusActive"
    using assms(3) by (auto simp: transition_guard_def transition_authorized_def)
  then have "recordBlocksMutation (ss_record s)"
    by (simp add: recordBlocksMutation_def)
  from commit_succeeds [OF assms(1,2) this _ _ assms(4-7)] assms(3) show ?thesis
    by (simp add: transitionWithUpgradeData_def transition_record_def r_def)
qed


section \<open>A concrete upgrade\<close>

definition sample_funs :: session_funs where
  "sample_funs = \<lparr>fn_nonce_digest = (\<lambda>_. sample_digest CHR ''b''), fn_semver_valid = (\<lambda>_. True),
     fn_semver_compare = (\<lambda>_ _. 0)\<rparr>"

definition sample_session_env :: session_env where
  "sample_session_env = \<lparr>ev_history = Written, ev_active = Written, ev_claim = Written, ev_now = 1, ev_nonce = Some ''n'',
     ev_owner = Some ''o'', ev_settled = True, ev_legacy_gone = False\<rparr>"

definition up_record :: "phase \<Rightarrow> nat \<Rightarrow> join_authority option \<Rightarrow> string \<Rightarrow> mutation_record" where
  "up_record p n j d =
     (sample_upgrade_record p None)\<lparr>mr_sequence := of_nat n, mr_previous := d, mr_join := j,
       mr_signature := sample_signature\<rparr>"

definition up_executor :: "phase \<Rightarrow> release_authority" where
  "up_executor q = (if rollback_text q then sample_release CHR ''4'' ''1.1.0'' else sample_release CHR ''3'' ''1.2.0'')"

definition up_join :: "phase \<Rightarrow> join_authority option" where
  "up_join q = (if joinPhase q
     then Some \<lparr>jn_command = ''apply'', jn_binary_version = ra_version (up_executor q),
       jn_executable = ra_executable (up_executor q), jn_nonce = sample_digest CHR ''b''\<rparr> else None)"

lemma sample_digests_canonical: "canonicalDigest (sample_digest CHR ''b'')" "canonicalDigest (sample_digest CHR ''4'')"
  "canonicalDigest (sample_digest CHR ''3'')"
  by code_simp+

lemma up_origin_valid: "validateRecord sample_digest_env (sample_upgrade_record PhasePrepared None) = None"
  by code_simp

lemma up_join_exact: "up_join q = Some j \<Longrightarrow> join_exact j"
proof -
  assume "up_join q = Some j"
  then have j: "j = \<lparr>jn_command = ''apply'', jn_binary_version = ra_version (up_executor q),
       jn_executable = ra_executable (up_executor q), jn_nonce = sample_digest CHR ''b''\<rparr>"
    by (simp add: up_join_def split: if_splits)
  show "join_exact j"
    unfolding j by (cases "rollback_text q") (simp_all only: up_executor_def if_True if_False, code_simp+)
qed

definition plain_upgrade_phase :: "phase \<Rightarrow> bool" where
  "plain_upgrade_phase p \<longleftrightarrow> p \<in> set upgrade_phases \<and> (upgradeDataActivationPhase p \<longrightarrow> p = PhaseRollbackSucceeded)"

lemma up_valid:
  assumes "plain_upgrade_phase p" and "0 < n" and "n < 1000" and "d = [] \<or> canonicalDigest d"
  shows "validateRecord sample_digest_env (up_record p n (up_join p) d) = None"
proof -
  let ?r = "up_record p n (up_join p) d" and ?o = "sample_upgrade_record PhasePrepared None"
  have sq: "(of_nat n :: 64 word) \<noteq> 0"
    using word_count_nonzero [of "n - 1"] assms(2,3) by simp
  have base: "validate_base ?o = None" and kind: "validate_kind sample_digest_env ?o = None"
    using up_origin_valid by (simp_all add: validateRecord_None)
  have "validate_base ?r = None"
    using base sq by (simp add: validate_base_def up_record_def sample_upgrade_record_def)
  moreover have "validate_kind sample_digest_env ?r = None"
    using kind assms(1) by (simp add: validate_kind_def up_record_def sample_upgrade_record_def plain_upgrade_phase_def)
  moreover have "validate_status ?r = None"
    by (simp add: validate_status_def up_record_def sample_upgrade_record_def)
  moreover have "validate_join ?r = None"
    using up_join_exact [of p]
    by (cases "joinPhase p") (auto simp: validate_join_def up_record_def sample_upgrade_record_def up_join_def split: option.split)
  moreover have "mr_previous ?r = d" "knownPhase (mr_kind ?r) (mr_phase ?r)"
    using assms(1) by (simp_all add: knownPhase_def up_record_def sample_upgrade_record_def plain_upgrade_phase_def)
  ultimately show ?thesis
    using assms(4) unfolding validateRecord_None by metis
qed

definition up :: "phase \<Rightarrow> nat \<Rightarrow> mutation_record world \<Rightarrow> session \<Rightarrow> bool" where
  "up p n w s \<longleftrightarrow> reachable sample_wire sample_funs (System w (Some s) []) \<and> ss_open s \<and> \<not> ss_claim_lock s \<and> wd_claims w = [] \<and>
     loadRecord sample_wire (wd_store w) = Inr (Some (ss_record s, ss_digest s)) \<and>
     length (dir_of (wd_store w) ''upgrade-1'') = n \<and> (\<exists>d. ss_record s = up_record p n (up_join p) d)"

definition sample_request :: begin_request where
  "sample_request = \<lparr>bq_operation_id = ''upgrade-1'', bq_owner_ref = ''o'',
      bq_checkpoint = \<lparr>cp_executor_state = sample_digest CHR ''1'', cp_kopia_anchor = sample_digest CHR ''2''\<rparr>,
      bq_target = sample_release CHR ''3'' ''1.2.0'', bq_prior = sample_release CHR ''4'' ''1.1.0''\<rparr>"

lemma sample_begin_facts:
  "\<not> wd_lock (initial_world :: mutation_record world)" "no_active_mutation sample_wire initial_world = None"
  "ev_settled sample_session_env" "operationPattern (bq_operation_id sample_request)"
  "bq_operation_id sample_request \<notin> operations (wd_store (initial_world :: mutation_record world))"
  "ev_owner sample_session_env = Some (bq_owner_ref sample_request)" "ev_history sample_session_env = Written"
  "ev_active sample_session_env = Written"
  "readable sample_wire (upgrade_first_record sample_wire (ev_now sample_session_env) sample_request) [] sample_signature"
  "validateRecord (w_digests sample_wire) (upgrade_first_record sample_wire (ev_now sample_session_env) sample_request) = None"
  "sealed (upgrade_first_record sample_wire (ev_now sample_session_env) sample_request) [] sample_signature =
     up_record PhasePrepared 1 (up_join PhasePrepared) []"
proof -
  let ?q = sample_request
  have r: "upgrade_first_record sample_wire (ev_now sample_session_env) ?q = sample_upgrade_record PhasePrepared None"
    by (simp add: upgrade_first_record_def sample_request_def sample_session_env_def sample_upgrade_record_def sample_wire_def)
  have s: "sealed (sample_upgrade_record PhasePrepared None) [] sample_signature = up_record PhasePrepared 1 (up_join PhasePrepared) []"
    by (simp add: sealed_def up_record_def sample_upgrade_record_def up_join_def joinPhase_def)
  have v: "validateRecord sample_digest_env (up_record PhasePrepared 1 (up_join PhasePrepared) []) = None"
    by (rule up_valid) (simp_all add: plain_upgrade_phase_def upgradeDataActivationPhase_def upgrade_phases_def)
  show "readable sample_wire (upgrade_first_record sample_wire (ev_now sample_session_env) ?q) [] sample_signature"
    unfolding readable_def r s
    using v by (simp add: sample_wire_def sample_signature_def sample_upgrade_record_def maxRecordBytes_def)
  show "operationPattern (bq_operation_id ?q)"
    using up_origin_valid by (simp add: sample_request_def validateRecord_None validate_base_def sample_upgrade_record_def)
  show "validateRecord (w_digests sample_wire) (upgrade_first_record sample_wire (ev_now sample_session_env) ?q) = None"
    using up_origin_valid unfolding r by (simp add: sample_wire_def)
  show "sealed (upgrade_first_record sample_wire (ev_now sample_session_env) ?q) [] sample_signature =
     up_record PhasePrepared 1 (up_join PhasePrepared) []"
    unfolding r by (rule s)
qed (simp_all add: initial_world_def sample_session_env_def sample_request_def no_active_mutation_def loadRecord_def
    activeHistoryHeads_def operations_def)

lemma up_begins:
  "\<exists>w s. up PhasePrepared 1 w s \<and> BeginUpgrade sample_wire sample_session_env initial_world sample_request = (w, Inr s)"
proof -
  let ?q = sample_request
  have id: "bq_operation_id ?q = ''upgrade-1''"
    by (simp add: sample_request_def)
  from begin_upgrade_succeeds [OF sample_wire_lawful sample_begin_facts(1-10)]
  obtain w s where ws: "BeginUpgrade sample_wire sample_session_env initial_world ?q = (w, Inr s)" "ss_open s" "\<not> ss_claim_lock s"
    "wd_claims w = wd_claims (initial_world :: mutation_record world)"
    "ss_record s = up_record PhasePrepared 1 (up_join PhasePrepared) []"
    "loadRecord sample_wire (wd_store w) = Inr (Some (ss_record s, ss_digest s))"
    "length (dir_of (wd_store w) ''upgrade-1'') = 1"
    unfolding sample_begin_facts(11) id by blast
  have "opens sample_wire initial_world (w, Inr s)"
    using opens.upgrade [of sample_wire initial_world sample_session_env "Some ?q"] ws(1) by (simp add: BeginUpgrade_def)
  then have "reachable sample_wire sample_funs (System w (Some s) [])"
    by (meson lifecycle_step.opened reachable.intros)
  moreover have "wd_claims w = []"
    using ws(4) by (simp add: initial_world_def)
  ultimately show ?thesis
    using ws unfolding up_def by blast
qed

lemma up_next:
  assumes "up p n w s" and "allowedTransition KindUpgrade p q" and "plain_upgrade_phase q"
    and "\<not> restarts_rollback_generate p q" and "n < 200"
  defines "b \<equiv> transition_record (ss_record s) q (up_join q) None None (ev_now sample_session_env)"
  shows "transition_guard sample_wire w s p q j None None = None"
    and "readable sample_wire b (ss_digest s) sample_signature"
    and "sealed b (ss_digest s) sample_signature = up_record q (n + 1) (up_join q) (ss_digest s)"
    and "mr_operation_id (ss_record s) = ''upgrade-1''"
proof -
  obtain d where d: "ss_record s = up_record p n (up_join p) d"
    and u: "ss_open s" "loadRecord sample_wire (wd_store w) = Inr (Some (ss_record s, ss_digest s))"
    using assms(1) by (auto simp: up_def)
  show "mr_operation_id (ss_record s) = ''upgrade-1''"
    by (simp add: d up_record_def sample_upgrade_record_def)
  have canon: "canonicalDigest (ss_digest s)"
    using u(2) sample_wire_lawful by (auto simp: loadRecord_Some decodeRecord_Inr lawful_wire_def)
  show sl: "sealed b (ss_digest s) sample_signature = up_record q (n + 1) (up_join q) (ss_digest s)"
    by (simp add: b_def sealed_def transition_record_def d up_record_def sample_upgrade_record_def sample_session_env_def)
  have "validateRecord sample_digest_env (up_record q (n + 1) (up_join q) (ss_digest s)) = None"
    by (rule up_valid) (use assms(3,5) canon in simp_all)
  then show "readable sample_wire b (ss_digest s) sample_signature"
    unfolding readable_def sl
    by (simp add: b_def sample_wire_def sample_signature_def maxRecordBytes_def transition_record_def d up_record_def sample_upgrade_record_def)
  show "transition_guard sample_wire w s p q j None None = None"
    using assms(2-4) u
    by (auto simp: transition_guard_def transition_authorized_def transition_state_error_def journal_current_def
        plain_upgrade_phase_def d up_record_def sample_upgrade_record_def)
qed

lemma up_step:
  assumes "up p n w s" and "allowedTransition KindUpgrade p q" and "plain_upgrade_phase q"
    and "\<not> restarts_rollback_generate p q" and "n < 200"
  shows "\<exists>w' s'. up q (n + 1) w' s' \<and>
    transitionWithUpgradeData sample_wire sample_session_env w s p q (up_join q) None None = (w', s', None)"
proof -
  obtain d where d: "ss_record s = up_record p n (up_join p) d"
    and u: "reachable sample_wire sample_funs (System w (Some s) [])" "ss_open s" "\<not> ss_claim_lock s"
      "loadRecord sample_wire (wd_store w) = Inr (Some (ss_record s, ss_digest s))"
      "length (dir_of (wd_store w) ''upgrade-1'') = n" "wd_claims w = []"
    using assms(1) by (auto simp: up_def)
  note nxt = up_next [OF assms]
  from transition_succeeds [OF sample_wire_lawful u(4) nxt(1,2), unfolded nxt(3)] u(5) assms(5) nxt(4)
  obtain st where st: "transitionWithUpgradeData sample_wire sample_session_env w s p q (up_join q) None None =
      (w\<lparr>wd_store := st\<rparr>, s\<lparr>ss_record := up_record q (n + 1) (up_join q) (ss_digest s),
         ss_digest := digest_of sample_wire (w_encode sample_wire (up_record q (n + 1) (up_join q) (ss_digest s)))\<rparr>, None)"
    "loadRecord sample_wire st = Inr (Some (up_record q (n + 1) (up_join q) (ss_digest s),
       digest_of sample_wire (w_encode sample_wire (up_record q (n + 1) (up_join q) (ss_digest s)))))"
    "length (dir_of st ''upgrade-1'') = n + 1"
    by (auto simp: sample_session_env_def up_record_def sample_upgrade_record_def)
  let ?w = "w\<lparr>wd_store := st\<rparr>" and ?s = "s\<lparr>ss_record := up_record q (n + 1) (up_join q) (ss_digest s),
         ss_digest := digest_of sample_wire (w_encode sample_wire (up_record q (n + 1) (up_join q) (ss_digest s)))\<rparr>"
  have "session_call sample_wire sample_funs w s ?w ?s"
  proof (cases "joinPhase q")
    case False
    then have "Transition sample_wire sample_session_env w s p q = (?w, ?s, None)"
      using st(1) by (simp add: Transition_def transition_def up_join_def)
    then show ?thesis by (rule session_call.plain)
  next
    case True
    have ex: "signed_executor s q = up_executor q"
      by (simp add: signed_executor_def up_executor_def d up_record_def sample_upgrade_record_def)
    have "join_refused s q ''apply'' (ra_version (up_executor q)) (ra_executable (up_executor q)) = None"
    proof -
      have "\<not> blank (ra_version (up_executor q))" "canonicalDigest (ra_executable (up_executor q))"
        using sample_digests_canonical
        by (cases "rollback_text q"; simp add: up_executor_def sample_release_def; code_simp)+
      with True show ?thesis by (simp add: join_refused_def ex)
    qed
    then have "BeginJoin sample_wire sample_funs sample_session_env w s p q ''apply'' (ra_version (up_executor q)) (ra_executable (up_executor q))
        = (?w, ?s, Inr ''n'')"
      using st(1) True u(3)
      by (simp add: BeginJoin_def transition_def up_join_def sample_session_env_def sample_funs_def hand_over_def)
    then show ?thesis by (rule session_call.join)
  qed
  then have "reachable sample_wire sample_funs (System ?w (Some ?s) [])"
    using u(1) by (meson lifecycle_step.called reachable.step)
  with st u show ?thesis
    by (intro exI [of _ ?w] exI [of _ ?s]) (auto simp: up_def)
qed

lemma up_completes:
  assumes "up p n w s" and "n < 200" and "st = StatusSucceeded \<and> p = PhaseCommitSucceeded \<or> st = StatusRecovered \<and> p = PhaseRollbackSucceeded"
  shows "\<exists>w' s'. reachable sample_wire sample_funs (System w' (Some s') []) \<and> mr_kind (ss_record s') = KindUpgrade \<and>
    mr_status (ss_record s') = st \<and> latestHistoryRecord sample_wire (wd_store w') ''upgrade-1'' = Inr (ss_record s', ss_digest s')"
proof -
  obtain d where d: "ss_record s = up_record p n (up_join p) d"
    and u: "reachable sample_wire sample_funs (System w (Some s) [])" "ss_open s" "\<not> ss_claim_lock s"
      "loadRecord sample_wire (wd_store w) = Inr (Some (ss_record s, ss_digest s))"
      "length (dir_of (wd_store w) ''upgrade-1'') = n"
    using assms(1) by (auto simp: up_def)
  have nojoin: "up_join p = None" "plain_upgrade_phase p" "\<not> joinPhase p"
    using assms(3) by (auto simp: up_join_def joinPhase_def plain_upgrade_phase_def upgrade_phases_def upgradeDataActivationPhase_def)
  let ?b = "(ss_record s)\<lparr>mr_status := st, mr_join := None, mr_sequence := mr_sequence (ss_record s) + 1,
    mr_updated_at := int (ev_now sample_session_env)\<rparr>"
  have canon: "canonicalDigest (ss_digest s)"
    using u(4) sample_wire_lawful by (auto simp: loadRecord_Some decodeRecord_Inr lawful_wire_def)
  let ?q = "up_record p (n + 1) None (ss_digest s)"
  have sl: "sealed ?b (ss_digest s) sample_signature = ?q\<lparr>mr_status := st\<rparr>"
    by (simp add: sealed_def d up_record_def sample_upgrade_record_def sample_session_env_def)
  have "validateRecord sample_digest_env ?q = None"
    using up_valid [of p "n + 1" "ss_digest s"] nojoin assms(2) canon by simp
  then have v: "validate_base ?q = None" "validate_kind sample_digest_env ?q = None" "knownPhase KindUpgrade p"
    by (simp_all add: validateRecord_None) (simp add: up_record_def sample_upgrade_record_def)
  have st: "st \<in> {StatusSucceeded, StatusRecovered}"
    using assms(3) by auto
  have "validate_base (?q\<lparr>mr_status := st\<rparr>) = None"
    using v(1) st by (auto simp: validate_base_def)
  moreover have "validate_kind sample_digest_env (?q\<lparr>mr_status := st\<rparr>) = None"
    using v(2) by (simp add: validate_kind_def up_record_def sample_upgrade_record_def)
  moreover have "validate_status (?q\<lparr>mr_status := st\<rparr>) = None" "validate_join (?q\<lparr>mr_status := st\<rparr>) = None"
    using assms(3) nojoin by (auto simp: validate_status_def validate_join_def up_record_def sample_upgrade_record_def)
  moreover have "knownPhase (mr_kind (?q\<lparr>mr_status := st\<rparr>)) (mr_phase (?q\<lparr>mr_status := st\<rparr>))" "mr_previous (?q\<lparr>mr_status := st\<rparr>) = ss_digest s"
    using v(3) by (simp_all add: up_record_def sample_upgrade_record_def)
  ultimately have "validateRecord sample_digest_env (?q\<lparr>mr_status := st\<rparr>) = None"
    using canon unfolding validateRecord_None by metis
  then have rd: "readable sample_wire ?b (ss_digest s) sample_signature"
    unfolding readable_def sl
    by (simp add: sample_wire_def sample_signature_def maxRecordBytes_def d up_record_def sample_upgrade_record_def)
  have rec: "mr_operation_id (ss_record s) = ''upgrade-1''" "mr_status (ss_record s) = StatusActive" "mr_phase (ss_record s) = p"
    by (simp_all add: d up_record_def sample_upgrade_record_def)
  then have "recordBlocksMutation (ss_record s)"
    by (simp add: recordBlocksMutation_def)
  from commit_succeeds [OF sample_wire_lawful u(4) this _ _ rd, of sample_session_env] u(5) assms(2) rec
  obtain store where c: "commit_record sample_wire sample_session_env w s ?b =
      (w\<lparr>wd_store := store\<rparr>, s\<lparr>ss_record := sealed ?b (ss_digest s) sample_signature,
         ss_digest := digest_of sample_wire (w_encode sample_wire (sealed ?b (ss_digest s) sample_signature))\<rparr>, None)"
    "loadRecord sample_wire store = Inr (Some (sealed ?b (ss_digest s) sample_signature,
       digest_of sample_wire (w_encode sample_wire (sealed ?b (ss_digest s) sample_signature))))"
    by (auto simp: sample_session_env_def)
  let ?w = "w\<lparr>wd_store := store\<rparr>" and ?s = "s\<lparr>ss_record := sealed ?b (ss_digest s) sample_signature,
         ss_digest := digest_of sample_wire (w_encode sample_wire (sealed ?b (ss_digest s) sample_signature))\<rparr>"
  have "journal_current sample_wire w s p = None"
    using u(4) rec by (simp add: journal_current_def)
  then have "Complete sample_wire sample_session_env w s st = (?w, ?s, None)"
    using c(1) u(2) assms(3) rec by (auto simp: Complete_def Let_def)
  then have "session_call sample_wire sample_funs w s ?w ?s"
    by (rule session_call.complete)
  then have r: "reachable sample_wire sample_funs (System ?w (Some ?s) [])"
    using u(1) by (meson lifecycle_step.called reachable.step)
  obtain l where l: "latestHistoryRecord sample_wire store ''upgrade-1'' = Inr (l, ss_digest ?s)"
    using loaded_dir(2) [OF c(2)] rec by auto
  have "store_ok sample_wire store"
    using reachable_ok [OF r sample_wire_lawful] by (simp add: system_ok_def)
  then have "last (history_of sample_wire store ''upgrade-1'') = (ss_record ?s, ss_digest ?s)"
    using loaded_is_last(1) [OF sample_wire_lawful _ c(2)] rec by simp
  with history_last(2) [OF l] l have "latestHistoryRecord sample_wire (wd_store ?w) ''upgrade-1'' = Inr (ss_record ?s, ss_digest ?s)"
    by simp
  with r rec show ?thesis
    by (intro exI [of _ ?w] exI [of _ ?s]) (simp add: d up_record_def sample_upgrade_record_def)
qed

text \<open>A run along a list of phases.\<close>

fun up_path :: "phase \<Rightarrow> phase list \<Rightarrow> bool" where
  "up_path p [] = True"
| "up_path p (q # qs) = (allowedTransition KindUpgrade p q \<and> plain_upgrade_phase q \<and>
     \<not> restarts_rollback_generate p q \<and> up_path q qs)"

lemma up_run: "up p n w s \<Longrightarrow> up_path p qs \<Longrightarrow> n + length qs \<le> 200 \<Longrightarrow> \<exists>w' s'. up (last (p # qs)) (n + length qs) w' s'"
proof (induction qs arbitrary: p n w s)
  case (Cons q qs)
  then obtain w1 s1 where "up q (n + 1) w1 s1"
    using up_step [of p n w s q] by auto
  from Cons.IH [OF this] Cons.prems show ?case by auto
qed auto

lemma up_paths:
  "up_path PhasePrepared
     [PhaseTargetGenerateStarted, PhaseTargetGenerateSucceeded, PhaseTargetApplyStarted, PhaseTargetApplySucceeded,
      PhaseTargetVerifyStarted, PhaseTargetVerifySucceeded, PhaseCommitStarted, PhaseCommitSucceeded]"
  "up_path PhasePrepared
     [PhaseTargetGenerateStarted, PhaseRollbackStarted, PhaseRollbackGenerateStarted, PhaseRollbackGenerateDone,
      PhaseRollbackApplyStarted, PhaseRollbackApplyDone, PhaseRollbackVerifyStarted, PhaseRollbackVerifyDone,
      PhaseRollbackSucceeded]"
  by code_simp+

lemma upgrade_outcomes:
  "\<exists>w s. reachable sample_wire sample_funs (System w (Some s) []) \<and> mr_kind (ss_record s) = KindUpgrade \<and>
    mr_status (ss_record s) = StatusSucceeded \<and>
    latestHistoryRecord sample_wire (wd_store w) ''upgrade-1'' = Inr (ss_record s, ss_digest s)"
  "\<exists>w s. reachable sample_wire sample_funs (System w (Some s) []) \<and> mr_kind (ss_record s) = KindUpgrade \<and>
    mr_status (ss_record s) = StatusRecovered \<and>
    latestHistoryRecord sample_wire (wd_store w) ''upgrade-1'' = Inr (ss_record s, ss_digest s)"
proof -
  obtain w s where o: "up PhasePrepared 1 w s"
    using up_begins by blast
  from up_run [OF o up_paths(1)] obtain w1 s1 where "up PhaseCommitSucceeded 9 w1 s1" by (auto simp: eval_nat_numeral)
  from up_completes [OF this] show "\<exists>w s. reachable sample_wire sample_funs (System w (Some s) []) \<and> mr_kind (ss_record s) = KindUpgrade \<and>
    mr_status (ss_record s) = StatusSucceeded \<and>
    latestHistoryRecord sample_wire (wd_store w) ''upgrade-1'' = Inr (ss_record s, ss_digest s)" by simp
  from up_run [OF o up_paths(2)] obtain w2 s2 where "up PhaseRollbackSucceeded 10 w2 s2" by (auto simp: eval_nat_numeral)
  from up_completes [OF this] show "\<exists>w s. reachable sample_wire sample_funs (System w (Some s) []) \<and> mr_kind (ss_record s) = KindUpgrade \<and>
    mr_status (ss_record s) = StatusRecovered \<and>
    latestHistoryRecord sample_wire (wd_store w) ''upgrade-1'' = Inr (ss_record s, ss_digest s)" by simp
qed

section \<open>Joins are used once\<close>

definition claimed :: "'b world \<Rightarrow> string set" where
  "claimed w = fst ` set (wd_claims w)"

lemma claimed_frame [simp]: "claimed (w\<lparr>wd_claim_locks := x\<rparr>) = claimed w"
  by (simp add: claimed_def)

lemma claimed_map: "path \<in> claimed w \<longleftrightarrow> map_of (wd_claims w) path \<noteq> None"
  by (metis claimed_def map_of_eq_None_iff)

lemma commit_claims: "commit_record W ev w s r = (w', s', e) \<Longrightarrow> wd_claims w' = wd_claims w"
  by (auto simp: commit_record_def split: prod.splits)

lemma transition_claims:
  "transitionWithUpgradeData W ev w s p q join restore data = (w', s', e) \<Longrightarrow> wd_claims w' = wd_claims w"
  by (auto simp: transitionWithUpgradeData_def commit_claims split: option.splits)

lemma release_claim_claims [simp]: "wd_claims (release_claim op w) = wd_claims w"
  by (simp add: release_claim_def)

lemma hand_over_claims: "hand_over w s = (w', s') \<Longrightarrow> wd_claims w' = wd_claims w"
  by (auto simp: hand_over_def split: if_splits)

lemma join_claims: "BeginJoin W F ev w s p q command version executable = (w', s', res) \<Longrightarrow> wd_claims w' = wd_claims w"
  by (auto simp: BeginJoin_def transition_def transition_claims hand_over_claims split: option.splits prod.splits)

lemma Complete_claims: "Complete W ev w s st = (w', s', e) \<Longrightarrow> wd_claims w' = wd_claims w"
  by (auto simp: Complete_def Let_def commit_claims split: option.splits sum.splits if_splits)

text \<open>No call of a session writes a claim.\<close>

lemma call_claims:
  assumes "session_call W F w s w' s'"
  shows "wd_claims w' = wd_claims w"
  using assms
proof cases
  case plain
  then show ?thesis by (auto simp: Transition_def transition_def transition_claims)
next
  case restore
  then show ?thesis
    by (auto simp: TransitionRestoreActivation_def transition_def transition_claims split: option.splits if_splits)
next
  case join
  then show ?thesis by (rule join_claims)
next
  case forward
  then show ?thesis by (auto simp: BeginForwardRecoveryJoin_def join_claims split: if_splits prod.splits)
next
  case retarget
  then show ?thesis by (auto simp: BeginForwardRetargetJoin_def join_claims split: option.splits prod.splits)
next
  case complete
  then show ?thesis by (rule Complete_claims)
next
  case release
  then show ?thesis
    by (auto simp: CompletePreparedRelease_def Complete_claims split: sum.splits bool.splits prod.splits)
next
  case reconcile
  then show ?thesis by (auto simp: ReconcileForRecovery_def split: prod.splits sum.splits if_splits)
next
  case data_begin
  then show ?thesis
    by (auto simp: BeginUpgradeDataActivation_def Let_def transition_claims split: option.splits if_splits)
next
  case data
  then show ?thesis by (auto simp: TransitionUpgradeDataActivation_def transition_claims split: option.splits if_splits)
next
  case controls
  then show ?thesis by (auto simp: RecordRestoreControls_def transition_def transition_claims split: option.splits)
next
  case groups
  then show ?thesis by (auto simp: RecordRestoreAppGroups_def transition_def transition_claims split: option.splits if_splits)
next
  case acknowledge
  then show ?thesis
    by (auto simp: AcknowledgeRestoreAppGroupClose_def Let_def commit_claims split: option.splits sum.splits if_splits prod.splits)
qed

lemma Close_claims [simp]: "wd_claims (fst (Close w s)) = wd_claims w"
  by (simp add: Close_def Let_def)

lemma begin_prepared_claims: "wd_claims (fst (begin_prepared W ev w refused request)) = wd_claims w"
proof -
  have fr: "wd_claims w2 = wd_claims w" if "first_record W ev (w\<lparr>wd_lock := True\<rparr>) s r = (w2, s2, x)" for r s w2 s2 x
    using that by (auto simp: first_record_def split: option.splits prod.splits)
  show ?thesis
    by (auto simp: begin_prepared_def openLocked_def Let_def fr split: option.split prod.split)
qed

lemma OpenRecovery_claims: "wd_claims (fst (OpenRecovery W ev w op)) = wd_claims w"
proof -
  have rec: "wd_claims w2 = wd_claims w" if "recovered_record W ev (w\<lparr>wd_lock := True\<rparr>) op = (w2, res)" for w2 res
    using that by (auto simp: recovered_record_def Let_def split: sum.splits option.splits prod.splits if_splits)
  have acq: "wd_claims w2 = wd_claims w1" if "acquireRecoveryClaimLock ev w1 s1 = (w2, s2, e)" for w1 w2 :: "'a world" and s1 s2 e
    using that by (auto simp: acquireRecoveryClaimLock_def Let_def split: option.splits if_splits)
  show ?thesis
    by (auto simp: OpenRecovery_def openLocked_def rec acq split: sum.split prod.split option.split)
qed

lemma opens_claims: "opens W w res \<Longrightarrow> wd_claims (fst res) = wd_claims w"
proof (induction rule: opens.induct)
  case (upgrade w ev prepare)
  show ?case by (simp add: BeginUpgradePrepared_def begin_prepared_claims)
next
  case (restoring ev w operation request w' res aborted)
  have "w' = fst (begin_prepared W ev w (check (operation \<noteq> [] \<and> \<not> operationPattern operation) OperationIDUnusable)
        (map_option (restore_first_record W (ev_now ev)) request))"
    using restoring by (auto simp: BeginRestoreActivationPrepared_def split: prod.splits sum.splits)
  then show ?case by (simp add: begin_prepared_claims)
next
  case (recovery w ev op)
  show ?case by (rule OpenRecovery_claims)
next
  case (kind_recovery w ev op k)
  show ?case
    using OpenRecovery_claims [of W ev w op]
    by (auto simp: openRecoveryForKind_def split: prod.split sum.split)
qed

lemma write_claim_claims:
  "claimed w \<subseteq> claimed (fst (write_claim out path c w))"
  by (auto simp: write_claim_def Let_def claimed_def AList.dom_update)

lemma claimJoin_claims:
  assumes "claimJoin W ev w r d = (w1, e)"
  shows "claimed w \<subseteq> claimed w1" and "e = None \<Longrightarrow> \<exists>path. joinClaimPath r = Some path \<and> path \<notin> claimed w \<and> path \<in> claimed w1"
proof -
  have "claimed w \<subseteq> claimed w1 \<and> (e = None \<longrightarrow> (\<exists>path. joinClaimPath r = Some path \<and> path \<notin> claimed w \<and> path \<in> claimed w1))"
  proof (cases "claim_refused W w r d")
    case (Some x)
    with assms have "w1 = w" "e = Some x" by (simp_all add: claimJoin_def)
    then show ?thesis by simp
  next
    case None
    then obtain j path where j: "mr_join r = Some j" "joinClaimPath r = Some path"
      by (auto simp: claim_refused_def joinClaimPath_def)
    obtain w2 b where b: "write_claim (ev_claim ev) path (claim_of ev r j) w = (w2, b)" by fastforce
    have "b \<Longrightarrow> path \<notin> claimed w \<and> path \<in> claimed w2"
    proof -
      assume b
      with b have "no_replace (map_of (wd_claims w) path \<noteq> None) (ev_claim ev) = Written" "w2 = w\<lparr>wd_claims := AList.update path (Some (claim_of ev r j)) (wd_claims w)\<rparr>"
        by (auto simp: write_claim_def Let_def)
      then show "path \<notin> claimed w \<and> path \<in> claimed w2"
        by (auto simp: no_replace_def claimed_map AList.update_conv' split: if_splits write_outcome.splits)
    qed
    with b j None assms write_claim_claims [of w "ev_claim ev" path "claim_of ev r j"] show ?thesis
      by (cases b) (auto simp: claimJoin_def)
  qed
  then show "claimed w \<subseteq> claimed w1" "e = None \<Longrightarrow> \<exists>path. joinClaimPath r = Some path \<and> path \<notin> claimed w \<and> path \<in> claimed w1"
    by auto
qed

lemma admitJoin_claims:
  assumes "admitJoin W F ev w q = (w', res)"
  shows "claimed w \<subseteq> claimed w'"
    and "res = Inr (Some op) \<Longrightarrow> \<exists>r d path. loadRecord W (wd_store w) = Inr (Some (r, d)) \<and> joinClaimPath r = Some path \<and>
      path \<notin> claimed w \<and> path \<in> claimed w'"
proof -
  consider "w' = w" "res \<noteq> Inr (Some op)"
    | r d w1 e where "loadRecord W (wd_store w) = Inr (Some (r, d))" "claimJoin W ev w r d = (w1, e)" "w' = w1"
        "res = Inr (Some op) \<longrightarrow> e = None"
    using assms
    by (auto simp: admitJoin_def validate_join_request_def split: option.splits sum.splits prod.splits if_splits)
  note c = this
  show "claimed w \<subseteq> claimed w'"
    using c by cases (auto dest: claimJoin_claims(1))
  show "res = Inr (Some op) \<Longrightarrow> \<exists>r d path. loadRecord W (wd_store w) = Inr (Some (r, d)) \<and> joinClaimPath r = Some path \<and>
      path \<notin> claimed w \<and> path \<in> claimed w'"
    using c by cases (auto dest: claimJoin_claims(2))
qed

lemma step_claims: "lifecycle_step W F x y \<Longrightarrow> claimed (the_world x) \<subseteq> claimed (the_world y)"
proof (induction rule: lifecycle_step.induct)
  case (opened w w' s m ch)
  from opens_claims [OF this] show ?case by (simp add: claimed_def)
next
  case (refused w w' e m ch)
  from opens_claims [OF this] show ?case by (simp add: claimed_def)
next
  case (called w s w' s' ch)
  from call_claims [OF this] show ?case by (simp add: claimed_def)
next
  case (closed w s w' s' ch)
  then show ?case using Close_claims [of w s] by (simp add: claimed_def)
qed (auto simp: claimed_def dest: admitJoin_claims(1) [unfolded claimed_def])

lemma steps_claims: "(lifecycle_step W F)\<^sup>*\<^sup>* x y \<Longrightarrow> claimed (the_world x) \<subseteq> claimed (the_world y)"
  by (induction rule: rtranclp_induct) (auto dest: step_claims)

text \<open>
  C15. A join is used at most once: after a child was admitted, no further child is admitted under the
  same signed record, whatever happens in between: the child ends, the session closes, a recovery
  opens, other operations run.
\<close>

theorem join_is_used_once:
  assumes "admitJoin W F ev w q = (w1, Inr (Some op))"
    and "(lifecycle_step W F)\<^sup>*\<^sup>* (System w1 m ch) (System w2 m' ch')"
    and "loadRecord W (wd_store w2) = loadRecord W (wd_store w)"
  shows "snd (admitJoin W F ev' w2 q') \<noteq> Inr (Some op')"
proof
  assume "snd (admitJoin W F ev' w2 q') = Inr (Some op')"
  then obtain w3 where "admitJoin W F ev' w2 q' = (w3, Inr (Some op'))"
    by (metis prod.collapse)
  from admitJoin_claims(2) [OF this refl] obtain r d path where
    2: "loadRecord W (wd_store w2) = Inr (Some (r, d))" "joinClaimPath r = Some path" "path \<notin> claimed w2" by blast
  from admitJoin_claims(2) [OF assms(1) refl] 2 assms(3) have "path \<in> claimed w1" by auto
  with steps_claims [OF assms(2)] 2(3) show False by auto
qed

section \<open>Two faults of the code\<close>

text \<open>
  C37. A record is validated only when it is read back: an authorised transition whose next record is
  invalid is written to the history and the pointer, is reported as an error, and leaves a journal
  that neither loads nor recovers, for every session.
\<close>

theorem invalid_transition_blocks_journal:
  fixes ev :: session_env
  assumes "lawful_wire W" and "transition_guard W w s p q join restore data = None"
  defines "r \<equiv> transition_record (ss_record s) q join restore data (ev_now ev)"
  assumes "validateRecord (w_digests W) (sealed r (ss_digest s) sg) \<noteq> None"
    and "w_sign W (signingBytes W (sealed r (ss_digest s) no_signature)) = Some sg"
    and "w_size W (w_encode W (sealed r (ss_digest s) sg)) \<le> maxRecordBytes"
    and "ev_history ev = Written" and "ev_active ev = Written"
  shows "\<exists>w' s' e. transitionWithUpgradeData W ev w s p q join restore data = (w', s', Some e) \<and>
    journal_blocked W (wd_store w') \<and> mr_phase (ss_record s') = q"
proof -
  obtain c where c: "loadRecord W (wd_store w) = Inr (Some (c, ss_digest s))"
    "mr_operation_id c = mr_operation_id (ss_record s)" "mr_sequence c = mr_sequence (ss_record s)"
    using assms(2) by (auto simp: transition_guard_def journal_current_None)
  have r: "mr_operation_id r = mr_operation_id c" "mr_sequence r = mr_sequence c + 1" "mr_phase r = q"
    using c by (simp_all add: r_def transition_record_def)
  have dir: "map_of (js_dirs (wd_store w)) (mr_operation_id r) = Some (dir_of (wd_store w) (mr_operation_id r))"
    using loaded_dir(1) [OF c(1)] r by simp
  have "previous_unchanged W (wd_store w) (ss_digest s) = None"
    using loaded_dir(4) [OF c(1)] by (auto simp: decodeRecord_Inr previous_unchanged_def)
  moreover have "map_of (dir_of (wd_store w) (mr_operation_id r))
      (history_name (mr_sequence r) (digest_of W (w_encode W (sealed r (ss_digest s) sg)))) = None"
    using successor_fresh [OF c(1) r(1,2), of "ss_digest s" sg] by (simp add: entry_name_def)
  ultimately
  obtain st d e where "persistRecord W Written Written (wd_store w) r (ss_digest s) = (st, sealed r (ss_digest s) sg, d, Some e)"
    "journal_blocked W st" "d \<noteq> []"
    using written_entry_unreadable [OF assms(1) dir _ _ assms(5,6)] assms(4) by blast
  with assms(2,7,8) r show ?thesis
    by (simp add: transitionWithUpgradeData_def commit_record_def r_def)
qed

text \<open>
  A failed retarget can take back a target that is already signed: when target Generate is
  restarted with a newer release, and the new record is installed but its write reports an error,
  the session holds the digest of the record with the new target and, again, the old target; its
  next record is signed with the old one.
\<close>

theorem failed_retarget_reverts_target:
  assumes "retarget_refused W F w s PhaseTargetGenerateStarted tgt = None"
    and "BeginJoin W F ev w (retargeted s tgt) PhaseTargetGenerateStarted PhaseTargetGenerateStarted ''generate''
      (ra_version tgt) (ra_executable tgt) = (w1, s1, Inl e)"
    and "ss_digest s1 \<noteq> ss_digest s"
  shows "\<exists>s'. BeginForwardRetargetJoin W F ev w s PhaseTargetGenerateStarted tgt = (w1, s', Inl e) \<and>
    mr_target (ss_record s1) = tgt \<and> ss_digest s' = ss_digest s1 \<and>
    ss_record s' = (ss_record s1)\<lparr>mr_target := mr_target (ss_record s)\<rparr> \<and>
    mr_target (transition_record (ss_record s') q join restore data now) = mr_target (ss_record s)"
proof -
  have j: "mr_target (ss_record s2) = tgt \<and> (mr_phase (ss_record s2) = PhaseTargetGenerateStarted)"
    if "commit_record W ev w (retargeted s tgt) (transition_record (ss_record (retargeted s tgt)) PhaseTargetGenerateStarted j None None t) = (w2, s2, x)"
      "ss_digest s2 \<noteq> ss_digest s" for w2 s2 x j t
  proof (cases "persistRecord W (ev_history ev) (ev_active ev) (wd_store w)
      (transition_record (ss_record (retargeted s tgt)) PhaseTargetGenerateStarted j None None t) (ss_digest (retargeted s tgt))")
    case (fields st q d y)
    then have "d \<noteq> []" "ss_record s2 = q"
      using that by (auto simp: commit_record_def retargeted_def split: if_splits)
    moreover have "mr_target q = tgt" "mr_phase q = PhaseTargetGenerateStarted"
      using fields
      by (auto simp: persistRecord_def Let_def transition_record_def retargeted_def split: option.splits if_splits prod.splits)
    ultimately show ?thesis by simp
  qed
  have "mr_target (ss_record s1) = tgt \<and> mr_phase (ss_record s1) = PhaseTargetGenerateStarted"
    using assms(2,3) j
    by (auto simp: BeginJoin_def transition_def transitionWithUpgradeData_def hand_over_def retargeted_def
        split: option.splits prod.splits if_splits)
  with assms(1,2) show ?thesis
    by (simp add: BeginForwardRetargetJoin_def restore_target_def transition_record_def)
qed

section \<open>Witnesses\<close>

lemma up_at: "up_path PhasePrepared qs \<Longrightarrow> length qs < 190 \<Longrightarrow> \<exists>w s. up (last (PhasePrepared # qs)) (1 + length qs) w s"
proof -
  assume qs: "up_path PhasePrepared qs" "length qs < 190"
  obtain w s where o: "up PhasePrepared 1 w s" using up_begins by blast
  show ?thesis by (rule up_run [OF o qs(1)]) (use qs(2) in simp)
qed

theorem reachable_history_authorised_witness:
  "\<exists>w s. reachable sample_wire sample_funs (System w (Some s) []) \<and>
     authorised (map fst (history_of sample_wire (wd_store w) ''upgrade-1'')) \<and>
     mr_status (fst (last (history_of sample_wire (wd_store w) ''upgrade-1''))) = StatusSucceeded"
proof -
  obtain w s where r: "reachable sample_wire sample_funs (System w (Some s) [])" "mr_status (ss_record s) = StatusSucceeded"
    "latestHistoryRecord sample_wire (wd_store w) ''upgrade-1'' = Inr (ss_record s, ss_digest s)"
    using upgrade_outcomes(1) by blast
  from reachable_history_authorised [OF r(1) sample_wire_lawful r(3)] r show ?thesis by force
qed

theorem recovery_excludes_children_witness:
  "\<exists>w s. reachable sample_wire sample_funs (System w (Some s) []) \<and> wd_lock w"
proof -
  obtain w s where "up PhasePrepared 1 w s" using up_begins by blast
  then have r: "reachable sample_wire sample_funs (System w (Some s) [])" by (simp add: up_def)
  from recovery_excludes_children [OF r sample_wire_lawful] r show ?thesis by blast
qed

theorem loaded_record_is_latest_witness:
  "\<exists>w :: mutation_record world. \<exists>c d. loadRecord sample_wire (wd_store w) = Inr (Some (c, d)) \<and>
     last (history_of sample_wire (wd_store w) (mr_operation_id c)) = (c, d)"
proof -
  obtain w s where "up PhasePrepared 1 w s" using up_begins by blast
  then have r: "reachable sample_wire sample_funs (System w (Some s) [])"
    "loadRecord sample_wire (wd_store w) = Inr (Some (ss_record s, ss_digest s))"
    by (simp_all add: up_def)
  from loaded_record_is_latest [OF r(1) sample_wire_lawful r(2)] r(2) show ?thesis by blast
qed

theorem succeeded_operation_passed_all_phases_witness:
  "\<exists>w s. reachable sample_wire sample_funs (System w (Some s) []) \<and> mr_status (ss_record s) = StatusSucceeded \<and>
     (\<exists>e \<in> set (history_of sample_wire (wd_store w) ''upgrade-1''). mr_phase (fst e) = PhaseTargetVerifySucceeded)"
proof -
  obtain w s where r: "reachable sample_wire sample_funs (System w (Some s) [])" "mr_status (ss_record s) = StatusSucceeded"
    "latestHistoryRecord sample_wire (wd_store w) ''upgrade-1'' = Inr (ss_record s, ss_digest s)" "mr_kind (ss_record s) = KindUpgrade"
    using upgrade_outcomes(1) by blast
  have "PhaseTargetVerifySucceeded \<in> set (forward_chain KindUpgrade)"
    by (simp add: forward_chain_def)
  with succeeded_operation_passed_all_phases [OF r(1) sample_wire_lawful r(3,2)] r show ?thesis by metis
qed

theorem recovered_operation_verified_prior_witness:
  "\<exists>w s. reachable sample_wire sample_funs (System w (Some s) []) \<and> mr_status (ss_record s) = StatusRecovered \<and>
    ((\<forall>e \<in> set (history_of sample_wire (wd_store w) ''upgrade-1''). mr_phase (fst e) = PhasePrepared) \<or>
     (\<exists>e \<in> set (history_of sample_wire (wd_store w) ''upgrade-1'').
        mr_phase (fst e) \<in> {PhaseRollbackVerifyDone, PhaseRollbackPriorRuntimeVerifySucceeded}))"
proof -
  obtain w s where r: "reachable sample_wire sample_funs (System w (Some s) [])" "mr_status (ss_record s) = StatusRecovered"
    "latestHistoryRecord sample_wire (wd_store w) ''upgrade-1'' = Inr (ss_record s, ss_digest s)"
    using upgrade_outcomes(2) by blast
  from recovered_operation_verified_prior [OF r(1) sample_wire_lawful r(3,2)] r show ?thesis by blast
qed

lemma first_step_allowed:
  "allowedTransition KindUpgrade PhasePrepared PhaseTargetGenerateStarted" "plain_upgrade_phase PhaseTargetGenerateStarted"
  "\<not> restarts_rollback_generate PhasePrepared PhaseTargetGenerateStarted"
  by code_simp+

theorem transition_success_is_durable_witness:
  "\<exists>w s w' s'. transitionWithUpgradeData sample_wire sample_session_env w s PhasePrepared PhaseTargetGenerateStarted
      (up_join PhaseTargetGenerateStarted) None None = (w', s', None) \<and>
    loadRecord sample_wire (wd_store w') = Inr (Some (ss_record s', ss_digest s')) \<and>
    mr_sequence (ss_record s') = mr_sequence (ss_record s) + 1"
proof -
  obtain w s where "up PhasePrepared 1 w s" using up_begins by blast
  from up_step [OF this first_step_allowed] obtain w' s' where
    "transitionWithUpgradeData sample_wire sample_session_env w s PhasePrepared PhaseTargetGenerateStarted
      (up_join PhaseTargetGenerateStarted) None None = (w', s', None)" by auto
  from transition_success_is_durable [OF sample_wire_lawful this] this show ?thesis by blast
qed

theorem begin_requires_idle_witness:
  "\<exists>w' s. BeginUpgradePrepared sample_wire sample_session_env initial_world (Some sample_request) = (w', Inr s) \<and> wd_lock w'"
proof -
  obtain w' s where "BeginUpgradePrepared sample_wire sample_session_env initial_world (Some sample_request) = (w', Inr s)"
    using up_begins by (auto simp: BeginUpgrade_def)
  from begin_requires_idle [OF sample_wire_lawful this] this show ?thesis by blast
qed

theorem ordinary_mutation_needs_idle_witness:
  "withIdleMutation sample_wire sample_funs sample_session_env initial_world
     \<lparr>jq_operation_id = '' '', jq_phase = PhaseOther [], jq_binary_version = [], jq_executable = [], jq_nonce = [], jq_command = []\<rparr>
     (\<lambda>w. (w, if wd_lock w then None else Some LockHeld)) = (initial_world, None)"
proof -
  let ?q = "\<lparr>jq_operation_id = '' '', jq_phase = PhaseOther [], jq_binary_version = [], jq_executable = [], jq_nonce = [], jq_command = []\<rparr>"
  have b: "blank_request ?q"
    by code_simp
  have idle: "\<not> (wd_lock (initial_world :: mutation_record world) \<or> no_active_mutation sample_wire initial_world \<noteq> None \<or>
      \<not> ev_settled sample_session_env)"
    using sample_begin_facts by simp
  have "(initial_world :: mutation_record world)\<lparr>wd_lock := True\<rparr>\<lparr>wd_lock := False\<rparr> = initial_world"
    by (simp add: initial_world_def)
  with ordinary_mutation_needs_idle [OF b, of initial_world sample_wire sample_session_env sample_funs] idle
  show ?thesis by simp
qed

theorem idle_host_begins_upgrade_witness:
  "\<exists>w' s. BeginUpgrade sample_wire sample_session_env initial_world sample_request = (w', Inr s) \<and>
     mr_phase (ss_record s) = PhasePrepared"
proof -
  have "mr_phase (up_record PhasePrepared 1 (up_join PhasePrepared) []) = PhasePrepared"
    by (simp add: up_record_def sample_upgrade_record_def)
  with idle_host_begins_upgrade [OF sample_wire_lawful sample_begin_facts(1-10)] show ?thesis
    unfolding sample_begin_facts(11) by metis
qed


text \<open>A child of target Apply is admitted once.\<close>

definition sample_join_request :: join_request where
  "sample_join_request = \<lparr>jq_operation_id = ''upgrade-1'', jq_phase = PhaseTargetApplyStarted, jq_binary_version = ''1.2.0'',
     jq_executable = sample_digest CHR ''3'', jq_nonce = ''n'', jq_command = ''apply''\<rparr>"

lemma sample_child_admitted:
  "\<exists>w s w1. up PhaseTargetApplyStarted 4 w s \<and>
    admitJoin sample_wire sample_funs sample_session_env w sample_join_request = (w1, Inr (Some ''upgrade-1''))"
proof -
  have "up_path PhasePrepared [PhaseTargetGenerateStarted, PhaseTargetGenerateSucceeded, PhaseTargetApplyStarted]"
    by code_simp
  from up_at [OF this] obtain w s where up: "up PhaseTargetApplyStarted 4 w s"
    by (auto simp: eval_nat_numeral)
  then obtain d where d: "ss_record s = up_record PhaseTargetApplyStarted 4 (up_join PhaseTargetApplyStarted) d"
    and u: "reachable sample_wire sample_funs (System w (Some s) [])" "\<not> ss_claim_lock s" "wd_claims w = []"
      "loadRecord sample_wire (wd_store w) = Inr (Some (ss_record s, ss_digest s))"
    by (auto simp: up_def)
  have locks: "wd_claim_locks w = []"
    using reachable_ok [OF u(1) sample_wire_lawful] u(2) by (simp add: system_ok_def claims_held_def)
  have j: "up_join PhaseTargetApplyStarted = Some \<lparr>jn_command = ''apply'', jn_binary_version = ''1.2.0'',
      jn_executable = sample_digest CHR ''3'', jn_nonce = sample_digest CHR ''b''\<rparr>"
    by (simp add: up_join_def joinPhase_def up_executor_def rollback_text_def has_prefix_def sample_release_def)
  have rec: "mr_operation_id (ss_record s) = ''upgrade-1''" "mr_status (ss_record s) = StatusActive"
    "mr_phase (ss_record s) = PhaseTargetApplyStarted" "mr_join (ss_record s) = up_join PhaseTargetApplyStarted"
    "ra_version (mr_target (ss_record s)) = ''1.2.0''"
    by (simp_all add: d up_record_def sample_upgrade_record_def sample_release_def)
  have pat: "operationPattern ''upgrade-1''" "\<not> blank_request sample_join_request" "\<not> blank (phase_text PhaseTargetApplyStarted)"
    by code_simp+
  have "join_authorized sample_funs (ss_record s) sample_join_request"
    using rec j by (simp add: join_authorized_def sample_join_request_def joinAuthority_def sample_funs_def)
  with rec pat u(4) have v: "validate_join_request sample_wire sample_funs w sample_join_request = Inr (ss_record s, ss_digest s)"
    by (simp add: validate_join_request_def sample_join_request_def)
  have c: "claim_refused sample_wire w (ss_record s) (ss_digest s) = None"
    using rec j locks u(4) by (simp add: claim_refused_def)
  obtain path where path: "joinClaimPath (ss_record s) = Some path"
    using rec j by (simp add: joinClaimPath_def)
  have "write_claim (ev_claim sample_session_env) path cl w = (w\<lparr>wd_claims := [(path, Some cl)]\<rparr>, True)" for cl
    using u(3) by (simp add: write_claim_def sample_session_env_def)
  with c path rec j have "\<exists>w1. claimJoin sample_wire sample_session_env w (ss_record s) (ss_digest s) = (w1, None)"
    by (simp add: claimJoin_def)
  with v pat rec up show ?thesis by (fastforce simp: admitJoin_def)
qed

theorem join_is_used_once_witness:
  "\<exists>w w1 x. admitJoin sample_wire sample_funs sample_session_env w sample_join_request = (w1, Inr (Some ''upgrade-1'')) \<and>
     snd (admitJoin sample_wire sample_funs sample_session_env w1 sample_join_request) = x \<and> x \<noteq> Inr (Some ''upgrade-1'')"
proof -
  obtain w w1 where a: "admitJoin sample_wire sample_funs sample_session_env w sample_join_request = (w1, Inr (Some ''upgrade-1''))"
    using sample_child_admitted by blast
  then have "wd_store w1 = wd_store w"
    using admitJoin_locks by blast
  then have "loadRecord sample_wire (wd_store w1) = loadRecord sample_wire (wd_store w)" by simp
  from join_is_used_once [OF a rtranclp.rtrancl_refl [of _ "System w1 None []"] this] a show ?thesis by blast
qed

theorem invalid_transition_blocks_journal_witness:
  "\<exists>w s w' s' e. up PhasePrepared 1 w s \<and>
    Transition sample_wire sample_session_env w s PhasePrepared PhaseTargetGenerateStarted = (w', s', Some e) \<and>
    journal_blocked sample_wire (wd_store w')"
proof -
  obtain w s where u: "up PhasePrepared 1 w s" using up_begins by blast
  note nxt = up_next [OF this first_step_allowed]
  let ?r = "transition_record (ss_record s) PhaseTargetGenerateStarted None None None (ev_now sample_session_env)"
  have "validate_join (sealed ?r (ss_digest s) sample_signature) \<noteq> None"
    using u by (auto simp: up_def validate_join_def up_record_def sample_upgrade_record_def transition_record_def joinPhase_def)
  then have "validateRecord (w_digests sample_wire) (sealed ?r (ss_digest s) sample_signature) \<noteq> None"
    by (auto simp: validateRecord_None)
  from invalid_transition_blocks_journal [OF sample_wire_lawful nxt(1) this] u show ?thesis
    by (fastforce simp: sample_wire_def sample_session_env_def maxRecordBytes_def Transition_def transition_def)
qed

end
