(* ===== verification/CompositionGraph.thy ===== *)
theory CompositionGraph
  imports Prelude "HOL-Library.AList" "HOL-Library.Multiset"
begin

text \<open>
  The dependency graph of module contracts (\<open>internal/composition/graph.go\<close>): building it, Kahn's
  algorithm, the transitive dependencies, the depth-first search for a cycle and the validation. Go
  ranges over the map of edges in an order of its own; here an argument gives it. The first half
  defines the operations, the second relates the sort to a reference order, to the absence of cycles
  and to the search.
\<close>

section \<open>Contracts and the dependency graph\<close>

record required_service =
  rq_provides :: "string list"
  rq_optional :: bool

record placement_support =
  ps_local_only :: bool
  ps_standard :: bool
  ps_managed_serverless :: bool
  ps_missing_adapters :: "string list"
  ps_rejection_reason :: string

record service_def =
  sd_required :: bool
  sd_nested :: string
  sd_flat :: string

text \<open>A value of type \<open>any\<close>: what the code tells apart by type assertions.\<close>

datatype config =
    CBool bool
  | CText string
  | CMap "(string \<times> config) list"
  | CAnyMap "(string option \<times> config) list"
  | COther string

record settings_spec =
  st_perma :: "(string \<times> config) list"
  st_flexible :: "(string \<times> config) list"

record module_contract =
  mc_name :: string
  mc_requires :: "(string \<times> required_service) list option"
  mc_min_memory :: string
  mc_provides :: "(string \<times> bool) list option"
  mc_settings :: "settings_spec option"
  mc_services :: "(string \<times> service_def) list"
  mc_placement :: "placement_support option"

record dependency_graph =
  gr_modules :: "(string \<times> module_contract) list"
  gr_edges :: "(string \<times> string list) list"

text \<open>A missing key of a map of slices yields the nil slice.\<close>

definition deps_of :: "(string \<times> string list) list \<Rightarrow> string \<Rightarrow> string list" where
  "deps_of es n = (case map_of es n of None \<Rightarrow> [] | Some ds \<Rightarrow> ds)"

definition has_module :: "dependency_graph \<Rightarrow> string \<Rightarrow> bool" where
  "has_module g n \<longleftrightarrow> map_of (gr_modules g) n \<noteq> None"

definition add_contract :: "module_contract \<Rightarrow> dependency_graph \<Rightarrow> dependency_graph" where
  "add_contract mc g =
     (let g1 = g\<lparr>gr_modules := AList.update (mc_name mc) mc (gr_modules g)\<rparr> in
      case mc_requires mc of
        None \<Rightarrow> g1
      | Some svs \<Rightarrow>
          if svs = [] then g1
          else g1\<lparr>gr_edges := AList.update (mc_name mc)
                 (sort (deps_of (gr_edges g) (mc_name mc) @ map fst svs)) (gr_edges g)\<rparr>)"

definition BuildGraph :: "module_contract list \<Rightarrow> dependency_graph" where
  "BuildGraph contracts = fold add_contract contracts \<lparr>gr_modules = [], gr_edges = []\<rparr>"

definition DependenciesOf :: "dependency_graph \<Rightarrow> string \<Rightarrow> string list" where
  "DependenciesOf g n = deps_of (gr_edges g) n"

section \<open>Kahn's algorithm\<close>

type_synonym degrees = "(string \<times> int) list"

definition deg_of :: "degrees \<Rightarrow> string \<Rightarrow> int" where
  "deg_of m n = (case map_of m n of None \<Rightarrow> 0 | Some k \<Rightarrow> k)"

definition initial_degrees :: "dependency_graph \<Rightarrow> degrees" where
  "initial_degrees g =
     fold (\<lambda>(n, ds). AList.update n (int (length (filter (has_module g) ds)))) (gr_edges g)
       (map (\<lambda>(n, _). (n, 0)) (gr_modules g))"

fun relax_deps :: "string \<Rightarrow> string \<Rightarrow> string list \<Rightarrow> degrees \<times> string list \<Rightarrow> degrees \<times> string list" where
  "relax_deps node name [] s = s"
| "relax_deps node name (d # ds) (deg, q) =
     (if d = node
      then let k = deg_of deg name - 1 in
           relax_deps node name ds (AList.update name k deg, if k = 0 then sort (q @ [name]) else q)
      else relax_deps node name ds (deg, q))"

fun relax_edges :: "string \<Rightarrow> (string \<times> string list) list \<Rightarrow> degrees \<times> string list \<Rightarrow> degrees \<times> string list" where
  "relax_edges node [] s = s"
| "relax_edges node ((name, ds) # es) s = relax_edges node es (relax_deps node name ds s)"

definition positives :: "degrees \<Rightarrow> string set" where
  "positives m = {n. deg_of m n > 0}"

lemma finite_positives [simp]: "finite (positives m)"
proof (rule finite_subset)
  show "positives m \<subseteq> dom (map_of m)"
    by (auto simp: positives_def deg_of_def split: option.splits)
qed (rule finite_dom_map_of)

lemma deg_of_update [simp]: "deg_of (AList.update n k m) x = (if x = n then k else deg_of m x)"
  by (simp add: deg_of_def AList.update_conv')

text \<open>
  A push onto the queue uses up a positive degree, so a round of the loop, which pops one node,
  shrinks the queue and the positive degrees together, whatever the edges are.
\<close>

definition work :: "degrees \<times> string list \<Rightarrow> nat" where
  "work s = length (snd s) + card (positives (fst s))"

lemma relax_deps_work: "work (relax_deps node name ds s) \<le> work s"
proof (induction node name ds s rule: relax_deps.induct)
  case (2 node name d ds deg q)
  let ?k = "deg_of deg name - 1"
  have p: "positives (AList.update name ?k deg) = (if deg_of deg name = 1 then positives deg - {name} else positives deg)"
    by (auto simp: positives_def)
  have "name \<in> positives deg" if "deg_of deg name = 1"
    using that by (simp add: positives_def)
  then have "work (AList.update name ?k deg, if ?k = 0 then sort (q @ [name]) else q) \<le> work (deg, q)"
    using p card_Suc_Diff1 [OF finite_positives, of name deg] by (auto simp: work_def)
  with 2 show ?case by (auto simp: Let_def)
qed simp

lemma relax_edges_work: "work (relax_edges node es s) \<le> work s"
  by (induction node es s rule: relax_edges.induct) (auto intro: order_trans [OF _ relax_deps_work])

text \<open>
  The edges are a map that every round ranges over: \<open>order\<close> gives the order of the round, from the
  nodes sorted so far.
\<close>

function kahn :: "(string list \<Rightarrow> (string \<times> string list) list) \<Rightarrow> degrees \<Rightarrow> string list \<Rightarrow> string list \<Rightarrow> string list" where
  "kahn order deg [] done = done"
| "kahn order deg (node # q) done =
     (case relax_edges node (order (done @ [node])) (deg, q) of
        (deg', q') \<Rightarrow> kahn order deg' q' (done @ [node]))"
  by pat_completeness auto
termination
proof (relation "measure (\<lambda>(order, deg, q, done). work (deg, q))", goal_cases)
  case (2 order deg node q don deg' q')
  then have "work (deg', q') \<le> work (deg, q)"
    using relax_edges_work [of node "order (don @ [node])" "(deg, q)"] by simp
  then show ?case
    by (simp add: work_def)
qed simp

datatype sort_error = DependencyCycle nat nat

definition TopologicalSort ::
  "(string list \<Rightarrow> (string \<times> string list) list) \<Rightarrow> dependency_graph \<Rightarrow> sort_error + string list" where
  "TopologicalSort order g =
     (let deg = initial_degrees g;
          queue = sort (filter (\<lambda>n. deg_of deg n = 0) (map fst deg));
          sorted = kahn order deg queue [] in
      if length sorted \<noteq> length (gr_modules g) then Inl (DependencyCycle (length sorted) (length (gr_modules g)))
      else Inr sorted)"

section \<open>Reachable dependencies\<close>

text \<open>
  \<open>collectDeps\<close> recurses over the dependencies of a module and shares the visited set; the pending
  siblings of all its frames are the list here.
\<close>

function collectDeps :: "dependency_graph \<Rightarrow> string list \<Rightarrow> string list \<Rightarrow> string list" where
  "collectDeps g [] visited = visited"
| "collectDeps g (m # ms) visited =
     (if m \<in> set visited then collectDeps g ms visited
      else collectDeps g (filter (has_module g) (deps_of (gr_edges g) m) @ ms) (m # visited))"
  by pat_completeness auto
termination
proof (relation "measures [\<lambda>(g, ms, visited). card (dom (map_of (gr_modules g)) \<union> set ms - set visited),
      \<lambda>(g, ms, visited). length ms]", goal_cases)
  case (2 g m ms visited)
  let ?M = "dom (map_of (gr_modules g))"
  have "card (?M \<union> set ms - set visited) \<le> card (?M \<union> set (m # ms) - set visited)"
    by (rule card_mono) (auto simp: finite_dom_map_of)
  then show ?case by auto
next
  case (3 g m ms visited)
  let ?M = "dom (map_of (gr_modules g))" and ?new = "filter (has_module g) (deps_of (gr_edges g) m) @ ms"
  have "card (?M \<union> set ?new - set (m # visited)) < card (?M \<union> set (m # ms) - set visited)"
    using 3 by (intro psubset_card_mono) (auto simp: has_module_def finite_dom_map_of)
  then show ?case by simp
qed simp

definition TransitiveDependencies :: "dependency_graph \<Rightarrow> string \<Rightarrow> string list" where
  "TransitiveDependencies g m = sort (filter (\<lambda>d. d \<noteq> m) (collectDeps g [m] []))"

section \<open>Cycle detection\<close>

text \<open>
  The depth-first search with its call stack written out: a frame is a node with the dependencies it
  has not looked at. The nodes of the stack are the gray ones, and each was pushed by the frame
  below it, so the stack is also the chain of the parent map that the reported path follows.
\<close>

type_synonym frame = "string \<times> string list"

fun upto_node :: "string \<Rightarrow> string list \<Rightarrow> string list" where
  "upto_node d [] = []"
| "upto_node d (n # ns) = (if n = d then [n] else n # upto_node d ns)"

function dfs :: "dependency_graph \<Rightarrow> string list \<Rightarrow> frame list \<Rightarrow> string list + string list" where
  "dfs g black [] = Inr black"
| "dfs g black ((n, []) # st) = dfs g (n # black) st"
| "dfs g black ((n, d # ds) # st) =
     (if \<not> has_module g d then dfs g black ((n, ds) # st)
      else if d \<in> fst ` set ((n, ds) # st) then Inl (rev (d # upto_node d (map fst ((n, ds) # st))))
      else if d \<in> set black then dfs g black ((n, ds) # st)
      else dfs g black ((d, deps_of (gr_edges g) d) # (n, ds) # st))"
  by pat_completeness auto
termination
proof (relation "measures [\<lambda>(g, black, st). card (dom (map_of (gr_modules g)) - set black - fst ` set st),
      \<lambda>(g, black, st). (\<Sum>f \<leftarrow> st. Suc (length (snd f)))]", goal_cases)
  case (2 g black n st)
  have "dom (map_of (gr_modules g)) - set (n # black) - fst ` set st =
      dom (map_of (gr_modules g)) - set black - fst ` set ((n, []) # st)" by auto
  then show ?case by simp
next
  case (5 g black n d ds st)
  let ?M = "dom (map_of (gr_modules g))"
  have "card (?M - set black - fst ` set ((d, deps_of (gr_edges g) d) # (n, ds) # st)) <
      card (?M - set black - fst ` set ((n, d # ds) # st))"
  proof (rule psubset_card_mono)
    show "finite (?M - set black - fst ` set ((n, d # ds) # st))"
      by (simp add: finite_dom_map_of)
    show "?M - set black - fst ` set ((d, deps_of (gr_edges g) d) # (n, ds) # st) \<subset>
        ?M - set black - fst ` set ((n, d # ds) # st)"
      using 5 by (auto simp: has_module_def)
  qed
  then show ?case by simp
qed simp_all

fun cycle_from :: "dependency_graph \<Rightarrow> string list \<Rightarrow> string list \<Rightarrow> string list option" where
  "cycle_from g black [] = None"
| "cycle_from g black (n # ns) =
     (if n \<in> set black then cycle_from g black ns
      else case dfs g black [(n, deps_of (gr_edges g) n)] of
        Inl cycle \<Rightarrow> Some cycle
      | Inr black' \<Rightarrow> cycle_from g black' ns)"

definition detectCycle :: "dependency_graph \<Rightarrow> string list option" where
  "detectCycle g = cycle_from g [] (sort (map fst (gr_modules g)))"

section \<open>Validation\<close>

datatype graph_problem = MissingModule string | MissingCapability string string | CircularDependency "string list"

definition provides_capability :: "module_contract \<Rightarrow> string \<Rightarrow> bool" where
  "provides_capability mc c = (case mc_provides mc of None \<Rightarrow> False | Some caps \<Rightarrow> map_of caps c = Some True)"

definition check_dependency :: "dependency_graph \<Rightarrow> string \<Rightarrow> string \<Rightarrow> (string \<times> graph_problem) list" where
  "check_dependency g name dep =
     (case map_of (gr_modules g) dep of
        None \<Rightarrow> [(name, MissingModule dep)]
      | Some dm \<Rightarrow>
         (case Option.bind (map_of (gr_modules g) name) mc_requires of
            None \<Rightarrow> []
          | Some svs \<Rightarrow>
             (case map_of svs dep of
                None \<Rightarrow> []
              | Some rq \<Rightarrow>
                  if rq_optional rq then []
                  else map (\<lambda>c. (name, MissingCapability c dep))
                         (filter (\<lambda>c. \<not> provides_capability dm c) (rq_provides rq)))))"

text \<open>\<open>edges\<close> is the order in which the map of edges is ranged over.\<close>

definition Validate :: "(string \<times> string list) list \<Rightarrow> dependency_graph \<Rightarrow> (string \<times> graph_problem) list" where
  "Validate edges g =
     concat (map (\<lambda>(name, ds). concat (map (check_dependency g name) ds)) edges) @
     (case detectCycle g of None \<Rightarrow> [] | Some cycle \<Rightarrow> [(hd cycle, CircularDependency cycle)])"

section \<open>The sorted order\<close>

definition modules :: "dependency_graph \<Rightarrow> string set" where
  "modules g = fst ` set (gr_modules g)"

text \<open>The dependencies of a module that exist.\<close>

definition needs :: "dependency_graph \<Rightarrow> string \<Rightarrow> string set" where
  "needs g n = set (deps_of (gr_edges g) n) \<inter> modules g"

definition well_formed :: "dependency_graph \<Rightarrow> bool" where
  "well_formed g \<longleftrightarrow> distinct (map fst (gr_modules g)) \<and> distinct (map fst (gr_edges g)) \<and>
     fst ` set (gr_edges g) \<subseteq> modules g \<and> (\<forall>(n, ds) \<in> set (gr_edges g). distinct ds)"

definition ready :: "dependency_graph \<Rightarrow> string list \<Rightarrow> string set" where
  "ready g done = {n \<in> modules g. n \<notin> set done \<and> needs g n \<subseteq> set done}"

text \<open>
  The reference: the next module is always the least one, in the order of strings, whose existing
  dependencies are placed, until none is ready.
\<close>

definition least_order :: "dependency_graph \<Rightarrow> string list \<Rightarrow> bool" where
  "least_order g xs \<longleftrightarrow>
     (\<forall>i < length xs. xs ! i \<in> ready g (take i xs) \<and> (\<forall>n \<in> ready g (take i xs). xs ! i \<le> n)) \<and> ready g xs = {}"

lemma has_module_iff: "has_module g n \<longleftrightarrow> n \<in> modules g"
  by (metis has_module_def map_of_eq_None_iff modules_def)

lemma finite_modules [simp]: "finite (modules g)"
  by (simp add: modules_def)

lemma finite_needs [simp]: "finite (needs g n)"
  by (simp add: needs_def)

lemma finite_ready [simp]: "finite (ready g xs)"
  by (simp add: ready_def)

text \<open>The reference determines the order.\<close>

lemma least_order_unique:
  assumes "least_order g xs" and "least_order g ys"
  shows "xs = ys"
proof -
  have same: "take i xs = take i ys" if "i \<le> length xs" "i \<le> length ys" for i
    using that
  proof (induction i)
    case (Suc i)
    then have t: "take i xs = take i ys" and i: "i < length xs" "i < length ys" by auto
    have "xs ! i \<in> ready g (take i xs)" "\<forall>n \<in> ready g (take i xs). xs ! i \<le> n"
      "ys ! i \<in> ready g (take i ys)" "\<forall>n \<in> ready g (take i ys). ys ! i \<le> n"
      using assms i unfolding least_order_def by blast+
    then have "xs ! i = ys ! i" using t by (auto intro: antisym)
    with t i show ?case by (simp add: take_Suc_conv_app_nth)
  qed simp
  have "\<not> length xs < length ys" "\<not> length ys < length xs"
    using same [of "length xs"] same [of "length ys"] assms unfolding least_order_def
    by (metis empty_iff le_refl less_imp_le take_all)+
  then show ?thesis
    using same [of "length xs"] by simp
qed

text \<open>One round over the edges.\<close>

lemma relax_deps_absent: "node \<notin> set ds \<Longrightarrow> relax_deps node name ds s = s"
  by (induction node name ds s rule: relax_deps.induct) auto

lemma relax_deps_distinct:
  "distinct ds \<Longrightarrow> relax_deps node name ds (deg, q) =
     (if node \<in> set ds
      then (AList.update name (deg_of deg name - 1) deg, if deg_of deg name = 1 then sort (q @ [name]) else q)
      else (deg, q))"
proof (induction ds arbitrary: deg q)
  case (Cons d ds)
  then show ?case
    by (cases "d = node") (auto simp: Let_def relax_deps_absent)
qed simp

definition pushed :: "string \<Rightarrow> (string \<times> string list) list \<Rightarrow> degrees \<Rightarrow> string set" where
  "pushed node es deg = {n. deg_of deg n = 1 \<and> (\<exists>ds. (n, ds) \<in> set es \<and> node \<in> set ds)}"

lemma sort_insert: "finite R \<Longrightarrow> x \<notin> R \<Longrightarrow> sort (sorted_list_of_set R @ [x]) = sorted_list_of_set (insert x R)"
  by (rule sorted_distinct_set_unique) (simp_all del: sorted_list_of_set_insert_remove sorted_list_of_set_insert)

lemma relax_edges_degrees:
  "distinct (map fst es) \<Longrightarrow> \<forall>(n, ds) \<in> set es. distinct ds \<Longrightarrow>
     deg_of (fst (relax_edges node es (deg, q))) n =
       deg_of deg n - (if \<exists>ds. (n, ds) \<in> set es \<and> node \<in> set ds then 1 else 0)"
proof (induction es arbitrary: deg q)
  case (Cons e es)
  obtain name ds where e: "e = (name, ds)" by fastforce
  have "\<And>ds'. (name, ds') \<notin> set es"
    using Cons.prems(1) by (force simp: e)
  with Cons show ?case
    by (cases "n = name") (auto simp: e relax_deps_distinct)
qed simp

lemma relax_edges_queue:
  "distinct (map fst es) \<Longrightarrow> \<forall>(n, ds) \<in> set es. distinct ds \<Longrightarrow> finite R \<Longrightarrow> \<forall>n \<in> R. deg_of deg n \<le> 0 \<Longrightarrow>
     snd (relax_edges node es (deg, sorted_list_of_set R)) = sorted_list_of_set (R \<union> pushed node es deg)"
proof (induction es arbitrary: deg R)
  case (Cons e es)
  obtain name ds where e: "e = (name, ds)" by fastforce
  have fresh: "\<And>ds'. (name, ds') \<notin> set es"
    using Cons.prems(1) by (force simp: e)
  have ih: "snd (relax_edges node es (deg', sorted_list_of_set R')) = sorted_list_of_set (R' \<union> pushed node es deg')"
    if "finite R'" "\<forall>n \<in> R'. deg_of deg' n \<le> 0" for deg' R'
    using Cons.IH [OF _ _ that] Cons.prems(1,2) by (simp add: e)
  show ?case
  proof (cases "node \<in> set ds")
    case False
    then have "pushed node (e # es) deg = pushed node es deg"
      by (auto simp: pushed_def e)
    with False ih [OF Cons.prems(3,4)] show ?thesis
      by (simp add: e relax_deps_absent)
  next
    case True
    let ?deg = "AList.update name (deg_of deg name - 1) deg"
      and ?R = "R \<union> (if deg_of deg name = 1 then {name} else {})"
    have "distinct ds" using Cons.prems(2) by (simp add: e)
    note r = relax_deps_distinct [OF this, of node name deg "sorted_list_of_set R"]
    have "name \<notin> R" if "deg_of deg name = 1"
      using that Cons.prems(4) by auto
    then have "relax_deps node name ds (deg, sorted_list_of_set R) = (?deg, sorted_list_of_set ?R)"
      using r True Cons.prems(3) by (simp add: sort_insert)
    moreover have "deg_of ?deg n \<le> 0" if "n \<in> ?R" for n
    proof (cases "n \<in> R")
      case True
      then have "deg_of deg n \<le> 0" using Cons.prems(4) by blast
      then show ?thesis by auto
    next
      case False
      with that show ?thesis by (simp split: if_splits)
    qed
    moreover have "?R \<union> pushed node es ?deg = R \<union> pushed node (e # es) deg"
      using fresh True by (auto simp: pushed_def e)
    ultimately show ?thesis
      using ih [of ?R ?deg] Cons.prems(3) by (simp add: e)
  qed
qed (simp add: pushed_def)

text \<open>What holds at the head of the loop.\<close>

definition placed_well :: "dependency_graph \<Rightarrow> string list \<Rightarrow> bool" where
  "placed_well g xs \<longleftrightarrow>
     (\<forall>i < length xs. xs ! i \<in> ready g (take i xs) \<and> (\<forall>n \<in> ready g (take i xs). xs ! i \<le> n))"

lemma least_order_iff: "least_order g xs \<longleftrightarrow> placed_well g xs \<and> ready g xs = {}"
  by (simp add: least_order_def placed_well_def)

lemma placed_well_Nil [simp]: "placed_well g []"
  by (simp add: placed_well_def)

lemma placed_well_snoc:
  "placed_well g (xs @ [x]) \<longleftrightarrow> placed_well g xs \<and> x \<in> ready g xs \<and> (\<forall>n \<in> ready g xs. x \<le> n)"
proof -
  have "(\<forall>i < length (xs @ [x]). P i) \<longleftrightarrow> (\<forall>i < length xs. P i) \<and> P (length xs)" for P
    by (auto simp: less_Suc_eq)
  then show ?thesis by (auto simp: placed_well_def nth_append)
qed

lemma placed_well_closed:
  "placed_well g xs \<Longrightarrow> distinct xs \<and> set xs \<subseteq> modules g \<and> (\<forall>n \<in> set xs. needs g n \<subseteq> set xs)"
proof (induction xs rule: rev_induct)
  case (snoc x xs)
  then have "placed_well g xs" "x \<in> ready g xs" by (simp_all add: placed_well_snoc)
  with snoc.IH show ?case by (auto simp: ready_def)
qed simp

definition loop_inv :: "dependency_graph \<Rightarrow> degrees \<Rightarrow> string list \<Rightarrow> string list \<Rightarrow> bool" where
  "loop_inv g deg q done \<longleftrightarrow> placed_well g done \<and>
     (\<forall>n \<in> modules g. deg_of deg n = int (card (needs g n - set done))) \<and> q = sorted_list_of_set (ready g done)"

lemma deps_of_edge:
  "distinct (map fst es) \<Longrightarrow> (n, ds) \<in> set es \<Longrightarrow> deps_of es n = ds"
  by (simp add: deps_of_def)

lemma edge_of_deps: "d \<in> set (deps_of es n) \<Longrightarrow> (n, deps_of es n) \<in> set es"
  by (auto simp: deps_of_def dest: map_of_SomeD split: option.splits)

lemma depends_edge:
  assumes "well_formed g" "mset es = mset (gr_edges g)"
  shows "(\<exists>ds. (n, ds) \<in> set es \<and> d \<in> set ds) \<longleftrightarrow> d \<in> set (deps_of (gr_edges g) n)"
proof -
  have "set es = set (gr_edges g)" using assms(2) by (metis set_mset_mset)
  then show ?thesis
    using assms(1) edge_of_deps [of d "gr_edges g" n] deps_of_edge [of "gr_edges g" n]
    by (auto simp: well_formed_def)
qed

lemma edge_in_modules: "well_formed g \<Longrightarrow> d \<in> set (deps_of (gr_edges g) n) \<Longrightarrow> n \<in> modules g"
  using edge_of_deps [of d "gr_edges g" n] by (force simp: well_formed_def)

lemma ready_step:
  assumes wf: "well_formed g" and es: "mset es = mset (gr_edges g)"
    and inv: "loop_inv g deg (node # q) done"
  shows "ready g (done @ [node]) = (ready g done - {node}) \<union> pushed node es deg"
proof -
  have don: "placed_well g done" and deg: "n \<in> modules g \<Longrightarrow> deg_of deg n = int (card (needs g n - set done))" for n
    using inv by (auto simp: loop_inv_def)
  have node: "node \<in> ready g done"
  proof -
    have "node \<in> set (sorted_list_of_set (ready g done))"
      using inv by (metis list.set_intros(1) loop_inv_def)
    then show ?thesis by simp
  qed
  have pushed: "n \<in> pushed node es deg \<longleftrightarrow> n \<in> modules g \<and> node \<in> needs g n \<and> card (needs g n - set done) = 1" for n
    using depends_edge [OF wf es] edge_in_modules [OF wf] deg [of n] node
    by (auto simp: pushed_def needs_def ready_def)
  have one: "needs g n - set done = {node}" if "node \<in> needs g n" "card (needs g n - set done) = 1" for n
  proof -
    have "node \<in> needs g n - set done" using that(1) node by (auto simp: ready_def)
    with that(2) show ?thesis by (metis card_1_singletonE singletonD)
  qed
  have closed: "n \<in> set done \<Longrightarrow> needs g n \<subseteq> set done" for n
    using placed_well_closed [OF don] by blast
  show ?thesis
  proof (intro set_eqI iffI)
    fix n assume n: "n \<in> ready g (done @ [node])"
    show "n \<in> (ready g done - {node}) \<union> pushed node es deg"
    proof (cases "node \<in> needs g n")
      case True
      then have "needs g n - set done = {node}" using n node by (auto simp: ready_def)
      with True n show ?thesis by (simp add: pushed ready_def)
    next
      case False
      with n show ?thesis by (auto simp: ready_def)
    qed
  next
    fix n assume n: "n \<in> (ready g done - {node}) \<union> pushed node es deg"
    show "n \<in> ready g (done @ [node])"
    proof (cases "n \<in> pushed node es deg")
      case True
      then have "needs g n - set done = {node}" using one by (simp add: pushed)
      moreover from this have "n \<noteq> node" "n \<notin> set done" using closed [of n] node by (auto simp: ready_def)
      ultimately show ?thesis using True by (auto simp: ready_def pushed)
    next
      case False
      with n show ?thesis by (auto simp: ready_def)
    qed
  qed
qed

lemma loop_step:
  assumes wf: "well_formed g" and es: "mset es = mset (gr_edges g)"
    and inv: "loop_inv g deg (node # q) done"
    and step: "relax_edges node es (deg, q) = (deg', q')"
  shows "loop_inv g deg' q' (done @ [node])"
proof -
  let ?R = "ready g done"
  have sorted: "node # q = sorted_list_of_set ?R" and pw: "placed_well g done"
    and deg: "\<And>n. n \<in> modules g \<Longrightarrow> deg_of deg n = int (card (needs g n - set done))"
    using inv by (auto simp: loop_inv_def)
  have "set (node # q) = ?R" "sorted (node # q)" "distinct (node # q)"
    unfolding sorted by simp_all
  then have R: "?R = insert node (set q)" and least: "\<forall>n \<in> set q. node \<le> n" and q: "node \<notin> set q" "sorted q" "distinct q"
    by auto
  have es_ok: "distinct (map fst es)" "\<forall>(n, ds) \<in> set es. distinct ds"
  proof -
    have "mset (map fst es) = mset (map fst (gr_edges g))" using es by simp
    with wf show "distinct (map fst es)" by (metis well_formed_def mset_eq_imp_distinct_iff)
    have "set es = set (gr_edges g)" using es by (metis set_mset_mset)
    with wf show "\<forall>(n, ds) \<in> set es. distinct ds" by (simp add: well_formed_def)
  qed
  have qR: "q = sorted_list_of_set (?R - {node})"
    using q R by (metis Diff_insert_absorb sorted_list_of_set.idem_if_sorted_distinct)
  have zero: "\<forall>n \<in> ?R - {node}. deg_of deg n \<le> 0"
    using deg by (auto simp: ready_def)
  have q': "q' = sorted_list_of_set (ready g (done @ [node]))"
    using relax_edges_queue [OF es_ok, of "?R - {node}" deg node] zero step ready_step [OF wf es inv]
    by (simp flip: qR)
  have deg': "deg_of deg' n = int (card (needs g n - set (done @ [node])))" if n: "n \<in> modules g" for n
  proof -
    have node: "node \<in> modules g" "node \<notin> set done" using R by (auto simp: ready_def)
    have "deg_of deg' n = deg_of deg n - (if node \<in> set (deps_of (gr_edges g) n) then 1 else 0)"
      using relax_edges_degrees [OF es_ok, of node deg q n] step depends_edge [OF wf es, of n node] by simp
    moreover have "node \<in> set (deps_of (gr_edges g) n) \<longleftrightarrow> node \<in> needs g n - set done"
      using node by (simp add: needs_def)
    moreover have "needs g n - set (done @ [node]) = (needs g n - set done) - {node}" by auto
    moreover have "int (card ((needs g n - set done) - {node})) = int (card (needs g n - set done)) - 1"
      if "node \<in> needs g n - set done"
      using that card_Suc_Diff1 [of "needs g n - set done" node] by simp
    ultimately show ?thesis using deg [OF n] by auto
  qed
  have "placed_well g (done @ [node])"
    using pw R least by (auto simp: placed_well_snoc)
  with q' deg' show ?thesis by (simp add: loop_inv_def)
qed

lemma kahn_least:
  assumes "well_formed g" "\<forall>xs. mset (order xs) = mset (gr_edges g)" "loop_inv g deg q done"
  shows "least_order g (kahn order deg q done)"
  using assms
proof (induction order deg q "done" rule: kahn.induct)
  case (1 order deg don)
  have "sorted_list_of_set (ready g don) = []" using 1(3) by (metis loop_inv_def)
  then have "ready g don = {}" by simp
  with 1 show ?case by (simp add: least_order_iff loop_inv_def)
next
  case (2 order deg node q don)
  obtain deg' q' where r: "relax_edges node (order (don @ [node])) (deg, q) = (deg', q')"
    by fastforce
  have "loop_inv g deg' q' (don @ [node])"
    using loop_step [OF 2(2) _ 2(4) r] 2(3) by blast
  with 2 r show ?case by simp
qed

lemma initial_degrees_keys:
  assumes "well_formed g"
  shows "map fst (initial_degrees g) = map fst (gr_modules g)"
proof -
  have "map fst (fold (\<lambda>(n, ds). AList.update n (f ds)) es m) = map fst m"
    if "fst ` set es \<subseteq> fst ` set m" for es :: "(string \<times> string list) list" and m :: degrees and f
    using that
  proof (induction es arbitrary: m)
    case (Cons e es)
    then have k: "map fst (AList.update (fst e) (f (snd e)) m) = map fst m"
      by (auto simp: AList.update_keys)
    have "set (map fst (AList.update (fst e) (f (snd e)) m)) = set (map fst m)"
      by (simp only: k)
    then have "fst ` set (AList.update (fst e) (f (snd e)) m) = fst ` set m" by simp
    with Cons k show ?case by (simp add: case_prod_beta)
  qed simp
  note this [of "gr_edges g" "map (\<lambda>(n, _). (n, 0)) (gr_modules g)"
      "\<lambda>ds. int (length (filter (has_module g) ds))"]
  moreover have "fst ` set (gr_edges g) \<subseteq> fst ` set (map (\<lambda>(n, _). (n, 0 :: int)) (gr_modules g))"
    using assms by (force simp: well_formed_def modules_def)
  ultimately show ?thesis
    by (simp add: initial_degrees_def comp_def case_prod_beta)
qed

lemma initial_degrees_of:
  assumes wf: "well_formed g" and n: "n \<in> modules g"
  shows "deg_of (initial_degrees g) n = int (card (needs g n))"
proof -
  define f where "f = (\<lambda>ds. int (length (filter (has_module g) ds)))"
  have fold: "deg_of (fold (\<lambda>(n, ds). AList.update n (f ds)) es m) n =
      (case map_of es n of None \<Rightarrow> deg_of m n | Some ds \<Rightarrow> f ds)"
    if "distinct (map fst es)" for es :: "(string \<times> string list) list" and m
    using that
  proof (induction es arbitrary: m)
    case (Cons e es)
    have "map_of es (fst e) = None"
      using Cons.prems by (simp add: map_of_eq_None_iff)
    with Cons show ?case by (auto simp: case_prod_beta split: option.splits)
  qed simp
  have "deg_of (map (\<lambda>(n, _). (n, 0)) (gr_modules g)) n = 0"
    by (auto simp: deg_of_def split: option.splits dest!: map_of_SomeD)
  moreover have "f ds = int (card (needs g n))" if "map_of (gr_edges g) n = Some ds" for ds
  proof -
    have "distinct ds" using that wf by (auto simp: well_formed_def dest: map_of_SomeD)
    then have "length (filter (has_module g) ds) = card (set (filter (has_module g) ds))"
      by (simp only: distinct_filter distinct_card)
    also have "set (filter (has_module g) ds) = needs g n"
      using that by (auto simp: needs_def deps_of_def has_module_iff)
    finally show ?thesis by (simp add: f_def)
  qed
  moreover have "needs g n = {}" if "map_of (gr_edges g) n = None"
    using that by (simp add: needs_def deps_of_def)
  ultimately show ?thesis
    using fold [of "gr_edges g" "map (\<lambda>(n, _). (n, 0)) (gr_modules g)"] wf
    by (auto simp: initial_degrees_def well_formed_def f_def split: option.splits)
qed

lemma initial_inv:
  assumes wf: "well_formed g"
  shows "loop_inv g (initial_degrees g) (sort (filter (\<lambda>n. deg_of (initial_degrees g) n = 0) (map fst (initial_degrees g)))) []"
proof -
  let ?q = "filter (\<lambda>n. deg_of (initial_degrees g) n = 0) (map fst (initial_degrees g))"
  have "distinct ?q"
    using wf by (simp add: initial_degrees_keys well_formed_def)
  moreover have "deg_of (initial_degrees g) n = 0 \<longleftrightarrow> needs g n = {}" if "n \<in> modules g" for n
    using initial_degrees_of [OF wf that] by simp
  then have "set ?q = ready g []"
    unfolding initial_degrees_keys [OF wf] set_filter set_map ready_def modules_def [symmetric] by auto
  ultimately have "sort ?q = sorted_list_of_set (ready g [])"
    by (metis sorted_list_of_set_sort_remdups distinct_remdups_id)
  then show ?thesis
    using initial_degrees_of [OF wf] by (simp add: loop_inv_def)
qed

lemma TopologicalSort_least:
  assumes "well_formed g" "\<forall>xs. mset (order xs) = mset (gr_edges g)"
  obtains xs where "least_order g xs"
    and "TopologicalSort order g =
      (if length xs = length (gr_modules g) then Inr xs else Inl (DependencyCycle (length xs) (length (gr_modules g))))"
  using kahn_least [OF assms initial_inv [OF assms(1)]] that by (simp add: TopologicalSort_def Let_def)

text \<open>The relation of a module to its existing dependencies.\<close>

definition dep_rel :: "dependency_graph \<Rightarrow> (string \<times> string) set" where
  "dep_rel g = {(n, d). n \<in> modules g \<and> d \<in> needs g n}"

text \<open>A list, latest first, in which every module comes after its dependencies.\<close>

fun ranked :: "dependency_graph \<Rightarrow> string list \<Rightarrow> bool" where
  "ranked g [] \<longleftrightarrow> True"
| "ranked g (n # ns) \<longleftrightarrow> n \<notin> set ns \<and> needs g n \<subseteq> set ns \<and> ranked g ns"

lemma ranked_before:
  "ranked g xs \<Longrightarrow> n \<in> set xs \<Longrightarrow> d \<in> needs g n \<Longrightarrow>
     d \<in> set xs \<and> length (takeWhile (\<lambda>x. x \<noteq> n) xs) < length (takeWhile (\<lambda>x. x \<noteq> d) xs)"
  by (induction xs) auto

lemma ranked_acyclic:
  assumes "ranked g xs" "modules g \<subseteq> set xs"
  shows "acyclic (dep_rel g)"
proof (rule acyclicI_order)
  fix a b assume "(a, b) \<in> dep_rel g"
  with assms have "length (takeWhile (\<lambda>x. x \<noteq> a) xs) < length (takeWhile (\<lambda>x. x \<noteq> b) xs)"
    using ranked_before [of g xs a b] by (auto simp: dep_rel_def)
  then show "- int (length (takeWhile (\<lambda>x. x \<noteq> b) xs)) < - int (length (takeWhile (\<lambda>x. x \<noteq> a) xs))"
    by simp
qed

lemma placed_ranked: "placed_well g xs \<Longrightarrow> ranked g (rev xs)"
  by (induction xs rule: rev_induct) (auto simp: placed_well_snoc ready_def)

lemma finite_dep_rel: "finite (dep_rel g)"
  by (rule finite_subset [of _ "modules g \<times> modules g"]) (auto simp: dep_rel_def needs_def)

lemma least_order_complete:
  assumes least: "least_order g xs"
  shows "set xs = modules g \<longleftrightarrow> acyclic (dep_rel g)"
proof
  assume "set xs = modules g"
  with least show "acyclic (dep_rel g)"
    using ranked_acyclic [of g "rev xs"] placed_ranked [of g xs] by (simp add: least_order_iff)
next
  assume "acyclic (dep_rel g)"
  then have wf: "wf ((dep_rel g)\<inverse>)"
    by (simp add: finite_acyclic_wf_converse finite_dep_rel)
  have sub: "set xs \<subseteq> modules g" using least placed_well_closed by (auto simp: least_order_iff)
  have "modules g \<subseteq> set xs"
  proof (rule ccontr)
    assume "\<not> modules g \<subseteq> set xs"
    then obtain n where n: "n \<in> modules g - set xs"
      and min: "\<And>d. (n, d) \<in> dep_rel g \<Longrightarrow> d \<notin> modules g - set xs"
      using wfE_min [OF wf, of _ "modules g - set xs"] by (metis converse_iff subsetI DiffI)
    then have "n \<in> ready g xs"
      by (auto simp: ready_def dep_rel_def needs_def)
    with least show False by (simp add: least_order_iff)
  qed
  with sub show "set xs = modules g" by blast
qed

lemma least_order_full: "well_formed g \<Longrightarrow> least_order g xs \<Longrightarrow> length xs = length (gr_modules g) \<longleftrightarrow> set xs = modules g"
proof -
  assume wf: "well_formed g" and least: "least_order g xs"
  have "card (modules g) = length (gr_modules g)"
    using wf by (metis well_formed_def distinct_card length_map modules_def set_map)
  moreover have "distinct xs" "set xs \<subseteq> modules g"
    using least placed_well_closed by (auto simp: least_order_iff)
  ultimately show ?thesis
    by (metis card_subset_eq distinct_card finite_modules)
qed

section \<open>Cycle detection\<close>

definition is_cycle :: "dependency_graph \<Rightarrow> string list \<Rightarrow> bool" where
  "is_cycle g c \<longleftrightarrow> length c \<ge> 2 \<and> hd c = last c \<and> successively (\<lambda>n d. d \<in> needs g n) c"

fun frames_ok :: "dependency_graph \<Rightarrow> string list \<Rightarrow> string set \<Rightarrow> frame list \<Rightarrow> bool" where
  "frames_ok g black child [] \<longleftrightarrow> True"
| "frames_ok g black child ((n, ds) # st) \<longleftrightarrow>
     n \<in> modules g \<and> n \<notin> set black \<and> n \<notin> fst ` set st \<and> needs g n \<subseteq> set black \<union> set ds \<union> child \<and>
     set ds \<subseteq> set (deps_of (gr_edges g) n) \<and> (\<forall>c \<in> child. c \<in> needs g n) \<and> frames_ok g black {n} st"

lemma frames_ok_black:
  "frames_ok g black {n} st \<Longrightarrow> n \<notin> fst ` set st \<Longrightarrow> frames_ok g (n # black) {} st"
proof (cases st)
  case (Cons f st')
  assume ok: "frames_ok g black {n} st" and n: "n \<notin> fst ` set st"
  have mono: "frames_ok g black child st \<Longrightarrow> n \<notin> fst ` set st \<Longrightarrow> frames_ok g (n # black) child st" for child st
    by (induction g black child st rule: frames_ok.induct) auto
  obtain m ds where f: "f = (m, ds)" by fastforce
  have "frames_ok g (n # black) {m} st'"
    using mono [of "{m}" st'] ok n Cons f by auto
  with ok n Cons f show ?thesis by auto
qed simp

lemma frames_ok_chain:
  "frames_ok g black child st \<Longrightarrow> successively (\<lambda>d n. d \<in> needs g n) (map fst st)"
proof (induction g black child st rule: frames_ok.induct)
  case (2 g black child n ds st)
  then show ?case by (cases st) auto
qed simp

lemma upto_node_successively: "successively P ns \<Longrightarrow> successively P (upto_node d ns)"
proof (induction ns rule: induct_list012)
  case (3 x y ys)
  then show ?case by (cases "upto_node d (y # ys)") (auto split: if_splits)
qed auto

lemma upto_node_hd [simp]: "ns \<noteq> [] \<Longrightarrow> upto_node d ns \<noteq> [] \<and> hd (upto_node d ns) = hd ns"
  by (cases ns) auto

lemma upto_node_last: "d \<in> set ns \<Longrightarrow> last (upto_node d ns) = d"
proof (induction ns)
  case (Cons x ns)
  then show ?case by (cases ns) auto
qed simp

lemma stack_cycle:
  assumes ok: "frames_ok g black {} ((n, d # ds) # st)" and d: "has_module g d" "d \<in> fst ` set ((n, ds) # st)"
  shows "is_cycle g (rev (d # upto_node d (map fst ((n, ds) # st))))"
proof -
  let ?ns = "map fst ((n, ds) # st)"
  let ?u = "upto_node d ?ns"
  have "successively (\<lambda>d n. d \<in> needs g n) ?ns"
    using frames_ok_chain [OF ok] by simp
  then have u: "successively (\<lambda>d n. d \<in> needs g n) ?u" by (rule upto_node_successively)
  have hd: "hd ?u = n" "?u \<noteq> []" using upto_node_hd [of ?ns d] by simp_all
  have "d \<in> set ?ns" using d(2) by auto
  then have last: "last ?u = d" by (rule upto_node_last)
  have "d \<in> needs g n" using ok d(1) by (auto simp: needs_def has_module_iff)
  then have "successively (\<lambda>d n. d \<in> needs g n) (d # ?u)"
    using u hd by (cases ?u) (auto simp: successively_Cons)
  then have "successively (\<lambda>n d. d \<in> needs g n) (rev (d # ?u))"
    by (simp only: successively_rev)
  moreover have "length (rev (d # ?u)) \<ge> 2" using hd(2) by (cases ?u) auto
  moreover have "hd (rev (d # ?u)) = last (rev (d # ?u))"
    using last hd(2) by (simp add: hd_rev)
  ultimately show ?thesis unfolding is_cycle_def by blast
qed

lemma dfs_correct:
  "frames_ok g black {} st \<Longrightarrow> ranked g black \<Longrightarrow>
     (case dfs g black st of
        Inl c \<Rightarrow> is_cycle g c
      | Inr black' \<Rightarrow> ranked g black' \<and> set black \<union> fst ` set st \<subseteq> set black')"
proof (induction g black st rule: dfs.induct)
  case (2 g black n st)
  then have "frames_ok g (n # black) {} st" "ranked g (n # black)"
    using frames_ok_black [of g black n st] by auto
  with 2(1) show ?case by (auto split: sum.splits)
next
  case (3 g black n d ds st)
  show ?case
  proof (cases "has_module g d")
    case False
    then have "d \<notin> needs g n" by (simp add: needs_def has_module_iff)
    then have "frames_ok g black {} ((n, ds) # st)" using 3(4) by auto
    with 3(1) 3(5) False show ?thesis by (auto split: sum.splits)
  next
    case True
    then have needed: "d \<in> needs g n" using 3(4) by (auto simp: needs_def has_module_iff)
    consider "d \<in> fst ` set ((n, ds) # st)" | "d \<notin> fst ` set ((n, ds) # st)" "d \<in> set black"
      | "d \<notin> fst ` set ((n, ds) # st)" "d \<notin> set black" by blast
    then show ?thesis
    proof cases
      case 1
      then show ?thesis using stack_cycle [OF 3(4) True 1] True by simp
    next
      case 2
      then have "frames_ok g black {} ((n, ds) # st)" using 3(4) by auto
      with 3(2) 3(5) 2 True show ?thesis by (auto split: sum.splits)
    next
      case 3
      note prems = 3
      have "frames_ok g black {} ((d, deps_of (gr_edges g) d) # (n, ds) # st)"
        using \<open>frames_ok g black {} ((n, d # ds) # st)\<close> prems needed True
        by (auto simp: has_module_iff needs_def)
      with \<open>ranked g black\<close> prems True show ?thesis
        using "3.IH"(3) by (auto split: sum.splits)
    qed
  qed
qed simp

lemma cycle_from_correct:
  "set ns \<subseteq> modules g \<Longrightarrow> ranked g black \<Longrightarrow>
     (case cycle_from g black ns of
        Some c \<Rightarrow> is_cycle g c
      | None \<Rightarrow> \<exists>xs. ranked g xs \<and> set black \<union> set ns \<subseteq> set xs)"
proof (induction g black ns rule: cycle_from.induct)
  case (2 g black n ns)
  show ?case
  proof (cases "n \<in> set black")
    case True
    with 2 show ?thesis by (auto split: option.splits)
  next
    case False
    then have "frames_ok g black {} [(n, deps_of (gr_edges g) n)]"
      using 2(3) by (auto simp: needs_def)
    note step = dfs_correct [OF this 2(4)]
    show ?thesis
    proof (cases "dfs g black [(n, deps_of (gr_edges g) n)]")
      case (Inl c)
      with step False show ?thesis by simp
    next
      case (Inr black')
      with step have black': "ranked g black'" "insert n (set black) \<subseteq> set black'" by simp_all
      with 2(2) [OF False Inr] 2(3) have "case cycle_from g black' ns of Some c \<Rightarrow> is_cycle g c
          | None \<Rightarrow> \<exists>xs. ranked g xs \<and> set black' \<union> set ns \<subseteq> set xs" by simp
      with black'(2) False Inr show ?thesis
        by (cases "cycle_from g black' ns") auto
    qed
  qed
qed auto

lemma cycle_not_acyclic:
  assumes "well_formed g" "is_cycle g c"
  shows "\<not> acyclic (dep_rel g)"
proof -
  have step: "(hd xs, last xs) \<in> (dep_rel g)\<^sup>+" if "successively (\<lambda>n d. d \<in> needs g n) xs" "length xs \<ge> 2" for xs
    using that
  proof (induction xs rule: induct_list012)
    case (3 x y ys)
    then have "(x, y) \<in> dep_rel g"
      using edge_in_modules [OF assms(1)] by (auto simp: dep_rel_def needs_def)
    moreover have "(y, last (y # ys)) \<in> (dep_rel g)\<^sup>*"
      using 3 by (cases ys) (auto dest: trancl_into_rtrancl)
    ultimately show ?case by (simp add: rtrancl_into_trancl2)
  qed auto
  show ?thesis
    using step [of c] assms(2) by (metis acyclic_def is_cycle_def)
qed

lemma detectCycle_correct:
  assumes "well_formed g"
  shows "detectCycle g = None \<longleftrightarrow> acyclic (dep_rel g)" and "detectCycle g = Some c \<Longrightarrow> is_cycle g c"
proof -
  have c: "case detectCycle g of Some c \<Rightarrow> is_cycle g c | None \<Rightarrow> \<exists>xs. ranked g xs \<and> modules g \<subseteq> set xs"
    using cycle_from_correct [of "sort (map fst (gr_modules g))" g "[]"]
    by (simp add: detectCycle_def modules_def split: option.splits)
  then show "detectCycle g = Some c \<Longrightarrow> is_cycle g c" by simp
  show "detectCycle g = None \<longleftrightarrow> acyclic (dep_rel g)"
    using c ranked_acyclic [of g] cycle_not_acyclic [OF assms] by (cases "detectCycle g") auto
qed

section \<open>Graphs built from contracts\<close>

definition required_names :: "module_contract \<Rightarrow> string list" where
  "required_names mc = (case mc_requires mc of None \<Rightarrow> [] | Some svs \<Rightarrow> map fst svs)"

text \<open>
  What the maps of the code give: the services a contract requires are the keys of a map, and the
  contracts come from a map keyed by their names.
\<close>

definition contracts_ok :: "module_contract list \<Rightarrow> bool" where
  "contracts_ok cs \<longleftrightarrow> distinct (map mc_name cs) \<and> (\<forall>c \<in> set cs. distinct (required_names c))"

definition built :: "module_contract list \<Rightarrow> dependency_graph \<Rightarrow> bool" where
  "built cs g \<longleftrightarrow> map fst (gr_modules g) = map mc_name cs \<and> distinct (map fst (gr_edges g)) \<and>
     (\<forall>(n, ds) \<in> set (gr_edges g). \<exists>c \<in> set cs. mc_name c = n \<and> ds = sort (required_names c)) \<and>
     (\<forall>c \<in> set cs. map_of (gr_modules g) (mc_name c) = Some c \<and> deps_of (gr_edges g) (mc_name c) = sort (required_names c))"

lemma update_fresh: "k \<notin> fst ` set m \<Longrightarrow> AList.update k v m = m @ [(k, v)]"
  by (induction m) auto

lemma deps_of_update: "deps_of (AList.update k v es) n = (if n = k then v else deps_of es n)"
  by (simp add: deps_of_def AList.update_conv')

lemma add_contract_built:
  assumes "built cs g" "mc_name c \<notin> mc_name ` set cs"
  shows "built (cs @ [c]) (add_contract c g)"
proof -
  have fresh: "mc_name c \<notin> fst ` set (gr_modules g)" "mc_name c \<notin> fst ` set (gr_edges g)"
  proof -
    have "fst ` set (gr_modules g) = mc_name ` set cs"
      using assms(1) unfolding built_def by (metis set_map)
    with assms(2) show "mc_name c \<notin> fst ` set (gr_modules g)" by simp
    show "mc_name c \<notin> fst ` set (gr_edges g)" using assms by (fastforce simp: built_def)
  qed
  then have none: "deps_of (gr_edges g) (mc_name c) = []"
    by (auto simp: deps_of_def split: option.splits dest!: map_of_SomeD) force
  have other: "c' \<in> set cs \<Longrightarrow> mc_name c' \<noteq> mc_name c" for c'
    using assms(2) by (metis imageI)
  have mods: "gr_modules (add_contract c g) = gr_modules g @ [(mc_name c, c)]"
    using fresh by (simp add: add_contract_def update_fresh Let_def split: option.splits)
  have edges: "gr_edges (add_contract c g) = gr_edges g @
      (if required_names c = [] then [] else [(mc_name c, sort (required_names c))])"
    using fresh none by (auto simp: add_contract_def required_names_def update_fresh Let_def split: option.splits)
  have deps: "deps_of (gr_edges (add_contract c g)) n =
      (if n = mc_name c then sort (required_names c) else deps_of (gr_edges g) n)" for n
    using deps_of_update [of "mc_name c" "sort (required_names c)" "gr_edges g" n] fresh none
    by (auto simp: edges update_fresh)
  have "map_of (gr_modules g) (mc_name c) = None" using fresh by (simp add: map_of_eq_None_iff)
  then have find: "map_of (gr_modules (add_contract c g)) n =
      (if n = mc_name c then Some c else map_of (gr_modules g) n)" for n
    by (auto simp: mods map_add_def split: option.splits)
  from assms(1) have old: "map fst (gr_modules g) = map mc_name cs" "distinct (map fst (gr_edges g))"
    "\<forall>(n, ds) \<in> set (gr_edges g). \<exists>c \<in> set cs. mc_name c = n \<and> ds = sort (required_names c)"
    "\<forall>c \<in> set cs. map_of (gr_modules g) (mc_name c) = Some c \<and> deps_of (gr_edges g) (mc_name c) = sort (required_names c)"
    unfolding built_def by blast+
  show ?thesis
    unfolding built_def
  proof (intro conjI)
    show "map fst (gr_modules (add_contract c g)) = map mc_name (cs @ [c])"
      using old(1) by (simp add: mods)
    show "distinct (map fst (gr_edges (add_contract c g)))"
      using old(2) fresh(2) by (simp add: edges)
    show "\<forall>(n, ds) \<in> set (gr_edges (add_contract c g)). \<exists>c \<in> set (cs @ [c]). mc_name c = n \<and> ds = sort (required_names c)"
      using old(3) by (fastforce simp: edges split: if_splits)
    show "\<forall>c' \<in> set (cs @ [c]). map_of (gr_modules (add_contract c g)) (mc_name c') = Some c' \<and>
        deps_of (gr_edges (add_contract c g)) (mc_name c') = sort (required_names c')"
      using old(4) other by (simp add: find deps)
  qed
qed

lemma BuildGraph_built: "distinct (map mc_name cs) \<Longrightarrow> built cs (BuildGraph cs)"
proof (induction cs rule: rev_induct)
  case Nil
  show ?case by (simp add: built_def BuildGraph_def)
next
  case (snoc c cs)
  then have "built (cs @ [c]) (add_contract c (BuildGraph cs))"
    by (intro add_contract_built) auto
  then show ?case by (simp add: BuildGraph_def)
qed

lemma BuildGraph_modules: "distinct (map mc_name cs) \<Longrightarrow> modules (BuildGraph cs) = mc_name ` set cs"
  using BuildGraph_built [of cs] unfolding built_def modules_def by (metis set_map)

lemma BuildGraph_deps:
  "distinct (map mc_name cs) \<Longrightarrow> c \<in> set cs \<Longrightarrow>
     map_of (gr_modules (BuildGraph cs)) (mc_name c) = Some c \<and>
     deps_of (gr_edges (BuildGraph cs)) (mc_name c) = sort (required_names c)"
  using BuildGraph_built [of cs] by (simp add: built_def)

lemma BuildGraph_well_formed:
  assumes "contracts_ok cs"
  shows "well_formed (BuildGraph cs)"
proof -
  have b: "built cs (BuildGraph cs)" and d: "distinct (map mc_name cs)"
    using assms BuildGraph_built by (auto simp: contracts_ok_def)
  have "fst ` set (gr_edges (BuildGraph cs)) \<subseteq> mc_name ` set cs"
    using b by (fastforce simp: built_def)
  with b d assms show ?thesis
    by (fastforce simp: well_formed_def BuildGraph_modules [OF d] built_def contracts_ok_def)
qed

section \<open>Reachable dependencies\<close>

lemma collectDeps_correct:
  assumes "distinct visited" "\<forall>v \<in> set visited. needs g v \<subseteq> set visited \<union> set ms"
  shows "distinct (collectDeps g ms visited) \<and> set visited \<union> set ms \<subseteq> set (collectDeps g ms visited) \<and>
     (\<forall>v \<in> set (collectDeps g ms visited). needs g v \<subseteq> set (collectDeps g ms visited)) \<and>
     (\<forall>v \<in> set (collectDeps g ms visited). v \<in> set visited \<or> (\<exists>m \<in> set ms. (m, v) \<in> {(n, d). d \<in> needs g n}\<^sup>*))"
  using assms
proof (induction g ms visited rule: collectDeps.induct)
  case (2 g m ms visited)
  show ?case
  proof (cases "m \<in> set visited")
    case True
    with 2 have "distinct (collectDeps g ms visited) \<and> set visited \<union> set ms \<subseteq> set (collectDeps g ms visited) \<and>
     (\<forall>v \<in> set (collectDeps g ms visited). needs g v \<subseteq> set (collectDeps g ms visited)) \<and>
     (\<forall>v \<in> set (collectDeps g ms visited). v \<in> set visited \<or> (\<exists>m \<in> set ms. (m, v) \<in> {(n, d). d \<in> needs g n}\<^sup>*))"
      by (auto simp: insert_absorb)
    with True show ?thesis by auto
  next
    case False
    let ?ms = "filter (has_module g) (deps_of (gr_edges g) m) @ ms"
    let ?r = "collectDeps g ?ms (m # visited)"
    have n: "set (filter (has_module g) (deps_of (gr_edges g) m)) = needs g m"
      by (auto simp: needs_def has_module_iff)
    have "distinct (m # visited)" "\<forall>v \<in> set (m # visited). needs g v \<subseteq> set (m # visited) \<union> set ?ms"
      using 2(3,4) False unfolding set_append n by auto
    note step = 2(2) [OF False this]
    have ih: "distinct ?r" "set (m # visited) \<union> set ?ms \<subseteq> set ?r"
      "\<forall>v \<in> set ?r. needs g v \<subseteq> set ?r"
      "\<forall>v \<in> set ?r. v \<in> set (m # visited) \<or> (\<exists>m \<in> set ?ms. (m, v) \<in> {(n, d). d \<in> needs g n}\<^sup>*)"
      using step by blast+
    have "(m, v) \<in> {(n, d). d \<in> needs g n}\<^sup>*" if "k \<in> needs g m" "(k, v) \<in> {(n, d). d \<in> needs g n}\<^sup>*" for k v
      using that by (auto intro: converse_rtrancl_into_rtrancl)
    with ih(4) n have "\<forall>v \<in> set ?r. v \<in> set visited \<or> (\<exists>k \<in> set (m # ms). (k, v) \<in> {(n, d). d \<in> needs g n}\<^sup>*)"
      by (fastforce simp del: set_filter)
    with ih(1-3) False show ?thesis by auto
  qed
qed auto

lemma dep_rel_needs: "well_formed g \<Longrightarrow> {(n, d). d \<in> needs g n} = dep_rel g"
  using edge_in_modules [of g] by (auto simp: dep_rel_def needs_def)

lemma TransitiveDependencies_reachable:
  assumes "well_formed g"
  shows "set (TransitiveDependencies g m) = {d. (m, d) \<in> (dep_rel g)\<^sup>* \<and> d \<noteq> m}"
    and "sorted (TransitiveDependencies g m)" and "distinct (TransitiveDependencies g m)"
proof -
  let ?r = "collectDeps g [m] []"
  have c: "distinct ?r" "m \<in> set ?r" "\<forall>v \<in> set ?r. needs g v \<subseteq> set ?r" "\<forall>v \<in> set ?r. (m, v) \<in> (dep_rel g)\<^sup>*"
    using collectDeps_correct [of "[]" g "[m]"] by (auto simp: dep_rel_needs [OF assms])
  have "d \<in> set ?r" if "(m, d) \<in> (dep_rel g)\<^sup>*" for d
    using that by (induction rule: rtrancl_induct) (use c(2,3) in \<open>auto simp: dep_rel_def\<close>)
  with c show "set (TransitiveDependencies g m) = {d. (m, d) \<in> (dep_rel g)\<^sup>* \<and> d \<noteq> m}"
    by (auto simp: TransitiveDependencies_def)
  show "sorted (TransitiveDependencies g m)" "distinct (TransitiveDependencies g m)"
    using c by (simp_all add: TransitiveDependencies_def)
qed

section \<open>Properties\<close>

text \<open>
  C11. The order the sort returns does not depend on the order in which Go ranges over the map of
  edges: it succeeds with a list exactly when the list holds every module and takes, at each place,
  the least module whose dependencies are already placed.
\<close>

theorem topological_sort_is_least_order:
  assumes "contracts_ok cs" and "\<forall>xs. mset (order xs) = mset (gr_edges (BuildGraph cs))"
  shows "TopologicalSort order (BuildGraph cs) = Inr xs \<longleftrightarrow>
    least_order (BuildGraph cs) xs \<and> set xs = mc_name ` set cs"
proof -
  let ?g = "BuildGraph cs"
  have wf: "well_formed ?g" using assms(1) by (rule BuildGraph_well_formed)
  obtain ys where ys: "least_order ?g ys" "TopologicalSort order ?g =
      (if length ys = length (gr_modules ?g) then Inr ys else Inl (DependencyCycle (length ys) (length (gr_modules ?g))))"
    using TopologicalSort_least [OF wf assms(2)] .
  have "modules ?g = mc_name ` set cs"
    using assms(1) by (simp add: BuildGraph_modules contracts_ok_def)
  with ys least_order_full [OF wf] least_order_unique show ?thesis
    by (metis Inr_inject Inl_Inr_False)
qed

text \<open>
  C33. The sort fails exactly on the graphs with a dependency cycle, on these the depth-first search
  reports one, and what it reports is a closed path along dependencies.
\<close>

theorem sort_fails_iff_cycle:
  assumes "contracts_ok cs" and "\<forall>xs. mset (order xs) = mset (gr_edges (BuildGraph cs))"
  shows "((\<exists>err. TopologicalSort order (BuildGraph cs) = Inl err) \<longleftrightarrow> \<not> acyclic (dep_rel (BuildGraph cs))) \<and>
    ((\<exists>c. detectCycle (BuildGraph cs) = Some c) \<longleftrightarrow> \<not> acyclic (dep_rel (BuildGraph cs))) \<and>
    (\<forall>c. detectCycle (BuildGraph cs) = Some c \<longrightarrow> is_cycle (BuildGraph cs) c)"
proof -
  let ?g = "BuildGraph cs"
  have wf: "well_formed ?g" using assms(1) by (rule BuildGraph_well_formed)
  have "(\<exists>err. TopologicalSort order ?g = Inl err) \<longleftrightarrow> \<not> acyclic (dep_rel ?g)"
    using TopologicalSort_least [OF wf assms(2)] least_order_full [OF wf] least_order_complete [of ?g]
    by (metis Inl_Inr_False)
  then show ?thesis
    using detectCycle_correct [OF wf] by auto
qed

text \<open>
  The transitive dependencies of a module are, sorted and without duplicates, the modules that a
  chain of existing dependencies reaches from it, itself left out.
\<close>

theorem transitive_dependencies_are_reachable:
  assumes "contracts_ok cs"
  shows "set (TransitiveDependencies (BuildGraph cs) m) = {d. (m, d) \<in> (dep_rel (BuildGraph cs))\<^sup>* \<and> d \<noteq> m} \<and>
    sorted (TransitiveDependencies (BuildGraph cs) m) \<and> distinct (TransitiveDependencies (BuildGraph cs) m)"
  using TransitiveDependencies_reachable [OF BuildGraph_well_formed [OF assms]] by blast

end
