(* ===== verification/CompositionEngine.thy ===== *)
theory CompositionEngine
  imports CompositionGraph
begin

text \<open>
  The composition engine (\<open>internal/composition/engine.go\<close>, with the parts of \<open>internal/placement\<close>,
  \<open>internal/cue\<close> and \<open>pkg/models\<close> it calls): from contracts, a kit and the user's spec to an
  ordered list of modules, their settings, the identity configuration, the placement and the
  warnings. Warnings and errors are values with the arguments of their messages.
\<close>

section \<open>The environment of a resolution\<close>

text \<open>
  What the code leaves to its environment: the order in which a \<open>range\<close> over a map produces the keys
  (one choice per execution of the statement, which its \<open>site\<close> names), whether a key added during the
  iteration is produced, the lower case of strings that are not ASCII (Unicode's tables), and the
  random source: the \<open>k\<close>-th integer below a bound, the \<open>k\<close>-th block of bytes, or a read error.
\<close>

record composition_env =
  ce_order :: "string list \<Rightarrow> string list \<Rightarrow> string list"
  ce_sees :: "string list \<Rightarrow> string \<Rightarrow> bool"
  ce_lower :: "string \<Rightarrow> string"
  ce_int :: "nat \<Rightarrow> nat \<Rightarrow> nat option"
  ce_bytes :: "nat \<Rightarrow> nat \<Rightarrow> string option"

text \<open>Any order of the keys can be produced, and nothing but an order of the keys.\<close>

definition key_order :: "composition_env \<Rightarrow> string list \<Rightarrow> string list \<Rightarrow> string list" where
  "key_order e site ks = (let ks' = ce_order e site ks in if sort ks' = sort ks then ks' else ks)"

lemma mset_key_order [simp]: "mset (key_order e site ks) = mset ks"
  by (auto simp: key_order_def Let_def) (metis mset_sort)

lemma set_key_order [simp]: "set (key_order e site ks) = set ks"
  by (metis mset_key_order set_mset_mset)

lemma distinct_key_order [simp]: "distinct (key_order e site ks) \<longleftrightarrow> distinct ks"
  by (metis mset_key_order mset_eq_imp_distinct_iff)

definition entries :: "(string \<times> 'v) list \<Rightarrow> string list \<Rightarrow> (string \<times> 'v) list" where
  "entries m ks = concat (map (\<lambda>k. case map_of m k of None \<Rightarrow> [] | Some v \<Rightarrow> [(k, v)]) ks)"

definition range_map :: "composition_env \<Rightarrow> string list \<Rightarrow> (string \<times> 'v) list \<Rightarrow> (string \<times> 'v) list" where
  "range_map e site m = entries m (key_order e site (map fst m))"

lemma set_entries: "(k, v) \<in> set (entries m ks) \<longleftrightarrow> k \<in> set ks \<and> map_of m k = Some v"
  by (auto simp: entries_def split: option.splits)

lemma keys_entries: "set ks \<subseteq> fst ` set m \<Longrightarrow> map fst (entries m ks) = ks"
  by (induction ks) (auto simp: entries_def split: option.splits dest: weak_map_of_SomeI)

lemma set_range_map: "(k, v) \<in> set (range_map e site m) \<longleftrightarrow> map_of m k = Some v"
  by (auto simp: range_map_def set_entries dest: map_of_SomeD intro: rev_image_eqI)

lemma keys_range_map: "map fst (range_map e site m) = key_order e site (map fst m)"
  by (simp add: range_map_def keys_entries)

lemma mset_range_map:
  assumes "distinct (map fst m)"
  shows "mset (range_map e site m) = mset m"
proof (rule set_eq_iff_mset_eq_distinct [THEN iffD1])
  show "distinct (range_map e site m)"
    using assms by (metis distinct_key_order distinct_map keys_range_map)
  show "distinct m" using assms by (simp add: distinct_map)
  show "set (range_map e site m) = set m"
    using assms by (auto simp: set_range_map)
qed

definition is_ascii :: "string \<Rightarrow> bool" where
  "is_ascii s \<longleftrightarrow> list_all (\<lambda>c. c < CHR 0x80) s"

definition to_lower :: "composition_env \<Rightarrow> string \<Rightarrow> string" where
  "to_lower e s = (if is_ascii s then map ascii_lower s else ce_lower e s)"

text \<open>\<open>strings.Trim(s, ".")\<close>.\<close>

definition trim_dots :: "string \<Rightarrow> string" where
  "trim_dots s = rev (dropWhile (\<lambda>c. c = CHR ''.'') (rev (dropWhile (\<lambda>c. c = CHR ''.'') s)))"

text \<open>
  \<open>strings.EqualFold\<close> with an ASCII second argument: the runes that fold to an ASCII letter from
  outside ASCII are the Kelvin sign and the long s.
\<close>

fun fold_runes :: "string \<Rightarrow> string" where
  "fold_runes (a # b # c # s) =
     (if [a, b, c] = [CHR 0xE2, CHR 0x84, CHR 0xAA] then CHR ''k'' # fold_runes s
      else if [a, b] = [CHR 0xC5, CHR 0xBF] then CHR ''s'' # fold_runes (c # s)
      else ascii_lower a # fold_runes (b # c # s))"
| "fold_runes [a, b] = (if [a, b] = [CHR 0xC5, CHR 0xBF] then [CHR ''s''] else [ascii_lower a, ascii_lower b])"
| "fold_runes [a] = [ascii_lower a]"
| "fold_runes [] = []"

definition equal_fold :: "string \<Rightarrow> string \<Rightarrow> bool" where
  "equal_fold s t \<longleftrightarrow> fold_runes s = map ascii_lower t"

section \<open>Contracts, kits and specs\<close>

record runtime_profile =
  rp_realization :: string
  rp_placement_modes :: "string list"
  rp_contexts :: "string list"
  rp_control_plane :: bool
  rp_local_bridge :: bool

record app_connector =
  cn_kind :: string
  cn_endpoint :: string
  cn_native :: bool

record application_def =
  ad_role :: string
  ad_default_tool :: string
  ad_alternatives :: "string list"
  ad_default_profile :: string
  ad_profiles :: "(string \<times> runtime_profile) list"
  ad_connectors :: "(string \<times> app_connector) list"

record placement_spec =
  pl_mode :: string
  pl_exposure :: string
  pl_coupling :: string

record stack_spec =
  sp_context :: string
  sp_mode :: string
  sp_placement :: placement_spec
  sp_domain :: string
  sp_prefix :: string
  sp_email :: string
  sp_admin_email :: string
  sp_owner_email :: string
  sp_tier :: string
  sp_paas :: string
  sp_addons :: "string list"
  sp_application :: "(string \<times> config) list"
  sp_services :: "(string \<times> config) list"
  sp_identity_auth :: "string option"

record mode_matrix =
  mx_kit :: string
  mx_placement :: "(string \<times> string) list"
  mx_install :: "(string \<times> string) list"
  mx_context :: "(string \<times> string) list"
  mx_paas :: "(string \<times> string) list"

text \<open>The contracts are keyed by name; a later contract of a name replaces an earlier one.\<close>

record engine =
  en_contracts :: "(string \<times> module_contract) list"
  en_application :: "(string \<times> application_def) list"
  en_spec :: stack_spec
  en_matrix :: "mode_matrix option"

definition NewCompositionEngine ::
  "module_contract list \<Rightarrow> (string \<times> application_def) list \<Rightarrow> stack_spec \<Rightarrow> engine" where
  "NewCompositionEngine contracts application spec =
     \<lparr>en_contracts = fold (\<lambda>c. AList.update (mc_name c) c) contracts [], en_application = application,
      en_spec = spec, en_matrix = None\<rparr>"

definition SetModeMatrix :: "mode_matrix option \<Rightarrow> engine \<Rightarrow> engine" where
  "SetModeMatrix m en = en\<lparr>en_matrix := m\<rparr>"

section \<open>Reading the user's configuration\<close>

definition normalizeConfigKey :: "composition_env \<Rightarrow> string \<Rightarrow> string" where
  "normalizeConfigKey e v = map (\<lambda>c. if c = CHR ''_'' then CHR ''-'' else c) (to_lower e (trim_space v))"

fun as_map :: "config \<Rightarrow> (string \<times> config) list option" where
  "as_map (CMap m) = Some m"
| "as_map (CAnyMap m) = Some (concat (map (\<lambda>(k, v). case k of None \<Rightarrow> [] | Some s \<Rightarrow> [(s, v)]) m))"
| "as_map _ = None"

fun first_config :: "(string \<Rightarrow> bool) \<Rightarrow> (string \<times> config) list \<Rightarrow> (string \<times> config) list option" where
  "first_config p [] = None"
| "first_config p ((k, v) # m) =
     (if p k then case as_map v of Some c \<Rightarrow> Some c | None \<Rightarrow> first_config p m else first_config p m)"

definition configMapForKey ::
  "composition_env \<Rightarrow> string list \<Rightarrow> (string \<times> config) list \<Rightarrow> string \<Rightarrow> (string \<times> config) list option" where
  "configMapForKey e site values key =
     first_config (\<lambda>c. normalizeConfigKey e c = normalizeConfigKey e key) (range_map e site values)"

definition config_value :: "composition_env \<Rightarrow> string list \<Rightarrow> (string \<times> config) list \<Rightarrow> string \<Rightarrow> config option" where
  "config_value e site values key =
     map_option snd (find (\<lambda>(c, _). normalizeConfigKey e c = normalizeConfigKey e key) (range_map e site values))"

definition boolConfigValue :: "composition_env \<Rightarrow> string list \<Rightarrow> (string \<times> config) list \<Rightarrow> string \<Rightarrow> bool option" where
  "boolConfigValue e site values key =
     (case config_value e site values key of Some (CBool b) \<Rightarrow> Some b | _ \<Rightarrow> None)"

definition stringConfigValue :: "composition_env \<Rightarrow> string list \<Rightarrow> (string \<times> config) list \<Rightarrow> string \<Rightarrow> string option" where
  "stringConfigValue e site values key =
     (case config_value e site values key of
        Some (CText s) \<Rightarrow> if trim_space s = [] then None else Some (trim_space s)
      | _ \<Rightarrow> None)"

definition applicationConfig :: "composition_env \<Rightarrow> string list \<Rightarrow> engine \<Rightarrow> string \<Rightarrow> (string \<times> config) list option" where
  "applicationConfig e site en uc = configMapForKey e (''application'' # site) (sp_application (en_spec en)) uc"

definition serviceConfig :: "composition_env \<Rightarrow> string list \<Rightarrow> engine \<Rightarrow> string \<Rightarrow> (string \<times> config) list option" where
  "serviceConfig e site en uc = configMapForKey e (''services'' # site) (sp_services (en_spec en)) uc"

definition tier_or_standard :: "engine \<Rightarrow> string" where
  "tier_or_standard en = (if sp_tier (en_spec en) = [] then ''standard'' else sp_tier (en_spec en))"

definition isApplicationEnabled :: "composition_env \<Rightarrow> engine \<Rightarrow> string \<Rightarrow> bool" where
  "isApplicationEnabled e en uc =
     (case map_of (en_application en) uc of
        None \<Rightarrow> False
      | Some ucDef \<Rightarrow>
         (case Option.bind (applicationConfig e [''isApplicationEnabled'', uc] en uc)
                 (\<lambda>m. boolConfigValue e [''isApplicationEnabled'', ''application'', uc] m ''enabled'') of
            Some b \<Rightarrow> b
          | None \<Rightarrow>
             (case Option.bind (serviceConfig e [''isApplicationEnabled'', uc] en uc)
                     (\<lambda>m. boolConfigValue e [''isApplicationEnabled'', ''services'', uc] m ''enabled'') of
                Some b \<Rightarrow> b
              | None \<Rightarrow> ad_role ucDef = ''default'' \<and> tier_or_standard en \<noteq> ''low'')))"

definition getApplicationTool :: "composition_env \<Rightarrow> engine \<Rightarrow> string \<Rightarrow> string" where
  "getApplicationTool e en uc =
     (case Option.bind (applicationConfig e [''getApplicationTool'', uc] en uc)
             (\<lambda>m. stringConfigValue e [''getApplicationTool'', ''application'', uc] m ''tool'') of
        Some tool \<Rightarrow> tool
      | None \<Rightarrow>
         (case Option.bind (serviceConfig e [''getApplicationTool'', uc] en uc)
                 (\<lambda>m. stringConfigValue e [''getApplicationTool'', ''services'', uc] m ''tool'') of
            Some tool \<Rightarrow> tool
          | None \<Rightarrow> ''''))"

section \<open>Collecting the modules\<close>

datatype warning =
    UndeclaredProfile string string
  | UnavailableAlternative string string string
  | RuntimeHandoff string string
  | ToolNotFound string string
  | AddonNotFound string
  | AddonMemory string string string
  | PlacementNotS1 string string
  | UnknownPlacement string
  | MatrixGrade string string string string
  | PaasNotOffered string string
  | PaasUnverified string string string

record control_plane_handoff =
  ho_use_case :: string
  ho_tool :: string
  ho_profile :: string
  ho_realization :: string
  ho_reason :: string
  ho_product_mcp :: string
  ho_control_plane :: bool
  ho_local_bridge :: bool
  ho_placement_modes :: "string list"
  ho_contexts :: "string list"

text \<open>
  The map of enabled modules (its keys, in the order they were added) with the warnings and handoffs
  collected so far.
\<close>

record collected =
  cl_enabled :: "string list"
  cl_warnings :: "warning list"
  cl_handoffs :: "control_plane_handoff list"

definition enable :: "string \<Rightarrow> string list \<Rightarrow> string list" where
  "enable n ns = (if n \<in> set ns then ns else ns @ [n])"

definition warn :: "warning \<Rightarrow> collected \<Rightarrow> collected" where
  "warn w s = s\<lparr>cl_warnings := cl_warnings s @ [w]\<rparr>"

definition turn_on :: "string \<Rightarrow> collected \<Rightarrow> collected" where
  "turn_on n s = s\<lparr>cl_enabled := enable n (cl_enabled s)\<rparr>"

definition in_contracts :: "engine \<Rightarrow> string \<Rightarrow> bool" where
  "in_contracts en n \<longleftrightarrow> map_of (en_contracts en) n \<noteq> None"

definition runtimeProfileNeedsHandoff :: "composition_env \<Rightarrow> runtime_profile \<Rightarrow> bool" where
  "runtimeProfileNeedsHandoff e p \<longleftrightarrow>
     (let realization = to_lower e (trim_space (rp_realization p)) in
      rp_control_plane p \<or> rp_local_bridge p \<or> realization = ''control-plane'' \<or>
      realization = ''hybrid'' \<or> realization = ''external'')"

definition runtimeProfileHandoffReason :: "composition_env \<Rightarrow> runtime_profile \<Rightarrow> string" where
  "runtimeProfileHandoffReason e p =
     (let realization = to_lower e (trim_space (rp_realization p)) in
      if rp_control_plane p \<or> realization = ''control-plane''
      then ''runtime profile requires Kombify Control Plane realization''
      else if realization = ''hybrid''
      then ''runtime profile requires hybrid local plus Control Plane realization''
      else if realization = ''external''
      then ''runtime profile is external; existing service connection required''
      else if rp_local_bridge p
      then ''runtime profile requires a local bridge managed outside local module deployment''
      else ''runtime profile requires runtime handoff'')"

definition nativeProductMCPEndpoint :: "composition_env \<Rightarrow> string \<Rightarrow> application_def \<Rightarrow> string" where
  "nativeProductMCPEndpoint e uc ucDef =
     (case find (\<lambda>(_, c). cn_native c \<or> cn_kind c = ''home-assistant-native'')
             (range_map e [''nativeProductMCPEndpoint'', uc] (ad_connectors ucDef)) of
        None \<Rightarrow> ''''
      | Some (_, c) \<Rightarrow> cn_endpoint c)"

definition selected_profile :: "composition_env \<Rightarrow> engine \<Rightarrow> string \<Rightarrow> string" where
  "selected_profile e en uc =
     (case applicationConfig e [''applicationRuntimeProfile'', uc] en uc of
        None \<Rightarrow> ''''
      | Some m \<Rightarrow>
         (case stringConfigValue e [''applicationRuntimeProfile'', ''runtimeProfile'', uc] m ''runtimeProfile'' of
            Some s \<Rightarrow> s
          | None \<Rightarrow>
             (case stringConfigValue e [''applicationRuntimeProfile'', ''runtime_profile'', uc] m ''runtime_profile'' of
                Some s \<Rightarrow> s
              | None \<Rightarrow> '''')))"

text \<open>The profile's name, its declaration if it has one, and the warning.\<close>

definition applicationRuntimeProfile ::
  "composition_env \<Rightarrow> engine \<Rightarrow> string \<Rightarrow> application_def \<Rightarrow> collected \<Rightarrow> string \<times> runtime_profile option \<times> collected" where
  "applicationRuntimeProfile e en uc ucDef s =
     (let chosen = selected_profile e en uc;
          name = (if chosen = [] then trim_space (ad_default_profile ucDef) else chosen) in
      if name = [] then ('''', None, s)
      else case map_of (ad_profiles ucDef) name of
        None \<Rightarrow> (name, None, if ad_profiles ucDef = [] then s else warn (UndeclaredProfile uc name) s)
      | Some p \<Rightarrow> (name, Some p, s))"

definition handoff_of ::
  "composition_env \<Rightarrow> string \<Rightarrow> application_def \<Rightarrow> string \<Rightarrow> string \<Rightarrow> runtime_profile \<Rightarrow> control_plane_handoff" where
  "handoff_of e uc ucDef tool name p =
     \<lparr>ho_use_case = uc, ho_tool = tool, ho_profile = name,
      ho_realization = to_lower e (trim_space (rp_realization p)), ho_reason = runtimeProfileHandoffReason e p,
      ho_product_mcp = nativeProductMCPEndpoint e uc ucDef, ho_control_plane = rp_control_plane p,
      ho_local_bridge = rp_local_bridge p, ho_placement_modes = rp_placement_modes p, ho_contexts = rp_contexts p\<rparr>"

definition realize_application ::
  "composition_env \<Rightarrow> engine \<Rightarrow> string \<Rightarrow> application_def \<Rightarrow> string \<Rightarrow> string \<times> runtime_profile option \<Rightarrow> collected \<Rightarrow> collected" where
  "realize_application e en uc ucDef tool profile s =
     (case profile of
        (name, Some p) \<Rightarrow>
          if runtimeProfileNeedsHandoff e p
          then warn (RuntimeHandoff uc name) (s\<lparr>cl_handoffs := cl_handoffs s @ [handoff_of e uc ucDef tool name p]\<rparr>)
          else if in_contracts en tool then turn_on tool s else warn (ToolNotFound uc tool) s
      | (name, None) \<Rightarrow> if in_contracts en tool then turn_on tool s else warn (ToolNotFound uc tool) s)"

definition resolve_one :: "composition_env \<Rightarrow> engine \<Rightarrow> string \<times> application_def \<Rightarrow> collected \<Rightarrow> collected" where
  "resolve_one e en app s =
     (let (uc, ucDef) = app in
      if \<not> isApplicationEnabled e en uc then s
      else case applicationRuntimeProfile e en uc ucDef s of
        (name, profile, s1) \<Rightarrow>
          if ad_default_tool ucDef = [] then s1
          else let alt = getApplicationTool e en uc in
            if alt = [] then realize_application e en uc ucDef (ad_default_tool ucDef) (name, profile) s1
            else if alt \<in> set (ad_alternatives ucDef) then realize_application e en uc ucDef alt (name, profile) s1
            else realize_application e en uc ucDef (ad_default_tool ucDef) (name, profile)
                   (warn (UnavailableAlternative uc alt (ad_default_tool ucDef)) s1))"

definition resolveApplication :: "composition_env \<Rightarrow> engine \<Rightarrow> collected \<Rightarrow> collected" where
  "resolveApplication e en s = fold (resolve_one e en) (range_map e [''resolveApplication''] (en_application en)) s"

definition resolve_addon :: "engine \<Rightarrow> string \<Rightarrow> collected \<Rightarrow> collected" where
  "resolve_addon en addon s =
     (case map_of (en_contracts en) addon of
        None \<Rightarrow> warn (AddonNotFound addon) s
      | Some mc \<Rightarrow>
          turn_on addon
            (if mc_requires mc \<noteq> None \<and> mc_min_memory mc \<noteq> [] \<and> tier_or_standard en = ''low''
             then warn (AddonMemory addon (mc_min_memory mc) (tier_or_standard en)) s else s))"

definition resolveAddons :: "engine \<Rightarrow> collected \<Rightarrow> collected" where
  "resolveAddons en s = fold (resolve_addon en) (sp_addons (en_spec en)) s"

definition addPlatformDefaults :: "engine \<Rightarrow> string list \<Rightarrow> string list" where
  "addPlatformDefaults en enabled =
     (let enabled1 = fold (\<lambda>n ns. if in_contracts en n then enable n ns else ns)
            [''traefik'', ''socket-proxy'', ''pocketid''] enabled in
      case map_of (en_contracts en) ''tinyauth'' of
        None \<Rightarrow> enabled1
      | Some mc \<Rightarrow> if list_ex (\<lambda>(_, svc). sd_required svc) (mc_services mc) then enable ''tinyauth'' enabled1 else enabled1)"

section \<open>Service overrides\<close>

datatype composition_error =
    PocketidRequired
  | RequiredModuleMissing string string
  | ValidationErrors "(string \<times> graph_problem) list"
  | SortError sort_error
  | RandomSource
  | PlacementRejected "(string \<times> string \<times> string \<times> string list) list"
  | UnsupportedCell string "warning list"

definition moduleIsPasskeyOIDCProvider :: "engine \<Rightarrow> string \<Rightarrow> bool" where
  "moduleIsPasskeyOIDCProvider en n =
     (case map_of (en_contracts en) n of
        None \<Rightarrow> False
      | Some mc \<Rightarrow> provides_capability mc ''passkeys'' \<and> provides_capability mc ''oidc-provider'' \<and>
          provides_capability mc ''identity-provider'')"

definition hasEnabledPocketBasePasskeyOIDCProvider :: "engine \<Rightarrow> string list \<Rightarrow> bool" where
  "hasEnabledPocketBasePasskeyOIDCProvider en enabled \<longleftrightarrow>
     ''pocketbase'' \<in> set enabled \<and> moduleIsPasskeyOIDCProvider en ''pocketbase''"

text \<open>What \<open>spec.Services\<close> says of a module: \<open>enabled\<close> as a boolean of an exact-case map.\<close>

fun service_override :: "config \<Rightarrow> bool option" where
  "service_override (CMap m) = (case map_of m ''enabled'' of Some (CBool b) \<Rightarrow> Some b | _ \<Rightarrow> None)"
| "service_override _ = None"

definition read_override :: "engine \<Rightarrow> string \<times> config \<Rightarrow> string list \<times> string list \<Rightarrow> string list \<times> string list" where
  "read_override en svc acc =
     (let (name, cfg) = svc; (enabled, disabled) = acc in
      case service_override cfg of
        None \<Rightarrow> (enabled, disabled)
      | Some v \<Rightarrow>
          if \<not> in_contracts en name then (enabled, disabled)
          else if v then (enable name enabled, disabled) else (enabled, enable name disabled))"

fun drop_disabled :: "engine \<Rightarrow> string list \<Rightarrow> string list \<Rightarrow> composition_error + string list" where
  "drop_disabled en [] enabled = Inr enabled"
| "drop_disabled en (n # ns) enabled =
     (if n = ''pocketid'' \<and> \<not> hasEnabledPocketBasePasskeyOIDCProvider en enabled then Inl PocketidRequired
      else drop_disabled en ns (removeAll n enabled))"

definition applyServiceOverrides :: "composition_env \<Rightarrow> engine \<Rightarrow> string list \<Rightarrow> composition_error + string list" where
  "applyServiceOverrides e en enabled =
     (case fold (read_override en) (range_map e [''applyServiceOverrides'', ''services''] (sp_services (en_spec en))) (enabled, []) of
        (enabled1, disabled) \<Rightarrow> drop_disabled en (key_order e [''applyServiceOverrides'', ''disabled''] disabled) enabled1)"

section \<open>Expanding dependencies\<close>

text \<open>One enabled module: every mandatory requirement that is not enabled is.\<close>

fun enable_required ::
  "engine \<Rightarrow> string \<Rightarrow> (string \<times> required_service) list \<Rightarrow> string list \<Rightarrow> composition_error + string list" where
  "enable_required en name [] enabled = Inr enabled"
| "enable_required en name ((dep, rq) # svs) enabled =
     (if dep \<in> set enabled then enable_required en name svs enabled
      else if rq_optional rq then enable_required en name svs enabled
      else if \<not> in_contracts en dep then Inl (RequiredModuleMissing name dep)
      else enable_required en name svs (enabled @ [dep]))"

definition expand_module :: "composition_env \<Rightarrow> string list \<Rightarrow> engine \<Rightarrow> string \<Rightarrow> string list \<Rightarrow> composition_error + string list" where
  "expand_module e site en name enabled =
     (case Option.bind (map_of (en_contracts en) name) mc_requires of
        None \<Rightarrow> Inr enabled
      | Some svs \<Rightarrow> enable_required en name (range_map e (name # site) svs) enabled)"

text \<open>
  One pass over the map of enabled modules: every key present at its start is visited once, in some
  order, and a key added on the way may be.
\<close>

definition next_keys :: "composition_env \<Rightarrow> string list \<Rightarrow> string list \<Rightarrow> string list \<Rightarrow> string list \<Rightarrow> string list" where
  "next_keys e site start visited enabled =
     key_order e (site @ visited) (filter (\<lambda>k. k \<notin> set visited \<and> (k \<in> set start \<or> ce_sees e site k)) enabled)"

lemma set_next_keys:
  "set (next_keys e site start visited enabled) = {k \<in> set enabled. k \<notin> set visited \<and> (k \<in> set start \<or> ce_sees e site k)}"
  by (auto simp: next_keys_def)

text \<open>Modules are only added, and only ones with a contract.\<close>

definition grows :: "engine \<Rightarrow> string list \<Rightarrow> string list \<Rightarrow> bool" where
  "grows en xs ys \<longleftrightarrow> (\<exists>new. ys = xs @ new \<and> set new \<subseteq> dom (map_of (en_contracts en)) - set xs)"

lemma grows_refl [simp]: "grows en xs xs"
  by (simp add: grows_def)

lemma grows_trans: "grows en xs ys \<Longrightarrow> grows en ys zs \<Longrightarrow> grows en xs zs"
  by (fastforce simp: grows_def)

lemma grows_universe:
  "grows en xs ys \<Longrightarrow> set ys \<union> dom (map_of (en_contracts en)) = set xs \<union> dom (map_of (en_contracts en))"
  by (auto simp: grows_def)

lemma grows_set: "grows en xs ys \<Longrightarrow> set xs \<subseteq> set ys"
  by (auto simp: grows_def)

lemma grows_smaller:
  assumes "grows en xs ys" "ys \<noteq> xs"
  shows "card (dom (map_of (en_contracts en)) - set ys) < card (dom (map_of (en_contracts en)) - set xs)"
proof (rule psubset_card_mono)
  obtain new where new: "ys = xs @ new" "set new \<subseteq> dom (map_of (en_contracts en)) - set xs" "new \<noteq> []"
    using assms by (auto simp: grows_def)
  then obtain n ns where "new = n # ns" by (cases new) auto
  with new have "ys = xs @ n # ns" "n \<in> dom (map_of (en_contracts en)) - set xs" by auto
  then show "dom (map_of (en_contracts en)) - set ys \<subset> dom (map_of (en_contracts en)) - set xs" by auto
qed (simp add: finite_dom_map_of)

lemma enable_required_grows: "enable_required en name svs enabled = Inr enabled' \<Longrightarrow> grows en enabled enabled'"
proof (induction en name svs enabled rule: enable_required.induct)
  case (2 en name dep rq svs enabled)
  have "grows en enabled (enabled @ [dep])" if "in_contracts en dep" "dep \<notin> set enabled"
    using that by (auto simp: grows_def in_contracts_def)
  with 2 show ?case by (auto split: if_splits intro: grows_trans)
qed simp

lemma expand_module_grows: "expand_module e site en name enabled = Inr enabled' \<Longrightarrow> grows en enabled enabled'"
  by (auto simp: expand_module_def dest: enable_required_grows split: option.splits)

function expand_pass ::
  "composition_env \<Rightarrow> string list \<Rightarrow> engine \<Rightarrow> string list \<Rightarrow> string list \<Rightarrow> string list \<Rightarrow> composition_error + string list" where
  "expand_pass e site en start visited enabled =
     (case next_keys e site start visited enabled of
        [] \<Rightarrow> Inr enabled
      | name # _ \<Rightarrow>
         (case expand_module e site en name enabled of
            Inl err \<Rightarrow> Inl err
          | Inr enabled' \<Rightarrow> expand_pass e site en start (name # visited) enabled'))"
  by pat_completeness auto
termination
proof (relation "measure (\<lambda>(e, site, en, start, visited, enabled).
    card (set enabled \<union> dom (map_of (en_contracts en)) - set visited))", goal_cases)
  case (2 e site en start visited enabled name rest enabled')
  have "name \<in> set (next_keys e site start visited enabled)" using 2(1) by simp
  then have name: "name \<in> set enabled - set visited" by (simp add: set_next_keys)
  have "card (set enabled \<union> dom (map_of (en_contracts en)) - set (name # visited)) <
      card (set enabled \<union> dom (map_of (en_contracts en)) - set visited)"
    by (rule psubset_card_mono) (use name in \<open>auto simp: finite_dom_map_of\<close>)
  then show ?case
    using grows_universe [OF expand_module_grows [OF 2(2)]] by simp
qed simp

declare expand_pass.simps [simp del]

lemma expand_pass_grows: "expand_pass e site en start visited enabled = Inr enabled' \<Longrightarrow> grows en enabled enabled'"
proof (induction e site en start visited enabled rule: expand_pass.induct)
  case (1 e site en start visited enabled)
  show ?case
  proof (cases "next_keys e site start visited enabled")
    case (Cons name rest)
    with 1(2) obtain enabled1 where "expand_module e site en name enabled = Inr enabled1"
      "expand_pass e site en start (name # visited) enabled1 = Inr enabled'"
      by (subst (asm) expand_pass.simps) (auto split: sum.splits)
    with Cons 1(1) expand_module_grows grows_trans show ?thesis by metis
  qed (use 1(2) in \<open>simp add: expand_pass.simps\<close>)
qed

function expandDependencies :: "composition_env \<Rightarrow> nat \<Rightarrow> engine \<Rightarrow> string list \<Rightarrow> composition_error + string list" where
  "expandDependencies e pass en enabled =
     (case expand_pass e [''expandDependencies'', replicate pass CHR ''i''] en enabled [] enabled of
        Inl err \<Rightarrow> Inl err
      | Inr enabled' \<Rightarrow> if enabled' = enabled then Inr enabled' else expandDependencies e (Suc pass) en enabled')"
  by pat_completeness auto
termination
proof (relation "measure (\<lambda>(e, pass, en, enabled). card (dom (map_of (en_contracts en)) - set enabled))", goal_cases)
  case (2 e pass en enabled enabled')
  from grows_smaller [OF expand_pass_grows [OF 2(1)] 2(2)] show ?case by simp
qed simp

declare expandDependencies.simps [simp del]

section \<open>Ordering the modules\<close>

definition sortModules :: "composition_env \<Rightarrow> engine \<Rightarrow> string list \<Rightarrow> composition_error + string list" where
  "sortModules e en enabled =
     (let graph = BuildGraph (map snd (entries (en_contracts en) (key_order e [''sortModules''] enabled)));
          errs = Validate (range_map e [''Validate''] (gr_edges graph)) graph in
      if errs \<noteq> [] then Inl (ValidationErrors errs)
      else case TopologicalSort (\<lambda>placed. range_map e (''TopologicalSort'' # placed) (gr_edges graph)) graph of
        Inl err \<Rightarrow> Inl (SortError err)
      | Inr names \<Rightarrow> Inr names)"

section \<open>Settings\<close>

definition overlay :: "(string \<times> 'v) list \<Rightarrow> (string \<times> 'v) list \<Rightarrow> (string \<times> 'v) list" where
  "overlay kvs m = fold (\<lambda>(k, v). AList.update k v) kvs m"

definition context_override :: "string \<Rightarrow> string \<Rightarrow> (string \<times> config) list \<Rightarrow> (string \<times> config) list" where
  "context_override ctx name m =
     (if name = ''tinyauth'' \<and> (ctx = ''local'' \<or> ctx = ''pi'') then AList.update ''secureCookie'' (CBool False) m
      else if name = ''tinyauth'' \<and> ctx = ''cloud'' then AList.update ''secureCookie'' (CBool True) m
      else m)"

definition merged_settings :: "engine \<Rightarrow> string \<Rightarrow> (string \<times> config) list option" where
  "merged_settings en name =
     map_option (\<lambda>st. context_override (sp_context (en_spec en)) name (overlay (st_flexible st) (overlay (st_perma st) [])))
       (Option.bind (map_of (en_contracts en) name) mc_settings)"

definition propagateSettings :: "engine \<Rightarrow> string list \<Rightarrow> (string \<times> (string \<times> config) list) list" where
  "propagateSettings en names =
     fold (\<lambda>n m. case merged_settings en n of None \<Rightarrow> m | Some st \<Rightarrow> AList.update n st m) names []"

section \<open>Identity\<close>

record identity_config =
  ic_admin_email :: string
  ic_admin_password :: string
  ic_pocketid :: bool
  ic_tinyauth :: bool
  ic_issuer :: string
  ic_client_id :: string
  ic_client_secret :: string
  ic_tinyauth_oauth :: bool
  ic_session_secret :: string
  ic_pocketid_url :: string
  ic_secure_cookie :: bool
  ic_auth_mode :: string

definition local_suffixes :: "string list" where
  "local_suffixes = [''.kombify'', ''.internal'', ''.local'', ''.lab'', ''.lan'', ''.home'', ''.homebase'', ''.localhost'']"

definition IsLocalDomain :: "composition_env \<Rightarrow> string \<Rightarrow> bool" where
  "IsLocalDomain e domain \<longleftrightarrow>
     (let d = to_lower e (trim_space domain) in
      d \<in> set ['''', ''homelab'', ''lab.home'', ''stack.home'', ''home.kombify'', ''home.lab'', ''home.localhost'',
        ''home'', ''stack.local'', ''localhost''] \<or> list_ex (has_suffix d) local_suffixes)"

definition IsLocalhostDomain :: "composition_env \<Rightarrow> string \<Rightarrow> bool" where
  "IsLocalhostDomain e domain \<longleftrightarrow>
     (let d = to_lower e (trim_space domain) in d = ''localhost'' \<or> has_suffix d ''.localhost'')"

definition IsKombifyMeDomain :: "string \<Rightarrow> bool" where
  "IsKombifyMeDomain domain \<longleftrightarrow> equal_fold domain ''kombify.me''"

definition NeedsSyntheticAdminEmail :: "string \<Rightarrow> bool" where
  "NeedsSyntheticAdminEmail email \<longleftrightarrow> trim_space email = [] \<or> equal_fold (trim_space email) ''admin''"

definition adminEmailHost :: "composition_env \<Rightarrow> string \<Rightarrow> string \<Rightarrow> string" where
  "adminEmailHost e domain prefix =
     (let d = to_lower e (trim_dots (trim_space domain)); p = to_lower e (trim_dots (trim_space prefix)) in
      if IsKombifyMeDomain d \<and> p \<noteq> [] then p @ ''.kombify.me''
      else if IsLocalDomain e d then ''example.com'' else d)"

definition SyntheticAdminEmail :: "composition_env \<Rightarrow> string \<Rightarrow> string \<Rightarrow> string" where
  "SyntheticAdminEmail e domain prefix = ''admin@'' @ adminEmailHost e domain prefix"

definition NormalizeAdminEmail :: "composition_env \<Rightarrow> string \<Rightarrow> string \<Rightarrow> string \<Rightarrow> string" where
  "NormalizeAdminEmail e email domain prefix =
     (let m = trim_space email in
      if NeedsSyntheticAdminEmail m then SyntheticAdminEmail e domain prefix
      else if CHR ''@'' \<in> set m then m
      else m @ ''@'' @ adminEmailHost e domain prefix)"

definition primaryAdminEmail :: "stack_spec \<Rightarrow> string" where
  "primaryAdminEmail spec =
     (if trim_space (sp_owner_email spec) \<noteq> [] then trim_space (sp_owner_email spec)
      else if trim_space (sp_admin_email spec) \<noteq> [] then trim_space (sp_admin_email spec)
      else trim_space (sp_email spec))"

definition ResolveAdminEmail :: "composition_env \<Rightarrow> stack_spec \<Rightarrow> string" where
  "ResolveAdminEmail e spec = NormalizeAdminEmail e (primaryAdminEmail spec) (sp_domain spec) (sp_prefix spec)"

text \<open>The random source is read in sequence: \<open>k\<close> counts the reads made so far.\<close>

definition randomChar :: "composition_env \<Rightarrow> nat \<Rightarrow> string \<Rightarrow> char option" where
  "randomChar e k charset = map_option (\<lambda>v. charset ! (v mod length charset)) (ce_int e k (length charset))"

fun draw_chars :: "composition_env \<Rightarrow> nat \<Rightarrow> string list \<Rightarrow> string option" where
  "draw_chars e k [] = Some []"
| "draw_chars e k (cs # css) =
     (case randomChar e k cs of None \<Rightarrow> None | Some c \<Rightarrow> map_option ((#) c) (draw_chars e (Suc k) css))"

definition swap :: "nat \<Rightarrow> nat \<Rightarrow> 'a list \<Rightarrow> 'a list" where
  "swap i j xs = xs[i := xs ! j, j := xs ! i]"

fun shuffle_down :: "composition_env \<Rightarrow> nat \<Rightarrow> nat \<Rightarrow> string \<Rightarrow> string option" where
  "shuffle_down e k 0 out = Some out"
| "shuffle_down e k (Suc i) out =
     (case ce_int e k (i + 2) of
        None \<Rightarrow> None
      | Some v \<Rightarrow> shuffle_down e (Suc k) i (swap (Suc i) (v mod (i + 2)) out))"

definition password_classes :: "string list" where
  "password_classes =
     [''ABCDEFGHIJKLMNOPQRSTUVWXYZ'', ''abcdefghijklmnopqrstuvwxyz'', ''0123456789'', ''!@#%^&*()-_=+'']"

definition generateAdminPassword :: "composition_env \<Rightarrow> nat \<Rightarrow> int \<Rightarrow> string option" where
  "generateAdminPassword e k len =
     (let n = (if len < 12 then 12 else nat len);
          classes = password_classes @ replicate (n - 4) (concat password_classes) in
      case draw_chars e k classes of
        None \<Rightarrow> None
      | Some out \<Rightarrow> shuffle_down e (k + n) (n - 1) out)"

definition hex_digit :: "nat \<Rightarrow> char" where
  "hex_digit d = ''0123456789abcdef'' ! (d mod 16)"

definition generateRandomHex :: "composition_env \<Rightarrow> nat \<Rightarrow> nat \<Rightarrow> string option" where
  "generateRandomHex e k n =
     map_option (\<lambda>bs. concat (map (\<lambda>c. [hex_digit (of_char c div 16), hex_digit (of_char c)])
       (take n (bs @ replicate n (CHR 0x00))))) (ce_bytes e k n)"

definition enabledPocketBaseIsPasskeyOIDCProvider :: "engine \<Rightarrow> string list \<Rightarrow> bool" where
  "enabledPocketBaseIsPasskeyOIDCProvider en names \<longleftrightarrow>
     ''pocketbase'' \<in> set names \<and> moduleIsPasskeyOIDCProvider en ''pocketbase''"

definition identityProviderSubdomains :: "composition_env \<Rightarrow> engine \<Rightarrow> string \<Rightarrow> string \<times> string" where
  "identityProviderSubdomains e en provider =
     (if provider = ''pocketid'' then (''id'', ''id'')
      else case map_of (en_contracts en) provider of
        None \<Rightarrow> ('''', '''')
      | Some mc \<Rightarrow>
         (case find (\<lambda>(_, svc). sd_nested svc \<noteq> [] \<or> sd_flat svc \<noteq> [])
                 (range_map e [''identityProviderSubdomains'', provider] (mc_services mc)) of
            None \<Rightarrow> ('''', '''')
          | Some (_, svc) \<Rightarrow> (sd_nested svc, sd_flat svc)))"

definition first_nonempty :: "string list \<Rightarrow> string" where
  "first_nonempty ss = (case find (\<lambda>s. s \<noteq> []) ss of None \<Rightarrow> [] | Some s \<Rightarrow> s)"

definition identityProviderURLScheme :: "composition_env \<Rightarrow> string \<Rightarrow> string" where
  "identityProviderURLScheme e domain = (if IsLocalhostDomain e domain then ''http'' else ''https'')"

definition identityProviderIssuerURL :: "composition_env \<Rightarrow> engine \<Rightarrow> string \<Rightarrow> string" where
  "identityProviderIssuerURL e en provider =
     (let domain = (if sp_domain (en_spec en) = [] then ''lab.home'' else sp_domain (en_spec en));
          (nested, flat) = identityProviderSubdomains e en provider in
      if sp_prefix (en_spec en) \<noteq> []
      then identityProviderURLScheme e domain @ ''://'' @ sp_prefix (en_spec en) @ ''-'' @
             first_nonempty [flat, nested, provider] @ ''.'' @ domain
      else identityProviderURLScheme e domain @ ''://'' @ first_nonempty [nested, provider] @ ''.'' @ domain)"

definition passkey_provider :: "engine \<Rightarrow> string list \<Rightarrow> string" where
  "passkey_provider en names =
     (if ''pocketid'' \<in> set names then ''pocketid''
      else if enabledPocketBaseIsPasskeyOIDCProvider en names then ''pocketbase'' else '''')"

definition auth_mode :: "engine \<Rightarrow> (string \<times> (string \<times> config) list) list \<Rightarrow> string" where
  "auth_mode en settings =
     (let mode = (case Option.bind (map_of settings ''tinyauth'') (\<lambda>m. map_of m ''authMode'') of
            Some (CText s) \<Rightarrow> s
          | _ \<Rightarrow> ''passkeys_plus_legacy'') in
      case sp_identity_auth (en_spec en) of
        None \<Rightarrow> mode
      | Some a \<Rightarrow> if a = [] then mode else a)"

definition resolveIdentity ::
  "composition_env \<Rightarrow> engine \<Rightarrow> string list \<Rightarrow> (string \<times> (string \<times> config) list) list \<Rightarrow> composition_error + identity_config" where
  "resolveIdentity e en names settings =
     (case generateAdminPassword e 0 24 of
        None \<Rightarrow> Inl RandomSource
      | Some pwd \<Rightarrow>
         (let tinyauth = (''tinyauth'' \<in> set names); provider = passkey_provider en names;
              url = (if provider = [] then [] else identityProviderIssuerURL e en provider) in
          case (if tinyauth then generateRandomHex e 47 32 else Some []) of
            None \<Rightarrow> Inl RandomSource
          | Some secret \<Rightarrow> Inr
              \<lparr>ic_admin_email = ResolveAdminEmail e (en_spec en), ic_admin_password = pwd,
               ic_pocketid = (''pocketid'' \<in> set names), ic_tinyauth = tinyauth, ic_issuer = url,
               ic_client_id = (if provider = [] then [] else ''stackkit-tinyauth''), ic_client_secret = [],
               ic_tinyauth_oauth = (provider \<noteq> [] \<and> tinyauth), ic_session_secret = secret,
               ic_pocketid_url = (if provider = ''pocketid'' then url else []),
               ic_secure_cookie = (sp_context (en_spec en) = ''cloud''), ic_auth_mode = auth_mode en settings\<rparr>))"

section \<open>Placement\<close>

record capability_binding =
  cb_provider :: string
  cb_target :: string

record placement_result =
  pr_mode :: string
  pr_exposure :: string
  pr_coupling :: string
  pr_capabilities :: "(string \<times> capability_binding) list"

datatype placement_error = NotS1 string string | UnknownMode string

definition binding :: "string \<Rightarrow> string \<Rightarrow> capability_binding" where
  "binding p t = \<lparr>cb_provider = p, cb_target = t\<rparr>"

definition s1Capabilities :: "(string \<times> (string \<times> capability_binding) list) list" where
  "s1Capabilities =
     [(''local-only'',
        [(''relational'', binding ''sqlite'' ''local''), (''vector'', binding ''sqlite-vec'' ''embedded''),
         (''ai_inference'', binding ''ollama'' ''on-device''), (''object_storage'', binding ''local-fs'' ''local''),
         (''state_cache'', binding ''in-memory'' ''local''), (''secrets'', binding ''file'' ''local'')]),
      (''standard'',
        [(''relational'', binding ''postgres'' ''self-provisioned''), (''vector'', binding ''sqlite-vec'' ''self-provisioned''),
         (''ai_inference'', binding ''ollama'' ''self-provisioned''), (''object_storage'', binding ''local-fs'' ''self-provisioned''),
         (''state_cache'', binding ''valkey'' ''self-provisioned''), (''secrets'', binding ''file'' ''self-provisioned'')])]"

definition NormalizePlacementMode :: "composition_env \<Rightarrow> string \<Rightarrow> string" where
  "NormalizePlacementMode e mode = (let m = to_lower e (trim_space mode) in if m = [] then ''standard'' else m)"

definition ResolveS1 :: "composition_env \<Rightarrow> stack_spec \<Rightarrow> placement_error + placement_result" where
  "ResolveS1 e spec =
     (let mode = NormalizePlacementMode e (pl_mode (sp_placement spec));
          coupling = (if pl_coupling (sp_placement spec) = [] then ''cloudless'' else pl_coupling (sp_placement spec)) in
      if mode = ''managed-serverless'' \<or> coupling = ''coupled'' then Inl (NotS1 mode coupling)
      else case map_of s1Capabilities mode of
        None \<Rightarrow> Inl (UnknownMode mode)
      | Some caps \<Rightarrow> Inr
          \<lparr>pr_mode = mode,
           pr_exposure = (if mode = ''local-only'' \<or> pl_exposure (sp_placement spec) = [] then ''private''
                          else pl_exposure (sp_placement spec)),
           pr_coupling = ''cloudless'', pr_capabilities = caps\<rparr>)"

definition EligibleForPlacement :: "module_contract \<Rightarrow> string \<Rightarrow> bool" where
  "EligibleForPlacement mc mode \<longleftrightarrow>
     (case mc_placement mc of
        None \<Rightarrow> mode = ''local-only'' \<or> mode = ''standard''
      | Some ps \<Rightarrow>
          if mode = ''local-only'' then ps_local_only ps
          else if mode = ''standard'' then ps_standard ps
          else if mode = ''managed-serverless'' then ps_managed_serverless ps
          else False)"

definition rejection :: "engine \<Rightarrow> string \<Rightarrow> string \<Rightarrow> (string \<times> string \<times> string \<times> string list) option" where
  "rejection en mode name =
     (case map_of (en_contracts en) name of
        None \<Rightarrow> None
      | Some mc \<Rightarrow>
          if EligibleForPlacement mc mode then None
          else Some (name, mode, case mc_placement mc of None \<Rightarrow> ([], [])
                                 | Some ps \<Rightarrow> (ps_rejection_reason ps, ps_missing_adapters ps)))"

definition validatePlacementEligibility :: "engine \<Rightarrow> placement_result option \<Rightarrow> string list \<Rightarrow> composition_error option" where
  "validatePlacementEligibility en placement names =
     (case placement of
        None \<Rightarrow> None
      | Some p \<Rightarrow>
         (let rejected = List.map_filter (rejection en (pr_mode p)) names in
          check (rejected \<noteq> []) (PlacementRejected rejected)))"

section \<open>The mode-support matrix\<close>

definition support_rank :: "string \<Rightarrow> nat" where
  "support_rank grade =
     (if grade = ''scaffolding'' then 1 else if grade = ''control-plane'' then 2
      else if grade = ''unsupported'' then 3 else 0)"

definition consider_axis :: "mode_matrix \<Rightarrow> string \<times> string \<times> (string \<times> string) list \<Rightarrow> string \<times> warning list \<Rightarrow> string \<times> warning list" where
  "consider_axis m axis acc =
     (let (name, key, grades) = axis; (level, details) = acc;
          grade = (case map_of grades key of None \<Rightarrow> ''unsupported'' | Some g \<Rightarrow> g) in
      (if support_rank grade > support_rank level then grade else level,
       if grade \<noteq> ''supported'' then details @ [MatrixGrade name key grade (mx_kit m)] else details))"

definition CellVerdict :: "mode_matrix \<Rightarrow> string \<Rightarrow> string \<Rightarrow> string \<Rightarrow> string \<times> warning list" where
  "CellVerdict m placementMode installMode nodeContext =
     fold (consider_axis m)
       [(''placement mode'', placementMode, mx_placement m), (''install mode'', installMode, mx_install m),
        (''node context'', nodeContext, mx_context m)] (''supported'', [])"

definition NormalizeInstallMode :: "composition_env \<Rightarrow> string \<Rightarrow> string" where
  "NormalizeInstallMode e mode =
     (let m = to_lower e (trim_space mode) in
      if m \<in> set ['''', ''bootstrapped'', ''simple''] then ''bootstrapped''
      else if m = ''bare'' then ''bare''
      else if m \<in> set [''advanced'', ''terramate'', ''advanced-terramate''] then ''advanced''
      else m)"

definition paas_warnings :: "mode_matrix \<Rightarrow> string \<Rightarrow> warning list" where
  "paas_warnings m paas =
     (if paas = [] \<or> paas = ''none'' then []
      else case map_of (mx_paas m) paas of
        None \<Rightarrow> [PaasNotOffered paas (mx_kit m)]
      | Some status \<Rightarrow> if status = ''draft'' \<or> status = ''experimental'' then [PaasUnverified paas status (mx_kit m)] else [])"

text \<open>The warnings the enforcement adds, or its error.\<close>

definition enforceModeMatrix :: "composition_env \<Rightarrow> engine \<Rightarrow> composition_error + warning list" where
  "enforceModeMatrix e en =
     (case en_matrix en of
        None \<Rightarrow> Inr []
      | Some m \<Rightarrow>
         (let ctx = (if sp_context (en_spec en) = [] then ''local'' else sp_context (en_spec en));
              (level, details) = CellVerdict m (NormalizePlacementMode e (pl_mode (sp_placement (en_spec en))))
                (NormalizeInstallMode e (sp_mode (en_spec en))) ctx in
          if level = ''unsupported'' then Inl (UnsupportedCell (mx_kit m) details)
          else Inr ((if level = ''scaffolding'' \<or> level = ''control-plane'' then details else []) @
                    paas_warnings m (sp_paas (en_spec en)))))"

section \<open>The pipeline\<close>

record composition_result =
  cr_modules :: "string list"
  cr_settings :: "(string \<times> (string \<times> config) list) list"
  cr_warnings :: "warning list"
  cr_identity :: identity_config
  cr_placement :: "placement_result option"
  cr_handoffs :: "control_plane_handoff list"

definition collect :: "composition_env \<Rightarrow> engine \<Rightarrow> collected" where
  "collect e en =
     (let s = resolveAddons en (resolveApplication e en \<lparr>cl_enabled = [], cl_warnings = [], cl_handoffs = []\<rparr>) in
      s\<lparr>cl_enabled := addPlatformDefaults en (cl_enabled s)\<rparr>)"

definition select_modules :: "composition_env \<Rightarrow> engine \<Rightarrow> string list \<Rightarrow> composition_error + string list" where
  "select_modules e en enabled =
     ebind (applyServiceOverrides e en enabled) (\<lambda>enabled1.
     ebind (expandDependencies e 0 en enabled1) (\<lambda>enabled2. sortModules e en enabled2))"

definition placement_warning :: "placement_error \<Rightarrow> warning" where
  "placement_warning err = (case err of NotS1 m c \<Rightarrow> PlacementNotS1 m c | UnknownMode m \<Rightarrow> UnknownPlacement m)"

definition Resolve :: "composition_env \<Rightarrow> engine \<Rightarrow> composition_error + composition_result" where
  "Resolve e en =
     (let s = collect e en in
      ebind (select_modules e en (cl_enabled s)) (\<lambda>order.
      let settings = propagateSettings en order in
      ebind (resolveIdentity e en order settings) (\<lambda>identity.
      let (placement, warnings) =
            (case ResolveS1 e (en_spec en) of
               Inl err \<Rightarrow> (None, cl_warnings s @ [placement_warning err])
             | Inr pr \<Rightarrow> (Some pr, cl_warnings s)) in
      ebind (case validatePlacementEligibility en placement order of Some err \<Rightarrow> Inl err | None \<Rightarrow> Inr ()) (\<lambda>_.
      ebind (enforceModeMatrix e en) (\<lambda>more. Inr
        \<lparr>cr_modules = order, cr_settings = settings, cr_warnings = warnings @ more, cr_identity = identity,
         cr_placement = placement, cr_handoffs = cl_handoffs s\<rparr>)))))"

end
