(* ===== verification/CompositionPlan.thy ===== *)
theory CompositionPlan
  imports CompositionEngine
begin

text \<open>
  What the composition engine guarantees: the expansion is a closure, the order is a reference order
  that no map iteration influences, a resolution is sound; and two places where the result is not
  what the code means to do. At the end, a sample engine and the witnesses.
\<close>

section \<open>Engines\<close>

text \<open>What the maps of the code give: contracts filed under their names, requirements keyed by module.\<close>

definition engine_ok :: "engine \<Rightarrow> bool" where
  "engine_ok en \<longleftrightarrow> distinct (map fst (en_contracts en)) \<and>
     (\<forall>(n, mc) \<in> set (en_contracts en). mc_name mc = n \<and> distinct (required_names mc))"

lemma engine_ok_contract: "engine_ok en \<Longrightarrow> map_of (en_contracts en) n = Some mc \<Longrightarrow> mc_name mc = n \<and> distinct (required_names mc)"
  by (fastforce simp: engine_ok_def dest: map_of_SomeD)

lemma new_engine_ok:
  assumes "\<forall>c \<in> set contracts. distinct (required_names c)"
  shows "engine_ok (NewCompositionEngine contracts application spec)"
proof -
  have "distinct (map fst (fold (\<lambda>c. AList.update (mc_name c) c) cs m)) \<and>
      (\<forall>(n, mc) \<in> set (fold (\<lambda>c. AList.update (mc_name c) c) cs m). mc_name mc = n \<and> distinct (required_names mc))"
    if "distinct (map fst m)" "\<forall>(n, mc) \<in> set m. mc_name mc = n \<and> distinct (required_names mc)" "set cs \<subseteq> set contracts" for cs m
    using that
  proof (induction cs arbitrary: m)
    case (Cons c cs)
    have "\<forall>(n, mc) \<in> set (AList.update (mc_name c) c m). mc_name mc = n \<and> distinct (required_names mc)"
    proof safe
      fix n mc assume "(n, mc) \<in> set (AList.update (mc_name c) c m)"
      then have "map_of (AList.update (mc_name c) c m) n = Some mc"
        using Cons.prems(1) by (simp add: distinct_update)
      then have "(n = mc_name c \<and> mc = c) \<or> (n, mc) \<in> set m"
        by (auto simp: update_conv' split: if_splits dest: map_of_SomeD)
      then show "mc_name mc = n" "distinct (required_names mc)"
        using Cons.prems assms by fastforce+
    qed
    moreover have "distinct (map fst (AList.update (mc_name c) c m))"
      using Cons.prems(1) by (simp add: distinct_update)
    ultimately show ?case using Cons.IH [of "AList.update (mc_name c) c m"] Cons.prems(3) by auto
  qed simp
  from this [of "[]" contracts] show ?thesis
    by (simp add: engine_ok_def NewCompositionEngine_def)
qed

definition contract_names :: "engine \<Rightarrow> string set" where
  "contract_names en = dom (map_of (en_contracts en))"

definition requirements :: "engine \<Rightarrow> string \<Rightarrow> (string \<times> required_service) list" where
  "requirements en n = (case Option.bind (map_of (en_contracts en) n) mc_requires of None \<Rightarrow> [] | Some svs \<Rightarrow> svs)"

text \<open>The mandatory requirements between modules.\<close>

definition mandatory :: "engine \<Rightarrow> (string \<times> string) set" where
  "mandatory en = {(n, d). \<exists>rq. map_of (requirements en n) d = Some rq \<and> \<not> rq_optional rq}"

section \<open>The expansion is the closure of the mandatory requirements\<close>

lemma in_contracts_iff: "in_contracts en n \<longleftrightarrow> n \<in> contract_names en"
  by (simp add: in_contracts_def contract_names_def domIff)

lemma enable_required_Inr:
  "enable_required en name svs enabled = Inr enabled' \<Longrightarrow>
     set enabled' = set enabled \<union> {d. \<exists>rq. (d, rq) \<in> set svs \<and> \<not> rq_optional rq}"
  by (induction en name svs enabled rule: enable_required.induct) (auto split: if_splits)

lemma enable_required_Inl:
  "enable_required en name svs enabled = Inl err \<Longrightarrow>
     \<exists>d rq. err = RequiredModuleMissing name d \<and> (d, rq) \<in> set svs \<and> \<not> rq_optional rq \<and> d \<notin> contract_names en"
proof (induction en name svs enabled rule: enable_required.induct)
  case (2 en name dep rq svs enabled)
  then show ?case
    by (cases "dep \<in> set enabled"; cases "rq_optional rq"; cases "in_contracts en dep")
      (auto simp: in_contracts_iff)
qed simp

lemma expand_module_result:
  "(case expand_module e site en name enabled of
      Inr enabled' \<Rightarrow> set enabled' = set enabled \<union> mandatory en `` {name}
    | Inl err \<Rightarrow> \<exists>d. err = RequiredModuleMissing name d \<and> (name, d) \<in> mandatory en \<and> d \<notin> contract_names en)"
proof (cases "Option.bind (map_of (en_contracts en) name) mc_requires")
  case None
  then show ?thesis by (simp add: expand_module_def mandatory_def requirements_def)
next
  case (Some svs)
  then show ?thesis
    using enable_required_Inr [of en name "range_map e (name # site) svs" enabled]
      enable_required_Inl [of en name "range_map e (name # site) svs" enabled]
    by (cases "enable_required en name (range_map e (name # site) svs) enabled")
      (auto simp: expand_module_def mandatory_def requirements_def set_range_map)
qed

text \<open>A missing module that some reachable module must have.\<close>

definition missing_from :: "engine \<Rightarrow> string set \<Rightarrow> composition_error \<Rightarrow> bool" where
  "missing_from en N err \<longleftrightarrow> (\<exists>n d. err = RequiredModuleMissing n d \<and> n \<in> (mandatory en)\<^sup>* `` N \<and>
     (n, d) \<in> mandatory en \<and> d \<notin> contract_names en)"

lemma closure_step: "n \<in> N \<Longrightarrow> (mandatory en)\<^sup>* `` (N \<union> mandatory en `` {n}) = (mandatory en)\<^sup>* `` N"
  by (auto intro: converse_rtrancl_into_rtrancl)

lemma expand_pass_result:
  "(case expand_pass e site en start visited enabled of
      Inr enabled' \<Rightarrow> set enabled \<subseteq> set enabled' \<and> (mandatory en)\<^sup>* `` set enabled' = (mandatory en)\<^sup>* `` set enabled \<and>
        (\<forall>n \<in> set start \<inter> set enabled - set visited. mandatory en `` {n} \<subseteq> set enabled')
    | Inl err \<Rightarrow> missing_from en (set enabled) err)"
proof (induction e site en start visited enabled rule: expand_pass.induct)
  case (1 e site en start visited enabled)
  show ?case
  proof (cases "next_keys e site start visited enabled")
    case Nil
    then have "set start \<inter> set enabled - set visited = {}"
      using set_next_keys [of e site start visited enabled] by auto
    with Nil show ?thesis by (auto simp: expand_pass.simps)
  next
    case (Cons name rest)
    have name: "name \<in> set enabled"
      using set_next_keys [of e site start visited enabled] Cons by auto
    show ?thesis
    proof (cases "expand_module e site en name enabled")
      case (Inl err)
      then have "missing_from en (set enabled) err"
        using expand_module_result [where e = e and site = site and en = en and name = name and enabled = enabled] name by (auto simp: missing_from_def)
      with Cons Inl show ?thesis by (simp add: expand_pass.simps)
    next
      case (Inr enabled1)
      then have e1: "set enabled1 = set enabled \<union> mandatory en `` {name}"
        using expand_module_result [where e = e and site = site and en = en and name = name and enabled = enabled] by simp
      note ih = 1 [OF Cons Inr]
      show ?thesis
      proof (cases "expand_pass e site en start (name # visited) enabled1")
        case err: (Inl err)
        with ih have "missing_from en (set enabled1) err" by simp
        then have "missing_from en (set enabled) err"
          by (simp add: missing_from_def e1 closure_step [OF name])
        with err Cons Inr show ?thesis by (simp add: expand_pass.simps)
      next
        case ok: (Inr enabled2)
        with ih have "set enabled1 \<subseteq> set enabled2" "(mandatory en)\<^sup>* `` set enabled2 = (mandatory en)\<^sup>* `` set enabled1"
          "\<forall>n \<in> set start \<inter> set enabled1 - set (name # visited). mandatory en `` {n} \<subseteq> set enabled2" by simp_all
        then have "set enabled \<subseteq> set enabled2" "(mandatory en)\<^sup>* `` set enabled2 = (mandatory en)\<^sup>* `` set enabled"
          "\<forall>n \<in> set start \<inter> set enabled - set visited. mandatory en `` {n} \<subseteq> set enabled2"
          using e1 closure_step [OF name] by auto
        with ok Cons Inr show ?thesis by (simp add: expand_pass.simps)
      qed
    qed
  qed
qed

lemma closed_image: "R `` S \<subseteq> S \<Longrightarrow> R\<^sup>* `` S = S"
  by (rule Image_closed_trancl)

lemma expand_is_closure:
  "(case expandDependencies e pass en enabled of
      Inr names \<Rightarrow> set names = (mandatory en)\<^sup>* `` set enabled
    | Inl err \<Rightarrow> missing_from en (set enabled) err)"
proof (induction e pass en enabled rule: expandDependencies.induct)
  case (1 e pass en enabled)
  let ?site = "[''expandDependencies'', replicate pass CHR ''i'']"
  note r = expand_pass_result [where e = e and site = ?site and en = en and start = enabled and visited = "[]" and enabled = enabled]
  show ?case
  proof (cases "expand_pass e ?site en enabled [] enabled")
    case (Inl err)
    with r show ?thesis by (simp add: expandDependencies.simps [of e pass])
  next
    case (Inr enabled')
    show ?thesis
    proof (cases "enabled' = enabled")
      case True
      with r Inr have "mandatory en `` set enabled \<subseteq> set enabled" by auto
      then show ?thesis
        using True Inr by (simp add: expandDependencies.simps [of e pass] closed_image)
    next
      case False
      with 1 [OF Inr False] r Inr show ?thesis
        by (cases "expandDependencies e (Suc pass) en enabled'")
          (simp_all add: expandDependencies.simps [of e pass] missing_from_def)
    qed
  qed
qed

lemma expand_keeps_contracts:
  "expandDependencies e pass en enabled = Inr names \<Longrightarrow> set enabled \<subseteq> contract_names en \<Longrightarrow> set names \<subseteq> contract_names en"
proof (induction e pass en enabled rule: expandDependencies.induct)
  case (1 e pass en enabled)
  from 1(2) obtain enabled' where p: "expand_pass e [''expandDependencies'', replicate pass CHR ''i''] en enabled [] enabled = Inr enabled'"
    and r: "if enabled' = enabled then names = enabled' else expandDependencies e (Suc pass) en enabled' = Inr names"
    by (auto simp: expandDependencies.simps [of e pass] split: sum.splits if_splits)
  have "set enabled' \<subseteq> contract_names en"
    using expand_pass_grows [OF p] 1(3) by (auto simp: grows_def contract_names_def)
  with r 1(1) [OF p] show ?case by (auto split: if_splits)
qed

text \<open>With a contract for every enabled module, the expansion fails exactly when a needed contract is missing.\<close>

lemma expand_succeeds_iff:
  assumes "set enabled \<subseteq> contract_names en"
  shows "(\<exists>names. expandDependencies e pass en enabled = Inr names) \<longleftrightarrow> (mandatory en)\<^sup>* `` set enabled \<subseteq> contract_names en"
proof
  assume "\<exists>names. expandDependencies e pass en enabled = Inr names"
  then obtain names where n: "expandDependencies e pass en enabled = Inr names" ..
  with expand_is_closure [where e = e and pass = pass and en = en and enabled = enabled] expand_keeps_contracts [OF n assms]
  show "(mandatory en)\<^sup>* `` set enabled \<subseteq> contract_names en" by simp
next
  assume sub: "(mandatory en)\<^sup>* `` set enabled \<subseteq> contract_names en"
  show "\<exists>names. expandDependencies e pass en enabled = Inr names"
  proof (cases "expandDependencies e pass en enabled")
    case (Inl err)
    with expand_is_closure [where e = e and pass = pass and en = en and enabled = enabled] have "missing_from en (set enabled) err" by simp
    with sub show ?thesis by (auto simp: missing_from_def intro: rtrancl_into_rtrancl)
  qed simp
qed

section \<open>The order of deployment\<close>

definition depends :: "engine \<Rightarrow> string \<Rightarrow> string set" where
  "depends en n = fst ` set (requirements en n)"

text \<open>
  A set of modules can be deployed when every requirement of a member, mandatory or not, is a member,
  every capability a mandatory requirement names is provided, and no member needs itself.
\<close>

definition provides_for :: "engine \<Rightarrow> string \<Rightarrow> string \<Rightarrow> bool" where
  "provides_for en d c \<longleftrightarrow> (\<exists>mc. map_of (en_contracts en) d = Some mc \<and> provides_capability mc c)"

definition capabilities_met :: "engine \<Rightarrow> string \<Rightarrow> bool" where
  "capabilities_met en n \<longleftrightarrow>
     (\<forall>(d, rq) \<in> set (requirements en n). \<not> rq_optional rq \<longrightarrow> (\<forall>c \<in> set (rq_provides rq). provides_for en d c))"

definition deployable :: "engine \<Rightarrow> string set \<Rightarrow> bool" where
  "deployable en N \<longleftrightarrow> (\<forall>n \<in> N. depends en n \<subseteq> N \<and> capabilities_met en n) \<and>
     acyclic {(n, d). n \<in> N \<and> d \<in> depends en n}"

definition deploy_ready :: "engine \<Rightarrow> string set \<Rightarrow> string list \<Rightarrow> string set" where
  "deploy_ready en N placed = {n \<in> N. n \<notin> set placed \<and> depends en n \<inter> N \<subseteq> set placed}"

text \<open>The reference order: always the least module whose requirements are placed, until all are.\<close>

definition deploy_order :: "engine \<Rightarrow> string set \<Rightarrow> string list \<Rightarrow> bool" where
  "deploy_order en N xs \<longleftrightarrow>
     (\<forall>i < length xs. xs ! i \<in> deploy_ready en N (take i xs) \<and> (\<forall>n \<in> deploy_ready en N (take i xs). xs ! i \<le> n)) \<and>
     set xs = N"

definition graph_of :: "composition_env \<Rightarrow> engine \<Rightarrow> string list \<Rightarrow> dependency_graph" where
  "graph_of e en enabled = BuildGraph (map snd (entries (en_contracts en) (key_order e [''sortModules''] enabled)))"

definition enabled_ok :: "engine \<Rightarrow> string list \<Rightarrow> bool" where
  "enabled_ok en enabled \<longleftrightarrow> distinct enabled \<and> set enabled \<subseteq> contract_names en"

lemma selection_names:
  fixes e :: composition_env
  assumes "engine_ok en" "enabled_ok en enabled"
  defines "cs \<equiv> map snd (entries (en_contracts en) (key_order e [''sortModules''] enabled))"
  shows "map mc_name cs = key_order e [''sortModules''] enabled"
    and "set cs = {mc. \<exists>n \<in> set enabled. map_of (en_contracts en) n = Some mc}"
    and "contracts_ok cs"
proof -
  let ?ks = "key_order e [''sortModules''] enabled"
  have mem: "(n, mc) \<in> set (entries (en_contracts en) ?ks) \<longleftrightarrow> n \<in> set enabled \<and> map_of (en_contracts en) n = Some mc" for n mc
    by (simp add: set_entries)
  then have "map mc_name cs = map fst (entries (en_contracts en) ?ks)"
    using engine_ok_contract [OF assms(1)] by (force simp: cs_def)
  moreover have "set ?ks \<subseteq> fst ` set (en_contracts en)"
    using assms(2) by (auto simp: enabled_ok_def contract_names_def dom_map_of_conv_image_fst)
  ultimately show names: "map mc_name cs = ?ks" by (simp add: keys_entries)
  show set: "set cs = {mc. \<exists>n \<in> set enabled. map_of (en_contracts en) n = Some mc}"
    using mem by (force simp: cs_def)
  show "contracts_ok cs"
    unfolding contracts_ok_def using names set assms(2) engine_ok_contract [OF assms(1)]
    by (auto simp: enabled_ok_def)
qed

lemma graph_of_facts:
  assumes "engine_ok en" "enabled_ok en enabled"
  shows "well_formed (graph_of e en enabled)" and "modules (graph_of e en enabled) = set enabled"
    and "n \<in> set enabled \<Longrightarrow> map_of (gr_modules (graph_of e en enabled)) n = map_of (en_contracts en) n"
    and "n \<notin> set enabled \<Longrightarrow> map_of (gr_modules (graph_of e en enabled)) n = None"
    and "set (deps_of (gr_edges (graph_of e en enabled)) n) = (if n \<in> set enabled then depends en n else {})"
proof -
  let ?cs = "map snd (entries (en_contracts en) (key_order e [''sortModules''] enabled))"
  note sel = selection_names [OF assms, where e = e]
  have d: "distinct (map mc_name ?cs)" using sel(3) by (simp add: contracts_ok_def)
  show wf: "well_formed (graph_of e en enabled)"
    unfolding graph_of_def by (rule BuildGraph_well_formed [OF sel(3)])
  show mods: "modules (graph_of e en enabled) = set enabled"
    unfolding graph_of_def BuildGraph_modules [OF d] using sel(1) by (metis set_key_order set_map)
  have each: "map_of (gr_modules (graph_of e en enabled)) n = Some mc \<and>
      deps_of (gr_edges (graph_of e en enabled)) n = sort (required_names mc)"
    if "n \<in> set enabled" "map_of (en_contracts en) n = Some mc" for n mc
  proof -
    have "mc \<in> set ?cs" using sel(2) that by blast
    from BuildGraph_deps [OF d this] engine_ok_contract [OF assms(1) that(2)] show ?thesis
      by (simp add: graph_of_def)
  qed
  have some: "\<exists>mc. map_of (en_contracts en) n = Some mc" if "n \<in> set enabled" for n
    using assms(2) that by (auto simp: enabled_ok_def contract_names_def)
  show "n \<in> set enabled \<Longrightarrow> map_of (gr_modules (graph_of e en enabled)) n = map_of (en_contracts en) n"
    using each some by metis
  show "n \<notin> set enabled \<Longrightarrow> map_of (gr_modules (graph_of e en enabled)) n = None"
    using mods by (simp add: modules_def map_of_eq_None_iff)
  show "set (deps_of (gr_edges (graph_of e en enabled)) n) = (if n \<in> set enabled then depends en n else {})"
  proof (cases "n \<in> set enabled")
    case True
    with some obtain mc where mc: "map_of (en_contracts en) n = Some mc" by blast
    then show ?thesis
      using each [OF True mc] True
      by (auto simp: depends_def requirements_def required_names_def split: option.splits)
  next
    case False
    then have "d \<notin> set (deps_of (gr_edges (graph_of e en enabled)) n)" for d
      using edge_in_modules [OF wf, of d n] mods by blast
    then have "set (deps_of (gr_edges (graph_of e en enabled)) n) = {}"
      by (metis equals0I)
    with False show ?thesis by (simp only: if_False)
  qed
qed

lemma graph_needs:
  "engine_ok en \<Longrightarrow> enabled_ok en enabled \<Longrightarrow>
     needs (graph_of e en enabled) n = (if n \<in> set enabled then depends en n \<inter> set enabled else {})"
  using graph_of_facts [where e = e and en = en and enabled = enabled] by (auto simp: needs_def)

lemma graph_ready:
  "engine_ok en \<Longrightarrow> enabled_ok en enabled \<Longrightarrow>
     ready (graph_of e en enabled) placed = deploy_ready en (set enabled) placed"
  using graph_of_facts(2) [where e = e and en = en and enabled = enabled] graph_needs [where e = e and en = en and enabled = enabled] by (auto simp: ready_def deploy_ready_def)

lemma graph_least_order:
  assumes "engine_ok en" "enabled_ok en enabled"
  shows "least_order (graph_of e en enabled) xs \<and> set xs = set enabled \<longleftrightarrow> deploy_order en (set enabled) xs"
  unfolding least_order_def deploy_order_def graph_ready [OF assms]
  by (auto simp: deploy_ready_def)

section \<open>Validation\<close>

lemma check_dependency_Nil:
  assumes "engine_ok en" "enabled_ok en enabled" "n \<in> set enabled" "d \<in> depends en n"
  shows "check_dependency (graph_of e en enabled) n d = [] \<longleftrightarrow>
    d \<in> set enabled \<and> (\<forall>rq. map_of (requirements en n) d = Some rq \<and> \<not> rq_optional rq \<longrightarrow>
      (\<forall>c \<in> set (rq_provides rq). provides_for en d c))"
proof -
  note g = graph_of_facts [OF assms(1,2), where e = e]
  obtain mc where mc: "map_of (en_contracts en) n = Some mc"
    using assms(2,3) by (auto simp: enabled_ok_def contract_names_def)
  show ?thesis
  proof (cases "d \<in> set enabled")
    case False
    with g(4) show ?thesis by (simp add: check_dependency_def)
  next
    case True
    then obtain dm where dm: "map_of (en_contracts en) d = Some dm"
      using assms(2) by (auto simp: enabled_ok_def contract_names_def)
    obtain svs where svs: "mc_requires mc = Some svs"
      using assms(4) mc by (cases "mc_requires mc") (auto simp: depends_def requirements_def)
    have req: "requirements en n = svs" using mc svs by (simp add: requirements_def)
    then have "d \<in> fst ` set svs" using assms(4) by (simp add: depends_def)
    then obtain rq where rq: "map_of svs d = Some rq"
      by (metis map_of_eq_None_iff not_None_eq)
    have "check_dependency (graph_of e en enabled) n d = (if rq_optional rq then []
        else map (\<lambda>c. (n, MissingCapability c d)) (filter (\<lambda>c. \<not> provides_capability dm c) (rq_provides rq)))"
      using g(3) [OF True] g(3) [OF assms(3)] mc dm svs rq by (simp add: check_dependency_def)
    moreover have "provides_for en d c \<longleftrightarrow> provides_capability dm c" for c
      using dm by (simp add: provides_for_def)
    ultimately show ?thesis
      using True rq by (simp add: req filter_empty_conv)
  qed
qed

lemma Validate_Nil:
  assumes "engine_ok en" "enabled_ok en enabled" "mset es = mset (gr_edges (graph_of e en enabled))"
  shows "Validate es (graph_of e en enabled) = [] \<longleftrightarrow> deployable en (set enabled)"
proof -
  let ?g = "graph_of e en enabled"
  note g = graph_of_facts [OF assms(1,2), where e = e]
  have ds: "distinct (map fst (requirements en n))" for n
    using engine_ok_contract [OF assms(1), of n]
    by (cases "map_of (en_contracts en) n") (auto simp: requirements_def required_names_def split: option.splits)
  have edges: "(\<forall>(n, ds) \<in> set es. \<forall>d \<in> set ds. P n d) \<longleftrightarrow> (\<forall>n \<in> set enabled. \<forall>d \<in> depends en n. P n d)" for P
  proof -
    have "(\<forall>(n, ds) \<in> set es. \<forall>d \<in> set ds. P n d) \<longleftrightarrow> (\<forall>n d. (\<exists>ds. (n, ds) \<in> set es \<and> d \<in> set ds) \<longrightarrow> P n d)" by blast
    then show ?thesis
      using depends_edge [OF g(1) assms(3)] g(5) by auto
  qed
  have "concat (map (\<lambda>(name, ds). concat (map (check_dependency ?g name) ds)) es) = [] \<longleftrightarrow>
      (\<forall>(n, ds) \<in> set es. \<forall>d \<in> set ds. check_dependency ?g n d = [])" by auto
  also have "\<dots> \<longleftrightarrow> (\<forall>n \<in> set enabled. \<forall>d \<in> depends en n. check_dependency ?g n d = [])" by (rule edges)
  also have "\<dots> \<longleftrightarrow> (\<forall>n \<in> set enabled. depends en n \<subseteq> set enabled \<and> capabilities_met en n)"
  proof (rule ball_cong [OF refl])
    fix n assume n: "n \<in> set enabled"
    have "(\<forall>d \<in> depends en n. check_dependency ?g n d = []) \<longleftrightarrow> (\<forall>d \<in> depends en n. d \<in> set enabled \<and>
        (\<forall>rq. (d, rq) \<in> set (requirements en n) \<and> \<not> rq_optional rq \<longrightarrow> (\<forall>c \<in> set (rq_provides rq). provides_for en d c)))"
      using check_dependency_Nil [OF assms(1,2) n, where e = e] by (simp add: map_of_eq_Some_iff [OF ds])
    also have "\<dots> \<longleftrightarrow> depends en n \<subseteq> set enabled \<and> capabilities_met en n"
      unfolding depends_def capabilities_met_def by force
    finally show "(\<forall>d \<in> depends en n. check_dependency ?g n d = []) \<longleftrightarrow> \<dots>" .
  qed
  finally have first: "concat (map (\<lambda>(name, ds). concat (map (check_dependency ?g name) ds)) es) = [] \<longleftrightarrow> \<dots>" .
  have "dep_rel ?g = {(n, d). n \<in> set enabled \<and> d \<in> depends en n \<inter> set enabled}"
    using g(2) graph_needs [OF assms(1,2)] by (auto simp: dep_rel_def)
  moreover have "\<dots> = {(n, d). n \<in> set enabled \<and> d \<in> depends en n}" if "\<forall>n \<in> set enabled. depends en n \<subseteq> set enabled"
    using that by auto
  ultimately show ?thesis
    unfolding Validate_def append_is_Nil_conv first deployable_def
    using detectCycle_correct(1) [OF g(1)] by (cases "detectCycle ?g") auto
qed

lemma sortModules_alt:
  "sortModules e en enabled =
     (let g = graph_of e en enabled; errs = Validate (range_map e [''Validate''] (gr_edges g)) g in
      if errs \<noteq> [] then Inl (ValidationErrors errs)
      else case TopologicalSort (\<lambda>placed. range_map e (''TopologicalSort'' # placed) (gr_edges g)) g of
        Inl err \<Rightarrow> Inl (SortError err) | Inr names \<Rightarrow> Inr names)"
  by (simp add: sortModules_def graph_of_def)

lemma sortModules_result:
  assumes ok: "engine_ok en" "enabled_ok en enabled"
  shows "sortModules e en enabled = Inr xs \<longleftrightarrow> deployable en (set enabled) \<and> deploy_order en (set enabled) xs"
    and "sortModules e en enabled \<noteq> Inl (SortError err)"
proof -
  let ?g = "graph_of e en enabled"
  let ?order = "\<lambda>placed. range_map e (''TopologicalSort'' # placed) (gr_edges ?g)"
  note g = graph_of_facts [OF ok, where e = e]
  have edges: "mset (range_map e site (gr_edges ?g)) = mset (gr_edges ?g)" for site
    using g(1) by (simp add: mset_range_map well_formed_def)
  note valid = Validate_Nil [OF ok edges]
  obtain ys where ys: "least_order ?g ys" "TopologicalSort ?order ?g =
      (if length ys = length (gr_modules ?g) then Inr ys else Inl (DependencyCycle (length ys) (length (gr_modules ?g))))"
    using TopologicalSort_least [OF g(1), of ?order] edges by auto
  have full: "length ys = length (gr_modules ?g) \<longleftrightarrow> set ys = set enabled"
    using least_order_full [OF g(1) ys(1)] g(2) by simp
  have complete: "set ys = set enabled" if "deployable en (set enabled)"
  proof -
    have "acyclic (dep_rel ?g)"
      using that valid detectCycle_correct(1) [OF g(1)] by (auto simp: Validate_def split: option.splits)
    with least_order_complete [OF ys(1)] g(2) show ?thesis by simp
  qed
  show "sortModules e en enabled \<noteq> Inl (SortError err)"
    "sortModules e en enabled = Inr xs \<longleftrightarrow> deployable en (set enabled) \<and> deploy_order en (set enabled) xs"
  proof (atomize (full), cases "deployable en (set enabled)")
    case True
    then have "sortModules e en enabled = Inr ys"
      using valid [of "[''Validate'']"] ys(2) full complete by (simp add: sortModules_alt Let_def)
    moreover have "deploy_order en (set enabled) ys"
      using graph_least_order [OF ok, of e ys] ys(1) complete [OF True] by simp
    moreover have "deploy_order en (set enabled) xs \<Longrightarrow> ys = xs"
      using graph_least_order [OF ok, of e xs] least_order_unique [OF ys(1)] by blast
    ultimately show "sortModules e en enabled \<noteq> Inl (SortError err) \<and>
        (sortModules e en enabled = Inr xs \<longleftrightarrow> deployable en (set enabled) \<and> deploy_order en (set enabled) xs)"
      using True by auto
  next
    case False
    then show "sortModules e en enabled \<noteq> Inl (SortError err) \<and>
        (sortModules e en enabled = Inr xs \<longleftrightarrow> deployable en (set enabled) \<and> deploy_order en (set enabled) xs)"
      using valid [of "[''Validate'']"] by (simp add: sortModules_alt Let_def)
  qed
qed

section \<open>What the steps keep\<close>

lemma enable_ok: "enabled_ok en ns \<Longrightarrow> in_contracts en n \<Longrightarrow> enabled_ok en (enable n ns)"
  by (auto simp: enabled_ok_def enable_def in_contracts_iff)

lemma fold_enabled:
  "(\<And>x s. x \<in> set xs \<Longrightarrow> enabled_ok en (f s) \<Longrightarrow> enabled_ok en (f (g x s))) \<Longrightarrow> enabled_ok en (f s) \<Longrightarrow> enabled_ok en (f (fold g xs s))"
  by (induction xs arbitrary: s) auto

lemma warn_enabled [simp]: "cl_enabled (warn w s) = cl_enabled s"
  by (simp add: warn_def)

lemma turn_on_enabled [simp]: "cl_enabled (turn_on n s) = enable n (cl_enabled s)"
  by (simp add: turn_on_def)

lemma realize_enabled: "enabled_ok en (cl_enabled s) \<Longrightarrow> enabled_ok en (cl_enabled (realize_application e en uc def tool p s))"
  by (auto simp: realize_application_def enable_ok split: prod.splits option.splits)

lemma profile_enabled: "applicationRuntimeProfile e en uc def s = (n, p, s') \<Longrightarrow> cl_enabled s' = cl_enabled s"
  by (auto simp: applicationRuntimeProfile_def Let_def split: if_splits option.splits)

lemma resolve_one_enabled: "enabled_ok en (cl_enabled s) \<Longrightarrow> enabled_ok en (cl_enabled (resolve_one e en app s))"
  by (cases app) (auto simp: resolve_one_def Let_def profile_enabled intro!: realize_enabled split: prod.splits)

lemma resolve_addon_enabled: "enabled_ok en (cl_enabled s) \<Longrightarrow> enabled_ok en (cl_enabled (resolve_addon en addon s))"
  by (auto simp: resolve_addon_def in_contracts_def enable_ok split: option.splits)

lemma addPlatformDefaults_enabled:
  assumes "enabled_ok en ns"
  shows "enabled_ok en (addPlatformDefaults en ns)"
proof -
  have "enabled_ok en (fold (\<lambda>n ns. if in_contracts en n then enable n ns else ns) xs ns)" for xs
    using fold_enabled [of xs en id "\<lambda>n ns. if in_contracts en n then enable n ns else ns" ns] assms
    by (simp add: enable_ok)
  then have "enabled_ok en (fold (\<lambda>n ns. if in_contracts en n then enable n ns else ns) [''traefik'', ''socket-proxy'', ''pocketid''] ns)" .
  moreover have "in_contracts en ''tinyauth''" if "map_of (en_contracts en) ''tinyauth'' = Some mc" for mc
    using that by (simp add: in_contracts_def)
  ultimately show ?thesis
    unfolding addPlatformDefaults_def Let_def by (simp add: enable_ok del: fold.simps split: option.splits)
qed

lemma collect_enabled: "enabled_ok en (cl_enabled (collect e en))"
proof -
  have "enabled_ok en (cl_enabled (resolveApplication e en \<lparr>cl_enabled = [], cl_warnings = [], cl_handoffs = []\<rparr>))"
    unfolding resolveApplication_def
    by (rule fold_enabled [where f = cl_enabled]) (erule resolve_one_enabled, simp add: enabled_ok_def)
  then have "enabled_ok en (cl_enabled (resolveAddons en (resolveApplication e en \<lparr>cl_enabled = [], cl_warnings = [], cl_handoffs = []\<rparr>)))"
    unfolding resolveAddons_def by (intro fold_enabled [where f = cl_enabled] resolve_addon_enabled)
  then show ?thesis by (simp add: collect_def Let_def addPlatformDefaults_enabled)
qed

lemma drop_disabled_result:
  "drop_disabled en ns enabled = Inr enabled' \<Longrightarrow> enabled' = filter (\<lambda>n. n \<notin> set ns) enabled"
  by (induction en ns enabled rule: drop_disabled.induct)
    (auto simp: removeAll_filter_not_eq filter_filter split: if_splits intro: filter_cong)

lemma applyServiceOverrides_enabled:
  assumes "applyServiceOverrides e en enabled = Inr enabled'" "enabled_ok en enabled"
  shows "enabled_ok en enabled'"
proof -
  obtain enabled1 disabled where f:
    "fold (read_override en) (range_map e [''applyServiceOverrides'', ''services''] (sp_services (en_spec en))) (enabled, []) = (enabled1, disabled)"
    by fastforce
  have "enabled_ok en (fst (fold (read_override en) xs (enabled, [])))" for xs
    by (rule fold_enabled [where f = fst]) (auto simp: assms(2) read_override_def Let_def enable_ok split: prod.splits option.splits)
  from this [of "range_map e [''applyServiceOverrides'', ''services''] (sp_services (en_spec en))"]
  have "enabled_ok en enabled1" by (simp add: f)
  moreover from assms(1) f have "drop_disabled en (key_order e [''applyServiceOverrides'', ''disabled''] disabled) enabled1 = Inr enabled'"
    by (simp add: applyServiceOverrides_def)
  ultimately show ?thesis
    by (auto simp: enabled_ok_def dest!: drop_disabled_result)
qed

lemma grows_enabled:
  "expand_module e site en name enabled = Inr enabled' \<Longrightarrow> distinct enabled \<Longrightarrow> distinct enabled'"
proof -
  have "enable_required en name svs enabled = Inr enabled' \<Longrightarrow> distinct enabled \<Longrightarrow> distinct enabled'" for svs
    by (induction en name svs enabled rule: enable_required.induct) (auto split: if_splits)
  then show "expand_module e site en name enabled = Inr enabled' \<Longrightarrow> distinct enabled \<Longrightarrow> distinct enabled'"
    by (auto simp: expand_module_def split: option.splits)
qed

lemma expand_pass_distinct:
  "expand_pass e site en start visited enabled = Inr enabled' \<Longrightarrow> distinct enabled \<Longrightarrow> distinct enabled'"
proof (induction e site en start visited enabled rule: expand_pass.induct)
  case (1 e site en start visited enabled)
  show ?case
  proof (cases "next_keys e site start visited enabled")
    case (Cons name rest)
    with 1(2) obtain enabled1 where "expand_module e site en name enabled = Inr enabled1"
      "expand_pass e site en start (name # visited) enabled1 = Inr enabled'"
      by (subst (asm) expand_pass.simps) (auto split: sum.splits)
    with Cons 1 grows_enabled show ?thesis by metis
  qed (use 1 in \<open>simp add: expand_pass.simps\<close>)
qed

lemma expandDependencies_enabled:
  "expandDependencies e pass en enabled = Inr names \<Longrightarrow> enabled_ok en enabled \<Longrightarrow> enabled_ok en names"
proof -
  have "expandDependencies e pass en enabled = Inr names \<Longrightarrow> distinct enabled \<Longrightarrow> distinct names"
  proof (induction e pass en enabled rule: expandDependencies.induct)
    case (1 e pass en enabled)
    from 1(2) obtain enabled' where p: "expand_pass e [''expandDependencies'', replicate pass CHR ''i''] en enabled [] enabled = Inr enabled'"
      and r: "if enabled' = enabled then names = enabled' else expandDependencies e (Suc pass) en enabled' = Inr names"
      by (auto simp: expandDependencies.simps [of e pass] split: sum.splits if_splits)
    with 1(1) [OF p] 1(3) expand_pass_distinct [OF p] show ?case by (auto split: if_splits)
  qed
  then show "expandDependencies e pass en enabled = Inr names \<Longrightarrow> enabled_ok en enabled \<Longrightarrow> enabled_ok en names"
    using expand_keeps_contracts by (auto simp: enabled_ok_def)
qed

lemma select_modules_Inr:
  assumes "engine_ok en" "enabled_ok en enabled" "select_modules e en enabled = Inr xs"
  obtains enabled1 where "applyServiceOverrides e en enabled = Inr enabled1"
    and "set xs = (mandatory en)\<^sup>* `` set enabled1" and "enabled_ok en xs"
    and "deployable en (set xs)" and "deploy_order en (set xs) xs"
proof -
  obtain enabled1 enabled2 where o: "applyServiceOverrides e en enabled = Inr enabled1"
    and x: "expandDependencies e 0 en enabled1 = Inr enabled2" and s: "sortModules e en enabled2 = Inr xs"
    using assms(3) by (auto simp: select_modules_def)
  have "enabled_ok en enabled2"
    using o x assms(2) applyServiceOverrides_enabled expandDependencies_enabled by blast
  note r = sortModules_result(1) [OF assms(1) this, THEN iffD1, OF s]
  have set: "set enabled2 = (mandatory en)\<^sup>* `` set enabled1"
    using expand_is_closure [where e = e and pass = 0 and en = en and enabled = enabled1] x by simp
  have xs: "set xs = set enabled2" using r by (simp add: deploy_order_def)
  have "distinct xs"
  proof -
    have "placed_well (graph_of e en enabled2) xs"
      using graph_least_order [OF assms(1) \<open>enabled_ok en enabled2\<close>, of e xs] r by (simp add: least_order_iff)
    then show ?thesis by (simp add: placed_well_closed)
  qed
  with that o set xs r \<open>enabled_ok en enabled2\<close> show ?thesis by (auto simp: enabled_ok_def)
qed

section \<open>Properties of the engine\<close>

text \<open>
  C2. Expanding the dependencies and sorting the result yields a plan exactly when every module in
  the closure of the enabled ones under mandatory requirements has a contract and the closure can be
  deployed; the plan is then the closure in the reference order, whatever orders Go's maps take.
\<close>

theorem module_plan_is_closure_in_order:
  assumes "engine_ok en" and "enabled_ok en enabled"
  shows "ebind (expandDependencies e 0 en enabled) (sortModules e en) = Inr xs \<longleftrightarrow>
    (mandatory en)\<^sup>* `` set enabled \<subseteq> contract_names en \<and> deployable en ((mandatory en)\<^sup>* `` set enabled) \<and>
    deploy_order en ((mandatory en)\<^sup>* `` set enabled) xs"
proof (cases "expandDependencies e 0 en enabled")
  case (Inl err)
  with expand_succeeds_iff [of enabled en e 0] assms(2) show ?thesis by (simp add: enabled_ok_def)
next
  case (Inr names)
  have "set names = (mandatory en)\<^sup>* `` set enabled"
    using expand_is_closure [where e = e and pass = 0 and en = en and enabled = enabled] Inr by simp
  moreover have "enabled_ok en names" using expandDependencies_enabled [OF Inr assms(2)] .
  ultimately show ?thesis
    using sortModules_result(1) [OF assms(1) \<open>enabled_ok en names\<close>, of e xs] Inr by (simp add: enabled_ok_def)
qed

lemma deploy_order_before:
  assumes "deploy_order en N xs" "i < length xs" "d \<in> depends en (xs ! i)" "depends en (xs ! i) \<subseteq> N"
  shows "d \<in> set (take i xs)"
  using assms by (auto simp: deploy_order_def deploy_ready_def)

text \<open>
  C25. The modules of a resolution are distinct, have contracts, come after everything they require,
  find the capabilities they require, and are eligible for the resolved placement.
\<close>

theorem resolved_modules_are_sound:
  assumes "engine_ok en" and "Resolve e en = Inr r"
  shows "distinct (cr_modules r) \<and> set (cr_modules r) \<subseteq> contract_names en \<and>
    (\<forall>i < length (cr_modules r). depends en (cr_modules r ! i) \<subseteq> set (take i (cr_modules r))) \<and>
    (\<forall>n \<in> set (cr_modules r). capabilities_met en n) \<and>
    (\<forall>p n mc. cr_placement r = Some p \<and> n \<in> set (cr_modules r) \<and> map_of (en_contracts en) n = Some mc \<longrightarrow>
      EligibleForPlacement mc (pr_mode p))"
proof -
  obtain xs where sel: "select_modules e en (cl_enabled (collect e en)) = Inr xs" and r: "cr_modules r = xs"
    and el: "validatePlacementEligibility en (cr_placement r) xs = None"
    using assms(2) by (auto simp: Resolve_def Let_def split: sum.splits option.splits)
  obtain enabled1 where "enabled_ok en xs" "deployable en (set xs)" and order: "deploy_order en (set xs) xs"
    using select_modules_Inr [OF assms(1) collect_enabled sel] by blast
  moreover have "depends en (xs ! i) \<subseteq> set (take i xs)" if "i < length xs" for i
    using deploy_order_before [OF order that] \<open>deployable en (set xs)\<close> that by (auto simp: deployable_def)
  moreover have "EligibleForPlacement mc (pr_mode p)"
    if "cr_placement r = Some p" "n \<in> set xs" "map_of (en_contracts en) n = Some mc" for p n mc
  proof -
    have "rejection en (pr_mode p) n = None"
      using el that by (cases "rejection en (pr_mode p) n")
        (auto simp: validatePlacementEligibility_def Let_def List.map_filter_def filter_empty_conv)
    with that(3) show ?thesis by (simp add: rejection_def split: if_splits)
  qed
  ultimately show ?thesis by (auto simp: r enabled_ok_def deployable_def)
qed

text \<open>A requirement marked optional is still required to be enabled.\<close>

text \<open>
  C39. A requirement marked optional whose module is not enabled makes the sort reject the plan as if
  the module did not exist, although the expansion left it out on purpose.
\<close>

theorem optional_requirement_rejects_plan:
  assumes "engine_ok en" and "enabled_ok en enabled" and "(mandatory en)\<^sup>* `` set enabled \<subseteq> contract_names en"
    and "n \<in> set enabled" and "map_of (requirements en n) d = Some rq" and "rq_optional rq"
    and "d \<notin> (mandatory en)\<^sup>* `` set enabled"
  shows "\<exists>errs. ebind (expandDependencies e 0 en enabled) (sortModules e en) = Inl (ValidationErrors errs) \<and>
    (n, MissingModule d) \<in> set errs"
proof -
  obtain names where x: "expandDependencies e 0 en enabled = Inr names"
    using expand_succeeds_iff [of enabled en e 0] assms(2,3) by (auto simp: enabled_ok_def)
  have set: "set names = (mandatory en)\<^sup>* `` set enabled"
    using expand_is_closure [where e = e and pass = 0 and en = en and enabled = enabled] x by simp
  have ok: "enabled_ok en names" using expandDependencies_enabled [OF x assms(2)] .
  let ?g = "graph_of e en names" and ?es = "range_map e [''Validate''] (gr_edges (graph_of e en names))"
  note g = graph_of_facts [OF assms(1) ok, where e = e]
  have n: "n \<in> set names" and d: "d \<notin> set names" using set assms(4,7) by auto
  have "d \<in> depends en n" using assms(5) by (force simp: depends_def dest: map_of_SomeD)
  then have "d \<in> set (deps_of (gr_edges ?g) n)" using g(5) n by simp
  moreover have "mset ?es = mset (gr_edges ?g)" using g(1) by (simp add: mset_range_map well_formed_def)
  ultimately obtain ds where "(n, ds) \<in> set ?es" "d \<in> set ds"
    using depends_edge [OF g(1), of ?es n d] by auto
  moreover have "check_dependency ?g n d = [(n, MissingModule d)]"
    using g(4) d by (simp add: check_dependency_def)
  ultimately have "(n, MissingModule d) \<in> set (Validate ?es ?g)"
    unfolding Validate_def by force
  then have "sortModules e en names = Inl (ValidationErrors (Validate ?es ?g))"
    by (auto simp: sortModules_alt Let_def)
  with x \<open>(n, MissingModule d) \<in> set (Validate ?es ?g)\<close> show ?thesis by auto
qed

section \<open>The generated administrator password\<close>

lemma randomChar_member: "randomChar e k cs = Some c \<Longrightarrow> cs \<noteq> [] \<Longrightarrow> c \<in> set cs"
  by (auto simp: randomChar_def)

lemma draw_chars_members:
  "draw_chars e k css = Some out \<Longrightarrow> [] \<notin> set css \<Longrightarrow> list_all2 (\<lambda>cs c. c \<in> set cs) css out"
  by (induction e k css arbitrary: out rule: draw_chars.induct)
    (auto split: option.splits dest: randomChar_member)

lemma shuffle_down_mset: "shuffle_down e k i out = Some out' \<Longrightarrow> i < length out \<Longrightarrow> mset out' = mset out"
proof (induction e k i out rule: shuffle_down.induct)
  case (2 e k i out)
  then obtain v where v: "ce_int e k (i + 2) = Some v" by (auto split: option.splits)
  have "v mod (i + 2) < length out"
    using mod_less_divisor [of "i + 2" v] 2(3) by linarith
  then have "mset (swap (Suc i) (v mod (i + 2)) out) = mset out"
    using mset_swap [of "v mod (i + 2)" out "Suc i"] 2(3) by (simp add: swap_def)
  moreover have "i < length (swap (Suc i) (v mod (i + 2)) out)" using 2(3) by (simp add: swap_def)
  ultimately show ?case using 2(1) [OF v] 2(2) v by simp
qed simp

text \<open>
  A generated administrator password has the requested length, twelve at least, and a character
  of each of the four classes; it has no other characters.
\<close>

theorem admin_password_has_every_class:
  assumes "generateAdminPassword e k len = Some pwd"
  shows "length pwd = nat (max 12 len) \<and> (\<forall>cls \<in> set password_classes. \<exists>c \<in> set cls. c \<in> set pwd) \<and>
    set pwd \<subseteq> set (concat password_classes)"
proof -
  let ?n = "if len < 12 then 12 else nat len"
  let ?css = "password_classes @ replicate (?n - 4) (concat password_classes)"
  obtain out where d: "draw_chars e k ?css = Some out" and s: "shuffle_down e (k + ?n) (?n - 1) out = Some pwd"
    using assms by (auto simp: generateAdminPassword_def Let_def split: option.splits)
  have four: "length password_classes = 4" "[] \<notin> set ?css"
    by (auto simp: password_classes_def)
  have all2: "list_all2 (\<lambda>cs c. c \<in> set cs) ?css out"
    using draw_chars_members [OF d four(2)] .
  then have len: "length out = ?n" using four(1) by (auto dest!: list_all2_lengthD)
  then have same: "mset pwd = mset out" using shuffle_down_mset [OF s] by auto
  then have set: "set pwd = set out" "length pwd = ?n" using len by (metis set_mset_mset, metis size_mset)
  have nth: "out ! i \<in> set (?css ! i)" if "i < ?n" for i
    using list_all2_nthD2 [OF all2] that len by simp
  have "\<exists>c \<in> set cls. c \<in> set out" if "cls \<in> set password_classes" for cls
  proof -
    obtain i where "i < 4" "cls = password_classes ! i" using \<open>cls \<in> _\<close> four(1) by (metis in_set_conv_nth)
    moreover have "i < ?n" using \<open>i < 4\<close> by auto
    moreover from this have "out ! i \<in> set out" using len by simp
    ultimately show ?thesis using nth [of i] four(1) by (auto simp: nth_append)
  qed
  moreover have "set out \<subseteq> set (concat password_classes)"
  proof
    fix c assume "c \<in> set out"
    then obtain i where i: "i < ?n" "c = out ! i" using len by (metis in_set_conv_nth)
    have "set (?css ! i) \<subseteq> set (concat password_classes)"
      using i(1) four(1) by (cases "i < 4") (auto simp: nth_append intro!: bexI [of _ "password_classes ! i"])
    with nth [OF i(1)] i(2) show "c \<in> set (concat password_classes)" by blast
  qed
  ultimately show ?thesis using set by (auto simp: max_def)
qed

section \<open>The mode matrix\<close>

definition axis_grade :: "(string \<times> string) list \<Rightarrow> string \<Rightarrow> string" where
  "axis_grade grades key = (case map_of grades key of None \<Rightarrow> ''unsupported'' | Some g \<Rightarrow> g)"

lemma support_rank_top: "support_rank g \<le> 3" "support_rank g = 3 \<longleftrightarrow> g = ''unsupported''"
  by (auto simp: support_rank_def)

lemma consider_axis_alt:
  "consider_axis m (name, key, grades) (level, details) =
     (let grade = axis_grade grades key in
      (if support_rank grade > support_rank level then grade else level,
       if grade \<noteq> ''supported'' then details @ [MatrixGrade name key grade (mx_kit m)] else details))"
  by (simp add: consider_axis_def axis_grade_def)

text \<open>
  A cell of the mode matrix is graded with the worst of its three axes, an undeclared value counts
  as unsupported, and details are given exactly when some axis is not supported.
\<close>

theorem cell_verdict_is_worst_axis:
  "support_rank (fst (CellVerdict m p i c)) =
     Max {support_rank (axis_grade (mx_placement m) p), support_rank (axis_grade (mx_install m) i),
          support_rank (axis_grade (mx_context m) c)} \<and>
   (fst (CellVerdict m p i c) = ''unsupported'' \<longleftrightarrow>
     axis_grade (mx_placement m) p = ''unsupported'' \<or> axis_grade (mx_install m) i = ''unsupported'' \<or>
     axis_grade (mx_context m) c = ''unsupported'') \<and>
   (snd (CellVerdict m p i c) = [] \<longleftrightarrow>
     axis_grade (mx_placement m) p = ''supported'' \<and> axis_grade (mx_install m) i = ''supported'' \<and>
     axis_grade (mx_context m) c = ''supported'')"
proof -
  have zero: "support_rank ''supported'' = 0" by (simp add: support_rank_def)
  have worst: "support_rank (fst (CellVerdict m p i c)) =
     max (max (support_rank (axis_grade (mx_placement m) p)) (support_rank (axis_grade (mx_install m) i)))
       (support_rank (axis_grade (mx_context m) c))"
    by (simp add: CellVerdict_def consider_axis_alt Let_def zero max_def)
  moreover have "fst (CellVerdict m p i c) = ''unsupported'' \<longleftrightarrow>
     axis_grade (mx_placement m) p = ''unsupported'' \<or> axis_grade (mx_install m) i = ''unsupported'' \<or>
     axis_grade (mx_context m) c = ''unsupported''"
    unfolding support_rank_top(2) [symmetric] worst using support_rank_top(1) by (auto simp: max_def le_antisym)
  moreover have "snd (CellVerdict m p i c) = [] \<longleftrightarrow>
     axis_grade (mx_placement m) p = ''supported'' \<and> axis_grade (mx_install m) i = ''supported'' \<and>
     axis_grade (mx_context m) c = ''supported''"
    by (auto simp: CellVerdict_def consider_axis_alt Let_def)
  ultimately show ?thesis by (simp add: max.assoc)
qed

section \<open>Disabling both identity providers\<close>

lemma read_override_disabled:
  "set (snd (fold (read_override en) svcs (enabled, disabled))) =
     set disabled \<union> {n. \<exists>cfg. (n, cfg) \<in> set svcs \<and> service_override cfg = Some False \<and> in_contracts en n}"
proof (induction svcs arbitrary: enabled disabled)
  case (Cons svc svcs)
  obtain n cfg where svc: "svc = (n, cfg)" by fastforce
  show ?case
    by (cases "read_override en svc (enabled, disabled)")
      (use Cons.IH in \<open>auto simp: svc read_override_def enable_def Let_def split: option.splits if_splits\<close>)
qed simp

lemma read_override_keeps:
  "set enabled \<subseteq> set (fst (fold (read_override en) svcs (enabled, disabled))) \<and>
   (distinct disabled \<longrightarrow> distinct (snd (fold (read_override en) svcs (enabled, disabled))))"
proof (induction svcs arbitrary: enabled disabled)
  case (Cons svc svcs)
  obtain en1 dis1 where s: "read_override en svc (enabled, disabled) = (en1, dis1)" by fastforce
  then have "set enabled \<subseteq> set en1" "distinct disabled \<longrightarrow> distinct dis1"
    by (auto simp: read_override_def enable_def Let_def split: option.splits if_splits prod.splits)
  with Cons.IH [of en1 dis1] s show ?case by auto
qed simp

lemma drop_disabled_refuses:
  "''pocketid'' \<in> set ns \<Longrightarrow> ''pocketbase'' \<notin> set enabled \<Longrightarrow> drop_disabled en ns enabled = Inl PocketidRequired"
  by (induction en ns enabled rule: drop_disabled.induct) (auto simp: hasEnabledPocketBasePasskeyOIDCProvider_def)

lemma drop_disabled_accepts: "''pocketid'' \<notin> set ns \<Longrightarrow> \<exists>xs. drop_disabled en ns enabled = Inr xs"
  by (induction en ns enabled rule: drop_disabled.induct) auto

text \<open>The order that puts one key first in a given range statement.\<close>

definition first_at :: "string list \<Rightarrow> string \<Rightarrow> string list \<Rightarrow> string list \<Rightarrow> string list" where
  "first_at site k s ks = (if s = site then k # remove1 k ks else ks)"

lemma key_order_first_at:
  "k \<in> set ks \<Longrightarrow> key_order (e\<lparr>ce_order := first_at site k\<rparr>) site ks = k # remove1 k ks"
proof -
  assume "k \<in> set ks"
  then have "mset (k # remove1 k ks) = mset ks" by simp
  then have "sort (k # remove1 k ks) = sort ks" by (metis sorted_list_of_multiset_mset)
  then show ?thesis by (simp add: key_order_def first_at_def)
qed

text \<open>
  C40. When the user disables both PocketID and an enabled passkey-capable PocketBase, the order in
  which Go ranges over the map of disabled services decides whether the overrides are refused or both
  providers are removed.
\<close>

theorem override_outcome_depends_on_map_order:
  assumes "map_of (sp_services (en_spec en)) ''pocketid'' = Some c1" "service_override c1 = Some False"
    and "map_of (sp_services (en_spec en)) ''pocketbase'' = Some c2" "service_override c2 = Some False"
    and "in_contracts en ''pocketid''" "moduleIsPasskeyOIDCProvider en ''pocketbase''" "''pocketbase'' \<in> set enabled"
  shows "\<exists>o1 o2. applyServiceOverrides (e\<lparr>ce_order := o1\<rparr>) en enabled = Inl PocketidRequired \<and>
    (\<exists>xs. applyServiceOverrides (e\<lparr>ce_order := o2\<rparr>) en enabled = Inr xs)"
proof -
  let ?site = "[''applyServiceOverrides'', ''disabled'']"
  have pb: "in_contracts en ''pocketbase''"
    using assms(6) by (auto simp: moduleIsPasskeyOIDCProvider_def in_contracts_def split: option.splits)
  have both: "\<exists>E D. fold (read_override en) (range_map (e\<lparr>ce_order := first_at ?site k\<rparr>)
      [''applyServiceOverrides'', ''services''] (sp_services (en_spec en))) (enabled, []) = (E, D) \<and>
      ''pocketid'' \<in> set D \<and> ''pocketbase'' \<in> set D \<and> distinct D \<and> ''pocketbase'' \<in> set E" for k
  proof -
    let ?svcs = "range_map (e\<lparr>ce_order := first_at ?site k\<rparr>) [''applyServiceOverrides'', ''services''] (sp_services (en_spec en))"
    obtain E D where f: "fold (read_override en) ?svcs (enabled, []) = (E, D)" by fastforce
    have "(''pocketid'', c1) \<in> set ?svcs" "(''pocketbase'', c2) \<in> set ?svcs"
      using assms(1,3) by (simp_all add: set_range_map)
    then have "''pocketid'' \<in> set D" "''pocketbase'' \<in> set D"
      using read_override_disabled [of en ?svcs enabled "[]"] assms(2,4,5) pb by (auto simp: f)
    moreover have "distinct D" "''pocketbase'' \<in> set E"
      using read_override_keeps [of enabled en ?svcs "[]"] assms(7) by (auto simp: f)
    ultimately show ?thesis using f by blast
  qed
  have "applyServiceOverrides (e\<lparr>ce_order := first_at ?site ''pocketbase''\<rparr>) en enabled = Inl PocketidRequired"
  proof -
    obtain E D where f: "fold (read_override en) (range_map (e\<lparr>ce_order := first_at ?site ''pocketbase''\<rparr>)
        [''applyServiceOverrides'', ''services''] (sp_services (en_spec en))) (enabled, []) = (E, D)"
      and D: "''pocketid'' \<in> set D" "''pocketbase'' \<in> set D" "distinct D" using both by blast
    have "''pocketid'' \<in> set (remove1 ''pocketbase'' D)" using D by simp
    then have "drop_disabled en (remove1 ''pocketbase'' D) (removeAll ''pocketbase'' E) = Inl PocketidRequired"
      by (rule drop_disabled_refuses) simp
    then show ?thesis using f D by (simp add: applyServiceOverrides_def key_order_first_at)
  qed
  moreover have "\<exists>xs. applyServiceOverrides (e\<lparr>ce_order := first_at ?site ''pocketid''\<rparr>) en enabled = Inr xs"
  proof -
    obtain E D where f: "fold (read_override en) (range_map (e\<lparr>ce_order := first_at ?site ''pocketid''\<rparr>)
        [''applyServiceOverrides'', ''services''] (sp_services (en_spec en))) (enabled, []) = (E, D)"
      and D: "''pocketid'' \<in> set D" "distinct D" "''pocketbase'' \<in> set E" using both by blast
    have "\<exists>xs. drop_disabled en (remove1 ''pocketid'' D) (removeAll ''pocketid'' E) = Inr xs"
      by (rule drop_disabled_accepts) (simp add: D(2))
    then show ?thesis
      using f D assms(6) by (simp add: applyServiceOverrides_def key_order_first_at hasEnabledPocketBasePasskeyOIDCProvider_def)
  qed
  ultimately show ?thesis by blast
qed

section \<open>A sample composition\<close>

definition calm_env :: composition_env where
  "calm_env = \<lparr>ce_order = (\<lambda>_ ks. ks), ce_sees = (\<lambda>_ _. False), ce_lower = id,
     ce_int = (\<lambda>k _. Some k), ce_bytes = (\<lambda>_ n. Some (replicate n (CHR 0x00)))\<rparr>"

definition needs_service :: "string \<Rightarrow> bool \<Rightarrow> string \<times> required_service" where
  "needs_service n opt = (n, \<lparr>rq_provides = [], rq_optional = opt\<rparr>)"

definition plain_contract :: "string \<Rightarrow> (string \<times> required_service) list \<Rightarrow> module_contract" where
  "plain_contract n svs =
     \<lparr>mc_name = n, mc_requires = Some svs, mc_min_memory = [], mc_provides = None, mc_settings = None,
      mc_services = [], mc_placement = None\<rparr>"

definition passkey_contract :: module_contract where
  "passkey_contract = (plain_contract ''pocketbase'' [])\<lparr>mc_provides :=
     Some [(''passkeys'', True), (''oidc-provider'', True), (''identity-provider'', True)]\<rparr>"

definition plain_spec :: "(string \<times> config) list \<Rightarrow> stack_spec" where
  "plain_spec services =
     \<lparr>sp_context = ''local'', sp_mode = [], sp_placement = \<lparr>pl_mode = [], pl_exposure = [], pl_coupling = []\<rparr>,
      sp_domain = [], sp_prefix = [], sp_email = [], sp_admin_email = [], sp_owner_email = [], sp_tier = [],
      sp_paas = [], sp_addons = [''vault''], sp_application = [], sp_services = services, sp_identity_auth = None\<rparr>"

definition switched_off :: config where
  "switched_off = CMap [(''enabled'', CBool False)]"

definition sample_contracts :: "module_contract list" where
  "sample_contracts = [plain_contract ''vault'' [needs_service ''db'' False], plain_contract ''db'' [],
     plain_contract ''traefik'' []]"

definition sample_engine :: engine where
  "sample_engine = NewCompositionEngine sample_contracts [] (plain_spec [])"

text \<open>A module that can use a proxy that the user switched off.\<close>

definition optional_engine :: engine where
  "optional_engine = NewCompositionEngine [plain_contract ''core'' [needs_service ''traefik'' True], plain_contract ''traefik'' []]
     [] (plain_spec [(''traefik'', switched_off)])"

definition two_providers :: engine where
  "two_providers = NewCompositionEngine [plain_contract ''pocketid'' [], passkey_contract] []
     (plain_spec [(''pocketid'', switched_off), (''pocketbase'', switched_off)])"

lemmas sample_defs = calm_env_def needs_service_def plain_contract_def passkey_contract_def plain_spec_def
  switched_off_def sample_contracts_def sample_engine_def optional_engine_def two_providers_def

lemma sample_engine_ok: "engine_ok sample_engine" "engine_ok optional_engine" "engine_ok two_providers"
  unfolding sample_engine_def optional_engine_def two_providers_def
  by (rule new_engine_ok; simp add: sample_defs required_names_def)+

lemma sample_graph:
  "contracts_ok sample_contracts"
  "TopologicalSort (\<lambda>_. gr_edges (BuildGraph sample_contracts)) (BuildGraph sample_contracts) = Inr [''db'', ''traefik'', ''vault'']"
  by code_simp+

lemma sample_resolves: "\<exists>r. Resolve calm_env sample_engine = Inr r \<and> cr_modules r = [''db'', ''traefik'', ''vault'']"
proof -
  have "(case Resolve calm_env sample_engine of Inr r \<Rightarrow> cr_modules r | Inl err \<Rightarrow> []) = [''db'', ''traefik'', ''vault'']"
    by code_simp
  then show ?thesis by (cases "Resolve calm_env sample_engine") auto
qed

lemma sample_facts:
  "map_of (sp_services (en_spec two_providers)) ''pocketid'' = Some switched_off"
  "map_of (sp_services (en_spec two_providers)) ''pocketbase'' = Some switched_off"
  "service_override switched_off = Some False"
  "in_contracts two_providers ''pocketid''"
  "moduleIsPasskeyOIDCProvider two_providers ''pocketbase''"
  "generateAdminPassword calm_env 0 24 = Some (the (generateAdminPassword calm_env 0 24))"
  by code_simp+

lemma sample_optional:
  "mandatory optional_engine = {}" "contract_names optional_engine = {''core'', ''traefik''}"
  "map_of (requirements optional_engine ''core'') ''traefik'' = Some \<lparr>rq_provides = [], rq_optional = True\<rparr>"
  by (auto simp: mandatory_def requirements_def contract_names_def sample_defs NewCompositionEngine_def
    split: if_splits option.splits)

lemma sample_mandatory:
  "mandatory sample_engine = {(''vault'', ''db'')}" "contract_names sample_engine = {''vault'', ''db'', ''traefik''}"
  by (auto simp: mandatory_def requirements_def contract_names_def sample_defs NewCompositionEngine_def
    split: if_splits option.splits)

theorem topological_sort_is_least_order_witness:
  "least_order (BuildGraph sample_contracts) [''db'', ''traefik'', ''vault''] \<and>
   set [''db'', ''traefik'', ''vault''] = mc_name ` set sample_contracts"
  using topological_sort_is_least_order [of sample_contracts "\<lambda>_. gr_edges (BuildGraph sample_contracts)"
      "[''db'', ''traefik'', ''vault'']"] sample_graph by simp

theorem sort_fails_iff_cycle_witness: "acyclic (dep_rel (BuildGraph sample_contracts))"
  using sort_fails_iff_cycle [of sample_contracts "\<lambda>_. gr_edges (BuildGraph sample_contracts)"] sample_graph by force

theorem module_plan_is_closure_in_order_witness:
  "ebind (expandDependencies calm_env 0 sample_engine [''traefik'', ''vault'']) (sortModules calm_env sample_engine) =
     Inr [''db'', ''traefik'', ''vault''] \<and>
   deployable sample_engine ((mandatory sample_engine)\<^sup>* `` set [''traefik'', ''vault''])"
proof -
  have run: "ebind (expandDependencies calm_env 0 sample_engine [''traefik'', ''vault'']) (sortModules calm_env sample_engine) =
     Inr [''db'', ''traefik'', ''vault'']"
    by code_simp
  have "enabled_ok sample_engine [''traefik'', ''vault'']"
    by (simp add: enabled_ok_def sample_mandatory)
  from module_plan_is_closure_in_order [OF sample_engine_ok(1) this] run show ?thesis by blast
qed

theorem resolved_modules_are_sound_witness:
  "\<exists>r. Resolve calm_env sample_engine = Inr r \<and> distinct (cr_modules r)"
  using sample_resolves resolved_modules_are_sound [OF sample_engine_ok(1)] by blast

theorem optional_requirement_rejects_plan_witness:
  "applyServiceOverrides calm_env optional_engine [''core'', ''traefik''] = Inr [''core''] \<and>
   (\<exists>errs. ebind (expandDependencies calm_env 0 optional_engine [''core'']) (sortModules calm_env optional_engine) =
      Inl (ValidationErrors errs) \<and> (''core'', MissingModule ''traefik'') \<in> set errs)"
proof
  show "applyServiceOverrides calm_env optional_engine [''core'', ''traefik''] = Inr [''core'']"
    by code_simp
  show "\<exists>errs. ebind (expandDependencies calm_env 0 optional_engine [''core'']) (sortModules calm_env optional_engine) =
      Inl (ValidationErrors errs) \<and> (''core'', MissingModule ''traefik'') \<in> set errs"
    by (rule optional_requirement_rejects_plan [OF sample_engine_ok(2), where rq = "\<lparr>rq_provides = [], rq_optional = True\<rparr>"])
      (simp_all add: enabled_ok_def sample_optional)
qed

theorem admin_password_has_every_class_witness:
  "\<exists>pwd. generateAdminPassword calm_env 0 24 = Some pwd \<and> length pwd = 24"
  using admin_password_has_every_class [OF sample_facts(6)] sample_facts(6) by auto

theorem override_outcome_depends_on_map_order_witness:
  "\<exists>o1 o2. applyServiceOverrides (calm_env\<lparr>ce_order := o1\<rparr>) two_providers [''pocketid'', ''pocketbase''] = Inl PocketidRequired \<and>
    (\<exists>xs. applyServiceOverrides (calm_env\<lparr>ce_order := o2\<rparr>) two_providers [''pocketid'', ''pocketbase''] = Inr xs)"
  by (rule override_outcome_depends_on_map_order [OF sample_facts(1,3,2,3-5)]) simp

end
