(* ===== verification/SnapshotRecord.thy ===== *)
theory SnapshotRecord
  imports AppGroups "HOL-Library.AList"
begin

text \<open>
  The signed operation a backup snapshot is journaled in (\<open>internal/backuplifecycle/service.go\<close>): its
  data, the validation of the quiescence it records (\<open>snapshot_app_groups.go\<close>), of the native closures
  (\<open>app_group_authority.go\<close>) and of the signature, and how a record is loaded and written.
\<close>

section \<open>The signed snapshot operation\<close>

record snapshot_quiescence =
  sq_requires_capability :: bool
  sq_capability :: string
  sq_workloads :: "string list"
  sq_hold :: string
  sq_outcome_digest :: string
  sq_outcome_state :: string
  sq_retired_spec :: string
  sq_candidate :: string
  sq_version :: int
  sq_groups :: "app_group_control list"
  sq_controls :: "runtime_control list"
  sq_phase :: string
  sq_graph :: string
  sq_capture :: "int option"
  sq_containers :: "quiesced_container list"

record 'p operation_input =
  oi_workloads :: "string list"
  oi_owner :: string
  oi_authority :: string
  oi_lineage :: authority_lineage
  oi_policy_digest :: string
  oi_operation :: string
  oi_policy :: 'p
  oi_protect :: bool

text \<open>What a repository is configured for; the receipt of its configuration; a request for a snapshot and its receipt.\<close>

record 'p repository_configuration =
  pc_owner :: string
  pc_authority :: string
  pc_lineage :: authority_lineage
  pc_policy_digest :: string
  pc_operation :: string
  pc_policy :: 'p

record repository_receipt =
  rr_api :: string
  rr_repository :: string
  rr_backend :: string
  rr_configuration :: string

record snapshot_source =
  ss_volume :: string
  ss_class :: string
  ss_path :: string
  ss_excludes :: "string list"

record snapshot_request =
  nq_workloads :: "string list"
  nq_owner :: string
  nq_authority :: string
  nq_lineage :: authority_lineage
  nq_policy_digest :: string
  nq_repository :: string
  nq_operation :: string
  nq_source :: string
  nq_excludes :: "string list"
  nq_sources :: "snapshot_source list"
  nq_consistency :: string
  nq_protect :: bool

record snapshot_receipt =
  sr_api :: string
  sr_repository :: string
  sr_snapshot :: string
  sr_operation :: string
  sr_request :: string
  sr_content :: string
  sr_consistency :: string
  sr_created :: int

record 'p snapshot_anchor =
  sa_input :: "'p operation_input"
  sa_api :: string
  sa_id :: string
  sa_repository :: repository_receipt
  sa_snapshot :: snapshot_receipt
  sa_quiescence :: "snapshot_quiescence option"
  sa_signature :: string

record op_signature =
  sg_owner :: string
  sg_value :: string

record 'p snapshot_operation =
  so_failure :: string
  so_closures :: "string list"
  so_api :: string
  so_state :: string
  so_input :: "'p operation_input"
  so_quiescence :: "snapshot_quiescence option"
  so_anchor :: "'p snapshot_anchor option"
  so_signature :: "op_signature option"

text \<open>The capability document of \<open>contracts/advancedcapability\<close>, as far as it is compared here.\<close>

record retirement_scope =
  rs_operation :: string
  rs_transfer :: string
  rs_outcome :: string
  rs_role :: string
  rs_baseline :: string
  rs_candidate :: string

record capability =
  cap_owner :: string
  cap_retirement :: "retirement_scope option"

text \<open>
  The code outside this component: the capability decoder, the digests (SHA-256 of JSON), the source
  projection of a policy, the Owner's signatures.
\<close>

record 'p snapshot_env =
  sv_decode :: "string \<Rightarrow> capability option"
  sv_group_digest :: "app_group_control \<Rightarrow> string"
  sv_container_digest :: "quiesced_container \<Rightarrow> string"
  sv_lineage_digest :: "authority_lineage \<Rightarrow> string"
  sv_source_digest :: "'p \<Rightarrow> string option"
  sv_key :: "string \<Rightarrow> string"
  sv_sign :: "'p snapshot_operation \<Rightarrow> op_signature option"
  sv_verify :: "'p snapshot_operation \<Rightarrow> op_signature \<Rightarrow> bool"
  sv_policy_ok :: "'p \<Rightarrow> bool"
  sv_source_path :: "'p \<Rightarrow> string"
  sv_excludes :: "'p \<Rightarrow> string list"
  sv_sources :: "'p \<Rightarrow> string list \<Rightarrow> snapshot_source list option"
  sv_configuration_id :: "'p repository_configuration \<Rightarrow> string"
  sv_configuration_digest :: "'p repository_configuration \<Rightarrow> string"
  sv_request_digest :: "snapshot_request \<Rightarrow> string"
  sv_anchor_digest :: "'p snapshot_anchor \<Rightarrow> string"
  sv_sign_anchor :: "'p snapshot_anchor \<Rightarrow> string option"
  sv_verify_anchor :: "'p snapshot_anchor \<Rightarrow> bool"

datatype quiescence_error =
    AbortLacksCapability | CapabilityUndecodable | CapabilityDiffersFromControl
  | UnsupportedProtocol | GroupsNeedV2 | GroupGraphUnbound | GroupsInvalid group_error
  | GroupOverlapsControl | GroupOutsideAnchor | GroupNotStopped | GroupUnsettled | CoverageDiffers
  | ControlsNeedProtocol | ControlsInvalid control_error
  | ResumingNeedsV2 | AbortLacksOutcome | RetirementLacksOutcome | PhaseInvalid | GraphDigestInvalid
  | CaptureStartInvalid | ContainerIncomplete | ContainerRepeated | StoreSourceMissing
  | GraphIdentityIncomplete | GraphIdentityUnbound | MountsMissing | ControlSetIncomplete
  | ControlOutsideSet | WriterNotStopped | WriterNotResumed | NotRestored

datatype record_error =
    OperationMissing | OperationUnreadable | OperationApiUnsupported | QuiescenceInvalid quiescence_error
  | NegativeCompletionInvalid | FailureMarkerDiffers | ClosureLacksAuthority | ClosureSetChanged
  | NotAuthenticated | SignatureOwnerDiffers | SignatureInvalid | SignFailed | JournalWriteFailed

datatype transfer_error =
    OutcomeInvalid | HoldDiffers | OutcomeDiffers | RetirementPlanned | RetirementHashInvalid | RetirementRefused
  | CandidateInvalid | PreparationRefused | CandidateChanged | AuthorizationRefused | HoldUnavailable
  | UnexpectedCapability | CapabilityRequired | CapabilityScopeDiffers | HoldNotRecorded

datatype anchor_error =
    AnchorIncomplete | LineageIncomplete | PolicyInvalid | RepositoryReceiptInvalid | SourcesInvalid
  | SnapshotReceiptInvalid | CaptureAfterCompletion | AnchorIdentityInvalid | AnchorSignatureInvalid
  | AnchorSignFailed | AnchorDiffers | AnchorUnreadable | AnchorQuiescenceInvalid quiescence_error

datatype snapshot_error =
    Record record_error | Transfer transfer_error | Anchor anchor_error
  | GroupOwnerDiffers | JournalTerminal | SourceDigestFailed | GroupPolicyDiffers | GroupLineageChanged
  | ForeignJournalEntry | TransferHeld string | ObligationsRetained string
  | CompletionNotPending | RestoredEvidenceMissing | CloseNeedsCompletion | CloserUnavailable | CloseFailed
  | FailedUnsettled | NotReady | InvalidOperationID | ConfigurationUnbound | IntentDiffers | OperationMalformed
  | GroupFailedResult | RetentionDenied | RepositoryNotReady | QuiescenceRequired
  | SnapshotFailed "snapshot_error option" | LookupFailed

text \<open>\<open>validDigest\<close>: the prefix and 64 hexadecimal digits of either case.\<close>

definition validDigest :: "string \<Rightarrow> bool" where
  "validDigest v \<longleftrightarrow> has_prefix v sha256_prefix \<and> length v = 71 \<and> list_all is_hex (drop 7 v)"

definition abort_operation :: "string \<Rightarrow> bool" where
  "abort_operation op \<longleftrightarrow> has_prefix op ''transfer-abort.''"

section \<open>Validation\<close>

definition validateApplicationTransferRetirementRecordShape ::
  "'p snapshot_env \<Rightarrow> snapshot_quiescence \<Rightarrow> quiescence_error option" where
  "validateApplicationTransferRetirementRecordShape e q =
     (if sq_capability q = []
      then check (sq_requires_capability q \<and> (sq_phase q = ''transfer-retired'' \<or> sq_phase q = ''transfer-aborted''))
             AbortLacksCapability
      else case sv_decode e (sq_capability q) of
        None \<Rightarrow> Some CapabilityUndecodable
      | Some cap \<Rightarrow>
          check (\<not> sq_requires_capability q \<or>
                 (case cap_retirement cap of None \<Rightarrow> True
                  | Some s \<Rightarrow> rs_transfer s \<noteq> sq_hold q \<or> rs_outcome s \<noteq> sq_outcome_digest q \<or> rs_candidate s \<noteq> sq_candidate q))
            CapabilityDiffersFromControl)"

fun claim_containers ::
  "'p snapshot_env \<Rightarrow> snapshot_quiescence \<Rightarrow> string list \<Rightarrow> quiesced_container list \<Rightarrow> quiescence_error + string list" where
  "claim_containers e q ids [] = Inr ids"
| "claim_containers e q ids (c # cs) =
     (if qc_id c \<in> set ids then Inl GroupOverlapsControl
      else if \<not> list_ex (\<lambda>o'. sv_container_digest e o' = sv_container_digest e c) (sq_containers q) then Inl GroupOutsideAnchor
      else claim_containers e q (qc_id c # ids) cs)"

fun claim_groups ::
  "'p snapshot_env \<Rightarrow> snapshot_quiescence \<Rightarrow> string list \<Rightarrow> app_group_control list \<Rightarrow> quiescence_error + string list" where
  "claim_groups e q ids [] = Inr ids"
| "claim_groups e q ids (g # gs) =
     ebind (claim_containers e q ids (items (containers (ag_original g)))) (\<lambda>ids1.
       if (sq_phase q = ''stopped'' \<or> sq_phase q = ''snapshot-created'') \<and> \<not> AppGroupStopped g then Inl GroupNotStopped
       else if sq_phase q = ''restored'' \<and> \<not> AppGroupRestored g then Inl GroupUnsettled
       else claim_groups e q ids1 gs)"

definition validateSnapshotAppGroups :: "'p snapshot_env \<Rightarrow> snapshot_quiescence \<Rightarrow> quiescence_error option" where
  "validateSnapshotAppGroups e q =
     (if sq_groups q = [] \<or> sq_graph q = [] then Some GroupGraphUnbound
      else case ValidateAppGroups (sv_group_digest e) (sq_groups q) of
        Some x \<Rightarrow> Some (GroupsInvalid x)
      | None \<Rightarrow>
         (case claim_groups e q (remdups (map rc_container (sq_controls q))) (sq_groups q) of
            Inl x \<Rightarrow> Some x
          | Inr ids \<Rightarrow> check (length ids \<noteq> length (sq_containers q)) CoverageDiffers))"

definition check_phase :: "snapshot_quiescence \<Rightarrow> quiescence_error option" where
  "check_phase q =
     (if sq_phase q = ''resuming'' then check (sq_version q \<noteq> 2) ResumingNeedsV2
      else if sq_phase q = ''transfer-aborted''
      then check (\<not> validDigest (sq_hold q) \<or> \<not> validDigest (sq_outcome_digest q) \<or> sq_outcome_state q \<noteq> ''stopped'' \<or>
                  \<not> validDigest (sq_retired_spec q)) AbortLacksOutcome
      else if sq_phase q = ''transfer-retired''
      then check (\<not> validDigest (sq_hold q) \<or> \<not> validDigest (sq_outcome_digest q) \<or> sq_outcome_state q \<noteq> ''activated'' \<or>
                  \<not> validDigest (sq_retired_spec q)) RetirementLacksOutcome
      else check (sq_phase q \<notin> set [''prepared'', ''stopped'', ''snapshot-created'', ''restored'']) PhaseInvalid)"

definition check_graph_identity :: "snapshot_quiescence \<Rightarrow> quiesced_container \<Rightarrow> quiescence_error option" where
  "check_graph_identity q c =
     first_err
       (check ((qc_marketplace_service c \<noteq> [] \<or> qc_marketplace_component c \<noteq> []) \<and>
               (qc_marketplace_service c = [] \<or> qc_marketplace_component c = [] \<or> qc_compose_project c \<noteq> [] \<or>
                (sq_version q \<noteq> 1 \<and> sq_version q \<noteq> 2) \<or> sq_graph q = [])) StoreSourceMissing)
    (first_err
       (if qc_compose_project c \<noteq> []
        then check (sq_graph q = [] \<or> qc_workload_ref c = [] \<or> qc_site_ref c = [] \<or> qc_node_ref c = [] \<or>
                    qc_compose_service c = [] \<or> qc_component_ref c = [] \<or> qc_compose_service c \<noteq> qc_component_ref c \<or>
                    qc_image c = [] \<or> qc_stop_order c < 0) GraphIdentityIncomplete
        else check (qc_workload_ref c \<noteq> [] \<or> qc_site_ref c \<noteq> [] \<or> qc_node_ref c \<noteq> [] \<or> qc_compose_service c \<noteq> [] \<or>
                    qc_component_ref c \<noteq> [] \<or> qc_image c \<noteq> [] \<or> qc_stop_order c \<noteq> 0) GraphIdentityUnbound)
       (check (items (qc_mounts c) = [] \<and> qc_compose_project c = []) MountsMissing))"

fun check_quiesced :: "snapshot_quiescence \<Rightarrow> string list \<Rightarrow> quiesced_container list \<Rightarrow> quiescence_error option" where
  "check_quiesced q seen [] = None"
| "check_quiesced q seen (c # cs) =
     first_err (check (blank (qc_id c) \<or> blank (qc_name c) \<or> sq_version q = 0 \<and> \<not> qc_was_running c) ContainerIncomplete)
    (first_err (check (qc_id c \<in> set seen) ContainerRepeated)
    (first_err (check_graph_identity q c) (check_quiesced q (qc_id c # seen) cs)))"

definition check_control :: "snapshot_quiescence \<Rightarrow> runtime_control \<Rightarrow> quiescence_error option" where
  "check_control q c =
     first_err (check (\<not> list_ex (\<lambda>k. qc_id k = rc_container c \<and> qc_name k = rc_component c \<and> qc_was_running k = rc_was_running c)
                   (sq_containers q)) ControlOutsideSet)
    (first_err (check ((sq_phase q = ''stopped'' \<or> sq_phase q = ''snapshot-created'') \<and> rc_was_running c \<and>
                  eff_state (rc_stop c) \<noteq> ControlObserved) WriterNotStopped)
               (check (sq_phase q = ''restored'' \<and> eff_state (rc_stop c) \<noteq> NoState \<and>
                  eff_state (rc_start c) \<noteq> ControlObserved) WriterNotResumed))"

definition validateSnapshotQuiescence :: "'p snapshot_env \<Rightarrow> snapshot_quiescence \<Rightarrow> quiescence_error option" where
  "validateSnapshotQuiescence e q =
     first_err (validateApplicationTransferRetirementRecordShape e q)
    (first_err (check (sq_version q \<notin> {0, 1, 2}) UnsupportedProtocol)
    (first_err (check (sq_version q \<noteq> 2 \<and> sq_groups q \<noteq> []) GroupsNeedV2)
    (first_err (if sq_version q = 2 then validateSnapshotAppGroups e q else None)
    (first_err (check (sq_version q = 0 \<and> sq_controls q \<noteq> []) ControlsNeedProtocol)
    (first_err (map_option ControlsInvalid (ValidateRuntimeControls (sq_controls q)))
    (first_err (check_phase q)
    (first_err (check (sq_graph q \<noteq> [] \<and> \<not> validDigest (sq_graph q)) GraphDigestInvalid)
    (first_err (check (sq_capture q = Some 0) CaptureStartInvalid)
    (first_err (check_quiesced q [] (sq_containers q))
    (if sq_version q = 1 \<or> sq_version q = 2
     then first_err (check (sq_version q = 1 \<and> length (sq_controls q) \<noteq> length (sq_containers q)) ControlSetIncomplete)
                    (first_err_list (check_control q) (sq_controls q))
     else None))))))))))"

definition validateRestoredSnapshotQuiescence :: "'p snapshot_env \<Rightarrow> snapshot_quiescence \<Rightarrow> quiescence_error option" where
  "validateRestoredSnapshotQuiescence e q =
     first_err (validateSnapshotQuiescence e q) (check (sq_phase q \<noteq> ''restored'') NotRestored)"

fun check_group_closures :: "string list \<Rightarrow> string list \<Rightarrow> string list \<Rightarrow> record_error option" where
  "check_group_closures selected seen [] = None"
| "check_group_closures selected seen (i # is) =
     (if i \<notin> set selected \<or> i \<in> set seen then Some ClosureSetChanged else check_group_closures selected (i # seen) is)"

definition validateSnapshotGroupClosures :: "'p snapshot_operation \<Rightarrow> record_error option" where
  "validateSnapshotGroupClosures op =
     (if so_closures op = [] then None
      else case so_quiescence op of
        None \<Rightarrow> Some ClosureLacksAuthority
      | Some q \<Rightarrow>
          if (so_state op \<noteq> ''completed'' \<and> so_state op \<noteq> ''failed'') \<or> sq_version q \<noteq> 2 then Some ClosureLacksAuthority
          else check_group_closures (map (\<lambda>g. group_id (ag_binding g)) (sq_groups q)) [] (so_closures op))"

definition unsigned_op :: "'p snapshot_operation \<Rightarrow> 'p snapshot_operation" where
  "unsigned_op op = op\<lparr>so_signature := None\<rparr>"

definition verifySnapshotOperation :: "'p snapshot_env \<Rightarrow> 'p snapshot_operation \<Rightarrow> record_error option" where
  "verifySnapshotOperation e op =
     (case so_signature op of
        None \<Rightarrow> check (so_quiescence op \<noteq> None) NotAuthenticated
      | Some s \<Rightarrow>
          first_err (check (sg_owner s = [] \<or> sg_owner s \<noteq> oi_owner (so_input op)) SignatureOwnerDiffers)
                    (check (\<not> sv_verify e (unsigned_op op) s) SignatureInvalid))"

definition snapshot_operation_api :: string where
  "snapshot_operation_api = ''stackkit.local-backup-snapshot-operation/v1''"

definition failed_after_settlement :: string where
  "failed_after_settlement = ''SNAPSHOT_FAILED_AFTER_SETTLEMENT''"

definition check_operation :: "'p snapshot_env \<Rightarrow> 'p snapshot_operation \<Rightarrow> record_error option" where
  "check_operation e op =
     first_err (check (so_api op \<noteq> snapshot_operation_api) OperationApiUnsupported)
    (first_err (case so_quiescence op of None \<Rightarrow> None | Some q \<Rightarrow> map_option QuiescenceInvalid (validateSnapshotQuiescence e q))
    (first_err (check (so_state op = ''failed'' \<and>
          (so_failure op \<noteq> failed_after_settlement \<or> so_anchor op \<noteq> None \<or>
           (case so_quiescence op of None \<Rightarrow> True
            | Some q \<Rightarrow> sq_version q \<noteq> 2 \<or> validateRestoredSnapshotQuiescence e q \<noteq> None))) NegativeCompletionInvalid)
    (first_err (check (so_state op \<noteq> ''failed'' \<and> so_failure op \<noteq> []) FailureMarkerDiffers)
    (first_err (validateSnapshotGroupClosures op) (verifySnapshotOperation e op)))))"

section \<open>The operation files\<close>

text \<open>
  The files of the operation directory by their key, with an entry that is no operation or not
  private as \<open>None\<close>; whether the directory holds a file that is not a record; the anchor files, and
  whether their directory holds another file.
\<close>

record 'p snapshot_disk =
  sd_operations :: "(string \<times> 'p snapshot_operation option) list"
  sd_foreign :: bool
  sd_anchors :: "(string \<times> 'p snapshot_anchor option) list"
  sd_stray_anchors :: bool

text \<open>
  How the atomic write of a file ends: in place; in place, but with an error; with an error and the old
  file, or none, in place. In the last case the temporary file of the write may stay in the directory,
  where it is no record: \<open>FileAbandoned\<close>.
\<close>

datatype file_write = FileWritten | FileUnconfirmed | FileUnchanged | FileAbandoned

definition replaces :: "file_write \<Rightarrow> bool" where
  "replaces out \<longleftrightarrow> out = FileWritten \<or> out = FileUnconfirmed"

lemma replaces_simps [simp]:
  "replaces FileWritten" "replaces FileUnconfirmed" "\<not> replaces FileUnchanged" "\<not> replaces FileAbandoned"
  by (simp_all add: replaces_def)

definition loadOperation :: "'p snapshot_env \<Rightarrow> 'p snapshot_disk \<Rightarrow> string \<Rightarrow> record_error + 'p snapshot_operation" where
  "loadOperation e d key =
     (case map_of (sd_operations d) key of
        None \<Rightarrow> Inl OperationMissing
      | Some None \<Rightarrow> Inl OperationUnreadable
      | Some (Some op) \<Rightarrow> (case check_operation e op of Some x \<Rightarrow> Inl x | None \<Rightarrow> Inr op))"

definition signSnapshotOperation :: "'p snapshot_env \<Rightarrow> 'p snapshot_operation \<Rightarrow> 'p snapshot_operation option" where
  "signSnapshotOperation e op = map_option (\<lambda>s. op\<lparr>so_signature := Some s\<rparr>) (sv_sign e (unsigned_op op))"

definition put_operation :: "file_write \<Rightarrow> string \<Rightarrow> 'p snapshot_operation \<Rightarrow> 'p snapshot_disk \<Rightarrow> 'p snapshot_disk" where
  "put_operation out key op d =
     (if replaces out then d\<lparr>sd_operations := AList.update key (Some op) (sd_operations d)\<rparr>
      else if out = FileAbandoned then d\<lparr>sd_foreign := True\<rparr> else d)"

definition writeSnapshotOperation ::
  "'p snapshot_env \<Rightarrow> file_write \<Rightarrow> 'p snapshot_disk \<Rightarrow> string \<Rightarrow> 'p snapshot_operation \<Rightarrow> 'p snapshot_disk \<times> record_error option" where
  "writeSnapshotOperation e out d key op =
     (case signSnapshotOperation e op of
        None \<Rightarrow> (d, Some SignFailed)
      | Some op' \<Rightarrow> (put_operation out key op' d, check (out \<noteq> FileWritten) JournalWriteFailed))"

definition write_operation ::
  "'p snapshot_env \<Rightarrow> file_write \<Rightarrow> 'p snapshot_disk \<Rightarrow> string \<Rightarrow> 'p snapshot_operation \<Rightarrow> 'p snapshot_disk \<times> snapshot_error option" where
  "write_operation e out d key op = map_prod id (map_option Record) (writeSnapshotOperation e out d key op)"

definition operationInputsEqual :: "'p snapshot_env \<Rightarrow> 'p operation_input \<Rightarrow> 'p operation_input \<Rightarrow> bool" where
  "operationInputsEqual e a b \<longleftrightarrow>
     oi_owner a = oi_owner b \<and> oi_authority a = oi_authority b \<and>
     sv_lineage_digest e (oi_lineage a) = sv_lineage_digest e (oi_lineage b) \<and>
     oi_policy_digest a = oi_policy_digest b \<and> oi_operation a = oi_operation b \<and> oi_protect a = oi_protect b \<and>
     oi_workloads a = oi_workloads b \<and> oi_policy a = oi_policy b"

definition pending_operation :: "'p operation_input \<Rightarrow> snapshot_quiescence option \<Rightarrow> 'p snapshot_operation" where
  "pending_operation i q =
     \<lparr>so_failure = [], so_closures = [], so_api = snapshot_operation_api, so_state = ''pending'', so_input = i,
      so_quiescence = q, so_anchor = None, so_signature = None\<rparr>"

text \<open>The copy that is stored: an empty list of mounts becomes nil.\<close>

definition cloneSnapshotQuiescence :: "snapshot_quiescence \<Rightarrow> snapshot_quiescence" where
  "cloneSnapshotQuiescence q = q\<lparr>sq_containers :=
     map (\<lambda>c. if items (qc_mounts c) = [] then c\<lparr>qc_mounts := None\<rparr> else c) (sq_containers q)\<rparr>"

text \<open>What a v2 value must meet before it replaces the journaled one.\<close>

definition group_write_refused ::
  "'p snapshot_env \<Rightarrow> 'p snapshot_disk \<Rightarrow> string \<Rightarrow> 'p operation_input \<Rightarrow> snapshot_quiescence \<Rightarrow> snapshot_error option" where
  "group_write_refused e d key i q =
     (if list_ex (\<lambda>g. owner_ref (ag_binding g) \<noteq> oi_owner i \<or> journal_operation_id (ag_binding g) \<noteq> oi_operation i) (sq_groups q)
      then Some GroupOwnerDiffers
      else case loadOperation e d key of
        Inl x \<Rightarrow> Some (Record x)
      | Inr old \<Rightarrow>
          if so_state old \<noteq> ''pending'' \<or> so_anchor old \<noteq> None \<or> \<not> operationInputsEqual e (so_input old) i
          then Some JournalTerminal
          else case sv_source_digest e (oi_policy i) of
            None \<Rightarrow> Some SourceDigestFailed
          | Some source \<Rightarrow>
              if list_ex (\<lambda>g. policy_source_digest (ag_binding g) \<noteq> source \<or>
                   authority_lineage (ag_binding g) \<noteq> oi_lineage i) (sq_groups q)
              then Some GroupPolicyDiffers
              else case so_quiescence old of
                None \<Rightarrow> None
              | Some q0 \<Rightarrow>
                  check (sq_groups q0 \<noteq> [] \<and> sq_groups q0 \<noteq> sq_groups q \<and>
                         \<not> ValidAppGroupTransition (sv_group_digest e) (sq_groups q0) (sq_groups q)) GroupLineageChanged)"

definition persistSnapshotQuiescence ::
  "'p snapshot_env \<Rightarrow> file_write \<Rightarrow> 'p snapshot_disk \<Rightarrow> string \<Rightarrow> 'p operation_input \<Rightarrow> snapshot_quiescence \<Rightarrow>
   'p snapshot_disk \<times> snapshot_error option" where
  "persistSnapshotQuiescence e out d key i q =
     (case first_err (map_option (Record \<circ> QuiescenceInvalid) (validateSnapshotQuiescence e q))
             (if sq_version q = 2 then group_write_refused e d key i q else None) of
        Some x \<Rightarrow> (d, Some x)
      | None \<Rightarrow> write_operation e out d key (pending_operation i (Some (cloneSnapshotQuiescence q))))"

end
