(* ===== verification/SnapshotOperations.thy ===== *)
theory SnapshotOperations
  imports SnapshotRecord
begin

text \<open>
  The operations on the snapshot journal: a run of a snapshot and its completion (\<open>service.go\<close>), the
  hold of a transferred application (\<open>application_transfer_hold.go\<close>), the closing of native app-group
  holds (\<open>app_group_authority.go\<close>) and the gate that asks whether any snapshot still disturbs a writer
  (\<open>pending_controls.go\<close>). The repository runtime and the closer answer as they like; each file write
  ends as an argument says. At the end, the relation of all calls that write the journal.
\<close>

section \<open>The transfer hold\<close>

definition validateApplicationTransferRetirementAuthorization ::
  "'p snapshot_env \<Rightarrow> 'p snapshot_operation \<Rightarrow> transfer_error option" where
  "validateApplicationTransferRetirementAuthorization e op =
     (case so_quiescence op of
        None \<Rightarrow> Some HoldUnavailable
      | Some q \<Rightarrow>
          if \<not> sq_requires_capability q then check (sq_capability q \<noteq> []) UnexpectedCapability
          else case sv_decode e (sq_capability q) of
            None \<Rightarrow> Some CapabilityRequired
          | Some cap \<Rightarrow>
              let i = so_input op; abort = abort_operation (oi_operation i);
                  role = (if abort then ''destination'' else ''source'');
                  state = (if abort then ''stopped'' else ''activated'') in
              check (case cap_retirement cap of None \<Rightarrow> True
                     | Some s \<Rightarrow> rs_operation s \<noteq> oi_operation i \<or> rs_transfer s \<noteq> sq_hold q \<or>
                         rs_outcome s \<noteq> sq_outcome_digest q \<or> sq_outcome_state q \<noteq> state \<or> rs_role s \<noteq> role \<or>
                         rs_baseline s \<noteq> pb_spec_hash (al_binding (oi_lineage i)) \<or> rs_candidate s \<noteq> sq_candidate q \<or>
                         cap_owner cap \<noteq> oi_owner i) CapabilityScopeDiffers)"

definition with_quiescence :: "'p snapshot_operation \<Rightarrow> snapshot_quiescence \<Rightarrow> 'p snapshot_operation" where
  "with_quiescence op q = op\<lparr>so_quiescence := Some q\<rparr>"

definition pending_hold :: "'p snapshot_operation \<Rightarrow> string \<Rightarrow> snapshot_quiescence option" where
  "pending_hold op transfer =
     (case so_quiescence op of
        None \<Rightarrow> None
      | Some q \<Rightarrow> if so_state op = ''pending'' \<and> sq_hold q = transfer then Some q else None)"

definition RecordApplicationTransferOutcome ::
  "'p snapshot_env \<Rightarrow> file_write \<Rightarrow> 'p snapshot_disk \<Rightarrow> string \<Rightarrow> string \<Rightarrow> string \<Rightarrow> string \<Rightarrow>
   'p snapshot_disk \<times> snapshot_error option" where
  "RecordApplicationTransferOutcome e out d operation transfer outcome state =
     (if \<not> validOperationID operation \<or> \<not> validDigest transfer \<or> \<not> validDigest outcome \<or>
         (state \<noteq> ''activated'' \<and> state \<noteq> ''stopped'')
      then (d, Some (Transfer OutcomeInvalid))
      else case loadOperation e d (sv_key e operation) of
        Inl x \<Rightarrow> (d, Some (Record x))
      | Inr op \<Rightarrow>
         (case pending_hold op transfer of
            None \<Rightarrow> (d, Some (Transfer HoldDiffers))
          | Some q \<Rightarrow>
              if sq_outcome_digest q = outcome \<and> sq_outcome_state q = state then (d, None)
              else if sq_outcome_digest q \<noteq> [] \<and> sq_outcome_digest q \<noteq> outcome then (d, Some (Transfer OutcomeDiffers))
              else if state = ''stopped'' \<and> (sq_candidate q \<noteq> [] \<or> sq_retired_spec q \<noteq> []) then (d, Some (Transfer RetirementPlanned))
              else write_operation e out d (sv_key e operation)
                     (with_quiescence op (q\<lparr>sq_outcome_digest := outcome, sq_outcome_state := state\<rparr>))))"

definition PrepareApplicationTransferRetirement ::
  "'p snapshot_env \<Rightarrow> file_write \<Rightarrow> 'p snapshot_disk \<Rightarrow> string \<Rightarrow> string \<Rightarrow> string \<Rightarrow> bool \<Rightarrow>
   'p snapshot_disk \<times> snapshot_error option" where
  "PrepareApplicationTransferRetirement e out d operation transfer candidate require =
     (if \<not> validDigest candidate then (d, Some (Transfer CandidateInvalid))
      else case loadOperation e d (sv_key e operation) of
        Inl x \<Rightarrow> (d, Some (Record x))
      | Inr op \<Rightarrow>
         (case pending_hold op transfer of
            None \<Rightarrow> (d, Some (Transfer PreparationRefused))
          | Some q \<Rightarrow>
              if sq_outcome_state q \<noteq> ''activated'' \<and> \<not> (abort_operation operation \<and> sq_outcome_state q = ''stopped'')
              then (d, Some (Transfer PreparationRefused))
              else if sq_candidate q \<noteq> [] \<and> sq_candidate q \<noteq> candidate then (d, Some (Transfer CandidateChanged))
              else write_operation e out d (sv_key e operation)
                     (with_quiescence op (q\<lparr>sq_candidate := candidate,
                        sq_requires_capability := (require \<or> sq_requires_capability q)\<rparr>))))"

text \<open>Retirement of the source and of an aborted target: the same steps with other constants.\<close>

definition complete_retirement ::
  "string \<Rightarrow> string \<Rightarrow> 'p snapshot_env \<Rightarrow> file_write \<Rightarrow> 'p snapshot_disk \<Rightarrow> string \<Rightarrow> string \<Rightarrow> string \<Rightarrow>
   'p snapshot_disk \<times> snapshot_error option" where
  "complete_retirement phase outcome e out d operation transfer retired =
     (case loadOperation e d (sv_key e operation) of
        Inl x \<Rightarrow> (d, Some (Record x))
      | Inr op \<Rightarrow>
         (case validateApplicationTransferRetirementAuthorization e op of
            Some x \<Rightarrow> (d, Some (Transfer x))
          | None \<Rightarrow>
             (case so_quiescence op of
                None \<Rightarrow> (d, Some (Transfer RetirementRefused))
              | Some q \<Rightarrow>
                  if so_state op = ''transferred'' \<and> sq_phase q = phase \<and> sq_hold q = transfer \<and> sq_retired_spec q = retired
                  then (d, None)
                  else if so_state op \<noteq> ''pending'' \<or> sq_hold q \<noteq> transfer \<or> sq_outcome_state q \<noteq> outcome \<or>
                          \<not> validDigest (sq_outcome_digest q) \<or> sq_candidate q \<noteq> retired
                  then (d, Some (Transfer RetirementRefused))
                  else write_operation e out d (sv_key e operation)
                         ((with_quiescence op (q\<lparr>sq_phase := phase, sq_retired_spec := retired\<rparr>))\<lparr>so_state := ''transferred''\<rparr>))))"

definition CompleteApplicationTransferRetirement ::
  "'p snapshot_env \<Rightarrow> file_write \<Rightarrow> 'p snapshot_disk \<Rightarrow> string \<Rightarrow> string \<Rightarrow> string \<Rightarrow> 'p snapshot_disk \<times> snapshot_error option" where
  "CompleteApplicationTransferRetirement e out d operation transfer retired =
     (if \<not> validDigest retired then (d, Some (Transfer RetirementHashInvalid))
      else complete_retirement ''transfer-retired'' ''activated'' e out d operation transfer retired)"

definition CompleteApplicationTransferAbortRetirement ::
  "'p snapshot_env \<Rightarrow> file_write \<Rightarrow> 'p snapshot_disk \<Rightarrow> string \<Rightarrow> string \<Rightarrow> string \<Rightarrow> 'p snapshot_disk \<times> snapshot_error option" where
  "CompleteApplicationTransferAbortRetirement e out d operation transfer retired =
     (if \<not> abort_operation operation \<or> \<not> validDigest retired then (d, Some (Transfer RetirementHashInvalid))
      else complete_retirement ''transfer-aborted'' ''stopped'' e out d operation transfer retired)"

definition RecordApplicationTransferRetirementAuthorization ::
  "'p snapshot_env \<Rightarrow> file_write \<Rightarrow> 'p snapshot_disk \<Rightarrow> string \<Rightarrow> string \<Rightarrow> string \<Rightarrow> 'p snapshot_disk \<times> snapshot_error option" where
  "RecordApplicationTransferRetirementAuthorization e out d operation transfer raw =
     (case loadOperation e d (sv_key e operation) of
        Inl x \<Rightarrow> (d, Some (Record x))
      | Inr op \<Rightarrow>
         (case pending_hold op transfer of
            None \<Rightarrow> (d, Some (Transfer AuthorizationRefused))
          | Some q \<Rightarrow>
              if \<not> sq_requires_capability q then (d, Some (Transfer AuthorizationRefused))
              else let op' = with_quiescence op (q\<lparr>sq_capability := raw\<rparr>) in
                case validateApplicationTransferRetirementAuthorization e op' of
                  Some x \<Rightarrow> (d, Some (Transfer x))
                | None \<Rightarrow> if sq_capability q = raw then (d, None)
                          else write_operation e out d (sv_key e operation) op'))"

definition readApplicationTransferHold ::
  "'p snapshot_env \<Rightarrow> 'p snapshot_disk \<Rightarrow> string \<Rightarrow> string \<Rightarrow> bool \<Rightarrow> snapshot_error + string list" where
  "readApplicationTransferHold e d operation transfer allow_retired =
     (if \<not> validOperationID operation \<or> \<not> validDigest transfer then Inl (Transfer HoldUnavailable)
      else case loadOperation e d (sv_key e operation) of
        Inl x \<Rightarrow> Inl (Record x)
      | Inr op \<Rightarrow>
         (case so_quiescence op of
            None \<Rightarrow> Inl (Transfer HoldUnavailable)
          | Some q \<Rightarrow>
              let terminal = (allow_retired \<and> so_state op = ''transferred'' \<and> sq_phase q = ''transfer-retired'' \<and>
                    validDigest (sq_retired_spec q)) in
              if so_state op = ''pending'' \<and> sq_phase q = ''snapshot-created'' \<and> sq_hold q = [] then Inl (Transfer HoldNotRecorded)
              else if (\<not> terminal \<and> so_state op \<noteq> ''pending'') \<or> sq_hold q \<noteq> transfer \<or>
                      (\<not> terminal \<and> sq_phase q \<noteq> ''snapshot-created'') then Inl (Transfer HoldUnavailable)
              else Inr (if sq_workloads q \<noteq> [] then sq_workloads q else oi_workloads (so_input op))))"

section \<open>Which operations keep other mutations out\<close>

definition released :: "'p snapshot_operation \<Rightarrow> bool" where
  "released op \<longleftrightarrow> so_state op = ''transferred'' \<and>
     (case so_quiescence op of None \<Rightarrow> False
      | Some q \<Rightarrow> sq_phase q = ''transfer-retired'' \<or> sq_phase q = ''transfer-aborted'')"

definition pending_obligation :: "'p snapshot_operation \<Rightarrow> bool" where
  "pending_obligation op \<longleftrightarrow>
     (case so_quiescence op of
        None \<Rightarrow> False
      | Some q \<Rightarrow>
          (sq_version q = 1 \<or> sq_version q = 2) \<and>
          \<not> (sq_phase q = ''restored'' \<and> (sq_version q \<noteq> 2 \<or> length (so_closures op) = length (sq_groups q))) \<and>
          (sq_groups q \<noteq> [] \<or>
           list_ex (\<lambda>c. eff_state (rc_stop c) \<noteq> NoState \<or> eff_state (rc_start c) \<noteq> NoState) (sq_controls q)))"

definition blocks_mutation :: "string \<Rightarrow> 'p snapshot_operation \<Rightarrow> snapshot_error option" where
  "blocks_mutation resume op =
     (if released op then None
      else case so_quiescence op of
        None \<Rightarrow> None
      | Some q \<Rightarrow>
          if sq_hold q \<noteq> [] \<and> oi_operation (so_input op) \<noteq> resume then Some (TransferHeld (sq_hold q))
          else check (pending_obligation op \<and> oi_operation (so_input op) \<noteq> resume) (ObligationsRetained (oi_operation (so_input op))))"

definition RequireSettledRuntimeControls :: "'p snapshot_env \<Rightarrow> 'p snapshot_disk \<Rightarrow> string \<Rightarrow> snapshot_error option" where
  "RequireSettledRuntimeControls e d resume =
     first_err (first_err_list (\<lambda>key. case loadOperation e d key of
                  Inl x \<Rightarrow> Some (Record x)
                | Inr op \<Rightarrow> blocks_mutation resume op) (map fst (sd_operations d)))
               (check (sd_foreign d) ForeignJournalEntry)"

section \<open>Completion\<close>

definition lineage_complete :: "authority_lineage \<Rightarrow> bool" where
  "lineage_complete l \<longleftrightarrow>
     (let b = al_binding l; a = pb_authority b in
      validDigest (pb_plan_hash b) \<and> validDigest (pb_spec_hash b) \<and> validDigest (pb_inventory_hash b) \<and>
      validDigest (pb_definition_hash b) \<and> pb_compiler_version b \<noteq> [] \<and> renderer_id (pb_renderer b) \<noteq> [] \<and>
      renderer_version (pb_renderer b) \<noteq> [] \<and> pa_class a \<noteq> [] \<and> pa_document a \<noteq> [] \<and> pa_issuer a \<noteq> [] \<and>
      validDigest (pa_authority_fingerprint a) \<and> validDigest (pa_catalog_hash a) \<and> validDigest (al_manifest_hash l) \<and>
      validDigest (al_generation_receipt_hash l) \<and> validDigest (al_apply_result_hash l) \<and>
      validDigest (al_apply_receipt_hash l) \<and> validDigest (al_owner_binding_digest l) \<and> \<not> blank (al_pocket_id_subject l))"

definition crash_consistent :: string where
  "crash_consistent = ''crash-consistent''"

definition snapshotRequest :: "'p snapshot_env \<Rightarrow> 'p operation_input \<Rightarrow> string \<Rightarrow> snapshot_request option" where
  "snapshotRequest e i repository =
     map_option (\<lambda>sources.
       \<lparr>nq_workloads = oi_workloads i, nq_owner = oi_owner i, nq_authority = oi_authority i, nq_lineage = oi_lineage i,
        nq_policy_digest = oi_policy_digest i, nq_repository = repository, nq_operation = oi_operation i,
        nq_source = sv_source_path e (oi_policy i), nq_excludes = sv_excludes e (oi_policy i), nq_sources = sources,
        nq_consistency = crash_consistent, nq_protect = oi_protect i\<rparr>)
       (sv_sources e (oi_policy i) (oi_workloads i))"

definition validateSnapshotReceipt :: "'p snapshot_env \<Rightarrow> snapshot_receipt \<Rightarrow> snapshot_request \<Rightarrow> bool" where
  "validateSnapshotReceipt e r q \<longleftrightarrow>
     sr_api r = ''stackkit.local-backup-repository-snapshot/v1'' \<and> sr_repository r = nq_repository q \<and>
     sr_operation r = nq_operation q \<and> sr_request r = sv_request_digest e q \<and> sr_snapshot r \<noteq> [] \<and>
     validDigest (sr_content r) \<and> sr_consistency r = crash_consistent \<and> sr_created r \<noteq> 0"

definition configurationOperationID :: "'p snapshot_env \<Rightarrow> 'p repository_configuration \<Rightarrow> string" where
  "configurationOperationID e c = sv_configuration_id e (c\<lparr>pc_operation := []\<rparr>)"

definition identified :: "'p snapshot_env \<Rightarrow> 'p repository_configuration \<Rightarrow> 'p repository_configuration" where
  "identified e c = c\<lparr>pc_operation := configurationOperationID e c\<rparr>"

definition anchor_configuration :: "'p snapshot_env \<Rightarrow> 'p operation_input \<Rightarrow> 'p repository_configuration" where
  "anchor_configuration e i =
     identified e \<lparr>pc_owner = oi_owner i, pc_authority = oi_authority i, pc_lineage = oi_lineage i,
       pc_policy_digest = oi_policy_digest i, pc_operation = [], pc_policy = oi_policy i\<rparr>"

definition validateRepositoryReceipt ::
  "'p snapshot_env \<Rightarrow> repository_receipt \<Rightarrow> 'p repository_configuration \<Rightarrow> bool" where
  "validateRepositoryReceipt e r c \<longleftrightarrow>
     rr_api r = ''stackkit.local-backup-repository-receipt/v1'' \<and> rr_repository r \<noteq> [] \<and> rr_backend r \<noteq> [] \<and>
     rr_configuration r = sv_configuration_digest e c"

definition VerifySnapshotAnchor :: "'p snapshot_env \<Rightarrow> 'p snapshot_anchor \<Rightarrow> anchor_error option" where
  "VerifySnapshotAnchor e a =
     (let i = sa_input a; repository = rr_repository (sa_repository a) in
      first_err (check (sa_api a \<noteq> ''stackkit.local-backup-snapshot-anchor/v1'' \<or> sa_id a = [] \<or> oi_owner i = [] \<or>
                  oi_authority i = [] \<or> oi_operation i = [] \<or> \<not> validDigest (oi_policy_digest i)) AnchorIncomplete)
     (first_err (check (\<not> lineage_complete (oi_lineage i)) LineageIncomplete)
     (first_err (check (\<not> sv_policy_ok e (oi_policy i)) PolicyInvalid)
     (first_err (case sa_quiescence a of None \<Rightarrow> None
                 | Some q \<Rightarrow> map_option AnchorQuiescenceInvalid (validateRestoredSnapshotQuiescence e q))
     (first_err (check (\<not> validateRepositoryReceipt e (sa_repository a) (anchor_configuration e i)) RepositoryReceiptInvalid)
     (first_err (case snapshotRequest e i repository of None \<Rightarrow> Some SourcesInvalid
                 | Some q \<Rightarrow> check (\<not> validateSnapshotReceipt e (sa_snapshot a) q) SnapshotReceiptInvalid)
     (first_err (check (case Option.bind (sa_quiescence a) sq_capture of None \<Rightarrow> False
                        | Some t \<Rightarrow> t > sr_created (sa_snapshot a)) CaptureAfterCompletion)
     (first_err (check (sa_id a \<noteq> sv_anchor_digest e (a\<lparr>sa_id := [], sa_signature := []\<rparr>)) AnchorIdentityInvalid)
                (check (\<not> sv_verify_anchor e a) AnchorSignatureInvalid)))))))))"

definition load_anchor :: "'p snapshot_env \<Rightarrow> 'p snapshot_disk \<Rightarrow> string \<Rightarrow> anchor_error + 'p snapshot_anchor option" where
  "load_anchor e d aid =
     (if \<not> validDigest aid then Inl AnchorIncomplete
      else case map_of (sd_anchors d) (drop 7 aid) of
        None \<Rightarrow> Inr None
      | Some None \<Rightarrow> Inl AnchorUnreadable
      | Some (Some a) \<Rightarrow>
          if sa_id a \<noteq> aid then Inl AnchorIdentityInvalid
          else (case VerifySnapshotAnchor e a of Some x \<Rightarrow> Inl x | None \<Rightarrow> Inr (Some a)))"

definition make_anchor ::
  "'p snapshot_env \<Rightarrow> 'p operation_input \<Rightarrow> snapshot_quiescence option \<Rightarrow> repository_receipt \<Rightarrow> snapshot_receipt \<Rightarrow>
   anchor_error + 'p snapshot_anchor" where
  "make_anchor e i q repository snapshot =
     (let a0 = \<lparr>sa_input = i, sa_api = ''stackkit.local-backup-snapshot-anchor/v1'', sa_id = [], sa_repository = repository,
                sa_snapshot = snapshot, sa_quiescence = q, sa_signature = []\<rparr>;
          a1 = a0\<lparr>sa_id := sv_anchor_digest e a0\<rparr> in
      case sv_sign_anchor e a1 of
        None \<Rightarrow> Inl AnchorSignFailed
      | Some s \<Rightarrow> (let a = a1\<lparr>sa_signature := s\<rparr> in
          case VerifySnapshotAnchor e a of Some x \<Rightarrow> Inl x | None \<Rightarrow> Inr a))"

text \<open>The content-addressed anchor file is written once; a file of that name must hold the same anchor.\<close>

definition store_anchor ::
  "'p snapshot_env \<Rightarrow> file_write \<Rightarrow> 'p snapshot_disk \<Rightarrow> 'p snapshot_anchor \<Rightarrow> 'p snapshot_disk \<times> snapshot_error option" where
  "store_anchor e out d a =
     (case load_anchor e d (sa_id a) of
        Inl x \<Rightarrow> (d, Some (Anchor x))
      | Inr (Some stored) \<Rightarrow> (d, check (stored \<noteq> a) (Anchor AnchorDiffers))
      | Inr None \<Rightarrow>
         (let d1 = (if replaces out then d\<lparr>sd_anchors := AList.update (drop 7 (sa_id a)) (Some a) (sd_anchors d)\<rparr>
                    else if out = FileAbandoned then d\<lparr>sd_stray_anchors := True\<rparr> else d) in
          if out \<noteq> FileWritten then (d1, Some (Record JournalWriteFailed))
          else case load_anchor e d1 (sa_id a) of
            Inr (Some stored) \<Rightarrow> (d1, check (stored \<noteq> a) (Anchor AnchorDiffers))
          | Inr None \<Rightarrow> (d1, Some (Anchor AnchorUnreadable))
          | Inl x \<Rightarrow> (d1, Some (Anchor x))))"

definition group_ids :: "snapshot_quiescence \<Rightarrow> string list" where
  "group_ids q = map (\<lambda>g. group_id (ag_binding g)) (sq_groups q)"

text \<open>The runtime's closer of native holds: absent, failing, or successful.\<close>

datatype closer = NoCloser | CloserFails | CloserCloses

definition run_closer :: "closer \<Rightarrow> snapshot_error option" where
  "run_closer c = (case c of NoCloser \<Rightarrow> Some CloserUnavailable | CloserFails \<Rightarrow> Some CloseFailed | CloserCloses \<Rightarrow> None)"

definition closeCompletedSnapshotGroups ::
  "'p snapshot_env \<Rightarrow> closer \<Rightarrow> file_write \<Rightarrow> 'p snapshot_disk \<Rightarrow> string \<Rightarrow> 'p snapshot_operation \<Rightarrow>
   'p snapshot_disk \<times> snapshot_error option" where
  "closeCompletedSnapshotGroups e c out d key op =
     (case so_quiescence op of
        None \<Rightarrow> (d, None)
      | Some q \<Rightarrow>
          if sq_groups q = [] \<or> length (so_closures op) = length (sq_groups q) then (d, None)
          else if so_state op \<noteq> ''completed'' \<or> so_anchor op = None then (d, Some CloseNeedsCompletion)
          else case run_closer c of
            Some x \<Rightarrow> (d, Some x)
          | None \<Rightarrow> write_operation e out d key (op\<lparr>so_closures := group_ids q\<rparr>))"

definition closeFailedSnapshotGroups ::
  "'p snapshot_env \<Rightarrow> closer \<Rightarrow> file_write \<Rightarrow> 'p snapshot_disk \<Rightarrow> string \<Rightarrow> 'p snapshot_operation \<Rightarrow>
   'p snapshot_disk \<times> snapshot_error option" where
  "closeFailedSnapshotGroups e c out d key op =
     (case so_quiescence op of
        None \<Rightarrow> (d, Some FailedUnsettled)
      | Some q \<Rightarrow>
          if so_state op \<noteq> ''failed'' \<or> validateRestoredSnapshotQuiescence e q \<noteq> None then (d, Some FailedUnsettled)
          else if length (so_closures op) = length (sq_groups q) then (d, None)
          else case run_closer c of
            Some x \<Rightarrow> (d, Some x)
          | None \<Rightarrow> write_operation e out d key (op\<lparr>so_closures := group_ids q\<rparr>))"

definition settleFailedSnapshot ::
  "'p snapshot_env \<Rightarrow> closer \<Rightarrow> file_write \<Rightarrow> file_write \<Rightarrow> 'p snapshot_disk \<Rightarrow> string \<Rightarrow> 'p operation_input \<Rightarrow>
   'p snapshot_disk \<times> snapshot_error option" where
  "settleFailedSnapshot e c out1 out2 d key i =
     (case loadOperation e d key of
        Inl x \<Rightarrow> (d, Some (Record x))
      | Inr op \<Rightarrow>
         (case so_quiescence op of
            None \<Rightarrow> (d, None)
          | Some q \<Rightarrow>
              if so_state op \<noteq> ''pending'' \<or> \<not> operationInputsEqual e (so_input op) i \<or> sq_version q \<noteq> 2 then (d, None)
              else case validateRestoredSnapshotQuiescence e q of
                Some x \<Rightarrow> (d, Some (Record (QuiescenceInvalid x)))
              | None \<Rightarrow>
                 (let op1 = op\<lparr>so_state := ''failed'', so_failure := failed_after_settlement\<rparr> in
                  case write_operation e out1 d key op1 of
                    (d1, Some x) \<Rightarrow> (d1, Some x)
                  | (d1, None) \<Rightarrow> closeFailedSnapshotGroups e c out2 d1 key op1)))"

definition completed_operation ::
  "'p operation_input \<Rightarrow> snapshot_quiescence option \<Rightarrow> 'p snapshot_anchor \<Rightarrow> 'p snapshot_operation" where
  "completed_operation i q a = (pending_operation i q)\<lparr>so_state := ''completed'', so_anchor := Some a\<rparr>"

text \<open>With the anchor stored: the completed operation, read back, then the closures of its groups.\<close>

definition journal_completion ::
  "'p snapshot_env \<Rightarrow> closer \<Rightarrow> file_write \<Rightarrow> file_write \<Rightarrow> 'p snapshot_disk \<Rightarrow> string \<Rightarrow> 'p operation_input \<Rightarrow>
   snapshot_quiescence option \<Rightarrow> 'p snapshot_anchor \<Rightarrow> 'p snapshot_disk \<times> (snapshot_error + 'p snapshot_anchor)" where
  "journal_completion e c out1 out2 d key i q a =
     (case write_operation e out1 d key (completed_operation i q a) of
        (d1, Some x) \<Rightarrow> (d1, Inl x)
      | (d1, None) \<Rightarrow>
         (case loadOperation e d1 key of
            Inl x \<Rightarrow> (d1, Inl (Record x))
          | Inr op \<Rightarrow>
             (case closeCompletedSnapshotGroups e c out2 d1 key op of
                (d2, Some x) \<Rightarrow> (d2, Inl x)
              | (d2, None) \<Rightarrow> (d2, Inr a))))"

text \<open>The evidence a completion needs from the journaled operation.\<close>

definition restored_evidence ::
  "'p snapshot_env \<Rightarrow> bool \<Rightarrow> 'p snapshot_operation \<Rightarrow> snapshot_error + snapshot_quiescence option" where
  "restored_evidence e require_restored op =
     (case so_quiescence op of
        None \<Rightarrow> if require_restored then Inl RestoredEvidenceMissing else Inr None
      | Some q \<Rightarrow> (case validateRestoredSnapshotQuiescence e q of
                     Some x \<Rightarrow> Inl (Record (QuiescenceInvalid x))
                   | None \<Rightarrow> Inr (Some (cloneSnapshotQuiescence q))))"

definition completeSnapshot ::
  "'p snapshot_env \<Rightarrow> closer \<Rightarrow> file_write \<Rightarrow> file_write \<Rightarrow> file_write \<Rightarrow> 'p snapshot_disk \<Rightarrow> string \<Rightarrow> 'p operation_input \<Rightarrow>
   repository_receipt \<Rightarrow> snapshot_receipt \<Rightarrow> bool \<Rightarrow> 'p snapshot_disk \<times> (snapshot_error + 'p snapshot_anchor)" where
  "completeSnapshot e c out1 out2 out3 d key i repository snapshot require_restored =
     (case loadOperation e d key of
        Inl x \<Rightarrow> (d, Inl (Record x))
      | Inr op \<Rightarrow>
          if so_state op \<noteq> ''pending'' \<or> so_anchor op \<noteq> None \<or> \<not> operationInputsEqual e (so_input op) i
          then (d, Inl CompletionNotPending)
          else (case restored_evidence e require_restored op of
            Inl x \<Rightarrow> (d, Inl x)
          | Inr q \<Rightarrow>
             (case make_anchor e i q repository snapshot of
                Inl x \<Rightarrow> (d, Inl (Anchor x))
              | Inr a \<Rightarrow>
                 (case store_anchor e out1 d a of
                    (d1, Some x) \<Rightarrow> (d1, Inl x)
                  | (d1, None) \<Rightarrow> journal_completion e c out2 out3 d1 key i q a))))"

section \<open>Running a snapshot\<close>

record 'p configuration =
  cf_owner :: string
  cf_authority :: string
  cf_lineage :: authority_lineage
  cf_policy_digest :: string
  cf_policy :: 'p
  cf_repository :: repository_receipt

record run_input =
  ri_operation :: string
  ri_protect :: bool
  ri_workloads :: "string list"

definition bound_input :: "'p configuration \<Rightarrow> run_input \<Rightarrow> 'p operation_input" where
  "bound_input cf r =
     \<lparr>oi_workloads = ri_workloads r, oi_owner = cf_owner cf, oi_authority = cf_authority cf, oi_lineage = cf_lineage cf,
      oi_policy_digest = cf_policy_digest cf, oi_operation = ri_operation r, oi_policy = cf_policy cf,
      oi_protect = ri_protect r\<rparr>"

text \<open>
  One call of the repository runtime: the values it hands to the persist callback, with the outcome
  of each write, and the receipt it returns. What it does between the callbacks is its own.
\<close>

record snapshot_answer =
  an_persists :: "(snapshot_quiescence \<times> file_write) list"
  an_receipt :: "snapshot_receipt option"

text \<open>
  What the surroundings of one run answer: the bound configuration, retention admission, repository
  readiness, whether the runtime stops writers itself, its answers, and the file writes in order.
\<close>

record 'p run_env =
  re_configuration :: "'p configuration option"
  re_retention :: bool
  re_ready :: bool
  re_quiesces :: bool
  re_lookup :: "snapshot_receipt option option"
  re_answer :: snapshot_answer
  re_closer :: closer
  re_begin :: file_write
  re_anchor_write :: file_write
  re_end :: file_write
  re_close :: file_write

definition anchorMatchesOperation :: "'p snapshot_env \<Rightarrow> 'p snapshot_anchor \<Rightarrow> 'p snapshot_operation \<Rightarrow> bool" where
  "anchorMatchesOperation e a op \<longleftrightarrow>
     operationInputsEqual e (sa_input a) (so_input op) \<and> sa_quiescence a = so_quiescence op"

text \<open>\<open>loadStoredSnapshotAnchor\<close>: here a missing file is an error.\<close>

definition loadStoredSnapshotAnchor :: "'p snapshot_env \<Rightarrow> 'p snapshot_disk \<Rightarrow> string \<Rightarrow> snapshot_error + 'p snapshot_anchor" where
  "loadStoredSnapshotAnchor e d aid =
     (case load_anchor e d aid of
        Inl x \<Rightarrow> Inl (Anchor x)
      | Inr None \<Rightarrow> Inl (Anchor AnchorUnreadable)
      | Inr (Some a) \<Rightarrow> Inr a)"

definition replay_completed ::
  "'p snapshot_env \<Rightarrow> closer \<Rightarrow> file_write \<Rightarrow> 'p snapshot_disk \<Rightarrow> string \<Rightarrow> 'p snapshot_operation \<Rightarrow> 'p snapshot_anchor \<Rightarrow>
   'p snapshot_disk \<times> (snapshot_error + 'p snapshot_anchor)" where
  "replay_completed e c out d key op a =
     (case VerifySnapshotAnchor e a of
        Some x \<Rightarrow> (d, Inl (Anchor x))
      | None \<Rightarrow>
          if \<not> anchorMatchesOperation e a op then (d, Inl (Anchor AnchorDiffers))
          else (case loadStoredSnapshotAnchor e d (sa_id a) of
            Inl x \<Rightarrow> (d, Inl x)
          | Inr stored \<Rightarrow>
              if stored \<noteq> a then (d, Inl (Anchor AnchorDiffers))
              else (case closeCompletedSnapshotGroups e c out d key op of
                (d', Some x) \<Rightarrow> (d', Inl x)
              | (d', None) \<Rightarrow> (d', Inr stored))))"

definition replay_failed ::
  "'p snapshot_env \<Rightarrow> closer \<Rightarrow> file_write \<Rightarrow> 'p snapshot_disk \<Rightarrow> string \<Rightarrow> 'p snapshot_operation \<Rightarrow>
   'p snapshot_disk \<times> (snapshot_error + 'p snapshot_anchor)" where
  "replay_failed e c out d key op =
     (case closeFailedSnapshotGroups e c out d key op of
        (d', Some x) \<Rightarrow> (d', Inl x)
      | (d', None) \<Rightarrow> (d', Inl GroupFailedResult))"

fun persist_all ::
  "'p snapshot_env \<Rightarrow> string \<Rightarrow> 'p operation_input \<Rightarrow> (snapshot_quiescence \<times> file_write) list \<Rightarrow> 'p snapshot_disk \<Rightarrow> 'p snapshot_disk" where
  "persist_all e key i [] d = d"
| "persist_all e key i ((q, out) # ps) d = persist_all e key i ps (fst (persistSnapshotQuiescence e out d key i q))"

text \<open>The end of a run: the receipt of the runtime, then completion; without one, the negative end.\<close>

definition finish_run ::
  "'p snapshot_env \<Rightarrow> 'p run_env \<Rightarrow> 'p snapshot_disk \<Rightarrow> string \<Rightarrow> 'p operation_input \<Rightarrow> repository_receipt \<Rightarrow> snapshot_request \<Rightarrow>
   snapshot_receipt option \<Rightarrow> bool \<Rightarrow> 'p snapshot_disk \<times> (snapshot_error + 'p snapshot_anchor)" where
  "finish_run e re d key i repository request receipt require_restored =
     (case receipt of
        None \<Rightarrow> (case settleFailedSnapshot e (re_closer re) (re_end re) (re_close re) d key i of
                   (d', x) \<Rightarrow> (d', Inl (SnapshotFailed x)))
      | Some r \<Rightarrow>
          if \<not> validateSnapshotReceipt e r request then (d, Inl (Anchor SnapshotReceiptInvalid))
          else completeSnapshot e (re_closer re) (re_anchor_write re) (re_end re) (re_close re) d key i repository r require_restored)"

definition quiesced_run ::
  "'p snapshot_env \<Rightarrow> 'p run_env \<Rightarrow> 'p snapshot_disk \<Rightarrow> string \<Rightarrow> 'p operation_input \<Rightarrow> repository_receipt \<Rightarrow> snapshot_request \<Rightarrow>
   'p snapshot_disk \<times> (snapshot_error + 'p snapshot_anchor)" where
  "quiesced_run e re d key i repository request =
     finish_run e re (persist_all e key i (an_persists (re_answer re)) d) key i repository request (an_receipt (re_answer re)) True"

definition create_run ::
  "'p snapshot_env \<Rightarrow> 'p run_env \<Rightarrow> 'p snapshot_disk \<Rightarrow> string \<Rightarrow> 'p operation_input \<Rightarrow> repository_receipt \<Rightarrow> snapshot_request \<Rightarrow>
   'p snapshot_disk \<times> (snapshot_error + 'p snapshot_anchor)" where
  "create_run e re d key i repository request =
     (if re_quiesces re then quiesced_run e re d key i repository request
      else finish_run e re d key i repository request (an_receipt (re_answer re)) False)"

text \<open>The operation is absent: it is journaled as pending before the runtime is asked for anything.\<close>

definition first_run ::
  "'p snapshot_env \<Rightarrow> 'p run_env \<Rightarrow> 'p snapshot_disk \<Rightarrow> string \<Rightarrow> 'p operation_input \<Rightarrow> repository_receipt \<Rightarrow> snapshot_request \<Rightarrow>
   'p snapshot_disk \<times> (snapshot_error + 'p snapshot_anchor)" where
  "first_run e re d key i repository request =
     (if \<not> re_ready re then (d, Inl RepositoryNotReady)
      else case write_operation e (re_begin re) d key (pending_operation i None) of
        (d', Some x) \<Rightarrow> (d', Inl x)
      | (d', None) \<Rightarrow> create_run e re d' key i repository request)"

text \<open>The operation is pending: a stopping runtime resumes it; otherwise a snapshot taken earlier is looked up first.\<close>

definition resumed_run ::
  "'p snapshot_env \<Rightarrow> 'p run_env \<Rightarrow> 'p snapshot_disk \<Rightarrow> string \<Rightarrow> 'p operation_input \<Rightarrow> repository_receipt \<Rightarrow> snapshot_request \<Rightarrow>
   'p snapshot_operation \<Rightarrow> 'p snapshot_disk \<times> (snapshot_error + 'p snapshot_anchor)" where
  "resumed_run e re d key i repository request op =
     (if re_quiesces re
      then if so_quiescence op = None \<and> \<not> re_ready re then (d, Inl RepositoryNotReady)
           else quiesced_run e re d key i repository request
      else if so_quiescence op \<noteq> None then (d, Inl QuiescenceRequired)
      else case re_lookup re of
        None \<Rightarrow> (d, Inl LookupFailed)
      | Some (Some r) \<Rightarrow> finish_run e re d key i repository request (Some r) False
      | Some None \<Rightarrow>
          if \<not> re_ready re then (d, Inl RepositoryNotReady) else create_run e re d key i repository request)"

definition admit_run ::
  "'p snapshot_env \<Rightarrow> 'p run_env \<Rightarrow> 'p operation_input \<Rightarrow> repository_receipt \<Rightarrow> snapshot_error + snapshot_request" where
  "admit_run e re i repository =
     (if \<not> re_retention re then Inl RetentionDenied
      else case snapshotRequest e i (rr_repository repository) of
        None \<Rightarrow> Inl (Anchor SourcesInvalid)
      | Some request \<Rightarrow> Inr request)"

definition run_journaled ::
  "'p snapshot_env \<Rightarrow> 'p run_env \<Rightarrow> 'p snapshot_disk \<Rightarrow> string \<Rightarrow> 'p operation_input \<Rightarrow> repository_receipt \<Rightarrow>
   'p snapshot_operation \<Rightarrow> 'p snapshot_disk \<times> (snapshot_error + 'p snapshot_anchor)" where
  "run_journaled e re d key i repository op =
     (if \<not> operationInputsEqual e (so_input op) i then (d, Inl IntentDiffers)
      else case so_anchor op of
        Some a \<Rightarrow> if so_state op = ''completed'' then replay_completed e (re_closer re) (re_close re) d key op a
                  else (d, Inl OperationMalformed)
      | None \<Rightarrow>
          if so_state op = ''failed'' then replay_failed e (re_closer re) (re_close re) d key op
          else if so_state op = ''pending''
          then (case admit_run e re i repository of
                  Inl x \<Rightarrow> (d, Inl x)
                | Inr request \<Rightarrow> resumed_run e re d key i repository request op)
          else (d, Inl OperationMalformed))"

definition run ::
  "'p snapshot_env \<Rightarrow> 'p run_env \<Rightarrow> 'p snapshot_disk \<Rightarrow> run_input \<Rightarrow> 'p snapshot_disk \<times> (snapshot_error + 'p snapshot_anchor)" where
  "run e re d r =
     (case RequireSettledRuntimeControls e d (ri_operation r) of
        Some x \<Rightarrow> (d, Inl x)
      | None \<Rightarrow>
          if \<not> validOperationID (ri_operation r) then (d, Inl InvalidOperationID)
          else (case re_configuration re of
            None \<Rightarrow> (d, Inl ConfigurationUnbound)
          | Some cf \<Rightarrow>
              let i = bound_input cf r; key = sv_key e (ri_operation r) in
              (case loadOperation e d key of
                 Inr op \<Rightarrow> run_journaled e re d key i (cf_repository cf) op
               | Inl OperationMissing \<Rightarrow>
                   (case admit_run e re i (cf_repository cf) of
                      Inl x \<Rightarrow> (d, Inl x)
                    | Inr request \<Rightarrow> first_run e re d key i (cf_repository cf) request)
               | Inl x \<Rightarrow> (d, Inl (Record x)))))"

section \<open>What reads the signed journal\<close>

definition VerifySnapshotAppGroup ::
  "'p snapshot_env \<Rightarrow> 'p snapshot_disk \<Rightarrow> app_group_control \<Rightarrow> bool \<Rightarrow> snapshot_error option" where
  "VerifySnapshotAppGroup e d g completed =
     (case loadOperation e d (sv_key e (journal_operation_id (ag_binding g))) of
        Inl x \<Rightarrow> Some (Record x)
      | Inr op \<Rightarrow>
         (case so_quiescence op of
            None \<Rightarrow> Some GroupOwnerDiffers
          | Some q \<Rightarrow>
              if sq_version q \<noteq> 2 \<or> oi_owner (so_input op) \<noteq> owner_ref (ag_binding g) \<or>
                 oi_operation (so_input op) \<noteq> journal_operation_id (ag_binding g) \<or>
                 (completed \<and> so_state op \<noteq> ''completed'' \<and> so_state op \<noteq> ''failed'')
              then Some GroupOwnerDiffers
              else check (g \<notin> set (sq_groups q)) GroupLineageChanged))"

definition VerifySnapshotAppGroupAuthority ::
  "'p snapshot_env \<Rightarrow> 'p snapshot_disk \<Rightarrow> app_group_control \<Rightarrow> authority_lineage \<Rightarrow> bool \<Rightarrow> snapshot_error option" where
  "VerifySnapshotAppGroupAuthority e d g lineage completed =
     first_err (VerifySnapshotAppGroup e d g completed)
       (case loadOperation e d (sv_key e (journal_operation_id (ag_binding g))) of
          Inl x \<Rightarrow> Some (Record x)
        | Inr op \<Rightarrow>
           (case sv_source_digest e (oi_policy (so_input op)) of
              None \<Rightarrow> Some SourceDigestFailed
            | Some digest \<Rightarrow>
                check (oi_lineage (so_input op) \<noteq> lineage \<or> authority_lineage (ag_binding g) \<noteq> lineage \<or>
                       policy_source_digest (ag_binding g) \<noteq> digest) GroupPolicyDiffers))"

definition ReadSnapshotAppGroupControls ::
  "'p snapshot_env \<Rightarrow> 'p snapshot_disk \<Rightarrow> string \<Rightarrow> snapshot_error + app_group_control list \<times> string \<times> bool" where
  "ReadSnapshotAppGroupControls e d operation =
     (case loadOperation e d (sv_key e operation) of
        Inl x \<Rightarrow> Inl (Record x)
      | Inr op \<Rightarrow>
         (case so_quiescence op of
            None \<Rightarrow> Inl GroupOwnerDiffers
          | Some q \<Rightarrow>
              if oi_operation (so_input op) \<noteq> operation \<or> sq_version q \<noteq> 2 then Inl GroupOwnerDiffers
              else Inr (sq_groups q, sq_phase q, so_state op = ''completed'')))"

section \<open>The calls that write the journal\<close>

text \<open>
  The public calls that write operation files, each with any input, under the lease that keeps two
  of them apart; an interrupted call is one whose later writes left the files unchanged.
\<close>

inductive snapshot_call :: "'p snapshot_env \<Rightarrow> 'p snapshot_disk \<Rightarrow> 'p snapshot_disk \<Rightarrow> bool" for e where
  call_run: "run e re d r = (d', x) \<Longrightarrow> snapshot_call e d d'"
| call_outcome: "RecordApplicationTransferOutcome e out d operation transfer outcome state = (d', x) \<Longrightarrow> snapshot_call e d d'"
| call_prepare: "PrepareApplicationTransferRetirement e out d operation transfer candidate require = (d', x) \<Longrightarrow> snapshot_call e d d'"
| call_authorize: "RecordApplicationTransferRetirementAuthorization e out d operation transfer raw = (d', x) \<Longrightarrow> snapshot_call e d d'"
| call_retire: "CompleteApplicationTransferRetirement e out d operation transfer retired = (d', x) \<Longrightarrow> snapshot_call e d d'"
| call_abort: "CompleteApplicationTransferAbortRetirement e out d operation transfer retired = (d', x) \<Longrightarrow> snapshot_call e d d'"

inductive_cases snapshot_callE: "snapshot_call e d d'"

definition empty_disk :: "'p snapshot_disk" where
  "empty_disk = \<lparr>sd_operations = [], sd_foreign = False, sd_anchors = [], sd_stray_anchors = False\<rparr>"

inductive snapshot_reachable :: "'p snapshot_env \<Rightarrow> 'p snapshot_disk \<Rightarrow> bool" for e where
  reach_empty: "snapshot_reachable e empty_disk"
| reach_call: "snapshot_reachable e d \<Longrightarrow> snapshot_call e d d' \<Longrightarrow> snapshot_reachable e d'"

end
