(* ===== verification/BackupConfiguration.thy ===== *)
theory BackupConfiguration
  imports SnapshotOperations
begin

text \<open>
  The Owner's backup configuration (\<open>internal/backuplifecycle/service.go\<close>: \<open>Configure\<close>, \<open>Rebind\<close>,
  \<open>boundConfiguration\<close>, \<open>Status\<close>): the records a restore journals, the binding of a caller to the
  local Owner, the intent written before the repository is asked, and the stored configuration.
\<close>

section \<open>The backup configuration\<close>

record target =
  tg_site :: string
  tg_node :: string
  tg_daemon :: string
  tg_engine :: string
  tg_socket :: string
  tg_scope :: string

record configuration_error =
  ce_owner :: bool
  ce_authority :: bool
  ce_lineage :: bool
  ce_policy :: bool

text \<open>The stored configuration: the bound values (\<open>configuration\<close>) under an API version and an operation digest.\<close>

record 'p stored_configuration =
  cs_api :: string
  cs_operation :: string
  cs_bound :: "'p configuration"

record 'p normalized_binding =
  nb_owner :: string
  nb_authority :: string
  nb_lineage :: authority_lineage
  nb_policy_digest :: string
  nb_policy :: 'p

record configure_input =
  ci_owner :: string
  ci_authority :: string
  ci_lineage :: authority_lineage
  ci_artifact :: string

section \<open>What a restore journals\<close>

text \<open>Times are nanoseconds since Go's zero time, which is 0.\<close>

record restore_intent =
  ro_owner :: string
  ro_authority :: string
  ro_lineage :: authority_lineage
  ro_policy_digest :: string
  ro_anchor :: string
  ro_operation :: string

record recovery_anchor =
  ry_api :: string
  ry_id :: string
  ry_owner :: string
  ry_authority :: string
  ry_lineage :: authority_lineage
  ry_policy_digest :: string
  ry_anchor :: string
  ry_snapshot_lineage :: authority_lineage
  ry_repository :: string
  ry_snapshot :: string
  ry_content :: string
  ry_operation :: string
  ry_staging :: string
  ry_mode :: string
  ry_method :: string
  ry_approved :: int
  ry_expires :: int
  ry_signature :: string

record restore_request =
  rq_owner :: string
  rq_authority :: string
  rq_lineage :: authority_lineage
  rq_policy_digest :: string
  rq_repository :: string
  rq_anchor :: string
  rq_source_digest :: string
  rq_snapshot_request :: snapshot_request
  rq_snapshot_receipt :: snapshot_receipt
  rq_operation :: string
  rq_staging :: string

record restore_receipt =
  rt_api :: string
  rt_repository :: string
  rt_snapshot :: string
  rt_operation :: string
  rt_request :: string
  rt_staging :: string
  rt_content :: string
  rt_verified :: bool
  rt_completed :: int

record volume_readback =
  vr_metadata :: string
  vr_live :: string
  vr_files :: int
  vr_bytes :: int
  vr_digest :: string

record data_readback =
  dr_method :: string
  dr_volumes :: "volume_readback list"

record restore_verification =
  vf_api :: string
  vf_owner :: string
  vf_owner_binding :: string
  vf_subject :: string
  vf_plan :: string
  vf_services :: bool
  vf_at :: int
  vf_readback :: "data_readback option"

record restore_result =
  rz_api :: string
  rz_id :: string
  rz_owner :: string
  rz_authority :: string
  rz_lineage :: authority_lineage
  rz_anchor :: string
  rz_snapshot_lineage :: authority_lineage
  rz_operation :: string
  rz_recovery :: recovery_anchor
  rz_request :: restore_request
  rz_receipt :: restore_receipt
  rz_verification :: restore_verification
  rz_signature :: string

record restore_abandonment =
  ab_api :: string
  ab_id :: string
  ab_owner :: string
  ab_authority :: string
  ab_lineage :: authority_lineage
  ab_policy_digest :: string
  ab_anchor :: string
  ab_recovery :: string
  ab_operation :: string
  ab_method :: string
  ab_at :: int
  ab_signature :: string

record restore_operation =
  rj_api :: string
  rj_state :: string
  rj_intent :: restore_intent
  rj_recovery :: recovery_anchor
  rj_receipt :: "restore_receipt option"
  rj_result :: "restore_result option"
  rj_abandonment :: "restore_abandonment option"

text \<open>
  What the component takes from other code: the Owner's custody (reference and human authority), the
  decoder of a policy and what is read of one, the digests (SHA-256 of JSON) and the Owner's signatures.
  Of a policy \<open>p\<close>: \<open>bv_stack\<close> is its stack, \<open>bv_target\<close> its target host, \<open>bv_restore_digest\<close> the digest of
  its source, \<open>bv_topology_digest\<close> the digest of its source with the class of every application volume
  cleared, \<open>bv_coverage\<close> whether its coverage can be projected, \<open>bv_retains\<close> whether it has a
  retention. An option is \<open>None\<close> where the code gets an error.
\<close>

record 'p backup_env =
  bv_snapshot :: "'p snapshot_env"
  bv_custody :: "(string \<times> string) option"
  bv_decode_policy :: "string \<Rightarrow> 'p option"
  bv_digest :: "string \<Rightarrow> string"
  bv_stack :: "'p \<Rightarrow> string"
  bv_target :: "'p \<Rightarrow> target"
  bv_restore_digest :: "'p \<Rightarrow> string option"
  bv_topology_digest :: "'p \<Rightarrow> string option"
  bv_coverage :: "'p \<Rightarrow> bool"
  bv_retains :: "'p \<Rightarrow> bool"
  bv_request_digest :: "restore_request \<Rightarrow> string"
  bv_recovery_digest :: "recovery_anchor \<Rightarrow> string"
  bv_sign_recovery :: "recovery_anchor \<Rightarrow> string option"
  bv_verify_recovery :: "recovery_anchor \<Rightarrow> bool"
  bv_result_digest :: "restore_result \<Rightarrow> string"
  bv_sign_result :: "restore_result \<Rightarrow> string option"
  bv_verify_result :: "restore_result \<Rightarrow> bool"
  bv_abandonment_digest :: "restore_abandonment \<Rightarrow> string"
  bv_sign_abandonment :: "restore_abandonment \<Rightarrow> string option"
  bv_verify_abandonment :: "restore_abandonment \<Rightarrow> bool"

datatype backup_error =
    OwnerUnknown | OwnerDiffers | AuthorityDiffers | BindingIncomplete | PolicyUndecodable
  | ConfigurationMissing | ConfigurationUnreadable | ConfigurationIncomplete | ConfigurationDigestDiffers
  | ConfigurationReceiptInvalid | BindingDiffers configuration_error | IntentUnverified | ConfigureRefused
  | OtherRepository | ForeignConfiguration | BackupWriteFailed | BackupGate snapshot_error
  | RestoreNotApproved | RestoreIdInvalid | SnapshotAnchorInvalid | VerifierMissing | SourceIncompatible
  | BackupNotReady | StatusUnavailable | StatusForeign | StatusUntruthful | CoverageUnavailable | RestoreMissing | RestoreUnreadable | RestoreApiUnsupported | RestoreInputDiffers
  | RecoveryIncomplete | RecoveryIdentity | RecoverySignature | RecoveryDiffers | RestoreStateInvalid
  | RestoreReceiptInvalid | ResultIncomplete | ResultRecoveryDiffers | ResultRequestDiffers
  | ResultVerificationInvalid | ResultIdentity | ResultSignature | ResultMissing | ResultUnreadable | ResultDiffers

datatype restore_error =
    Backup backup_error | AbandonmentIncomplete | AbandonmentIdentity | AbandonmentSignature | AbandonmentDiffers
  | AbandonmentEarly | AlreadyAbandoned | RequestInvalid | ApprovalExpired | StagingFailed | ReceiptOutsideApproval
  | VerifierFailed | VerificationDiffers | VerificationStale | Cancelled | SignatureFailed | CompletedNotAbandonable
  | ClockBeforeApproval | RetentionBlocked string string | RetentionJournalInvalid string restore_error
  | RetentionPathDiffers | RetentionScopeDiffers | HistoryEntryForeign | HistoryResultInvalid string restore_error
  | HistoryClockInvalid

section \<open>Binding\<close>

definition validateBinding :: "'p backup_env \<Rightarrow> string \<Rightarrow> string \<Rightarrow> backup_error option" where
  "validateBinding v owner authority =
     (case bv_custody v of
        None \<Rightarrow> Some OwnerUnknown
      | Some (local_owner, local_authority) \<Rightarrow>
          first_err (check (owner \<noteq> local_owner) OwnerDiffers)
                    (check (authority = [] \<or> authority \<noteq> local_authority) AuthorityDiffers))"

definition normalizeBinding :: "'p backup_env \<Rightarrow> configure_input \<Rightarrow> backup_error + 'p normalized_binding" where
  "normalizeBinding v i =
     (if \<not> lineage_complete (ci_lineage i) then Inl BindingIncomplete
      else case (if ci_artifact i = [] then None else bv_decode_policy v (ci_artifact i)) of
        None \<Rightarrow> Inl PolicyUndecodable
      | Some policy \<Rightarrow> Inr \<lparr>nb_owner = ci_owner i, nb_authority = ci_authority i, nb_lineage = ci_lineage i,
          nb_policy_digest = bv_digest v (ci_artifact i), nb_policy = policy\<rparr>)"

definition lineagesEqual :: "'p backup_env \<Rightarrow> authority_lineage \<Rightarrow> authority_lineage \<Rightarrow> bool" where
  "lineagesEqual v a b \<longleftrightarrow> sv_lineage_digest (bv_snapshot v) a = sv_lineage_digest (bv_snapshot v) b"

definition configurationBindingIssue ::
  "'p backup_env \<Rightarrow> 'p configuration \<Rightarrow> 'p normalized_binding \<Rightarrow> configuration_error option" where
  "configurationBindingIssue v c b =
     (let issue = \<lparr>ce_owner = (cf_owner c \<noteq> nb_owner b), ce_authority = (cf_authority c \<noteq> nb_authority b),
        ce_lineage = (\<not> lineagesEqual v (cf_lineage c) (nb_lineage b)),
        ce_policy = (cf_policy_digest c \<noteq> nb_policy_digest b \<or> cf_policy c \<noteq> nb_policy b)\<rparr> in
      if \<not> ce_owner issue \<and> \<not> ce_authority issue \<and> \<not> ce_lineage issue \<and> \<not> ce_policy issue then None else Some issue)"

definition CarryForwardable :: "configuration_error \<Rightarrow> bool" where
  "CarryForwardable e \<longleftrightarrow> \<not> ce_owner e \<and> \<not> ce_authority e"

section \<open>The files\<close>

text \<open>
  Every file of the backup directories; a file that cannot be read, decoded or is not private is \<open>None\<close>.
  The two directories that are listed may hold a temporary file as well.
\<close>

record 'p backup_disk =
  bd_snapshots :: "'p snapshot_disk"
  bd_configuration :: "'p stored_configuration option option"
  bd_intents :: "(string \<times> (string \<times> 'p repository_configuration) option) list"
  bd_restores :: "(string \<times> restore_operation option) list"
  bd_recoveries :: "(string \<times> recovery_anchor option) list"
  bd_results :: "(string \<times> restore_result option) list"
  bd_stray_restores :: bool
  bd_stray_results :: bool

definition put_file :: "file_write \<Rightarrow> string \<Rightarrow> 'a \<Rightarrow> (string \<times> 'a option) list \<Rightarrow> (string \<times> 'a option) list" where
  "put_file out key x fs = (if replaces out then AList.update key (Some x) fs else fs)"

definition write_failed :: "file_write \<Rightarrow> backup_error option" where
  "write_failed out = check (out \<noteq> FileWritten) BackupWriteFailed"

definition configuration_api :: string where
  "configuration_api = ''stackkit.local-backup-configuration/v1''"

definition repository_configuration_of :: "'p configuration \<Rightarrow> string \<Rightarrow> 'p repository_configuration" where
  "repository_configuration_of c operation =
     \<lparr>pc_owner = cf_owner c, pc_authority = cf_authority c, pc_lineage = cf_lineage c,
      pc_policy_digest = cf_policy_digest c, pc_operation = operation, pc_policy = cf_policy c\<rparr>"

definition loadConfiguration :: "'p backup_env \<Rightarrow> 'p backup_disk \<Rightarrow> backup_error + 'p configuration" where
  "loadConfiguration v d =
     (case bd_configuration d of
        None \<Rightarrow> Inl ConfigurationMissing
      | Some None \<Rightarrow> Inl ConfigurationUnreadable
      | Some (Some s) \<Rightarrow>
          let e = bv_snapshot v; c = cs_bound s; r = repository_configuration_of c (cs_operation s) in
          (case first_err (check (cs_api s \<noteq> configuration_api \<or> \<not> validDigest (cf_policy_digest c) \<or>
                                 \<not> validDigest (cs_operation s)) ConfigurationIncomplete)
                (first_err (check (\<not> lineage_complete (cf_lineage c)) BindingIncomplete)
                (first_err (check (\<not> sv_policy_ok e (cf_policy c)) PolicyUndecodable)
                (first_err (check (cs_operation s \<noteq> configurationOperationID e r) ConfigurationDigestDiffers)
                           (check (\<not> validateRepositoryReceipt e (cf_repository c) r) ConfigurationReceiptInvalid)))) of
             Some x \<Rightarrow> Inl x
           | None \<Rightarrow> Inr c))"

definition boundConfiguration :: "'p backup_env \<Rightarrow> 'p backup_disk \<Rightarrow> configure_input \<Rightarrow> backup_error + 'p configuration" where
  "boundConfiguration v d i =
     (case validateBinding v (ci_owner i) (ci_authority i) of
        Some x \<Rightarrow> Inl x
      | None \<Rightarrow> ebind (normalizeBinding v i) (\<lambda>b. ebind (loadConfiguration v d) (\<lambda>c.
          case configurationBindingIssue v c b of Some x \<Rightarrow> Inl (BindingDiffers x) | None \<Rightarrow> Inr c)))"

definition repositoryConfigurationsEqual ::
  "'p backup_env \<Rightarrow> 'p repository_configuration \<Rightarrow> 'p repository_configuration \<Rightarrow> bool" where
  "repositoryConfigurationsEqual v a b \<longleftrightarrow>
     pc_owner a = pc_owner b \<and> pc_authority a = pc_authority b \<and> lineagesEqual v (pc_lineage a) (pc_lineage b) \<and>
     pc_policy_digest a = pc_policy_digest b \<and> pc_operation a = pc_operation b \<and> pc_policy a = pc_policy b"

definition configuration_intent_api :: string where
  "configuration_intent_api = ''stackkit.local-backup-configuration-intent/v1''"

definition ensureConfigurationIntent ::
  "'p backup_env \<Rightarrow> file_write \<Rightarrow> 'p backup_disk \<Rightarrow> 'p repository_configuration \<Rightarrow> 'p backup_disk \<times> backup_error option" where
  "ensureConfigurationIntent v out d r =
     (let key = drop 7 (pc_operation r) in
      case map_of (bd_intents d) key of
        Some (Some (api, existing)) \<Rightarrow>
          (d, check (api \<noteq> configuration_intent_api \<or> \<not> repositoryConfigurationsEqual v existing r) IntentUnverified)
      | Some None \<Rightarrow> (d, Some IntentUnverified)
      | None \<Rightarrow> (d\<lparr>bd_intents := put_file out key (configuration_intent_api, r) (bd_intents d)\<rparr>, write_failed out))"

section \<open>Configuring and moving the configuration\<close>

text \<open>The runtime answers a configuration with a receipt or an error; two writes follow its intent.\<close>

record configure_env =
  co_intent :: file_write
  co_answer :: "repository_receipt option"
  co_write :: file_write

definition configured :: "'p normalized_binding \<Rightarrow> string \<Rightarrow> repository_receipt \<Rightarrow> 'p configuration" where
  "configured b owner r =
     \<lparr>cf_owner = owner, cf_authority = nb_authority b, cf_lineage = nb_lineage b, cf_policy_digest = nb_policy_digest b,
      cf_policy = nb_policy b, cf_repository = r\<rparr>"

definition configure ::
  "'p backup_env \<Rightarrow> configure_env \<Rightarrow> 'p backup_disk \<Rightarrow> string \<Rightarrow> 'p normalized_binding \<Rightarrow> repository_receipt option \<Rightarrow>
   'p backup_disk \<times> (backup_error + 'p configuration)" where
  "configure v co d owner b expected =
     (let r = identified (bv_snapshot v) \<lparr>pc_owner = owner, pc_authority = nb_authority b, pc_lineage = nb_lineage b,
            pc_policy_digest = nb_policy_digest b, pc_operation = [], pc_policy = nb_policy b\<rparr> in
      case ensureConfigurationIntent v (co_intent co) d r of
        (d1, Some x) \<Rightarrow> (d1, Inl x)
      | (d1, None) \<Rightarrow>
         (case co_answer co of
            None \<Rightarrow> (d1, Inl ConfigureRefused)
          | Some repository \<Rightarrow>
              if \<not> validateRepositoryReceipt (bv_snapshot v) repository r then (d1, Inl ConfigurationReceiptInvalid)
              else if (case expected of None \<Rightarrow> False
                       | Some p \<Rightarrow> rr_repository repository \<noteq> rr_repository p \<or> rr_backend repository \<noteq> rr_backend p)
              then (d1, Inl OtherRepository)
              else let c = configured b owner repository;
                       d2 = (if replaces (co_write co)
                             then d1\<lparr>bd_configuration := Some (Some
                                   \<lparr>cs_api = configuration_api, cs_operation = pc_operation r, cs_bound = c\<rparr>)\<rparr>
                             else d1) in
                   (d2, case write_failed (co_write co) of Some x \<Rightarrow> Inl x | None \<Rightarrow> Inr c)))"

definition Configure ::
  "'p backup_env \<Rightarrow> configure_env \<Rightarrow> 'p backup_disk \<Rightarrow> configure_input \<Rightarrow> 'p backup_disk \<times> (backup_error + 'p configuration)" where
  "Configure v co d i =
     (case first_err (map_option BackupGate (RequireSettledRuntimeControls (bv_snapshot v) (bd_snapshots d) []))
                     (validateBinding v (ci_owner i) (ci_authority i)) of
        Some x \<Rightarrow> (d, Inl x)
      | None \<Rightarrow>
         (case normalizeBinding v i of
            Inl x \<Rightarrow> (d, Inl x)
          | Inr b \<Rightarrow>
             (case loadConfiguration v d of
                Inl x \<Rightarrow> if x = ConfigurationMissing then configure v co d (ci_owner i) b None else (d, Inl x)
              | Inr _ \<Rightarrow> configure v co d (ci_owner i) b None)))"

definition Rebind ::
  "'p backup_env \<Rightarrow> configure_env \<Rightarrow> 'p backup_disk \<Rightarrow> configure_input \<Rightarrow> 'p backup_disk \<times> (backup_error + 'p configuration \<times> bool)" where
  "Rebind v co d i =
     (case first_err (map_option BackupGate (RequireSettledRuntimeControls (bv_snapshot v) (bd_snapshots d) []))
                     (validateBinding v (ci_owner i) (ci_authority i)) of
        Some x \<Rightarrow> (d, Inl x)
      | None \<Rightarrow>
         (case normalizeBinding v i of
            Inl x \<Rightarrow> (d, Inl x)
          | Inr b \<Rightarrow>
             (case loadConfiguration v d of
                Inl x \<Rightarrow> (d, Inl x)
              | Inr previous \<Rightarrow>
                  if cf_owner previous \<noteq> ci_owner i \<or> cf_authority previous \<noteq> ci_authority i
                  then (d, Inl ForeignConfiguration)
                  else if configurationBindingIssue v previous b = None then (d, Inr (previous, False))
                  else (case configure v co d (ci_owner i) b (Some (cf_repository previous)) of
                    (d', Inl x) \<Rightarrow> (d', Inl x)
                  | (d', Inr c) \<Rightarrow> (d', Inr (c, True))))))"

section \<open>The state of the repository\<close>

record repository_status =
  st_repository :: string
  st_ready :: bool
  st_consistency :: string

definition repositoryStatus :: "repository_status option \<Rightarrow> 'p configuration \<Rightarrow> backup_error + repository_status" where
  "repositoryStatus answer c =
     (case answer of
        None \<Rightarrow> Inl StatusUnavailable
      | Some s \<Rightarrow>
          if st_repository s \<noteq> rr_repository (cf_repository c) then Inl StatusForeign
          else if st_ready s \<and> st_consistency s \<noteq> crash_consistent then Inl StatusUntruthful
          else Inr s)"

text \<open>\<open>Status\<close>, less the diagnostic history, whose errors it swallows, and the coverage it reports.\<close>

definition Status ::
  "'p backup_env \<Rightarrow> repository_status option \<Rightarrow> 'p backup_disk \<Rightarrow> configure_input \<Rightarrow> backup_error + repository_status" where
  "Status v answer d i =
     ebind (boundConfiguration v d i) (\<lambda>c. ebind (repositoryStatus answer c) (\<lambda>s.
       if bv_coverage v (cf_policy c) then Inr s else Inl CoverageUnavailable))"

definition repository_ready :: "repository_status \<Rightarrow> bool" where
  "repository_ready s \<longleftrightarrow> st_ready s \<and> st_consistency s = crash_consistent"

end
