(* ===== verification/RestoreOperations.thy ===== *)
theory RestoreOperations
  imports BackupConfiguration
begin

text \<open>
  Staged restores (\<open>Restore\<close> of \<open>service.go\<close>), their abandonment (\<open>restore_abandonment.go\<close>), the
  freshness of their verification (\<open>restore_verification_time.go\<close>), and the admission of snapshots that
  expire sources (\<open>retention_admission.go\<close>), with every call that writes below the backup directories.
\<close>

section \<open>What a restore may start from\<close>

definition restoreDataTopologyCompatible :: "'p backup_env \<Rightarrow> 'p \<Rightarrow> 'p \<Rightarrow> bool" where
  "restoreDataTopologyCompatible v historical current =
     (case bv_topology_digest v historical of
        None \<Rightarrow> False
      | Some h \<Rightarrow> bv_topology_digest v current = Some h)"

definition restoreTargetsCompatible :: "target \<Rightarrow> target \<Rightarrow> bool" where
  "restoreTargetsCompatible historical current \<longleftrightarrow>
     tg_site historical = tg_site current \<and> tg_node historical = tg_node current \<and>
     (tg_daemon historical = [] \<and> tg_engine historical = [] \<and> tg_socket historical = [] \<and> tg_scope historical = [] \<or>
      historical = current)"

definition validateRestoreSource :: "'p backup_env \<Rightarrow> 'p configuration \<Rightarrow> 'p snapshot_anchor \<Rightarrow> backup_error option" where
  "validateRestoreSource v c a =
     check (oi_workloads (sa_input a) \<noteq> [] \<or> oi_owner (sa_input a) \<noteq> cf_owner c \<or>
            rr_repository (sa_repository a) \<noteq> rr_repository (cf_repository c) \<or>
            bv_stack v (oi_policy (sa_input a)) \<noteq> bv_stack v (cf_policy c) \<or>
            \<not> restoreTargetsCompatible (bv_target v (oi_policy (sa_input a))) (bv_target v (cf_policy c)) \<or>
            \<not> restoreDataTopologyCompatible v (oi_policy (sa_input a)) (cf_policy c)) SourceIncompatible"

definition RestoreStagingPath :: "'p backup_env \<Rightarrow> string \<Rightarrow> string" where
  "RestoreStagingPath v operation = ''/restore-staging/'' @ sv_key (bv_snapshot v) operation"

definition day :: int where
  "day = 86400000000000"

definition VerifyRestoreRecoveryAnchor :: "'p backup_env \<Rightarrow> recovery_anchor \<Rightarrow> backup_error option" where
  "VerifyRestoreRecoveryAnchor v r =
     first_err (check (ry_api r \<noteq> ''stackkit.local-backup-restore-recovery-anchor/v1'' \<or> \<not> validDigest (ry_id r) \<or>
            ry_owner r = [] \<or> ry_authority r = [] \<or> \<not> validDigest (ry_policy_digest r) \<or> \<not> validDigest (ry_anchor r) \<or>
            ry_repository r = [] \<or> \<not> validOperationID (ry_snapshot r) \<or> \<not> validDigest (ry_content r) \<or>
            \<not> validOperationID (ry_operation r) \<or> ry_staging r \<noteq> RestoreStagingPath v (ry_operation r) \<or>
            ry_mode r \<noteq> ''verified-staging-only'' \<or> ry_method r \<noteq> ''explicit-cli-owner-custody'' \<or>
            ry_approved r = 0 \<or> ry_expires r = 0 \<or> ry_expires r \<le> ry_approved r \<or>
            ry_expires r - ry_approved r > day) RecoveryIncomplete)
    (first_err (check (\<not> lineage_complete (ry_lineage r) \<or> \<not> lineage_complete (ry_snapshot_lineage r)) BindingIncomplete)
    (first_err (check (ry_id r \<noteq> bv_recovery_digest v (r\<lparr>ry_id := [], ry_signature := []\<rparr>)) RecoveryIdentity)
               (check (\<not> bv_verify_recovery v r) RecoverySignature)))"

definition validateRestoreRecoveryBinding ::
  "'p backup_env \<Rightarrow> recovery_anchor \<Rightarrow> restore_intent \<Rightarrow> 'p configuration \<Rightarrow> 'p snapshot_anchor \<Rightarrow> backup_error option" where
  "validateRestoreRecoveryBinding v r i c a =
     check (ry_owner r \<noteq> ro_owner i \<or> ry_authority r \<noteq> ro_authority i \<or> \<not> lineagesEqual v (ry_lineage r) (ro_lineage i) \<or>
            ry_policy_digest r \<noteq> ro_policy_digest i \<or> ry_anchor r \<noteq> ro_anchor i \<or> ry_operation r \<noteq> ro_operation i \<or>
            ry_owner r \<noteq> cf_owner c \<or> ry_authority r \<noteq> cf_authority c \<or> \<not> lineagesEqual v (ry_lineage r) (cf_lineage c) \<or>
            ry_policy_digest r \<noteq> cf_policy_digest c \<or> ry_anchor r \<noteq> sa_id a \<or>
            \<not> lineagesEqual v (ry_snapshot_lineage r) (oi_lineage (sa_input a)) \<or>
            ry_repository r \<noteq> rr_repository (sa_repository a) \<or> ry_snapshot r \<noteq> sr_snapshot (sa_snapshot a) \<or>
            ry_content r \<noteq> sr_content (sa_snapshot a) \<or> ry_staging r \<noteq> RestoreStagingPath v (ro_operation i)) RecoveryDiffers"

text \<open>The request for a restore under a configuration, and the one a recovery anchor stands for.\<close>

definition repositoryRestoreRequest ::
  "'p backup_env \<Rightarrow> 'p configuration \<Rightarrow> 'p snapshot_anchor \<Rightarrow> string \<Rightarrow> restore_request option" where
  "repositoryRestoreRequest v c a operation =
     Option.bind (bv_restore_digest v (oi_policy (sa_input a))) (\<lambda>source.
       map_option (\<lambda>q.
         \<lparr>rq_owner = cf_owner c, rq_authority = cf_authority c, rq_lineage = cf_lineage c,
          rq_policy_digest = cf_policy_digest c, rq_repository = rr_repository (cf_repository c), rq_anchor = sa_id a,
          rq_source_digest = source, rq_snapshot_request = q, rq_snapshot_receipt = sa_snapshot a,
          rq_operation = operation, rq_staging = RestoreStagingPath v operation\<rparr>)
         (snapshotRequest (bv_snapshot v) (sa_input a) (rr_repository (sa_repository a))))"

definition repositoryRestoreRequestFromRecovery ::
  "'p backup_env \<Rightarrow> recovery_anchor \<Rightarrow> 'p snapshot_anchor \<Rightarrow> restore_request option" where
  "repositoryRestoreRequestFromRecovery v r a =
     Option.bind (bv_restore_digest v (oi_policy (sa_input a))) (\<lambda>source.
       map_option (\<lambda>q.
         \<lparr>rq_owner = ry_owner r, rq_authority = ry_authority r, rq_lineage = ry_lineage r,
          rq_policy_digest = ry_policy_digest r, rq_repository = ry_repository r, rq_anchor = ry_anchor r,
          rq_source_digest = source, rq_snapshot_request = q, rq_snapshot_receipt = sa_snapshot a,
          rq_operation = ry_operation r, rq_staging = ry_staging r\<rparr>)
         (snapshotRequest (bv_snapshot v) (sa_input a) (rr_repository (sa_repository a))))"

definition validateRestoreReceipt :: "'p backup_env \<Rightarrow> restore_receipt \<Rightarrow> restore_request \<Rightarrow> backup_error option" where
  "validateRestoreReceipt v t q =
     check (rt_api t \<noteq> ''stackkit.local-backup-repository-restore/v1'' \<or> rt_repository t \<noteq> rq_repository q \<or>
            rt_snapshot t \<noteq> sr_snapshot (rq_snapshot_receipt q) \<or> rt_operation t \<noteq> rq_operation q \<or>
            rt_request t \<noteq> bv_request_digest v q \<or> rt_staging t \<noteq> rq_staging q \<or>
            rt_content t \<noteq> sr_content (rq_snapshot_receipt q) \<or> \<not> rt_verified t \<or> rt_completed t = 0) RestoreReceiptInvalid"

definition restore_verification_api :: string where
  "restore_verification_api = ''stackkit.local-backup-restore-verification/v1''"

definition validateRestoreVerification ::
  "restore_verification \<Rightarrow> 'p configuration \<Rightarrow> restore_receipt \<Rightarrow> restore_error option" where
  "validateRestoreVerification f c t =
     check (vf_api f \<noteq> restore_verification_api \<or> vf_owner f \<noteq> cf_owner c \<or>
            vf_owner_binding f \<noteq> al_owner_binding_digest (cf_lineage c) \<or>
            vf_subject f \<noteq> al_pocket_id_subject (cf_lineage c) \<or>
            vf_plan f \<noteq> pb_plan_hash (al_binding (cf_lineage c)) \<or> \<not> vf_services f \<or> vf_at f = 0 \<or>
            vf_at f < rt_completed t) VerificationDiffers"

definition restoreApprovalCurrent :: "recovery_anchor \<Rightarrow> int \<Rightarrow> bool" where
  "restoreApprovalCurrent r t \<longleftrightarrow> ry_approved r \<le> t \<and> t < ry_expires r"

definition validateFreshRestoreVerification ::
  "restore_verification \<Rightarrow> recovery_anchor \<Rightarrow> int \<Rightarrow> int \<Rightarrow> restore_error option" where
  "validateFreshRestoreVerification f r started finished =
     check (\<not> restoreApprovalCurrent r started \<or> \<not> restoreApprovalCurrent r finished \<or> finished < started \<or>
            vf_at f < started \<or> finished < vf_at f) VerificationStale"

definition VerifyRestoreResult :: "'p backup_env \<Rightarrow> restore_result \<Rightarrow> backup_error option" where
  "VerifyRestoreResult v z =
     (let r = rz_recovery z; q = rz_request z; f = rz_verification z in
      first_err (check (rz_api z \<noteq> ''stackkit.local-backup-restore-result/v1'' \<or> \<not> validDigest (rz_id z) \<or>
             rz_owner z = [] \<or> rz_authority z = [] \<or> \<not> validDigest (rz_anchor z) \<or>
             \<not> validOperationID (rz_operation z)) ResultIncomplete)
     (first_err (VerifyRestoreRecoveryAnchor v r)
     (first_err (check (rz_owner z \<noteq> ry_owner r \<or> rz_authority z \<noteq> ry_authority r \<or>
             \<not> lineagesEqual v (rz_lineage z) (ry_lineage r) \<or> rz_anchor z \<noteq> ry_anchor r \<or>
             \<not> lineagesEqual v (rz_snapshot_lineage z) (ry_snapshot_lineage r) \<or>
             rz_operation z \<noteq> ry_operation r) ResultRecoveryDiffers)
     (first_err (check (rq_owner q \<noteq> rz_owner z \<or> rq_authority q \<noteq> rz_authority z \<or>
             \<not> lineagesEqual v (rq_lineage q) (rz_lineage z) \<or> rq_policy_digest q \<noteq> ry_policy_digest r \<or>
             \<not> validDigest (rq_source_digest q) \<or> rq_repository q \<noteq> ry_repository r \<or> rq_anchor q \<noteq> rz_anchor z \<or>
             sr_snapshot (rq_snapshot_receipt q) \<noteq> ry_snapshot r \<or> sr_content (rq_snapshot_receipt q) \<noteq> ry_content r \<or>
             rq_operation q \<noteq> rz_operation z \<or> rq_staging q \<noteq> ry_staging r) ResultRequestDiffers)
     (first_err (check (\<not> validateSnapshotReceipt (bv_snapshot v) (rq_snapshot_receipt q) (rq_snapshot_request q)) ResultRequestDiffers)
     (first_err (validateRestoreReceipt v (rz_receipt z) q)
     (first_err (check (vf_api f \<noteq> restore_verification_api \<or> vf_owner f \<noteq> rz_owner z \<or>
             vf_owner_binding f \<noteq> al_owner_binding_digest (rz_lineage z) \<or>
             vf_subject f \<noteq> al_pocket_id_subject (rz_lineage z) \<or>
             vf_plan f \<noteq> pb_plan_hash (al_binding (rz_lineage z)) \<or> \<not> vf_services f \<or>
             \<not> restoreApprovalCurrent r (rt_completed (rz_receipt z)) \<or> \<not> restoreApprovalCurrent r (vf_at f) \<or>
             vf_at f < rt_completed (rz_receipt z)) ResultVerificationInvalid)
     (first_err (check (rz_id z \<noteq> bv_result_digest v (z\<lparr>rz_id := [], rz_signature := []\<rparr>)) ResultIdentity)
                (check (\<not> bv_verify_result v z) ResultSignature)))))))))"

definition restore_operation_api :: string where
  "restore_operation_api = ''stackkit.local-backup-restore-operation/v1''"

definition loadRestoreOperation :: "'p backup_disk \<Rightarrow> string \<Rightarrow> backup_error + restore_operation" where
  "loadRestoreOperation d key =
     (case map_of (bd_restores d) key of
        None \<Rightarrow> Inl RestoreMissing
      | Some None \<Rightarrow> Inl RestoreUnreadable
      | Some (Some op) \<Rightarrow> if rj_api op \<noteq> restore_operation_api then Inl RestoreApiUnsupported else Inr op)"

definition LoadRestoreResult :: "'p backup_env \<Rightarrow> 'p backup_disk \<Rightarrow> string \<Rightarrow> backup_error + restore_result" where
  "LoadRestoreResult v d rid =
     (if \<not> validDigest rid then Inl ResultIdentity
      else case map_of (bd_results d) (drop 7 rid) of
        None \<Rightarrow> Inl ResultMissing
      | Some None \<Rightarrow> Inl ResultUnreadable
      | Some (Some z) \<Rightarrow>
          if rz_id z \<noteq> rid then Inl ResultIdentity
          else (case VerifyRestoreResult v z of Some x \<Rightarrow> Inl x | None \<Rightarrow> Inr z))"

definition load_snapshot_anchor :: "'p backup_env \<Rightarrow> 'p backup_disk \<Rightarrow> string \<Rightarrow> backup_error + 'p snapshot_anchor" where
  "load_snapshot_anchor v d aid =
     (case loadStoredSnapshotAnchor (bv_snapshot v) (bd_snapshots d) aid of
        Inl x \<Rightarrow> Inl SnapshotAnchorInvalid
      | Inr a \<Rightarrow> Inr a)"

section \<open>Abandonment records\<close>

definition VerifyRestoreAbandonment :: "'p backup_env \<Rightarrow> restore_abandonment \<Rightarrow> restore_error option" where
  "VerifyRestoreAbandonment v b =
     first_err (check (ab_api b \<noteq> ''stackkit.local-backup-restore-abandonment/v1'' \<or> \<not> validDigest (ab_id b) \<or>
            ab_owner b = [] \<or> ab_authority b = [] \<or> \<not> validDigest (ab_policy_digest b) \<or> \<not> validDigest (ab_anchor b) \<or>
            \<not> validDigest (ab_recovery b) \<or> \<not> validOperationID (ab_operation b) \<or>
            ab_method b \<noteq> ''explicit-cli-owner-custody'' \<or> ab_at b = 0) AbandonmentIncomplete)
    (first_err (check (\<not> lineage_complete (ab_lineage b)) (Backup BindingIncomplete))
    (first_err (check (ab_id b \<noteq> bv_abandonment_digest v (b\<lparr>ab_id := [], ab_signature := []\<rparr>)) AbandonmentIdentity)
               (check (\<not> bv_verify_abandonment v b) AbandonmentSignature)))"

definition validateRestoreAbandonmentBinding ::
  "restore_operation \<Rightarrow> 'p snapshot_anchor \<Rightarrow> restore_abandonment \<Rightarrow> restore_error option" where
  "validateRestoreAbandonmentBinding op a b =
     (let r = rj_recovery op in
      first_err (check (ab_owner b \<noteq> ry_owner r \<or> ab_anchor b \<noteq> ry_anchor r \<or> ab_anchor b \<noteq> sa_id a \<or>
             ab_recovery b \<noteq> ry_id r \<or> ab_operation b \<noteq> ry_operation r \<or>
             ab_operation b \<noteq> ro_operation (rj_intent op)) AbandonmentDiffers)
                (check (ab_at b < ry_approved r) AbandonmentEarly))"

definition validateRestoreAbandonmentCurrentBinding ::
  "'p backup_env \<Rightarrow> restore_abandonment \<Rightarrow> 'p normalized_binding \<Rightarrow> restore_error option" where
  "validateRestoreAbandonmentCurrentBinding v b n =
     check (ab_owner b \<noteq> nb_owner n \<or> ab_authority b \<noteq> nb_authority n \<or> \<not> lineagesEqual v (ab_lineage b) (nb_lineage n) \<or>
            ab_policy_digest b \<noteq> nb_policy_digest n) AbandonmentDiffers"

text \<open>A receipt that is present must answer the request.\<close>

definition check_receipt :: "'p backup_env \<Rightarrow> restore_request option \<Rightarrow> restore_receipt option \<Rightarrow> restore_error option" where
  "check_receipt v q t =
     (case t of
        None \<Rightarrow> None
      | Some receipt \<Rightarrow>
         (case q of
            None \<Rightarrow> Some RequestInvalid
          | Some request \<Rightarrow> map_option Backup (validateRestoreReceipt v receipt request)))"

section \<open>Restoring\<close>

datatype resumed_restore = Fresh recovery_anchor | Staged recovery_anchor restore_receipt | Finished restore_result

definition state_invalid :: "restore_error" where
  "state_invalid = Backup RestoreStateInvalid"

text \<open>The evidence an abandoned operation carries.\<close>

definition check_abandoned ::
  "'p backup_env \<Rightarrow> restore_operation \<Rightarrow> 'p snapshot_anchor \<Rightarrow> restore_request option \<Rightarrow> restore_error option" where
  "check_abandoned v op a q =
     (case rj_abandonment op of
        None \<Rightarrow> Some state_invalid
      | Some b \<Rightarrow>
          first_err (check (rj_result op \<noteq> None) state_invalid)
         (first_err (VerifyRestoreAbandonment v b)
         (first_err (validateRestoreAbandonmentBinding op a b) (check_receipt v q (rj_receipt op)))))"

definition pending_shape :: "restore_operation \<Rightarrow> bool" where
  "pending_shape op \<longleftrightarrow> rj_receipt op = None \<and> rj_result op = None \<and> rj_abandonment op = None"

definition staged_shape :: "restore_operation \<Rightarrow> bool" where
  "staged_shape op \<longleftrightarrow> rj_receipt op \<noteq> None \<and> rj_result op = None \<and> rj_abandonment op = None"

definition resume_restore ::
  "'p backup_env \<Rightarrow> 'p backup_disk \<Rightarrow> restore_operation \<Rightarrow> restore_intent \<Rightarrow> 'p configuration \<Rightarrow> 'p snapshot_anchor \<Rightarrow>
   restore_error + resumed_restore" where
  "resume_restore v d op i c a =
     (let request = repositoryRestoreRequest v c a (ro_operation i) in
      case (if rj_intent op \<noteq> i then Some RestoreInputDiffers
            else first_err (VerifyRestoreRecoveryAnchor v (rj_recovery op))
                           (validateRestoreRecoveryBinding v (rj_recovery op) i c a)) of
        Some x \<Rightarrow> Inl (Backup x)
      | None \<Rightarrow>
          if rj_state op = ''pending''
          then if pending_shape op then Inr (Fresh (rj_recovery op)) else Inl state_invalid
          else if rj_state op = ''staged''
          then (case rj_receipt op of
                  None \<Rightarrow> Inl state_invalid
                | Some t \<Rightarrow>
                    if \<not> staged_shape op then Inl state_invalid
                    else (case check_receipt v request (Some t) of
                            Some x \<Rightarrow> Inl x
                          | None \<Rightarrow> Inr (Staged (rj_recovery op) t)))
          else if rj_state op = ''completed''
          then (case rj_result op of
                  None \<Rightarrow> Inl state_invalid
                | Some z \<Rightarrow>
                   (case VerifyRestoreResult v z of
                      Some x \<Rightarrow> Inl (Backup x)
                    | None \<Rightarrow>
                       (case LoadRestoreResult v d (rz_id z) of
                          Inl x \<Rightarrow> Inl (Backup x)
                        | Inr stored \<Rightarrow> if stored \<noteq> z then Inl (Backup ResultDiffers) else Inr (Finished stored))))
          else if rj_state op = ''abandoned''
          then (case check_abandoned v op a request of Some x \<Rightarrow> Inl x | None \<Rightarrow> Inl AlreadyAbandoned)
          else Inl state_invalid)"

definition make_recovery ::
  "'p backup_env \<Rightarrow> int \<Rightarrow> restore_intent \<Rightarrow> 'p configuration \<Rightarrow> 'p snapshot_anchor \<Rightarrow> restore_error + recovery_anchor" where
  "make_recovery v now i c a =
     (let r0 = \<lparr>ry_api = ''stackkit.local-backup-restore-recovery-anchor/v1'', ry_id = [], ry_owner = cf_owner c,
            ry_authority = cf_authority c, ry_lineage = cf_lineage c, ry_policy_digest = cf_policy_digest c,
            ry_anchor = sa_id a, ry_snapshot_lineage = oi_lineage (sa_input a),
            ry_repository = rr_repository (sa_repository a), ry_snapshot = sr_snapshot (sa_snapshot a),
            ry_content = sr_content (sa_snapshot a), ry_operation = ro_operation i,
            ry_staging = RestoreStagingPath v (ro_operation i), ry_mode = ''verified-staging-only'',
            ry_method = ''explicit-cli-owner-custody'', ry_approved = now, ry_expires = now + day, ry_signature = []\<rparr>;
          r1 = r0\<lparr>ry_id := bv_recovery_digest v r0\<rparr> in
      case bv_sign_recovery v r1 of
        None \<Rightarrow> Inl SignatureFailed
      | Some s \<Rightarrow> (let r = r1\<lparr>ry_signature := s\<rparr> in
          case first_err (VerifyRestoreRecoveryAnchor v r) (validateRestoreRecoveryBinding v r i c a) of
            Some x \<Rightarrow> Inl (Backup x)
          | None \<Rightarrow> Inr r))"

text \<open>
  What surrounds one restore: the runtime's status of the repository, the clock at each reading, the runtime's
  receipt, the verifier's answer, a cancellation after it, and the outcome of each write.
\<close>

record restore_world =
  rw_status :: "repository_status option"
  rw_approve :: int
  rw_stage :: int
  rw_staged :: int
  rw_start :: int
  rw_finish :: int
  rw_receipt :: "restore_receipt option"
  rw_verification :: "restore_verification option"
  rw_cancelled :: bool
  rw_write_recovery :: file_write
  rw_write_pending :: file_write
  rw_write_staged :: file_write
  rw_write_result :: file_write
  rw_write_completed :: file_write

definition put_restore :: "file_write \<Rightarrow> string \<Rightarrow> restore_operation \<Rightarrow> 'p backup_disk \<Rightarrow> 'p backup_disk" where
  "put_restore out key op d = d\<lparr>bd_restores := put_file out key op (bd_restores d),
     bd_stray_restores := (bd_stray_restores d \<or> out = FileAbandoned)\<rparr>"

definition pending_restore :: "restore_intent \<Rightarrow> recovery_anchor \<Rightarrow> restore_operation" where
  "pending_restore i r =
     \<lparr>rj_api = restore_operation_api, rj_state = ''pending'', rj_intent = i, rj_recovery = r, rj_receipt = None,
      rj_result = None, rj_abandonment = None\<rparr>"

definition staged_restore :: "restore_intent \<Rightarrow> recovery_anchor \<Rightarrow> restore_receipt \<Rightarrow> restore_operation" where
  "staged_restore i r t = (pending_restore i r)\<lparr>rj_state := ''staged'', rj_receipt := Some t\<rparr>"

definition intent_of :: "recovery_anchor \<Rightarrow> restore_intent" where
  "intent_of r =
     \<lparr>ro_owner = ry_owner r, ro_authority = ry_authority r, ro_lineage = ry_lineage r,
      ro_policy_digest = ry_policy_digest r, ro_anchor = ry_anchor r, ro_operation = ry_operation r\<rparr>"

definition completed_restore :: "recovery_anchor \<Rightarrow> restore_receipt \<Rightarrow> restore_result \<Rightarrow> restore_operation" where
  "completed_restore r t z =
     (pending_restore (intent_of r) r)\<lparr>rj_state := ''completed'', rj_receipt := Some t, rj_result := Some z\<rparr>"

definition prepareRestoreOperation ::
  "'p backup_env \<Rightarrow> restore_world \<Rightarrow> 'p backup_disk \<Rightarrow> string \<Rightarrow> restore_intent \<Rightarrow> 'p configuration \<Rightarrow> 'p snapshot_anchor \<Rightarrow>
   'p backup_disk \<times> (restore_error + resumed_restore)" where
  "prepareRestoreOperation v w d key i c a =
     (case loadRestoreOperation d key of
        Inr op \<Rightarrow> (d, resume_restore v d op i c a)
      | Inl RestoreMissing \<Rightarrow>
         (case make_recovery v (rw_approve w) i c a of
            Inl x \<Rightarrow> (d, Inl x)
          | Inr r \<Rightarrow>
             (let d1 = d\<lparr>bd_recoveries := put_file (rw_write_recovery w) key r (bd_recoveries d)\<rparr> in
              case write_failed (rw_write_recovery w) of
                Some x \<Rightarrow> (d1, Inl (Backup x))
              | None \<Rightarrow>
                 (let d2 = put_restore (rw_write_pending w) key (pending_restore i r) d1 in
                  (d2, case write_failed (rw_write_pending w) of Some x \<Rightarrow> Inl (Backup x) | None \<Rightarrow> Inr (Fresh r)))))
      | Inl x \<Rightarrow> (d, Inl (Backup x)))"

definition make_result ::
  "'p backup_env \<Rightarrow> recovery_anchor \<Rightarrow> 'p snapshot_anchor \<Rightarrow> restore_request \<Rightarrow> restore_receipt \<Rightarrow> restore_verification \<Rightarrow>
   restore_error + restore_result" where
  "make_result v r a q t f =
     (let z0 = \<lparr>rz_api = ''stackkit.local-backup-restore-result/v1'', rz_id = [], rz_owner = ry_owner r,
            rz_authority = ry_authority r, rz_lineage = ry_lineage r, rz_anchor = sa_id a,
            rz_snapshot_lineage = oi_lineage (sa_input a), rz_operation = ry_operation r, rz_recovery = r,
            rz_request = q, rz_receipt = t, rz_verification = f, rz_signature = []\<rparr>;
          z1 = z0\<lparr>rz_id := bv_result_digest v z0\<rparr> in
      case bv_sign_result v z1 of
        None \<Rightarrow> Inl SignatureFailed
      | Some s \<Rightarrow> (let z = z1\<lparr>rz_signature := s\<rparr> in
          case VerifyRestoreResult v z of Some x \<Rightarrow> Inl (Backup x) | None \<Rightarrow> Inr z))"

text \<open>The content-addressed result file, written once.\<close>

definition store_result ::
  "'p backup_env \<Rightarrow> file_write \<Rightarrow> 'p backup_disk \<Rightarrow> restore_result \<Rightarrow> 'p backup_disk \<times> restore_error option" where
  "store_result v out d z =
     (case LoadRestoreResult v d (rz_id z) of
        Inr stored \<Rightarrow> (d, check (stored \<noteq> z) (Backup ResultDiffers))
      | Inl ResultMissing \<Rightarrow>
          (d\<lparr>bd_results := put_file out (drop 7 (rz_id z)) z (bd_results d),
             bd_stray_results := (bd_stray_results d \<or> out = FileAbandoned)\<rparr>, map_option Backup (write_failed out))
      | Inl x \<Rightarrow> (d, Some (Backup x)))"

definition completeRestore ::
  "'p backup_env \<Rightarrow> restore_world \<Rightarrow> 'p backup_disk \<Rightarrow> string \<Rightarrow> recovery_anchor \<Rightarrow> 'p snapshot_anchor \<Rightarrow> restore_receipt \<Rightarrow>
   restore_verification \<Rightarrow> 'p backup_disk \<times> (restore_error + restore_result)" where
  "completeRestore v w d key r a t f =
     (case repositoryRestoreRequestFromRecovery v r a of
        None \<Rightarrow> (d, Inl RequestInvalid)
      | Some q \<Rightarrow>
         (case make_result v r a q t f of
            Inl x \<Rightarrow> (d, Inl x)
          | Inr z \<Rightarrow>
             (case store_result v (rw_write_result w) d z of
                (d1, Some x) \<Rightarrow> (d1, Inl x)
              | (d1, None) \<Rightarrow>
                  (put_restore (rw_write_completed w) key (completed_restore r t z) d1,
                   case write_failed (rw_write_completed w) of Some x \<Rightarrow> Inl (Backup x) | None \<Rightarrow> Inr z))))"

text \<open>The verifier runs between two readings of the clock; then the restore completes.\<close>

definition verify_and_complete ::
  "'p backup_env \<Rightarrow> restore_world \<Rightarrow> 'p backup_disk \<Rightarrow> string \<Rightarrow> 'p configuration \<Rightarrow> recovery_anchor \<Rightarrow> 'p snapshot_anchor \<Rightarrow>
   restore_receipt \<Rightarrow> 'p backup_disk \<times> (restore_error + restore_result)" where
  "verify_and_complete v w d key c r a t =
     (if \<not> restoreApprovalCurrent r (rw_start w) then (d, Inl ApprovalExpired)
      else case rw_verification w of
        None \<Rightarrow> (d, Inl VerifierFailed)
      | Some f \<Rightarrow>
         (case first_err (validateRestoreVerification f c t)
              (first_err (check (rw_cancelled w) Cancelled)
                         (validateFreshRestoreVerification f r (rw_start w) (rw_finish w))) of
            Some x \<Rightarrow> (d, Inl x)
          | None \<Rightarrow> completeRestore v w d key r a t f))"

text \<open>Staging: only a current approval asks the runtime, and its receipt is journaled before anything follows.\<close>

definition stage_restore ::
  "'p backup_env \<Rightarrow> restore_world \<Rightarrow> 'p backup_disk \<Rightarrow> string \<Rightarrow> restore_intent \<Rightarrow> recovery_anchor \<Rightarrow> restore_request \<Rightarrow>
   'p backup_disk \<times> (restore_error + restore_receipt)" where
  "stage_restore v w d key i r q =
     (if \<not> restoreApprovalCurrent r (rw_stage w) then (d, Inl ApprovalExpired)
      else case rw_receipt w of
        None \<Rightarrow> (d, Inl StagingFailed)
      | Some t \<Rightarrow>
         (case validateRestoreReceipt v t q of
            Some x \<Rightarrow> (d, Inl (Backup x))
          | None \<Rightarrow>
              if \<not> restoreApprovalCurrent r (rt_completed t) \<or> rw_staged w < rt_completed t
              then (d, Inl ReceiptOutsideApproval)
              else (put_restore (rw_write_staged w) key (staged_restore i r t) d,
                    case write_failed (rw_write_staged w) of Some x \<Rightarrow> Inl (Backup x) | None \<Rightarrow> Inr t)))"

record restore_input =
  rn_binding :: configure_input
  rn_anchor :: string
  rn_operation :: string
  rn_approved :: bool
  rn_verifier :: bool

definition admit_restore ::
  "'p backup_env \<Rightarrow> restore_world \<Rightarrow> 'p backup_disk \<Rightarrow> restore_input \<Rightarrow> backup_error + 'p configuration \<times> 'p snapshot_anchor" where
  "admit_restore v w d n =
     (case first_err (map_option BackupGate (RequireSettledRuntimeControls (bv_snapshot v) (bd_snapshots d) []))
          (first_err (check (\<not> rn_approved n) RestoreNotApproved)
          (first_err (check (\<not> validOperationID (rn_operation n)) RestoreIdInvalid)
          (first_err (check (\<not> validDigest (rn_anchor n)) SnapshotAnchorInvalid)
                     (check (\<not> rn_verifier n) VerifierMissing)))) of
        Some x \<Rightarrow> Inl x
      | None \<Rightarrow>
          ebind (boundConfiguration v d (rn_binding n)) (\<lambda>c.
          ebind (load_snapshot_anchor v d (rn_anchor n)) (\<lambda>a.
            case validateRestoreSource v c a of
              Some x \<Rightarrow> Inl x
            | None \<Rightarrow> ebind (Status v (rw_status w) d (rn_binding n)) (\<lambda>s.
                if repository_ready s then Inr (c, a) else Inl BackupNotReady))))"

definition restore_intent_of :: "'p configuration \<Rightarrow> 'p snapshot_anchor \<Rightarrow> string \<Rightarrow> restore_intent" where
  "restore_intent_of c a operation =
     \<lparr>ro_owner = cf_owner c, ro_authority = cf_authority c, ro_lineage = cf_lineage c,
      ro_policy_digest = cf_policy_digest c, ro_anchor = sa_id a, ro_operation = operation\<rparr>"

definition Restore ::
  "'p backup_env \<Rightarrow> restore_world \<Rightarrow> 'p backup_disk \<Rightarrow> restore_input \<Rightarrow> 'p backup_disk \<times> (restore_error + restore_result)" where
  "Restore v w d n =
     (case admit_restore v w d n of
        Inl x \<Rightarrow> (d, Inl (Backup x))
      | Inr (c, a) \<Rightarrow>
         (let i = restore_intent_of c a (rn_operation n); key = sv_key (bv_snapshot v) (rn_operation n) in
          case prepareRestoreOperation v w d key i c a of
            (d1, Inl x) \<Rightarrow> (d1, Inl x)
          | (d1, Inr (Finished z)) \<Rightarrow> (d1, Inr z)
          | (d1, Inr resumed) \<Rightarrow>
             (case repositoryRestoreRequest v c a (rn_operation n) of
                None \<Rightarrow> (d1, Inl RequestInvalid)
              | Some q \<Rightarrow>
                 (case resumed of
                    Staged r t \<Rightarrow> verify_and_complete v w d1 key c r a t
                  | Fresh r \<Rightarrow>
                     (case stage_restore v w d1 key i r q of
                        (d2, Inl x) \<Rightarrow> (d2, Inl x)
                      | (d2, Inr t) \<Rightarrow> verify_and_complete v w d2 key c r a t)))))"

section \<open>Abandoning a restore\<close>

definition make_abandonment ::
  "'p backup_env \<Rightarrow> int \<Rightarrow> 'p normalized_binding \<Rightarrow> recovery_anchor \<Rightarrow> restore_error + restore_abandonment" where
  "make_abandonment v now n r =
     (let b0 = \<lparr>ab_api = ''stackkit.local-backup-restore-abandonment/v1'', ab_id = [], ab_owner = nb_owner n,
            ab_authority = nb_authority n, ab_lineage = nb_lineage n, ab_policy_digest = nb_policy_digest n,
            ab_anchor = ry_anchor r, ab_recovery = ry_id r, ab_operation = ry_operation r,
            ab_method = ''explicit-cli-owner-custody'', ab_at = now, ab_signature = []\<rparr>;
          b1 = b0\<lparr>ab_id := bv_abandonment_digest v b0\<rparr> in
      case bv_sign_abandonment v b1 of
        None \<Rightarrow> Inl SignatureFailed
      | Some s \<Rightarrow> (let b = b1\<lparr>ab_signature := s\<rparr> in
          case first_err (VerifyRestoreAbandonment v b) (validateRestoreAbandonmentCurrentBinding v b n) of
            Some x \<Rightarrow> Inl x
          | None \<Rightarrow> Inr b))"

definition validateRestoreRetentionRecoveryBinding ::
  "'p backup_env \<Rightarrow> restore_intent \<Rightarrow> recovery_anchor \<Rightarrow> 'p snapshot_anchor \<Rightarrow> backup_error option" where
  "validateRestoreRetentionRecoveryBinding v i r a =
     check (ry_owner r \<noteq> ro_owner i \<or> ry_authority r \<noteq> ro_authority i \<or> \<not> lineagesEqual v (ry_lineage r) (ro_lineage i) \<or>
            ry_policy_digest r \<noteq> ro_policy_digest i \<or> ry_anchor r \<noteq> ro_anchor i \<or> ry_operation r \<noteq> ro_operation i \<or>
            ry_anchor r \<noteq> sa_id a \<or> \<not> lineagesEqual v (ry_snapshot_lineage r) (oi_lineage (sa_input a)) \<or>
            ry_repository r \<noteq> rr_repository (sa_repository a) \<or> ry_snapshot r \<noteq> sr_snapshot (sa_snapshot a) \<or>
            ry_content r \<noteq> sr_content (sa_snapshot a) \<or> ry_staging r \<noteq> RestoreStagingPath v (ro_operation i)) RecoveryDiffers"

definition abandoned_restore :: "restore_operation \<Rightarrow> restore_abandonment \<Rightarrow> restore_operation" where
  "abandoned_restore op b = op\<lparr>rj_state := ''abandoned'', rj_result := None, rj_abandonment := Some b\<rparr>"

record abandon_input =
  ai_binding :: configure_input
  ai_operation :: string
  ai_approved :: bool

text \<open>The operation an abandonment closes, authenticated against the current Owner.\<close>

definition load_abandonable ::
  "'p backup_env \<Rightarrow> 'p backup_disk \<Rightarrow> abandon_input \<Rightarrow> restore_error + 'p normalized_binding \<times> restore_operation \<times> 'p snapshot_anchor" where
  "load_abandonable v d n =
     (case first_err (check (\<not> ai_approved n) RestoreNotApproved)
          (first_err (check (\<not> validOperationID (ai_operation n)) RestoreIdInvalid)
                     (validateBinding v (ci_owner (ai_binding n)) (ci_authority (ai_binding n)))) of
        Some x \<Rightarrow> Inl (Backup x)
      | None \<Rightarrow>
         (case normalizeBinding v (ai_binding n) of
            Inl x \<Rightarrow> Inl (Backup x)
          | Inr b \<Rightarrow>
             (case loadRestoreOperation d (sv_key (bv_snapshot v) (ai_operation n)) of
                Inl x \<Rightarrow> Inl (Backup x)
              | Inr op \<Rightarrow>
                  if ro_operation (rj_intent op) \<noteq> ai_operation n \<or> ry_operation (rj_recovery op) \<noteq> ai_operation n
                  then Inl (Backup RestoreInputDiffers)
                  else (case VerifyRestoreRecoveryAnchor v (rj_recovery op) of
                    Some x \<Rightarrow> Inl (Backup x)
                  | None \<Rightarrow>
                     (case load_snapshot_anchor v d (ry_anchor (rj_recovery op)) of
                        Inl x \<Rightarrow> Inl (Backup x)
                      | Inr a \<Rightarrow>
                         (case first_err (check (ry_owner (rj_recovery op) \<noteq> nb_owner b \<or> oi_owner (sa_input a) \<noteq> nb_owner b) OwnerDiffers)
                                 (validateRestoreRetentionRecoveryBinding v (rj_intent op) (rj_recovery op) a) of
                            Some x \<Rightarrow> Inl (Backup x)
                          | None \<Rightarrow> Inr (b, op, a)))))))"

definition close_restore ::
  "'p backup_env \<Rightarrow> file_write \<Rightarrow> int \<Rightarrow> bool \<Rightarrow> 'p backup_disk \<Rightarrow> string \<Rightarrow> 'p normalized_binding \<Rightarrow> restore_operation \<Rightarrow>
   'p backup_disk \<times> (restore_error + restore_abandonment)" where
  "close_restore v out now cancelled d key b op =
     (if now < ry_approved (rj_recovery op) then (d, Inl ClockBeforeApproval)
      else case make_abandonment v now b (rj_recovery op) of
        Inl x \<Rightarrow> (d, Inl x)
      | Inr record \<Rightarrow>
          if cancelled then (d, Inl Cancelled)
          else (put_restore out key (abandoned_restore op record) d,
                case write_failed out of Some x \<Rightarrow> Inl (Backup x) | None \<Rightarrow> Inr record))"

definition AbandonRestore ::
  "'p backup_env \<Rightarrow> file_write \<Rightarrow> int \<Rightarrow> bool \<Rightarrow> 'p backup_disk \<Rightarrow> abandon_input \<Rightarrow>
   'p backup_disk \<times> (restore_error + restore_abandonment)" where
  "AbandonRestore v out now cancelled d n =
     (case load_abandonable v d n of
        Inl x \<Rightarrow> (d, Inl x)
      | Inr (b, op, a) \<Rightarrow>
         (let key = sv_key (bv_snapshot v) (ai_operation n);
              request = repositoryRestoreRequestFromRecovery v (rj_recovery op) a in
          if rj_state op = ''pending''
          then if pending_shape op then close_restore v out now cancelled d key b op else (d, Inl state_invalid)
          else if rj_state op = ''staged''
          then if \<not> staged_shape op then (d, Inl state_invalid)
               else (case check_receipt v request (rj_receipt op) of
                       Some x \<Rightarrow> (d, Inl x)
                     | None \<Rightarrow> close_restore v out now cancelled d key b op)
          else if rj_state op = ''abandoned''
          then (case rj_abandonment op of
                  None \<Rightarrow> (d, Inl state_invalid)
                | Some record \<Rightarrow>
                   (case first_err (check (rj_result op \<noteq> None) state_invalid)
                        (first_err (VerifyRestoreAbandonment v record)
                        (first_err (validateRestoreAbandonmentBinding op a record)
                        (first_err (validateRestoreAbandonmentCurrentBinding v record b)
                                   (check_receipt v request (rj_receipt op))))) of
                      Some x \<Rightarrow> (d, Inl x)
                    | None \<Rightarrow> (d, Inr record)))
          else if rj_state op = ''completed'' then (d, Inl CompletedNotAbandonable)
          else (d, Inl state_invalid)))"

section \<open>Retention admission\<close>

text \<open>
  The evidence files of a directory, by the content address of their names; an entry that is no such
  file is an error.
\<close>

definition historyIDs :: "(string \<times> 'a) list \<Rightarrow> restore_error + string list" where
  "historyIDs files =
     (let names = map (\<lambda>f. ''sha256:'' @ fst f) files in
      if list_all validDigest names then Inr names else Inl HistoryEntryForeign)"

definition evidence_files :: "bool \<Rightarrow> (string \<times> 'a) list \<Rightarrow> restore_error + string list" where
  "evidence_files stray files = (if stray then Inl HistoryEntryForeign else historyIDs files)"

record restore_lease =
  le_operation :: string
  le_anchor :: string
  le_approved :: int

definition restoreOperationUsesRetentionScope :: "restore_operation \<Rightarrow> 'p configuration \<Rightarrow> bool" where
  "restoreOperationUsesRetentionScope op c \<longleftrightarrow>
     ry_owner (rj_recovery op) = cf_owner c \<and> ry_repository (rj_recovery op) = rr_repository (cf_repository c)"

definition restoreRetentionJournalError :: "string \<Rightarrow> restore_error \<Rightarrow> restore_error" where
  "restoreRetentionJournalError operation x =
     RetentionJournalInvalid (if blank operation then ''<unknown>'' else operation) x"

definition validateRestoreRetentionResult ::
  "'p backup_env \<Rightarrow> 'p backup_disk \<Rightarrow> restore_result \<Rightarrow> restore_intent \<Rightarrow> 'p snapshot_anchor \<Rightarrow> backup_error option" where
  "validateRestoreRetentionResult v d z i a =
     first_err (VerifyRestoreResult v z)
    (first_err (check (rz_owner z \<noteq> ro_owner i \<or> rz_authority z \<noteq> ro_authority i \<or>
                  \<not> lineagesEqual v (rz_lineage z) (ro_lineage i) \<or> rz_anchor z \<noteq> ro_anchor i \<or>
                  rz_operation z \<noteq> ro_operation i) RestoreInputDiffers)
    (first_err (validateRestoreRetentionRecoveryBinding v i (rz_recovery z) a)
               (case LoadRestoreResult v d (rz_id z) of
                  Inl x \<Rightarrow> Some x
                | Inr stored \<Rightarrow> check (stored \<noteq> z) ResultDiffers)))"

definition open_state :: "restore_operation \<Rightarrow> bool" where
  "open_state op \<longleftrightarrow> rj_state op = ''pending'' \<or> rj_state op = ''staged''"

text \<open>The evidence each state must carry.\<close>

definition retention_state_issue ::
  "'p backup_env \<Rightarrow> 'p backup_disk \<Rightarrow> restore_operation \<Rightarrow> 'p snapshot_anchor \<Rightarrow> restore_error option" where
  "retention_state_issue v d op a =
     (let request = repositoryRestoreRequestFromRecovery v (rj_recovery op) a in
      if rj_state op = ''pending'' then check (\<not> pending_shape op) state_invalid
      else if rj_state op = ''staged''
      then first_err (check (\<not> staged_shape op) state_invalid) (check_receipt v request (rj_receipt op))
      else if rj_state op = ''completed''
      then (case rj_result op of
              None \<Rightarrow> Some state_invalid
            | Some z \<Rightarrow> first_err (check (rj_abandonment op \<noteq> None) state_invalid)
                          (map_option Backup (validateRestoreRetentionResult v d z (rj_intent op) a)))
      else if rj_state op = ''abandoned'' then check_abandoned v op a request
      else Some state_invalid)"

definition validateRestoreRetentionOperation ::
  "'p backup_env \<Rightarrow> 'p backup_disk \<Rightarrow> restore_operation \<Rightarrow> 'p configuration \<Rightarrow> restore_error + 'p snapshot_anchor" where
  "validateRestoreRetentionOperation v d op c =
     (case load_snapshot_anchor v d (ry_anchor (rj_recovery op)) of
        Inl x \<Rightarrow> Inl (Backup x)
      | Inr a \<Rightarrow>
         (case first_err (map_option Backup (validateRestoreRetentionRecoveryBinding v (rj_intent op) (rj_recovery op) a))
              (first_err (check (oi_owner (sa_input a) \<noteq> cf_owner c \<or>
                            rr_repository (sa_repository a) \<noteq> rr_repository (cf_repository c)) RetentionScopeDiffers)
              (first_err (if \<not> oi_protect (sa_input a) \<and> open_state op
                          then map_option Backup (validateRestoreSource v c a) else None)
                         (retention_state_issue v d op a))) of
            Some x \<Rightarrow> Inl x
          | None \<Rightarrow> Inr a))"

text \<open>One journal file: an unfinished restore of this owner and repository holds a lease on its source.\<close>

definition retention_lease ::
  "'p backup_env \<Rightarrow> 'p backup_disk \<Rightarrow> 'p configuration \<Rightarrow> string \<Rightarrow> restore_error + restore_lease option" where
  "retention_lease v d c name =
     (case loadRestoreOperation d (drop 7 name) of
        Inl x \<Rightarrow> Inl (restoreRetentionJournalError name (Backup x))
      | Inr op \<Rightarrow>
         (case VerifyRestoreRecoveryAnchor v (rj_recovery op) of
            Some x \<Rightarrow> Inl (restoreRetentionJournalError name (Backup x))
          | None \<Rightarrow>
              if drop 7 name \<noteq> sv_key (bv_snapshot v) (ry_operation (rj_recovery op))
              then Inl (restoreRetentionJournalError name RetentionPathDiffers)
              else if \<not> restoreOperationUsesRetentionScope op c then Inr None
              else (case validateRestoreRetentionOperation v d op c of
                Inl x \<Rightarrow> Inl (restoreRetentionJournalError (ro_operation (rj_intent op)) x)
              | Inr a \<Rightarrow>
                  Inr (if open_state op \<and> \<not> oi_protect (sa_input a)
                       then Some \<lparr>le_operation = ro_operation (rj_intent op), le_anchor = ro_anchor (rj_intent op),
                                  le_approved = ry_approved (rj_recovery op)\<rparr>
                       else None))))"

fun retention_leases ::
  "'p backup_env \<Rightarrow> 'p backup_disk \<Rightarrow> 'p configuration \<Rightarrow> string list \<Rightarrow> restore_error + restore_lease list" where
  "retention_leases v d c [] = Inr []"
| "retention_leases v d c (name # names) =
     ebind (retention_lease v d c name) (\<lambda>l. ebind (retention_leases v d c names) (\<lambda>ls.
       Inr (case l of None \<Rightarrow> ls | Some lease \<Rightarrow> lease # ls)))"

text \<open>A stored result that may release a lease, and the latest approval among those of one source.\<close>

definition completed_source_issue ::
  "'p backup_env \<Rightarrow> int \<Rightarrow> 'p backup_disk \<Rightarrow> 'p configuration \<Rightarrow> string \<Rightarrow> restore_result \<Rightarrow> restore_error option" where
  "completed_source_issue v now d c name z =
     first_err (check (ry_repository (rz_recovery z) \<noteq> rr_repository (cf_repository c)) RetentionScopeDiffers)
    (first_err (check (rz_id z \<noteq> name) (Backup ResultIdentity))
    (case load_snapshot_anchor v d (rz_anchor z) of
       Inl x \<Rightarrow> Some (Backup x)
     | Inr a \<Rightarrow>
         first_err (map_option Backup (validateRestoreSource v c a))
        (first_err (map_option Backup (validateRestoreRetentionResult v d z
                      \<lparr>ro_owner = rz_owner z, ro_authority = rz_authority z, ro_lineage = rz_lineage z,
                       ro_policy_digest = rq_policy_digest (rz_request z), ro_anchor = rz_anchor z,
                       ro_operation = rz_operation z\<rparr> a))
                   (check (vf_at (rz_verification z) < ry_approved (rz_recovery z) \<or> vf_at (rz_verification z) > now)
                      HistoryClockInvalid))))"

definition later_approval :: "(string \<Rightarrow> int option) \<Rightarrow> restore_result \<Rightarrow> string \<Rightarrow> int option" where
  "later_approval completed z =
     (case completed (rz_anchor z) of
        None \<Rightarrow> completed(rz_anchor z \<mapsto> ry_approved (rz_recovery z))
      | Some t \<Rightarrow> if t < ry_approved (rz_recovery z) then completed(rz_anchor z \<mapsto> ry_approved (rz_recovery z)) else completed)"

fun completed_sources ::
  "'p backup_env \<Rightarrow> int \<Rightarrow> 'p backup_disk \<Rightarrow> 'p configuration \<Rightarrow> string list \<Rightarrow> (string \<Rightarrow> int option) \<Rightarrow> string list \<Rightarrow>
   restore_error + (string \<Rightarrow> int option)" where
  "completed_sources v now d c needed completed [] = Inr completed"
| "completed_sources v now d c needed completed (name # names) =
     (case map_of (bd_results d) (drop 7 name) of
        Some (Some z) \<Rightarrow>
          if rz_anchor z \<notin> set needed \<or> rz_owner z \<noteq> cf_owner c then completed_sources v now d c needed completed names
          else (case completed_source_issue v now d c name z of
            Some x \<Rightarrow> Inl (HistoryResultInvalid name x)
          | None \<Rightarrow> completed_sources v now d c needed (later_approval completed z) names)
      | _ \<Rightarrow> Inl (HistoryResultInvalid name (Backup ResultUnreadable)))"

definition completedRestoreRetentionSources ::
  "'p backup_env \<Rightarrow> int \<Rightarrow> 'p backup_disk \<Rightarrow> 'p configuration \<Rightarrow> restore_lease list \<Rightarrow> restore_error + (string \<Rightarrow> int option)" where
  "completedRestoreRetentionSources v now d c leases =
     ebind (evidence_files (bd_stray_results d) (bd_results d)) (completed_sources v now d c (map le_anchor leases) (\<lambda>_. None))"

definition lease_issue :: "(string \<Rightarrow> int option) \<Rightarrow> restore_lease \<Rightarrow> restore_error option" where
  "lease_issue completed l =
     (let blocked = Some (RetentionBlocked (le_operation l) (le_anchor l)) in
      case completed (le_anchor l) of
        None \<Rightarrow> blocked
      | Some t \<Rightarrow> if t > le_approved l then None else blocked)"

definition admitSnapshotRetention :: "'p backup_env \<Rightarrow> int \<Rightarrow> 'p backup_disk \<Rightarrow> 'p configuration \<Rightarrow> restore_error option" where
  "admitSnapshotRetention v now d c =
     (if \<not> bv_retains v (cf_policy c) then None
      else case ebind (evidence_files (bd_stray_restores d) (bd_restores d)) (retention_leases v d c) of
        Inl x \<Rightarrow> Some x
      | Inr [] \<Rightarrow> None
      | Inr leases \<Rightarrow>
         (case completedRestoreRetentionSources v now d c leases of
            Inl x \<Rightarrow> Some x
          | Inr completed \<Rightarrow> first_err_list (lease_issue completed) leases))"

section \<open>Running a snapshot of the bound configuration\<close>

definition run_surroundings ::
  "'p backup_env \<Rightarrow> int \<Rightarrow> repository_status option \<Rightarrow> 'p backup_disk \<Rightarrow> configure_input \<Rightarrow> 'p run_env \<Rightarrow> 'p run_env" where
  "run_surroundings v now answer d i re =
     (case boundConfiguration v d i of
        Inl x \<Rightarrow> re\<lparr>re_configuration := None\<rparr>
      | Inr c \<Rightarrow> re\<lparr>re_configuration := Some c, re_retention := (admitSnapshotRetention v now d c = None),
          re_ready := (case repositoryStatus answer c of Inl _ \<Rightarrow> False | Inr s \<Rightarrow> repository_ready s)\<rparr>)"

definition Run ::
  "'p backup_env \<Rightarrow> int \<Rightarrow> repository_status option \<Rightarrow> 'p run_env \<Rightarrow> 'p backup_disk \<Rightarrow> configure_input \<Rightarrow> run_input \<Rightarrow>
   'p backup_disk \<times> (snapshot_error + 'p snapshot_anchor)" where
  "Run v now answer re d i r =
     (case run (bv_snapshot v) (run_surroundings v now answer d i re) (bd_snapshots d) r of
        (s, x) \<Rightarrow> (d\<lparr>bd_snapshots := s\<rparr>, x))"

section \<open>The calls\<close>

text \<open>Every call that writes below the backup directories, with any input, clock and write outcome.\<close>

inductive backup_call :: "'p backup_env \<Rightarrow> 'p backup_disk \<Rightarrow> 'p backup_disk \<Rightarrow> bool" for v where
  call_configure: "Configure v co d i = (d', x) \<Longrightarrow> backup_call v d d'"
| call_rebind: "Rebind v co d i = (d', x) \<Longrightarrow> backup_call v d d'"
| call_Run: "Run v now answer re d i r = (d', x) \<Longrightarrow> backup_call v d d'"
| call_restore: "Restore v w d n = (d', x) \<Longrightarrow> backup_call v d d'"
| call_abandon: "AbandonRestore v out now cancelled d n = (d', x) \<Longrightarrow> backup_call v d d'"
| call_transfer: "snapshot_call (bv_snapshot v) (bd_snapshots d) s \<Longrightarrow> backup_call v d (d\<lparr>bd_snapshots := s\<rparr>)"

definition empty_backup :: "'p backup_disk" where
  "empty_backup = \<lparr>bd_snapshots = empty_disk, bd_configuration = None, bd_intents = [], bd_restores = [],
     bd_recoveries = [], bd_results = [], bd_stray_restores = False, bd_stray_results = False\<rparr>"

abbreviation backup_later :: "'p backup_env \<Rightarrow> 'p backup_disk \<Rightarrow> 'p backup_disk \<Rightarrow> bool" where
  "backup_later v \<equiv> (backup_call v)\<^sup>*\<^sup>*"

end
