(* ===== verification/RestoreJournal.thy ===== *)
theory RestoreJournal
  imports RestoreOperations
begin

text \<open>
  The invariant of the restore journal and its preservation by every call: what a file of each state
  carries, how one file may change, and which files a call leaves alone.
\<close>

section \<open>What a restore journal holds\<close>

abbreviation restore_at :: "'p backup_disk \<Rightarrow> string \<Rightarrow> restore_operation option option" where
  "restore_at d key \<equiv> map_of (bd_restores d) key"

text \<open>The evidence of a completed and of an abandoned restore.\<close>

definition completion_evidence :: "'p backup_env \<Rightarrow> 'p backup_disk \<Rightarrow> restore_operation \<Rightarrow> restore_result \<Rightarrow> bool" where
  "completion_evidence v d op z \<longleftrightarrow>
     op = completed_restore (rj_recovery op) (rz_receipt z) z \<and> rz_recovery z = rj_recovery op \<and>
     VerifyRestoreResult v z = None \<and> map_of (bd_results d) (drop 7 (rz_id z)) = Some (Some z)"

definition abandonment_evidence :: "'p backup_env \<Rightarrow> restore_operation \<Rightarrow> restore_abandonment \<Rightarrow> bool" where
  "abandonment_evidence v op b \<longleftrightarrow>
     rj_result op = None \<and> rj_abandonment op = Some b \<and> VerifyRestoreAbandonment v b = None \<and>
     ab_recovery b = ry_id (rj_recovery op) \<and> ab_anchor b = ry_anchor (rj_recovery op) \<and>
     ab_operation b = ry_operation (rj_recovery op) \<and> ry_approved (rj_recovery op) \<le> ab_at b"

definition restore_state_sound :: "'p backup_env \<Rightarrow> 'p backup_disk \<Rightarrow> restore_operation \<Rightarrow> bool" where
  "restore_state_sound v d op \<longleftrightarrow>
     rj_state op = ''pending'' \<and> pending_shape op \<or> rj_state op = ''staged'' \<and> staged_shape op \<or>
     rj_state op = ''completed'' \<and> (\<exists>z. completion_evidence v d op z) \<or>
     rj_state op = ''abandoned'' \<and> (\<exists>b. abandonment_evidence v op b)"

definition sound_restore :: "'p backup_env \<Rightarrow> 'p backup_disk \<Rightarrow> string \<Rightarrow> restore_operation \<Rightarrow> bool" where
  "sound_restore v d key op \<longleftrightarrow>
     rj_api op = restore_operation_api \<and> VerifyRestoreRecoveryAnchor v (rj_recovery op) = None \<and>
     rj_intent op = intent_of (rj_recovery op) \<and> key = sv_key (bv_snapshot v) (ry_operation (rj_recovery op)) \<and>
     map_of (bd_recoveries d) key = Some (Some (rj_recovery op)) \<and>
     (\<forall>t. rj_receipt op = Some t \<longrightarrow> restoreApprovalCurrent (rj_recovery op) (rt_completed t)) \<and>
     restore_state_sound v d op"

definition sound_backup :: "'p backup_env \<Rightarrow> 'p backup_disk \<Rightarrow> bool" where
  "sound_backup v d \<longleftrightarrow>
     (\<forall>key x. restore_at d key = Some x \<longrightarrow> (\<exists>op. x = Some op \<and> sound_restore v d key op)) \<and>
     (\<forall>key x. map_of (bd_results d) key = Some x \<longrightarrow>
        (\<exists>z. x = Some z \<and> VerifyRestoreResult v z = None \<and> key = drop 7 (rz_id z)))"

text \<open>How one journal file may change in a call, and what a call keeps.\<close>

definition restore_file_step :: "restore_operation option option \<Rightarrow> restore_operation option option \<Rightarrow> bool" where
  "restore_file_step a b \<longleftrightarrow> a = b \<or> a = None \<or>
     (\<exists>op op'. a = Some (Some op) \<and> b = Some (Some op') \<and> open_state op \<and> rj_recovery op' = rj_recovery op \<and>
        rj_intent op' = rj_intent op \<and> (\<forall>t. rj_receipt op = Some t \<longrightarrow> rj_receipt op' = Some t))"

definition restores_kept :: "'p backup_disk \<Rightarrow> 'p backup_disk \<Rightarrow> bool" where
  "restores_kept d d' \<longleftrightarrow>
     (\<forall>key. restore_file_step (restore_at d key) (restore_at d' key)) \<and>
     map_of (bd_results d) \<subseteq>\<^sub>m map_of (bd_results d')"

lemma map_of_put_file [simp]:
  "map_of (put_file out key x fs) k = (if replaces out \<and> k = key then Some (Some x) else map_of fs k)"
  by (simp add: put_file_def update_conv')

lemma put_restore_simps [simp]:
  "bd_results (put_restore out key op d) = bd_results d" "bd_recoveries (put_restore out key op d) = bd_recoveries d"
  "bd_snapshots (put_restore out key op d) = bd_snapshots d"
  "bd_configuration (put_restore out key op d) = bd_configuration d"
  "bd_restores (put_restore out key op d) = put_file out key op (bd_restores d)"
  by (simp_all add: put_restore_def)

lemma evidence_files_Inr [simp]: "evidence_files stray files = Inr names \<longleftrightarrow> \<not> stray \<and> historyIDs files = Inr names"
  by (simp add: evidence_files_def)

lemma put_restore_written: "write_failed out = None \<Longrightarrow> restore_at (put_restore out key op d) key = Some (Some op)"
  by (simp add: write_failed_def)

lemma write_failed_None [simp]: "write_failed out = None \<longleftrightarrow> out = FileWritten"
  by (simp add: write_failed_def)

lemma write_failed_simps [simp]:
  "write_failed FileWritten = None" "write_failed FileUnconfirmed = Some BackupWriteFailed"
  "write_failed FileUnchanged = Some BackupWriteFailed" "write_failed FileAbandoned = Some BackupWriteFailed"
  by (simp_all add: write_failed_def check_def)

lemma restore_file_step_refl [simp]: "restore_file_step a a"
  by (simp add: restore_file_step_def)

lemma restore_file_step_trans: "restore_file_step a b \<Longrightarrow> restore_file_step b c \<Longrightarrow> restore_file_step a c"
  by (auto simp: restore_file_step_def)

lemma restores_kept_refl [simp]: "restores_kept d d"
  by (simp add: restores_kept_def)

lemma restores_kept_trans: "restores_kept d d1 \<Longrightarrow> restores_kept d1 d2 \<Longrightarrow> restores_kept d d2"
  unfolding restores_kept_def by (blast intro: restore_file_step_trans map_le_trans)

text \<open>What soundness of one file reads of the disk.\<close>

lemma completion_evidence_mono:
  "completion_evidence v d op z \<Longrightarrow> map_of (bd_results d) \<subseteq>\<^sub>m map_of (bd_results d') \<Longrightarrow> completion_evidence v d' op z"
  by (auto simp: completion_evidence_def map_le_def dest!: bspec[of "dom (map_of (bd_results d))", OF _ domI])

lemma sound_restore_mono:
  assumes "sound_restore v d key op" "map_of (bd_results d) \<subseteq>\<^sub>m map_of (bd_results d')"
    and "map_of (bd_recoveries d') key = map_of (bd_recoveries d) key"
  shows "sound_restore v d' key op"
proof -
  have "restore_state_sound v d' op"
    using assms(1) completion_evidence_mono[OF _ assms(2)] unfolding sound_restore_def restore_state_sound_def by blast
  then show ?thesis using assms(1,3) unfolding sound_restore_def by auto
qed

lemma sound_at_key: "sound_backup v d \<Longrightarrow> restore_at d key = Some x \<Longrightarrow> \<exists>op. x = Some op \<and> sound_restore v d key op"
  by (simp add: sound_backup_def)

lemma sound_backupI:
  assumes "\<And>key x. restore_at d key = Some x \<Longrightarrow> \<exists>op. x = Some op \<and> sound_restore v d key op"
    and "\<And>key x. map_of (bd_results d) key = Some x \<Longrightarrow>
      \<exists>z. x = Some z \<and> VerifyRestoreResult v z = None \<and> key = drop 7 (rz_id z)"
  shows "sound_backup v d"
  using assms by (simp add: sound_backup_def)

lemma sound_results:
  "sound_backup v d \<Longrightarrow> map_of (bd_results d) key = Some x \<Longrightarrow>
   \<exists>z. x = Some z \<and> VerifyRestoreResult v z = None \<and> key = drop 7 (rz_id z)"
  by (simp add: sound_backup_def)

lemma put_restore_sound:
  assumes "sound_backup v d" "sound_restore v d key op"
  shows "sound_backup v (put_restore out key op d)"
proof (rule sound_backupI)
  have mono: "sound_restore v (put_restore out key op d) k o'" if "sound_restore v d k o'" for k o'
    using sound_restore_mono[OF that] by simp
  show "\<exists>op'. x = Some op' \<and> sound_restore v (put_restore out key op d) k op'"
    if "restore_at (put_restore out key op d) k = Some x" for k x
    using that mono assms(2) sound_at_key[OF assms(1), of k x] by (auto split: if_splits)
qed (use sound_results[OF assms(1)] in simp)

lemma put_restore_kept:
  assumes "restore_file_step (restore_at d key) (Some (Some op))"
  shows "restores_kept d (put_restore out key op d)"
  using assms by (simp add: restores_kept_def)

lemma same_files_sound:
  assumes "sound_backup v d" "bd_restores d' = bd_restores d" "bd_results d' = bd_results d" "bd_recoveries d' = bd_recoveries d"
  shows "sound_backup v d' \<and> restores_kept d d'"
proof
  have mono: "sound_restore v d' key op" if "sound_restore v d key op" for key op
    using sound_restore_mono[OF that] assms(2-) by simp
  show "sound_backup v d'"
  proof (rule sound_backupI)
    show "\<exists>op. x = Some op \<and> sound_restore v d' key op" if "restore_at d' key = Some x" for key x
      using sound_at_key[OF assms(1), of key x] that assms(2) mono by auto
  qed (use sound_results[OF assms(1)] assms(3) in simp)
  show "restores_kept d d'" using assms(2-) by (simp add: restores_kept_def)
qed

lemma load_restore_at:
  "loadRestoreOperation d key = Inr op \<Longrightarrow> restore_at d key = Some (Some op) \<and> rj_api op = restore_operation_api"
  by (auto simp: loadRestoreOperation_def split: option.splits if_splits)

lemma load_restore_missing: "loadRestoreOperation d key = Inl RestoreMissing \<Longrightarrow> restore_at d key = None"
  by (auto simp: loadRestoreOperation_def split: option.splits if_splits)

section \<open>The stages of a restore\<close>

lemma make_recovery_result:
  assumes "make_recovery v now i c a = Inr r" "i = restore_intent_of c a operation"
  shows "VerifyRestoreRecoveryAnchor v r = None \<and> i = intent_of r \<and> ry_operation r = operation"
  using assms by (auto simp: make_recovery_def Let_def restore_intent_of_def intent_of_def split: option.splits)

lemma pending_restore_simps [simp]:
  "rj_api (pending_restore i r) = restore_operation_api" "rj_state (pending_restore i r) = ''pending''"
  "rj_intent (pending_restore i r) = i" "rj_recovery (pending_restore i r) = r" "rj_receipt (pending_restore i r) = None"
  "rj_result (pending_restore i r) = None" "rj_abandonment (pending_restore i r) = None"
  by (simp_all add: pending_restore_def)

lemma staged_restore_simps [simp]:
  "rj_api (staged_restore i r t) = restore_operation_api" "rj_state (staged_restore i r t) = ''staged''"
  "rj_intent (staged_restore i r t) = i" "rj_recovery (staged_restore i r t) = r" "rj_receipt (staged_restore i r t) = Some t"
  "rj_result (staged_restore i r t) = None" "rj_abandonment (staged_restore i r t) = None"
  by (simp_all add: staged_restore_def)

lemma completed_restore_simps [simp]:
  "rj_api (completed_restore r t z) = restore_operation_api" "rj_state (completed_restore r t z) = ''completed''"
  "rj_intent (completed_restore r t z) = intent_of r" "rj_recovery (completed_restore r t z) = r"
  "rj_receipt (completed_restore r t z) = Some t" "rj_result (completed_restore r t z) = Some z"
  "rj_abandonment (completed_restore r t z) = None"
  by (simp_all add: completed_restore_def)

lemma abandoned_restore_simps [simp]:
  "rj_api (abandoned_restore op b) = rj_api op" "rj_state (abandoned_restore op b) = ''abandoned''"
  "rj_intent (abandoned_restore op b) = rj_intent op" "rj_recovery (abandoned_restore op b) = rj_recovery op"
  "rj_receipt (abandoned_restore op b) = rj_receipt op" "rj_result (abandoned_restore op b) = None"
  "rj_abandonment (abandoned_restore op b) = Some b"
  by (simp_all add: abandoned_restore_def)

lemma pending_restore_eq:
  "rj_api op = restore_operation_api \<Longrightarrow> rj_state op = ''pending'' \<Longrightarrow> rj_intent op = i \<Longrightarrow> pending_shape op \<Longrightarrow>
   op = pending_restore i (rj_recovery op)"
  by (cases op) (simp add: pending_shape_def pending_restore_def)

lemma staged_restore_eq:
  "rj_api op = restore_operation_api \<Longrightarrow> rj_state op = ''staged'' \<Longrightarrow> rj_intent op = i \<Longrightarrow> staged_shape op \<Longrightarrow>
   rj_receipt op = Some t \<Longrightarrow> op = staged_restore i (rj_recovery op) t"
  by (cases op) (simp add: staged_shape_def staged_restore_def pending_restore_def)

text \<open>What a resumed restore finds in its file.\<close>

definition resumed_at :: "'p backup_disk \<Rightarrow> string \<Rightarrow> restore_intent \<Rightarrow> resumed_restore \<Rightarrow> bool" where
  "resumed_at d key i x \<longleftrightarrow>
     (case x of
        Fresh r \<Rightarrow> restore_at d key = Some (Some (pending_restore i r)) \<and> i = intent_of r
      | Staged r t \<Rightarrow> restore_at d key = Some (Some (staged_restore i r t)) \<and> i = intent_of r
      | Finished z \<Rightarrow> (\<exists>op. restore_at d key = Some (Some op) \<and> rj_state op = ''completed'' \<and> rj_result op = Some z))"

lemma resume_result:
  assumes "resume_restore v d op i c a = Inr x" "restore_at d key = Some (Some op)" "rj_api op = restore_operation_api"
    and "rj_intent op = intent_of (rj_recovery op)"
  shows "resumed_at d key i x"
proof -
  have i: "rj_intent op = i" using assms(1) by (auto simp: resume_restore_def Let_def split: if_splits)
  consider "rj_state op = ''pending''" | "rj_state op = ''staged''" | "rj_state op = ''completed''" | "rj_state op = ''abandoned''"
    using assms(1) by (auto simp: resume_restore_def Let_def split: if_splits option.splits)
  then show ?thesis
  proof cases
    case 1
    then have "x = Fresh (rj_recovery op) \<and> pending_shape op"
      using assms(1) by (auto simp: resume_restore_def Let_def split: if_splits option.splits)
    then show ?thesis using pending_restore_eq[OF assms(3) 1 i] assms(2,4) i by (simp add: resumed_at_def)
  next
    case 2
    then obtain t where "rj_receipt op = Some t" "x = Staged (rj_recovery op) t" "staged_shape op"
      using assms(1) by (auto simp: resume_restore_def Let_def split: if_splits option.splits)
    then show ?thesis using staged_restore_eq[OF assms(3) 2 i] assms(2,4) i by (simp add: resumed_at_def)
  next
    case 3
    then obtain z where "rj_result op = Some z" "x = Finished z"
      using assms(1) by (auto simp: resume_restore_def Let_def split: if_splits option.splits sum.splits)
    then show ?thesis using 3 assms(2) by (simp add: resumed_at_def)
  next
    case 4
    then show ?thesis using assms(1) by (auto simp: resume_restore_def Let_def split: if_splits option.splits)
  qed
qed

lemma prepare_result:
  assumes "prepareRestoreOperation v w d key i c a = (d', x)" "sound_backup v d"
    and "i = restore_intent_of c a operation" "key = sv_key (bv_snapshot v) operation"
  shows "sound_backup v d' \<and> restores_kept d d' \<and> (\<forall>y. x = Inr y \<longrightarrow> resumed_at d' key i y)"
proof (cases "loadRestoreOperation d key")
  case (Inr op)
  then have at: "restore_at d key = Some (Some op)" "rj_api op = restore_operation_api" using load_restore_at by blast+
  then have "rj_intent op = intent_of (rj_recovery op)"
    using sound_at_key[OF assms(2) at(1)] by (auto simp: sound_restore_def)
  moreover have "d' = d" "x = resume_restore v d op i c a"
    using assms(1) Inr by (auto simp: prepareRestoreOperation_def)
  ultimately show ?thesis using resume_result[OF _ at] assms(2) by auto
next
  case (Inl y)
  show ?thesis
  proof (cases "y = RestoreMissing")
    case False
    then have "d' = d" "x = Inl (Backup y)"
      using assms(1) Inl by (auto simp: prepareRestoreOperation_def split: backup_error.splits)
    then show ?thesis using assms(2) by simp
  next
    case True
    have missing: "restore_at d key = None" using Inl True load_restore_missing by blast
    show ?thesis
    proof (cases "make_recovery v (rw_approve w) i c a")
      case (Inl z)
      then have "d' = d" "x = Inl z" using assms(1) \<open>loadRestoreOperation d key = Inl y\<close> True
        by (simp_all add: prepareRestoreOperation_def)
      then show ?thesis using assms(2) by simp
    next
      case (Inr r)
      note r = make_recovery_result[OF Inr assms(3)]
      let ?d1 = "d\<lparr>bd_recoveries := put_file (rw_write_recovery w) key r (bd_recoveries d)\<rparr>"
      have untouched: "k \<noteq> key" if "restore_at d k = Some z" for k z using that missing by auto
      have d1: "sound_backup v ?d1"
      proof (rule sound_backupI)
        show "\<exists>op. z = Some op \<and> sound_restore v ?d1 k op" if "restore_at ?d1 k = Some z" for k z
        proof -
          have at: "restore_at d k = Some z" using that by simp
          then obtain op where op: "z = Some op" "sound_restore v d k op" using sound_at_key[OF assms(2)] by blast
          show ?thesis using op(1) sound_restore_mono[OF op(2), of ?d1] untouched[OF at] by simp
        qed
      qed (use sound_results[OF assms(2)] in simp)
      have kept1: "restores_kept d ?d1" by (simp add: restores_kept_def)
      show ?thesis
      proof (cases "rw_write_recovery w = FileWritten")
        case False
        then have "d' = ?d1" "\<exists>z. x = Inl z"
          using assms(1) \<open>loadRestoreOperation d key = Inl y\<close> True Inr
          by (auto simp: prepareRestoreOperation_def Let_def write_failed_def check_def)
        then show ?thesis using d1 kept1 by auto
      next
        case written: True
        have d': "d' = put_restore (rw_write_pending w) key (pending_restore i r) ?d1"
          "x = (case write_failed (rw_write_pending w) of Some e \<Rightarrow> Inl (Backup e) | None \<Rightarrow> Inr (Fresh r))"
          using assms(1) \<open>loadRestoreOperation d key = Inl y\<close> True Inr written
          by (auto simp: prepareRestoreOperation_def Let_def)
        have "sound_restore v ?d1 key (pending_restore i r)"
          using r assms(4) written
          by (simp add: sound_restore_def restore_state_sound_def pending_shape_def)
        then have "sound_backup v d'" using put_restore_sound[OF d1] d'(1) by simp
        moreover have "restores_kept d d'"
          using restores_kept_trans[OF kept1 put_restore_kept, of key] missing d'(1)
          by (simp add: restore_file_step_def)
        moreover have "resumed_at d' key i z" if "x = Inr z" for z
          using that d' r by (auto simp: resumed_at_def split: option.splits)
        ultimately show ?thesis by blast
      qed
    qed
  qed
qed

lemma stage_result:
  assumes "stage_restore v w d key i r q = (d', x)" "sound_backup v d"
    and "restore_at d key = Some (Some (pending_restore i r))"
  shows "sound_backup v d' \<and> restores_kept d d' \<and>
    (\<forall>t. x = Inr t \<longrightarrow> restore_at d' key = Some (Some (staged_restore i r t)))"
proof (cases "d' = d \<and> (\<exists>y. x = Inl y)")
  case True
  then show ?thesis using assms(2) by auto
next
  case False
  then obtain t where t: "restoreApprovalCurrent r (rt_completed t)"
    "d' = put_restore (rw_write_staged w) key (staged_restore i r t) d"
    "x = (case write_failed (rw_write_staged w) of Some e \<Rightarrow> Inl (Backup e) | None \<Rightarrow> Inr t)"
    using assms(1) by (auto simp: stage_restore_def split: if_splits option.splits)
  have "sound_restore v d key (pending_restore i r)" using sound_at_key[OF assms(2,3)] by blast
  then have "sound_restore v d key (staged_restore i r t)"
    using t(1) by (auto simp: sound_restore_def restore_state_sound_def staged_shape_def)
  then have "sound_backup v d'" using put_restore_sound[OF assms(2)] t(2) by simp
  moreover have "restores_kept d d'"
    unfolding t(2) by (rule put_restore_kept) (simp add: assms(3) restore_file_step_def open_state_def)
  moreover have "restore_at d' key = Some (Some (staged_restore i r t'))" if "x = Inr t'" for t'
    using that t(2,3) by (auto split: option.splits)
  ultimately show ?thesis by blast
qed

lemma make_result_fields:
  assumes "make_result v r a q t f = Inr z"
  shows "VerifyRestoreResult v z = None \<and> rz_recovery z = r \<and> rz_receipt z = t \<and> rz_verification z = f"
  using assms by (auto simp: make_result_def Let_def split: option.splits)

lemma store_result_effect:
  assumes "store_result v out d z = (d', x)" "VerifyRestoreResult v z = None" "sound_backup v d"
  shows "sound_backup v d' \<and> restores_kept d d' \<and> bd_restores d' = bd_restores d \<and> bd_recoveries d' = bd_recoveries d \<and>
    (x = None \<longrightarrow> map_of (bd_results d') (drop 7 (rz_id z)) = Some (Some z))"
proof (cases "LoadRestoreResult v d (rz_id z)")
  case (Inr stored)
  then have "map_of (bd_results d) (drop 7 (rz_id z)) = Some (Some stored)"
    by (auto simp: LoadRestoreResult_def split: option.splits if_splits)
  then show ?thesis using assms Inr by (auto simp: store_result_def check_def split: if_splits)
next
  case (Inl y)
  show ?thesis
  proof (cases "y = ResultMissing")
    case False
    then have "d' = d" "x \<noteq> None" using assms(1) Inl by (auto simp: store_result_def split: backup_error.splits)
    then show ?thesis using assms(3) by auto
  next
    case True
    have missing: "map_of (bd_results d) (drop 7 (rz_id z)) = None"
    proof (rule ccontr)
      assume "map_of (bd_results d) (drop 7 (rz_id z)) \<noteq> None"
      then obtain u where at: "map_of (bd_results d) (drop 7 (rz_id z)) = Some u" by blast
      obtain z' where "u = Some z'" "VerifyRestoreResult v z' = None" using sound_results[OF assms(3) at] by blast
      then have "LoadRestoreResult v d (rz_id z) \<noteq> Inl ResultMissing" using at by (simp add: LoadRestoreResult_def)
      then show False using Inl True by simp
    qed
    have d': "d' = d\<lparr>bd_results := put_file out (drop 7 (rz_id z)) z (bd_results d),
        bd_stray_results := (bd_stray_results d \<or> out = FileAbandoned)\<rparr>" "x = map_option Backup (write_failed out)"
      using assms(1) Inl True by (simp_all add: store_result_def)
    have more: "map_of (bd_results d) \<subseteq>\<^sub>m map_of (bd_results d')"
      using missing unfolding d' by (auto simp: map_le_def)
    have "sound_backup v d'"
    proof (rule sound_backupI)
      show "\<exists>op. u = Some op \<and> sound_restore v d' k op" if "restore_at d' k = Some u" for k u
        using that sound_at_key[OF assms(3), of k u] sound_restore_mono[OF _ more, of v k] unfolding d' by auto
      show "\<exists>u. y = Some u \<and> VerifyRestoreResult v u = None \<and> k = drop 7 (rz_id u)"
        if "map_of (bd_results d') k = Some y" for k y
        using that sound_results[OF assms(3), of k y] assms(2) unfolding d' by (auto split: if_splits)
    qed
    then show ?thesis using more unfolding d' by (auto simp: restores_kept_def)
  qed
qed

text \<open>The file of an open restore whose recovery and receipt are known.\<close>

definition open_at :: "'p backup_disk \<Rightarrow> string \<Rightarrow> recovery_anchor \<Rightarrow> restore_receipt option \<Rightarrow> bool" where
  "open_at d key r t \<longleftrightarrow>
     (\<exists>op. restore_at d key = Some (Some op) \<and> open_state op \<and> rj_recovery op = r \<and> rj_receipt op = t)"

lemma complete_result:
  assumes "completeRestore v w d key r a t f = (d', x)" "sound_backup v d" "open_at d key r (Some t)"
  shows "sound_backup v d' \<and> restores_kept d d' \<and>
    (\<forall>z. x = Inr z \<longrightarrow> restore_at d' key = Some (Some (completed_restore r t z)))"
proof (cases "repositoryRestoreRequestFromRecovery v r a")
  case None
  then show ?thesis using assms(1,2) by (auto simp: completeRestore_def)
next
  case (Some q)
  show ?thesis
  proof (cases "make_result v r a q t f")
    case (Inl y)
    then show ?thesis using assms(1,2) Some by (auto simp: completeRestore_def)
  next
    case (Inr z)
    obtain d1 y where store: "store_result v (rw_write_result w) d z = (d1, y)" by fastforce
    note z = make_result_fields[OF Inr]
    note d1 = store_result_effect[OF store _ assms(2)]
    show ?thesis
    proof (cases y)
      case (Some e)
      then have "d' = d1" "x = Inl e"
        using assms(1) \<open>repositoryRestoreRequestFromRecovery v r a = _\<close> Inr store by (auto simp: completeRestore_def)
      then show ?thesis using d1 z by simp
    next
      case None
      have d': "d' = put_restore (rw_write_completed w) key (completed_restore r t z) d1"
        "x = (case write_failed (rw_write_completed w) of Some e \<Rightarrow> Inl (Backup e) | None \<Rightarrow> Inr z)"
        using assms(1) \<open>repositoryRestoreRequestFromRecovery v r a = _\<close> Inr store None by (auto simp: completeRestore_def)
      obtain op where op: "restore_at d1 key = Some (Some op)" "open_state op" "rj_recovery op = r" "rj_receipt op = Some t"
        "sound_restore v d1 key op"
        using assms(3) d1 z sound_at_key[of v d1 key] unfolding open_at_def by fastforce
      have "sound_restore v d1 key (completed_restore r t z)"
        using op(3-5) d1 z None by (auto simp: sound_restore_def restore_state_sound_def completion_evidence_def)
      moreover have "sound_backup v d1" using d1 z by simp
      ultimately have "sound_backup v d'" unfolding d'(1) by (blast intro: put_restore_sound)
      moreover have "rj_intent op = intent_of r" using op(3,5) by (simp add: sound_restore_def)
      then have "restores_kept d1 d'"
        unfolding d'(1) using op(2-4) by (intro put_restore_kept) (simp add: op(1) restore_file_step_def)
      then have "restores_kept d d'" using restores_kept_trans[of d d1 d'] d1 z by simp
      moreover have "restore_at d' key = Some (Some (completed_restore r t u))" if "x = Inr u" for u
        using that d' by (auto split: option.splits)
      ultimately show ?thesis by blast
    qed
  qed
qed

lemma verify_and_complete_result:
  assumes "verify_and_complete v w d key c r a t = (d', x)" "sound_backup v d" "open_at d key r (Some t)"
  shows "sound_backup v d' \<and> restores_kept d d' \<and>
    (\<forall>z. x = Inr z \<longrightarrow> restore_at d' key = Some (Some (completed_restore r t z)))"
proof (cases "\<exists>f. completeRestore v w d key r a t f = (d', x)")
  case True
  then show ?thesis using complete_result[OF _ assms(2,3)] by blast
next
  case False
  then have "d' = d \<and> (\<exists>y. x = Inl y)"
    using assms(1) by (auto simp: verify_and_complete_def split: if_splits option.splits)
  then show ?thesis using assms(2) by auto
qed

lemma restore_result_at:
  assumes "Restore v w d n = (d', x)" "sound_backup v d"
  shows "sound_backup v d' \<and> restores_kept d d' \<and>
    (\<forall>z. x = Inr z \<longrightarrow> (\<exists>op. restore_at d' (sv_key (bv_snapshot v) (rn_operation n)) = Some (Some op) \<and>
       rj_state op = ''completed'' \<and> rj_result op = Some z))"
proof (cases "admit_restore v w d n")
  case (Inl y)
  then show ?thesis using assms by (auto simp: Restore_def)
next
  case (Inr ca)
  obtain c a where ca: "ca = (c, a)" by fastforce
  let ?i = "restore_intent_of c a (rn_operation n)" and ?key = "sv_key (bv_snapshot v) (rn_operation n)"
  obtain d1 y where prepare: "prepareRestoreOperation v w d ?key ?i c a = (d1, y)" by fastforce
  note d1 = prepare_result[OF prepare assms(2) refl refl]
  note run = assms(1)[unfolded Restore_def Inr ca Let_def sum.case prod.case prepare]
  show ?thesis
  proof (cases y)
    case (Inl e)
    then show ?thesis using run d1 by auto
  next
    case y: (Inr resumed)
    show ?thesis
    proof (cases resumed)
      case (Finished z)
      then show ?thesis using run d1 y by (auto simp: resumed_at_def)
    next
      case (Staged r t)
      show ?thesis
      proof (cases "repositoryRestoreRequest v c a (rn_operation n)")
        case None
        then show ?thesis using run d1 y Staged by auto
      next
        case (Some q)
        have "open_at d1 ?key r (Some t)" using d1 y Staged by (auto simp: resumed_at_def open_at_def open_state_def)
        moreover have "verify_and_complete v w d1 ?key c r a t = (d', x)" using run y Staged Some by simp
        ultimately show ?thesis using verify_and_complete_result d1 restores_kept_trans by fastforce
      qed
    next
      case (Fresh r)
      show ?thesis
      proof (cases "repositoryRestoreRequest v c a (rn_operation n)")
        case None
        then show ?thesis using run d1 y Fresh by auto
      next
        case (Some q)
        obtain d2 u where stage: "stage_restore v w d1 ?key ?i r q = (d2, u)" by fastforce
        have "restore_at d1 ?key = Some (Some (pending_restore ?i r))" using d1 y Fresh by (simp add: resumed_at_def)
        then have d2: "sound_backup v d2" "restores_kept d d2"
          "\<And>t. u = Inr t \<Longrightarrow> restore_at d2 ?key = Some (Some (staged_restore ?i r t))"
          using stage_result[OF stage] d1 restores_kept_trans by blast+
        show ?thesis
        proof (cases u)
          case (Inl e)
          then show ?thesis using run y Fresh Some stage d2 by auto
        next
          case (Inr t)
          then have "open_at d2 ?key r (Some t)" using d2(3) by (auto simp: open_at_def open_state_def)
          moreover have "verify_and_complete v w d2 ?key c r a t = (d', x)" using run y Fresh Some stage Inr by simp
          ultimately show ?thesis using verify_and_complete_result d2(1,2) restores_kept_trans by fastforce
        qed
      qed
    qed
  qed
qed

section \<open>Abandoning keeps the journal sound\<close>

lemma close_result:
  assumes "close_restore v out now cancelled d key b op = (d', x)" "sound_backup v d"
    and "restore_at d key = Some (Some op)" "open_state op"
  shows "sound_backup v d' \<and> restores_kept d d' \<and>
    (\<forall>z. x = Inr z \<longrightarrow> restore_at d' key = Some (Some (abandoned_restore op z)))"
proof (cases "ry_approved (rj_recovery op) \<le> now \<and> \<not> cancelled \<and> (\<exists>m. make_abandonment v now b (rj_recovery op) = Inr m)")
  case False
  then have "d' = d \<and> (\<exists>y. x = Inl y)"
    using assms(1) by (auto simp: close_restore_def split: if_splits sum.splits) metis
  then show ?thesis using assms(2) by auto
next
  case True
  then obtain made where made: "make_abandonment v now b (rj_recovery op) = Inr made" "ry_approved (rj_recovery op) \<le> now"
    "d' = put_restore out key (abandoned_restore op made) d"
    "x = (case write_failed out of Some e \<Rightarrow> Inl (Backup e) | None \<Rightarrow> Inr made)"
    using assms(1) by (auto simp: close_restore_def)
  have fields: "VerifyRestoreAbandonment v made = None" "ab_recovery made = ry_id (rj_recovery op)"
    "ab_anchor made = ry_anchor (rj_recovery op)" "ab_operation made = ry_operation (rj_recovery op)" "ab_at made = now"
    using made(1) by (auto simp: make_abandonment_def Let_def split: option.splits)
  have op: "sound_restore v d key op" using sound_at_key[OF assms(2,3)] by blast
  then have "sound_restore v d key (abandoned_restore op made)"
    using fields made(2)
    by (auto simp: sound_restore_def restore_state_sound_def abandonment_evidence_def)
  then have "sound_backup v d'" using put_restore_sound[OF assms(2)] made(3) by simp
  moreover have "restores_kept d d'"
    unfolding made(3) by (rule put_restore_kept) (use assms(3,4) in \<open>simp add: restore_file_step_def\<close>)
  moreover have "restore_at d' key = Some (Some (abandoned_restore op z))" if "x = Inr z" for z
    using that made(3,4) by (auto split: option.splits)
  ultimately show ?thesis by blast
qed

lemma load_abandonable_result:
  assumes "load_abandonable v d n = Inr (b, op, a)"
  shows "restore_at d (sv_key (bv_snapshot v) (ai_operation n)) = Some (Some op)"
  using assms load_restore_at unfolding load_abandonable_def
  by (auto split: option.splits sum.splits if_splits)

lemma abandon_result:
  assumes "AbandonRestore v out now cancelled d n = (d', x)" "sound_backup v d"
  shows "sound_backup v d' \<and> restores_kept d d' \<and>
    (\<forall>z. x = Inr z \<longrightarrow> (\<exists>op. restore_at d' (sv_key (bv_snapshot v) (ai_operation n)) = Some (Some op) \<and>
       rj_state op = ''abandoned'' \<and> rj_abandonment op = Some z))"
proof (cases "load_abandonable v d n")
  case (Inl y)
  then show ?thesis using assms by (auto simp: AbandonRestore_def)
next
  case (Inr boa)
  obtain b op a where boa: "boa = (b, op, a)" using prod_cases3 by blast
  let ?key = "sv_key (bv_snapshot v) (ai_operation n)"
  have at: "restore_at d ?key = Some (Some op)" using load_abandonable_result Inr boa by blast
  note run = assms(1)[unfolded AbandonRestore_def Inr boa Let_def sum.case prod.case]
  show ?thesis
  proof (cases "open_state op \<and> close_restore v out now cancelled d ?key b op = (d', x)")
    case True
    then show ?thesis using close_result[OF _ assms(2) at] by fastforce
  next
    case False
    then have "d' = d \<and> (\<forall>z. x = Inr z \<longrightarrow> rj_state op = ''abandoned'' \<and> rj_abandonment op = Some z)"
      using run by (auto simp: open_state_def split: if_splits option.splits)
    then show ?thesis using assms(2) at by auto
  qed
qed

section \<open>Every call keeps the journal sound\<close>

lemma configure_files:
  assumes "configure v co d owner b expected = (d', x)"
  shows "bd_restores d' = bd_restores d \<and> bd_results d' = bd_results d \<and> bd_recoveries d' = bd_recoveries d \<and>
    bd_snapshots d' = bd_snapshots d"
  using assms
  by (auto simp: configure_def Let_def ensureConfigurationIntent_def split: option.splits if_splits)

lemma Configure_files:
  assumes "Configure v co d i = (d', x)"
  shows "bd_restores d' = bd_restores d \<and> bd_results d' = bd_results d \<and> bd_recoveries d' = bd_recoveries d \<and>
    bd_snapshots d' = bd_snapshots d"
  using assms configure_files
  by (fastforce simp: Configure_def split: option.splits sum.splits if_splits)

lemma Rebind_files:
  assumes "Rebind v co d i = (d', x)"
  shows "bd_restores d' = bd_restores d \<and> bd_results d' = bd_results d \<and> bd_recoveries d' = bd_recoveries d \<and>
    bd_snapshots d' = bd_snapshots d"
  using assms configure_files
  by (fastforce simp: Rebind_def split: option.splits sum.splits if_splits prod.splits)

lemma Run_snapshot_call:
  assumes "Run v now answer re d i r = (d', x)"
  shows "snapshot_call (bv_snapshot v) (bd_snapshots d) (bd_snapshots d') \<and> d' = d\<lparr>bd_snapshots := bd_snapshots d'\<rparr>"
  using assms by (auto simp: Run_def split: prod.splits intro: call_run)

lemma prepare_snapshots: "prepareRestoreOperation v w d key i c a = (d', x) \<Longrightarrow> bd_snapshots d' = bd_snapshots d"
  by (auto simp: prepareRestoreOperation_def Let_def split: sum.splits backup_error.splits option.splits)

lemma stage_snapshots: "stage_restore v w d key i r q = (d', x) \<Longrightarrow> bd_snapshots d' = bd_snapshots d"
  by (auto simp: stage_restore_def split: option.splits if_splits)

lemma verify_and_complete_snapshots:
  "verify_and_complete v w d key c r a t = (d', x) \<Longrightarrow> bd_snapshots d' = bd_snapshots d"
  by (auto simp: verify_and_complete_def completeRestore_def store_result_def
        split: sum.splits option.splits backup_error.splits prod.splits if_splits)

lemma close_snapshots: "close_restore v out now cancelled d key b op = (d', x) \<Longrightarrow> bd_snapshots d' = bd_snapshots d"
  by (auto simp: close_restore_def split: sum.splits if_splits)

lemma restore_result_snapshots:
  assumes "Restore v w d n = (d', x)" shows "bd_snapshots d' = bd_snapshots d"
  using assms unfolding Restore_def Let_def
  by (auto dest!: prepare_snapshots stage_snapshots verify_and_complete_snapshots
        split: sum.splits resumed_restore.splits option.splits prod.splits)

lemma abandon_snapshots:
  assumes "AbandonRestore v out now cancelled d n = (d', x)" shows "bd_snapshots d' = bd_snapshots d"
  using assms unfolding AbandonRestore_def Let_def
  by (auto dest!: close_snapshots split: sum.splits prod.splits if_splits option.splits)

lemma backup_call_sound:
  assumes "backup_call v d d'" "sound_backup v d"
  shows "sound_backup v d' \<and> restores_kept d d'"
  using assms(1)
proof cases
  case (call_configure co i x)
  then show ?thesis using same_files_sound[OF assms(2)] Configure_files by blast
next
  case (call_rebind co i x)
  then show ?thesis using same_files_sound[OF assms(2)] Rebind_files by blast
next
  case (call_Run now answer re i r x)
  then show ?thesis by (intro same_files_sound[OF assms(2)]) (auto simp: Run_def split: prod.splits)
next
  case (call_restore w n x)
  then show ?thesis using restore_result_at[OF _ assms(2)] by blast
next
  case (call_abandon out now cancelled n x)
  then show ?thesis using abandon_result[OF _ assms(2)] by blast
next
  case (call_transfer s)
  then show ?thesis by (intro same_files_sound[OF assms(2)]) simp_all
qed

interpretation backup_calls: started_steps "sound_backup v" "backup_call v" empty_backup for v
proof unfold_locales
  show "sound_backup v y" if "sound_backup v x" "backup_call v x y" for x y
    using backup_call_sound that by blast
  show "sound_backup v empty_backup" by (simp add: sound_backup_def empty_backup_def)
qed

end
