(* ===== verification/SnapshotJournal.thy ===== *)
theory SnapshotJournal
  imports SnapshotOperations
begin

text \<open>
  What every call does to the operation files: each file it writes is a sound operation, a pending
  operation goes on under the same input, a terminal one changes only in its closures. The last lemmas
  give the invariant of all reachable journals.
\<close>

section \<open>What one write changes\<close>

abbreviation op_at :: "'p snapshot_disk \<Rightarrow> string \<Rightarrow> 'p snapshot_operation option option" where
  "op_at d key \<equiv> map_of (sd_operations d) key"

lemma op_at_put:
  "op_at (put_operation out key op d) k = (if replaces out \<and> k = key then Some (Some op) else op_at d k)"
  by (simp add: put_operation_def update_conv)

lemma op_at_write:
  assumes "write_operation e out d key op = (d', x)"
  shows "k \<noteq> key \<Longrightarrow> op_at d' k = op_at d k"
    and "op_at d' key = op_at d key \<or> (\<exists>s. op_at d' key = Some (Some (op\<lparr>so_signature := s\<rparr>)))"
    and "x = None \<Longrightarrow> \<exists>s. op_at d' key = Some (Some (op\<lparr>so_signature := s\<rparr>))"
    and "sd_anchors d' = sd_anchors d"
  using assms
  by (auto simp: write_operation_def writeSnapshotOperation_def signSnapshotOperation_def op_at_put put_operation_def
      update_conv check_def split: option.splits if_splits)

lemma load_operation_at: "loadOperation e d key = Inr op \<Longrightarrow> op_at d key = Some (Some op) \<and> check_operation e op = None"
  by (auto simp: loadOperation_def split: option.splits)

lemma closures_never_missing: "check_group_closures selected seen is \<noteq> Some OperationMissing"
  by (induction selected seen "is" rule: check_group_closures.induct) auto

lemma check_operation_never_missing: "check_operation e op \<noteq> Some OperationMissing"
proof -
  have "validateSnapshotGroupClosures op \<noteq> Some OperationMissing"
    using closures_never_missing by (simp add: validateSnapshotGroupClosures_def split: option.splits)
  moreover have "verifySnapshotOperation e op \<noteq> Some OperationMissing"
    by (simp add: verifySnapshotOperation_def check_def first_err_def split: option.splits)
  ultimately show ?thesis
    by (auto simp: check_operation_def check_def first_err_Some split: option.splits if_splits)
qed

lemma load_operation_missing: "loadOperation e d key = Inl OperationMissing \<Longrightarrow> op_at d key = None"
  using check_operation_never_missing by (auto simp: loadOperation_def split: option.splits)

text \<open>What a terminal operation keeps for ever: everything but the acknowledged closures and the signature over them.\<close>

definition settled_core :: "'p snapshot_operation \<Rightarrow> 'p snapshot_operation" where
  "settled_core op = op\<lparr>so_closures := [], so_signature := None\<rparr>"

definition terminal_state :: "'p snapshot_operation \<Rightarrow> bool" where
  "terminal_state op \<longleftrightarrow> so_state op \<noteq> ''pending''"

definition all_closed :: "'p snapshot_operation \<Rightarrow> bool" where
  "all_closed op \<longleftrightarrow> (case so_quiescence op of None \<Rightarrow> False | Some q \<Rightarrow> so_closures op = group_ids q)"

text \<open>What every operation a call writes satisfies.\<close>

definition retired_soundly :: "'p snapshot_env \<Rightarrow> string \<Rightarrow> 'p snapshot_operation \<Rightarrow> snapshot_quiescence \<Rightarrow> bool" where
  "retired_soundly e key op q \<longleftrightarrow>
     validateApplicationTransferRetirementAuthorization e op = None \<and> validDigest (sq_outcome_digest q) \<and>
     validDigest (sq_retired_spec q) \<and> sq_candidate q = sq_retired_spec q \<and>
     (sq_phase q = ''transfer-retired'' \<and> sq_outcome_state q = ''activated'' \<or>
      sq_phase q = ''transfer-aborted'' \<and> sq_outcome_state q = ''stopped'' \<and>
      (\<exists>operation. key = sv_key e operation \<and> abort_operation operation))"

definition sound_operation :: "'p snapshot_env \<Rightarrow> string \<Rightarrow> 'p snapshot_operation \<Rightarrow> bool" where
  "sound_operation e key op \<longleftrightarrow>
     sv_key e (oi_operation (so_input op)) = key \<and> validOperationID (oi_operation (so_input op)) \<and>
     (so_closures op = [] \<or> terminal_state op \<and> all_closed op) \<and>
     (if so_state op = ''pending'' then so_anchor op = None
      else if so_state op = ''completed''
      then (\<exists>a. so_anchor op = Some a \<and> VerifySnapshotAnchor e a = None \<and> sa_input a = so_input op \<and>
                sa_quiescence a = so_quiescence op)
      else if so_state op = ''failed''
      then so_anchor op = None \<and>
           (\<exists>q. so_quiescence op = Some q \<and> sq_version q = 2 \<and> validateRestoredSnapshotQuiescence e q = None)
      else so_state op = ''transferred'' \<and> so_anchor op = None \<and>
           (\<exists>q. so_quiescence op = Some q \<and> retired_soundly e key op q))"

lemma core_eq:
  assumes "settled_core a = settled_core b"
  shows "so_input a = so_input b" "so_state a = so_state b" "so_quiescence a = so_quiescence b" "so_anchor a = so_anchor b"
    "terminal_state a = terminal_state b"
  using assms by (cases a; cases b; simp add: settled_core_def terminal_state_def)+

lemma core_closed:
  assumes "settled_core a = settled_core b" "so_closures a = so_closures b"
  shows "all_closed a = all_closed b"
  unfolding all_closed_def core_eq(3)[OF assms(1)] assms(2) ..

lemma authorization_core:
  assumes "settled_core a = settled_core b"
  shows "validateApplicationTransferRetirementAuthorization e a = validateApplicationTransferRetirementAuthorization e b"
  unfolding validateApplicationTransferRetirementAuthorization_def core_eq[OF assms] ..

lemma retired_soundly_core:
  assumes "settled_core a = settled_core b" shows "retired_soundly e key a q = retired_soundly e key b q"
  unfolding retired_soundly_def authorization_core[OF assms] ..

lemma settled_core_signed [simp]: "settled_core (op\<lparr>so_signature := s\<rparr>) = settled_core op"
  by (simp add: settled_core_def)

lemma sound_signed [simp]:
  "terminal_state (op\<lparr>so_signature := s\<rparr>) = terminal_state op"
  "all_closed (op\<lparr>so_signature := s\<rparr>) = all_closed op"
  "sound_operation e key (op\<lparr>so_signature := s\<rparr>) = sound_operation e key op"
proof -
  have c: "all_closed (op\<lparr>so_signature := s\<rparr>) = all_closed op" by (rule core_closed) simp_all
  show "all_closed (op\<lparr>so_signature := s\<rparr>) = all_closed op" by (fact c)
  show "terminal_state (op\<lparr>so_signature := s\<rparr>) = terminal_state op" by (simp add: terminal_state_def)
  show "sound_operation e key (op\<lparr>so_signature := s\<rparr>) = sound_operation e key op"
    unfolding sound_operation_def c retired_soundly_core[OF settled_core_signed] by (simp add: terminal_state_def)
qed

text \<open>How one file may change: it appears as a sound operation, a pending one goes on, a terminal one is only acknowledged.\<close>

fun file_step ::
  "'p snapshot_env \<Rightarrow> string \<Rightarrow> 'p snapshot_operation option option \<Rightarrow> 'p snapshot_operation option option \<Rightarrow> bool" where
  "file_step e key None (Some (Some op)) = sound_operation e key op"
| "file_step e key (Some (Some old)) (Some (Some op)) =
     (if terminal_state old then settled_core op = settled_core old \<and> (so_closures op = so_closures old \<or> all_closed op)
      else sound_operation e key op \<and> operationInputsEqual e (so_input old) (so_input op))"
| "file_step e key _ _ = False"

definition evolves :: "'p snapshot_env \<Rightarrow> string \<Rightarrow> 'p snapshot_disk \<Rightarrow> 'p snapshot_disk \<Rightarrow> bool" where
  "evolves e key d d' \<longleftrightarrow>
     (\<forall>k. k \<noteq> key \<longrightarrow> op_at d' k = op_at d k) \<and> (op_at d' key = op_at d key \<or> file_step e key (op_at d key) (op_at d' key))"

lemma inputs_equal_trans:
  "operationInputsEqual e a b \<Longrightarrow> operationInputsEqual e b c \<Longrightarrow> operationInputsEqual e a c"
  by (simp add: operationInputsEqual_def)

lemma inputs_equal_sym: "operationInputsEqual e a b \<Longrightarrow> operationInputsEqual e b a"
  by (simp add: operationInputsEqual_def)

lemma inputs_equal_refl [simp]: "operationInputsEqual e a a"
  by (simp add: operationInputsEqual_def)

lemma sound_core:
  assumes "sound_operation e key old" "terminal_state old" "settled_core op = settled_core old"
    "so_closures op = so_closures old \<or> all_closed op"
  shows "sound_operation e key op"
proof -
  have "so_closures op = [] \<or> terminal_state op \<and> all_closed op"
    using assms(1,2,4) core_eq(5)[OF assms(3)] core_closed[OF assms(3)] by (auto simp: sound_operation_def)
  then show ?thesis
    using assms(1) unfolding sound_operation_def retired_soundly_core[OF assms(3)] core_eq(1-4)[OF assms(3)] by blast
qed

lemma file_step_shape: "file_step e key a b \<Longrightarrow> a \<noteq> Some None \<and> (\<exists>op. b = Some (Some op))"
  by (cases "(e, key, a, b)" rule: file_step.cases) auto

lemma file_step_first: "file_step e key None (Some (Some op)) \<longleftrightarrow> sound_operation e key op"
  by simp

lemma file_step_trans:
  assumes ab: "file_step e key a b" and bc: "file_step e key b c" shows "file_step e key a c"
proof -
  obtain ob oc where b: "b = Some (Some ob)" and c: "c = Some (Some oc)"
    using file_step_shape[OF ab] file_step_shape[OF bc] by blast
  show ?thesis
  proof (cases a)
    case None
    then have "sound_operation e key ob" using ab b by simp
    then have "sound_operation e key oc"
      using bc sound_core[of e key ob oc] unfolding b c by (simp split: if_splits)
    then show ?thesis using None c by simp
  next
    case (Some a')
    then obtain oa where a: "a = Some (Some oa)" using file_step_shape[OF ab] by (cases a') auto
    show ?thesis
    proof (cases "terminal_state oa")
      case True
      then have core: "settled_core ob = settled_core oa" "so_closures ob = so_closures oa \<or> all_closed ob"
        using ab by (simp_all add: a b)
      have tb: "terminal_state ob" using True core_eq(5)[OF core(1)] by simp
      then have "settled_core oc = settled_core ob" "so_closures oc = so_closures ob \<or> all_closed oc"
        using bc by (simp_all add: b c)
      then show ?thesis using True core core_closed[of oc ob] by (auto simp: a c)
    next
      case False
      then have s: "sound_operation e key ob" and i: "operationInputsEqual e (so_input oa) (so_input ob)"
        using ab by (simp_all add: a b)
      have "sound_operation e key oc \<and> operationInputsEqual e (so_input ob) (so_input oc)"
        using bc s sound_core[of e key ob oc] core_eq(1)[of oc ob] unfolding b c by (simp split: if_splits)
      then show ?thesis using False inputs_equal_trans[OF i] by (simp add: a c)
    qed
  qed
qed

lemma evolves_refl [simp, intro]: "evolves e key d d"
  by (simp add: evolves_def)

lemma evolves_trans:
  assumes "evolves e key d d1" "evolves e key d1 d2" shows "evolves e key d d2"
proof -
  have "op_at d2 key = op_at d key \<or> file_step e key (op_at d key) (op_at d2 key)"
    using assms file_step_trans[of e key "op_at d key" "op_at d1 key" "op_at d2 key"] by (auto simp: evolves_def)
  then show ?thesis using assms by (simp add: evolves_def)
qed

lemma evolves_anchors: "evolves e key d (d1\<lparr>sd_anchors := x\<rparr>) = evolves e key d d1"
  by (simp add: evolves_def)

lemma write_evolves:
  assumes "write_operation e out d key op = (d', x)" "file_step e key (op_at d key) (Some (Some op))"
  shows "evolves e key d d'"
proof -
  have "file_step e key (op_at d key) (Some (Some (op\<lparr>so_signature := s\<rparr>)))" for s
    using assms(2) by (cases "op_at d key"; simp; cases "the (op_at d key)"; auto split: if_splits)
  then show ?thesis using op_at_write[OF assms(1)] by (auto simp: evolves_def)
qed

section \<open>Every call keeps the journal sound\<close>

definition sound_disk :: "'p snapshot_env \<Rightarrow> 'p snapshot_disk \<Rightarrow> bool" where
  "sound_disk e d \<longleftrightarrow> (\<forall>key op. op_at d key = Some (Some op) \<longrightarrow> sound_operation e key op)"

lemma sound_at: "sound_disk e d \<Longrightarrow> op_at d key = Some (Some op) \<Longrightarrow> sound_operation e key op"
  by (simp add: sound_disk_def)

lemma file_step_sound:
  assumes "file_step e key a (Some (Some op))" "\<And>old. a = Some (Some old) \<Longrightarrow> sound_operation e key old"
  shows "sound_operation e key op"
proof (cases a)
  case None
  then show ?thesis using assms(1) by simp
next
  case (Some a')
  then obtain old where a: "a = Some (Some old)" using file_step_shape[OF assms(1)] by (cases a') auto
  then show ?thesis using assms sound_core[of e key old op] by (auto split: if_splits)
qed

lemma evolves_sound:
  assumes "evolves e key d d'" "sound_disk e d" shows "sound_disk e d'"
  unfolding sound_disk_def
proof (intro allI impI)
  fix k op assume at: "op_at d' k = Some (Some op)"
  show "sound_operation e k op"
  proof (cases "k = key \<and> op_at d' key \<noteq> op_at d key")
    case True
    then have "file_step e key (op_at d key) (Some (Some op))" using assms(1) at by (auto simp: evolves_def)
    then show ?thesis using True file_step_sound[of e key "op_at d key" op] sound_at[OF assms(2)] by blast
  next
    case False
    then have "op_at d k = Some (Some op)" using assms(1) at by (metis evolves_def)
    then show ?thesis by (rule sound_at[OF assms(2)])
  qed
qed

text \<open>A pending operation whose quiescence is rewritten stays sound.\<close>

lemma sound_pending:
  "so_state op = ''pending'' \<Longrightarrow> sound_operation e key op \<longleftrightarrow>
     sv_key e (oi_operation (so_input op)) = key \<and> validOperationID (oi_operation (so_input op)) \<and>
     so_closures op = [] \<and> so_anchor op = None"
  by (auto simp: sound_operation_def terminal_state_def)

lemma pending_step:
  assumes "sound_disk e d" "op_at d key = Some (Some op)" "so_state op = ''pending''"
    "so_input op' = so_input op" "so_state op = ''pending'' \<Longrightarrow> sound_operation e key op'"
  shows "file_step e key (op_at d key) (Some (Some op'))"
  using assms by (simp add: terminal_state_def)

lemma with_quiescence_simps [simp]:
  "so_state (with_quiescence op q) = so_state op" "so_input (with_quiescence op q) = so_input op"
  "so_anchor (with_quiescence op q) = so_anchor op" "so_closures (with_quiescence op q) = so_closures op"
  "so_quiescence (with_quiescence op q) = Some q"
  by (simp_all add: with_quiescence_def)

lemma pending_quiescence_step:
  assumes "sound_disk e d" "op_at d key = Some (Some op)" "so_state op = ''pending''"
  shows "file_step e key (op_at d key) (Some (Some (with_quiescence op q)))"
  using sound_at[OF assms(1,2)] assms(3)
  by (intro pending_step[OF assms]) (simp_all add: sound_pending)

lemma pending_hold_state: "pending_hold op t = Some q \<Longrightarrow> so_state op = ''pending'' \<and> so_quiescence op = Some q \<and> sq_hold q = t"
  by (auto simp: pending_hold_def split: option.splits if_splits)

lemma outcome_evolves:
  assumes "RecordApplicationTransferOutcome e out d operation transfer outcome state = (d', x)" "sound_disk e d"
  shows "evolves e (sv_key e operation) d d'"
  using assms
  by (auto simp: RecordApplicationTransferOutcome_def split: sum.splits option.splits if_splits
      dest!: load_operation_at pending_hold_state intro: write_evolves pending_quiescence_step)

lemma prepare_evolves:
  assumes "PrepareApplicationTransferRetirement e out d operation transfer candidate require = (d', x)" "sound_disk e d"
  shows "evolves e (sv_key e operation) d d'"
  using assms
  by (auto simp: PrepareApplicationTransferRetirement_def split: sum.splits option.splits if_splits
      dest!: load_operation_at pending_hold_state intro: write_evolves pending_quiescence_step)

lemma authorize_evolves:
  assumes "RecordApplicationTransferRetirementAuthorization e out d operation transfer raw = (d', x)" "sound_disk e d"
  shows "evolves e (sv_key e operation) d d'"
  using assms
  by (auto simp: RecordApplicationTransferRetirementAuthorization_def Let_def split: sum.splits option.splits if_splits
      dest!: load_operation_at pending_hold_state intro: write_evolves pending_quiescence_step)

lemma authorization_fields:
  assumes "so_input op' = so_input op" "so_quiescence op = Some q" "so_quiescence op' = Some q'"
    "sq_requires_capability q' = sq_requires_capability q" "sq_capability q' = sq_capability q" "sq_hold q' = sq_hold q"
    "sq_outcome_digest q' = sq_outcome_digest q" "sq_outcome_state q' = sq_outcome_state q" "sq_candidate q' = sq_candidate q"
  shows "validateApplicationTransferRetirementAuthorization e op' = validateApplicationTransferRetirementAuthorization e op"
  unfolding validateApplicationTransferRetirementAuthorization_def assms option.case ..

lemma retirement_authorization_keeps:
  assumes "validateApplicationTransferRetirementAuthorization e op = None" "so_quiescence op = Some q"
  shows "validateApplicationTransferRetirementAuthorization e
    ((with_quiescence op (q\<lparr>sq_phase := phase, sq_retired_spec := retired\<rparr>))\<lparr>so_state := st\<rparr>) = None"
  by (subst authorization_fields[OF _ assms(2), where q' = "q\<lparr>sq_phase := phase, sq_retired_spec := retired\<rparr>"])
     (simp_all add: assms(1))

lemma retirement_sound:
  assumes "sound_operation e key op" "so_state op = ''pending''" "so_quiescence op = Some q"
    "validateApplicationTransferRetirementAuthorization e op = None" "validDigest (sq_outcome_digest q)"
    "validDigest retired" "sq_candidate q = retired"
    "phase = ''transfer-retired'' \<and> sq_outcome_state q = ''activated'' \<or>
     phase = ''transfer-aborted'' \<and> sq_outcome_state q = ''stopped'' \<and> (\<exists>operation. key = sv_key e operation \<and> abort_operation operation)"
  shows "sound_operation e key
    ((with_quiescence op (q\<lparr>sq_phase := phase, sq_retired_spec := retired\<rparr>))\<lparr>so_state := ''transferred''\<rparr>)"
  using assms(1,2,5-8) retirement_authorization_keeps[OF assms(4,3), where phase = phase and retired = retired and st = "''transferred''"]
  by (auto simp: sound_operation_def terminal_state_def retired_soundly_def)

lemma complete_retirement_evolves:
  assumes run: "complete_retirement phase outcome e out d operation transfer retired = (d', x)" and d: "sound_disk e d"
    and retired: "validDigest retired"
    and phase: "phase = ''transfer-retired'' \<and> outcome = ''activated'' \<or>
      phase = ''transfer-aborted'' \<and> outcome = ''stopped'' \<and> abort_operation operation"
  shows "evolves e (sv_key e operation) d d'"
proof (cases "loadOperation e d (sv_key e operation)")
  case (Inl y)
  then show ?thesis using run by (simp add: complete_retirement_def)
next
  case (Inr op)
  have at: "op_at d (sv_key e operation) = Some (Some op)" using load_operation_at[OF Inr] by simp
  show ?thesis
  proof (cases "d' = d")
    case False
    obtain q where q: "validateApplicationTransferRetirementAuthorization e op = None" "so_quiescence op = Some q"
      "so_state op = ''pending''" "sq_outcome_state q = outcome" "validDigest (sq_outcome_digest q)" "sq_candidate q = retired"
      and w: "write_operation e out d (sv_key e operation)
        ((with_quiescence op (q\<lparr>sq_phase := phase, sq_retired_spec := retired\<rparr>))\<lparr>so_state := ''transferred''\<rparr>) = (d', x)"
      using run False Inr by (auto simp: complete_retirement_def split: option.splits if_splits)
    have "sound_operation e (sv_key e operation)
        ((with_quiescence op (q\<lparr>sq_phase := phase, sq_retired_spec := retired\<rparr>))\<lparr>so_state := ''transferred''\<rparr>)"
      using phase q by (intro retirement_sound[OF sound_at[OF d at] q(3,2,1,5) retired q(6)]) auto
    then show ?thesis
      by (intro write_evolves[OF w] pending_step[OF d at q(3)]) simp_all
  qed simp
qed

lemma retire_evolves:
  assumes "CompleteApplicationTransferRetirement e out d operation transfer retired = (d', x)" "sound_disk e d"
  shows "evolves e (sv_key e operation) d d'"
  using assms complete_retirement_evolves
  by (fastforce simp: CompleteApplicationTransferRetirement_def split: if_splits)

lemma abort_evolves:
  assumes "CompleteApplicationTransferAbortRetirement e out d operation transfer retired = (d', x)" "sound_disk e d"
  shows "evolves e (sv_key e operation) d d'"
  using assms complete_retirement_evolves
  by (fastforce simp: CompleteApplicationTransferAbortRetirement_def split: if_splits)

text \<open>During a run its file is absent or pending with the run's input.\<close>

definition open_for :: "'p snapshot_env \<Rightarrow> 'p operation_input \<Rightarrow> 'p snapshot_disk \<Rightarrow> string \<Rightarrow> bool" where
  "open_for e i d key \<longleftrightarrow>
     key = sv_key e (oi_operation i) \<and> validOperationID (oi_operation i) \<and>
     (op_at d key = None \<or>
      (\<exists>op. op_at d key = Some (Some op) \<and> so_state op = ''pending'' \<and> sound_operation e key op \<and>
            operationInputsEqual e (so_input op) i))"

lemma open_step:
  assumes "open_for e i d key" "sound_operation e key op" "so_input op = i"
  shows "file_step e key (op_at d key) (Some (Some op))"
  using assms by (auto simp: open_for_def terminal_state_def)

lemma sound_pending_operation [simp]:
  "sound_operation e key (pending_operation i q) \<longleftrightarrow> sv_key e (oi_operation i) = key \<and> validOperationID (oi_operation i)"
  by (subst sound_pending) (simp_all add: pending_operation_def)

lemma pending_operation_simps [simp]:
  "so_input (pending_operation i q) = i" "so_state (pending_operation i q) = ''pending''"
  "so_quiescence (pending_operation i q) = q"
  by (simp_all add: pending_operation_def)

lemma write_pending:
  assumes w: "write_operation e out d key (pending_operation i q) = (d', x)" and o: "open_for e i d key"
  shows "evolves e key d d'" "open_for e i d' key"
proof -
  have key: "sv_key e (oi_operation i) = key" "validOperationID (oi_operation i)" using o by (simp_all add: open_for_def)
  show "evolves e key d d'"
    by (rule write_evolves[OF w open_step[OF o]]) (simp_all add: key)
  show "open_for e i d' key"
    using op_at_write(2)[OF w] o key by (auto simp: open_for_def)
qed

lemma persist_evolves:
  assumes "persistSnapshotQuiescence e out d key i q = (d', x)" "open_for e i d key"
  shows "evolves e key d d' \<and> open_for e i d' key"
  using assms write_pending[where q = "Some (cloneSnapshotQuiescence q)"]
  by (fastforce simp: persistSnapshotQuiescence_def split: option.splits)

lemma persist_all_evolves:
  "open_for e i d key \<Longrightarrow> evolves e key d (persist_all e key i ps d) \<and> open_for e i (persist_all e key i ps d) key"
proof (induction ps arbitrary: d)
  case (Cons p ps)
  obtain q out where p: "p = (q, out)" by (cases p)
  obtain d1 x where d1: "persistSnapshotQuiescence e out d key i q = (d1, x)" by fastforce
  show ?case using persist_evolves[OF d1 Cons.prems] Cons.IH[of d1] d1 by (auto simp: p intro: evolves_trans)
qed simp

lemma closing_step:
  assumes "op_at d key = Some (Some op')" "settled_core op' = settled_core op" "terminal_state op" "so_quiescence op = Some q"
  shows "file_step e key (op_at d key) (Some (Some (op\<lparr>so_closures := group_ids q\<rparr>)))"
  using assms core_eq(5)[OF assms(2)] by (simp add: all_closed_def settled_core_def)

lemma close_completed_evolves:
  assumes run: "closeCompletedSnapshotGroups e c out d key op = (d', x)" and at: "op_at d key = Some (Some op')"
    and core: "settled_core op' = settled_core op"
  shows "evolves e key d d'"
proof (cases "d' = d")
  case False
  obtain q where "so_quiescence op = Some q" "terminal_state op"
    "write_operation e out d key (op\<lparr>so_closures := group_ids q\<rparr>) = (d', x)"
    using run False by (auto simp: closeCompletedSnapshotGroups_def terminal_state_def split: option.splits if_splits)
  then show ?thesis using closing_step[OF at core] write_evolves by blast
qed simp

lemma close_failed_evolves:
  assumes run: "closeFailedSnapshotGroups e c out d key op = (d', x)" and at: "op_at d key = Some (Some op')"
    and core: "settled_core op' = settled_core op"
  shows "evolves e key d d'"
proof (cases "d' = d")
  case False
  obtain q where "so_quiescence op = Some q" "terminal_state op"
    "write_operation e out d key (op\<lparr>so_closures := group_ids q\<rparr>) = (d', x)"
    using run False by (auto simp: closeFailedSnapshotGroups_def terminal_state_def split: option.splits if_splits)
  then show ?thesis using closing_step[OF at core] write_evolves by blast
qed simp

lemma restored_failed_sound:
  assumes "sound_operation e key op" "so_state op = ''pending''" "so_quiescence op = Some q" "sq_version q = 2"
    "validateRestoredSnapshotQuiescence e q = None"
  shows "sound_operation e key (op\<lparr>so_state := ''failed'', so_failure := f\<rparr>)"
  using assms by (simp add: sound_operation_def terminal_state_def)

lemma settle_evolves:
  assumes run: "settleFailedSnapshot e c out1 out2 d key i = (d', x)" and o: "open_for e i d key"
  shows "evolves e key d d'"
proof (cases "d' = d")
  case False
  obtain op q where op: "loadOperation e d key = Inr op" and q: "so_quiescence op = Some q" "so_state op = ''pending''"
    "sq_version q = 2" "validateRestoredSnapshotQuiescence e q = None"
    using run False by (auto simp: settleFailedSnapshot_def split: sum.splits option.splits if_splits)
  let ?op = "op\<lparr>so_state := ''failed'', so_failure := failed_after_settlement\<rparr>"
  obtain d1 y where w: "write_operation e out1 d key ?op = (d1, y)" by fastforce
  have at: "op_at d key = Some (Some op)" using load_operation_at[OF op] by simp
  have sound: "sound_operation e key op" using o at by (auto simp: open_for_def)
  have step: "file_step e key (op_at d key) (Some (Some ?op))"
    using restored_failed_sound[OF sound q(2,1,3,4)] q(2) by (simp add: at terminal_state_def)
  have e1: "evolves e key d d1" by (rule write_evolves[OF w step])
  show ?thesis
  proof (cases y)
    case (Some z)
    then show ?thesis using run op q w e1 False by (auto simp: settleFailedSnapshot_def split: if_splits)
  next
    case None
    then have c: "closeFailedSnapshotGroups e c out2 d1 key ?op = (d', x)"
      using run op q w False by (auto simp: settleFailedSnapshot_def split: if_splits)
    obtain s where "op_at d1 key = Some (Some (?op\<lparr>so_signature := s\<rparr>))" using op_at_write(3)[OF w None] by blast
    then have "evolves e key d1 d'" using close_failed_evolves[OF c] settled_core_signed by blast
    then show ?thesis using e1 by (rule evolves_trans[rotated])
  qed
qed simp

lemma store_anchor_operations:
  "store_anchor e out d a = (d', x) \<Longrightarrow> sd_operations d' = sd_operations d"
  by (auto simp: store_anchor_def Let_def split: sum.splits option.splits if_splits)

lemma make_anchor_verified:
  "make_anchor e i q repository snapshot = Inr a \<Longrightarrow>
   VerifySnapshotAnchor e a = None \<and> sa_input a = i \<and> sa_quiescence a = q"
  by (auto simp: make_anchor_def Let_def split: option.splits)

lemma completed_sound:
  assumes "make_anchor e i q repository snapshot = Inr a"
  shows "sound_operation e key (completed_operation i q a) \<longleftrightarrow>
    sv_key e (oi_operation i) = key \<and> validOperationID (oi_operation i)"
  using make_anchor_verified[OF assms] by (auto simp: sound_operation_def completed_operation_def pending_operation_def)

lemma completed_operation_simps [simp]:
  "so_input (completed_operation i q a) = i" "so_state (completed_operation i q a) = ''completed''"
  "so_quiescence (completed_operation i q a) = q" "so_anchor (completed_operation i q a) = Some a"
  by (simp_all add: completed_operation_def)

lemma close_completed_core:
  assumes run: "closeCompletedSnapshotGroups e c out d key op = (d', x)" and at: "op_at d key = Some (Some op)"
  shows "\<exists>op'. op_at d' key = Some (Some op') \<and> settled_core op' = settled_core op"
proof (cases "d' = d")
  case False
  obtain q where w: "write_operation e out d key (op\<lparr>so_closures := group_ids q\<rparr>) = (d', x)"
    using run False by (auto simp: closeCompletedSnapshotGroups_def split: option.splits if_splits)
  show ?thesis using op_at_write(2)[OF w] at by (auto simp: settled_core_def)
qed (simp add: at)

lemma journal_completion_effect:
  assumes run: "journal_completion e c out1 out2 d key i q a = (d', x)" and o: "open_for e i d key"
    and a: "make_anchor e i q repository snapshot = Inr a"
  shows "evolves e key d d'"
    and "x = Inr b \<Longrightarrow> b = a \<and> (\<exists>op. op_at d' key = Some (Some op) \<and> so_state op = ''completed'' \<and> so_anchor op = Some a)"
proof -
  obtain d1 y where w: "write_operation e out1 d key (completed_operation i q a) = (d1, y)" by fastforce
  have e1: "evolves e key d d1"
    using o by (intro write_evolves[OF w] open_step[OF o]) (simp_all add: completed_sound[OF a], simp add: open_for_def)
  have "evolves e key d d' \<and> (x = Inr b \<longrightarrow> b = a \<and>
    (\<exists>op. op_at d' key = Some (Some op) \<and> so_state op = ''completed'' \<and> so_anchor op = Some a))"
  proof (cases "y = None \<and> (\<exists>op. loadOperation e d1 key = Inr op)")
    case False
    then have "d' = d1 \<and> (\<exists>z. x = Inl z)"
      using run w by (auto simp: journal_completion_def split: option.splits sum.splits)
    then show ?thesis using e1 by auto
  next
    case True
    then obtain op where y: "y = None" and load: "loadOperation e d1 key = Inr op" by blast
    obtain d2 z where c: "closeCompletedSnapshotGroups e c out2 d1 key op = (d2, z)" by fastforce
    have x: "d' = d2" "x = Inr b \<longrightarrow> b = a"
      using run by (auto simp: journal_completion_def w y load c split: option.splits)
    have at: "op_at d1 key = Some (Some op)" using load_operation_at[OF load] by simp
    obtain s where "op_at d1 key = Some (Some ((completed_operation i q a)\<lparr>so_signature := s\<rparr>))"
      using op_at_write(3)[OF w y] by blast
    then have op: "so_state op = ''completed''" "so_anchor op = Some a" using at by auto
    obtain op' where op': "op_at d2 key = Some (Some op')" "settled_core op' = settled_core op"
      using close_completed_core[OF c at] by blast
    have "evolves e key d d2" by (rule evolves_trans[OF e1 close_completed_evolves[OF c at refl]])
    then show ?thesis using x op op' core_eq[OF op'(2)] by auto
  qed
  then show "evolves e key d d'"
    "x = Inr b \<Longrightarrow> b = a \<and> (\<exists>op. op_at d' key = Some (Some op) \<and> so_state op = ''completed'' \<and> so_anchor op = Some a)"
    by blast+
qed

lemma complete_snapshot_cases:
  assumes "completeSnapshot e c out1 out2 out3 d key i repository snapshot restored = (d', x)"
  obtains y where "sd_operations d' = sd_operations d" "x = Inl y"
  | q a d1 where "make_anchor e i q repository snapshot = Inr a" "sd_operations d1 = sd_operations d"
      "journal_completion e c out2 out3 d1 key i q a = (d', x)"
  using assms store_anchor_operations
  by (fastforce simp: completeSnapshot_def split: sum.splits if_splits option.splits prod.splits)

lemma complete_snapshot_evolves:
  assumes run: "completeSnapshot e c out1 out2 out3 d key i repository snapshot restored = (d', x)" and o: "open_for e i d key"
  shows "evolves e key d d' \<and> (\<forall>a. x = Inr a \<longrightarrow>
    (\<exists>op. op_at d' key = Some (Some op) \<and> so_state op = ''completed'' \<and> so_anchor op = Some a))"
  using run
proof (cases rule: complete_snapshot_cases)
  case (1 y)
  then show ?thesis by (simp add: evolves_def)
next
  case (2 q b d1)
  have "open_for e i d1 key" using o unfolding open_for_def 2(2) .
  then show ?thesis
    using journal_completion_effect[OF 2(3) _ 2(1)] 2(2) by (fastforce simp: evolves_def)
qed

lemma finish_evolves:
  assumes "finish_run e re d key i repository request receipt restored = (d', x)" "open_for e i d key"
  shows "evolves e key d d' \<and> (\<forall>a. x = Inr a \<longrightarrow>
    (\<exists>op. op_at d' key = Some (Some op) \<and> so_state op = ''completed'' \<and> so_anchor op = Some a))"
  using assms complete_snapshot_evolves settle_evolves
  by (fastforce simp: finish_run_def split: option.splits if_splits prod.splits)

lemma quiesced_evolves:
  assumes run: "quiesced_run e re d key i repository request = (d', x)" and o: "open_for e i d key"
  shows "evolves e key d d' \<and> (\<forall>a. x = Inr a \<longrightarrow>
    (\<exists>op. op_at d' key = Some (Some op) \<and> so_state op = ''completed'' \<and> so_anchor op = Some a))"
  using finish_evolves[OF run[unfolded quiesced_run_def]] persist_all_evolves[OF o] evolves_trans by blast

lemma create_evolves:
  assumes run: "create_run e re d key i repository request = (d', x)" and o: "open_for e i d key"
  shows "evolves e key d d' \<and> (\<forall>a. x = Inr a \<longrightarrow>
    (\<exists>op. op_at d' key = Some (Some op) \<and> so_state op = ''completed'' \<and> so_anchor op = Some a))"
  using assms quiesced_evolves finish_evolves by (fastforce simp: create_run_def split: if_splits)

lemma first_evolves:
  assumes run: "first_run e re d key i repository request = (d', x)" and o: "open_for e i d key"
  shows "evolves e key d d' \<and> (\<forall>a. x = Inr a \<longrightarrow>
    (\<exists>op. op_at d' key = Some (Some op) \<and> so_state op = ''completed'' \<and> so_anchor op = Some a))"
proof -
  obtain d1 y where w: "write_operation e (re_begin re) d key (pending_operation i None) = (d1, y)" by fastforce
  show ?thesis
    using run create_evolves[OF _ write_pending(2)[OF w o], of re repository request d' x] write_pending(1)[OF w o]
    by (auto simp: first_run_def w split: if_splits option.splits intro: evolves_trans)
qed

lemma resumed_evolves:
  assumes run: "resumed_run e re d key i repository request op = (d', x)" and o: "open_for e i d key"
  shows "evolves e key d d' \<and> (\<forall>a. x = Inr a \<longrightarrow>
    (\<exists>op. op_at d' key = Some (Some op) \<and> so_state op = ''completed'' \<and> so_anchor op = Some a))"
  using run quiesced_evolves[OF _ o] create_evolves[OF _ o] finish_evolves[OF _ o]
  by (fastforce simp: resumed_run_def split: if_splits option.splits)

lemma replay_failed_evolves:
  assumes "replay_failed e c out d key op = (d', x)" "op_at d key = Some (Some op)"
  shows "evolves e key d d' \<and> (\<forall>a. x \<noteq> Inr a)"
  using assms close_failed_evolves[OF _ assms(2) refl]
  by (auto simp: replay_failed_def split: prod.splits option.splits)

lemma replay_completed_evolves:
  assumes run: "replay_completed e c out d key op a = (d', x)" and at: "op_at d key = Some (Some op)"
    and op: "so_state op = ''completed''" "so_anchor op = Some a"
  shows "evolves e key d d' \<and> (\<forall>b. x = Inr b \<longrightarrow>
    b = a \<and> (\<exists>op'. op_at d' key = Some (Some op') \<and> so_state op' = ''completed'' \<and> so_anchor op' = Some a))"
proof -
  obtain d1 y where c: "closeCompletedSnapshotGroups e c out d key op = (d1, y)" by fastforce
  obtain op' where op': "op_at d1 key = Some (Some op')" "settled_core op' = settled_core op"
    using close_completed_core[OF c at] by blast
  show ?thesis
    using run close_completed_evolves[OF c at refl] op' core_eq[OF op'(2)] op
    by (auto simp: replay_completed_def c split: option.splits if_splits sum.splits)
qed

lemma run_evolves:
  assumes run: "run e re d r = (d', x)" and d: "sound_disk e d"
  shows "evolves e (sv_key e (ri_operation r)) d d' \<and> (\<forall>a. x = Inr a \<longrightarrow>
    (\<exists>op. op_at d' (sv_key e (ri_operation r)) = Some (Some op) \<and> so_state op = ''completed'' \<and> so_anchor op = Some a))"
proof (cases "re_configuration re = None \<or> \<not> validOperationID (ri_operation r)")
  case True
  then show ?thesis using run by (auto simp: run_def split: option.splits if_splits)
next
  case False
  then obtain cf where Some: "re_configuration re = Some cf" and valid: "validOperationID (ri_operation r)" by auto
  let ?key = "sv_key e (ri_operation r)" and ?i = "bound_input cf r"
  have i: "oi_operation ?i = ri_operation r" "validOperationID (oi_operation ?i)" using valid by (simp_all add: bound_input_def)
  show ?thesis
  proof (cases "loadOperation e d ?key")
    case (Inl y)
    show ?thesis
    proof (cases "y = OperationMissing")
      case True
      then have "open_for e ?i d ?key" using load_operation_missing[of e d ?key] Inl i by (simp add: open_for_def)
      then show ?thesis
        using run first_evolves[of e re d ?key ?i "cf_repository cf" _ d' x]
        by (auto simp: run_def Some Inl True Let_def split: option.splits if_splits sum.splits)
    next
      case False
      then show ?thesis using run by (auto simp: run_def Some Inl Let_def split: option.splits if_splits record_error.splits)
    qed
  next
    case (Inr op)
    have at: "op_at d ?key = Some (Some op)" using load_operation_at[OF Inr] by simp
    have o: "open_for e ?i d ?key" if "so_state op = ''pending''" "operationInputsEqual e (so_input op) ?i"
      using that at sound_at[OF d at] by (simp add: open_for_def i(1) valid)
    show ?thesis
    proof (cases "run_journaled e re d ?key ?i (cf_repository cf) op = (d', x)")
      case False
      then show ?thesis using run by (auto simp: run_def Some Inr Let_def split: option.splits if_splits)
    next
      case True
      then show ?thesis
        using resumed_evolves[OF _ o] replay_failed_evolves[OF _ at] replay_completed_evolves[OF _ at]
        by (fastforce simp: run_journaled_def split: if_splits option.splits sum.splits)
    qed
  qed
qed

lemma snapshot_call_evolves:
  assumes "snapshot_call e d d'" "sound_disk e d" shows "\<exists>key. evolves e key d d'"
  using assms(1)
proof (cases rule: snapshot_call.cases)
  case (call_run re r x)
  then show ?thesis using run_evolves[OF _ assms(2)] by blast
next
  case (call_outcome out operation transfer outcome state x)
  then show ?thesis using outcome_evolves[OF _ assms(2)] by blast
next
  case (call_prepare out operation transfer candidate require x)
  then show ?thesis using prepare_evolves[OF _ assms(2)] by blast
next
  case (call_authorize out operation transfer raw x)
  then show ?thesis using authorize_evolves[OF _ assms(2)] by blast
next
  case (call_retire out operation transfer retired x)
  then show ?thesis using retire_evolves[OF _ assms(2)] by blast
next
  case (call_abort out operation transfer retired x)
  then show ?thesis using abort_evolves[OF _ assms(2)] by blast
qed

lemma snapshot_call_sound: "snapshot_call e d d' \<Longrightarrow> sound_disk e d \<Longrightarrow> sound_disk e d'"
  using snapshot_call_evolves evolves_sound by blast

lemma snapshot_reachable_sound: "snapshot_reachable e d \<Longrightarrow> sound_disk e d"
proof (induction rule: snapshot_reachable.induct)
  case reach_empty
  show ?case by (simp add: sound_disk_def empty_disk_def)
next
  case (reach_call d d')
  show ?case by (rule snapshot_call_sound[OF reach_call.hyps(2) reach_call.IH])
qed

end
