(* ===== verification/SnapshotOutcomes.thy ===== *)
theory SnapshotOutcomes
  imports SnapshotJournal
begin

text \<open>
  What the snapshot journal guarantees: one result per operation, restored writers after every end,
  evidence for every retirement, a gate that admits nothing while a writer is disturbed or a record is
  damaged, and an append-only history of the stopped groups. At the end, concrete journals and the
  witnesses.
\<close>

section \<open>Reachable journals\<close>

abbreviation later :: "'p snapshot_env \<Rightarrow> 'p snapshot_disk \<Rightarrow> 'p snapshot_disk \<Rightarrow> bool" where
  "later e \<equiv> (snapshot_call e)\<^sup>*\<^sup>*"

lemma later_reachable: "later e d d' \<Longrightarrow> snapshot_reachable e d \<Longrightarrow> snapshot_reachable e d'"
  by (induction rule: rtranclp_induct) (auto intro: reach_call)

interpretation snapshot_calls: started_steps "sound_disk e" "snapshot_call e" empty_disk for e
  by unfold_locales (rule snapshot_call_sound, assumption+, simp add: sound_disk_def empty_disk_def)

lemma ended_file_step:
  assumes "evolves e key' d d'" "op_at d key = Some (Some op)" "terminal_state op"
  shows "\<exists>op'. op_at d' key = Some (Some op') \<and> settled_core op' = settled_core op \<and> (so_closures op' = so_closures op \<or> all_closed op')"
proof (cases "op_at d' key = op_at d key")
  case False
  then have "key = key'" and step: "file_step e key (op_at d key) (op_at d' key)"
    using assms(1) by (auto simp: evolves_def)
  obtain op' where "op_at d' key = Some (Some op')" using file_step_shape[OF step] by blast
  then show ?thesis using step assms(2,3) by simp
qed (simp add: assms(2))

text \<open>A file that still shows the terminal operation it showed before.\<close>

definition ended_as :: "string \<Rightarrow> 'p snapshot_operation \<Rightarrow> 'p snapshot_disk \<Rightarrow> bool" where
  "ended_as key op d \<longleftrightarrow>
     (\<exists>op'. op_at d key = Some (Some op') \<and> settled_core op' = settled_core op \<and>
            (so_closures op' = so_closures op \<or> all_closed op'))"

lemma ended_step:
  assumes "ended_as key op d" "terminal_state op" "sound_disk e d" "snapshot_call e d d'"
  shows "ended_as key op d'"
proof -
  obtain op1 where op1: "op_at d key = Some (Some op1)" "settled_core op1 = settled_core op"
    "so_closures op1 = so_closures op \<or> all_closed op1" using assms(1) by (auto simp: ended_as_def)
  have "terminal_state op1" using core_eq(5)[OF op1(2)] assms(2) by simp
  moreover obtain k where "evolves e k d d'" using snapshot_call_evolves[OF assms(4,3)] by blast
  ultimately obtain op2 where "op_at d' key = Some (Some op2)" "settled_core op2 = settled_core op1"
    "so_closures op2 = so_closures op1 \<or> all_closed op2" using ended_file_step[OF _ op1(1)] by blast
  then show ?thesis using op1 core_closed[of op2 op1] by (auto simp: ended_as_def)
qed

interpretation ended_operation: guarded_steps "\<lambda>d. sound_disk e d \<and> terminal_state op \<and> ended_as key op d" "snapshot_call e"
  for e key op
  by unfold_locales (auto intro: ended_step snapshot_call_sound)

lemma terminal_later:
  assumes "snapshot_reachable e d" "later e d d'" "op_at d key = Some (Some op)" "terminal_state op"
  shows "\<exists>op'. op_at d' key = Some (Some op') \<and> settled_core op' = settled_core op \<and> (so_closures op' = so_closures op \<or> all_closed op')"
  using ended_operation.run_valid[OF assms(2), of op key] snapshot_reachable_sound[OF assms(1)] assms(3,4)
  by (simp add: ended_as_def)

text \<open>
  C17. A snapshot operation that completed, failed or was transferred is final: whatever is called
  afterwards, with whatever runtime and whatever write failures, its file keeps every field but the
  list of closed app groups, and that list changes only to the exact list of its groups.
\<close>

theorem terminal_snapshot_is_final:
  assumes "snapshot_reachable e d" "(snapshot_call e)\<^sup>*\<^sup>* d d'"
    and "map_of (sd_operations d) key = Some (Some op)" "so_state op \<noteq> ''pending''"
  shows "\<exists>op'. map_of (sd_operations d') key = Some (Some op') \<and> settled_core op' = settled_core op \<and>
    (so_closures op' = so_closures op \<or> all_closed op')"
  using terminal_later[OF assms(1-3)] assms(4) by (simp add: terminal_state_def)

lemma run_result:
  assumes "snapshot_reachable e d" "run e re d r = (d', Inr a)"
  obtains op where "op_at d' (sv_key e (ri_operation r)) = Some (Some op)" "so_state op = ''completed''" "so_anchor op = Some a"
  using run_evolves[OF assms(2) snapshot_reachable_sound[OF assms(1)]] by blast

text \<open>
  C12. A snapshot operation has one result: once a run of it returned an anchor, every later run of
  the same operation, after any other calls and with any runtime, returns that anchor or an error.
\<close>

theorem snapshot_result_is_unique:
  assumes "snapshot_reachable e d" "run e re d r = (d1, Inr a)" "(snapshot_call e)\<^sup>*\<^sup>* d1 d2"
    and "ri_operation r' = ri_operation r" "run e re' d2 r' = (d3, Inr b)"
  shows "b = a"
proof -
  let ?key = "sv_key e (ri_operation r)"
  have d1: "snapshot_reachable e d1" by (rule reach_call[OF assms(1) call_run[OF assms(2)]])
  have d2: "snapshot_reachable e d2" by (rule later_reachable[OF assms(3) d1])
  obtain op where op: "op_at d1 ?key = Some (Some op)" "so_state op = ''completed''" "so_anchor op = Some a"
    by (rule run_result[OF assms(1,2)])
  obtain op3 where op3: "op_at d3 ?key = Some (Some op3)" "so_anchor op3 = Some b"
    using run_result[OF d2 assms(5)] assms(4) by metis
  have d3: "later e d1 d3" using assms(3) call_run[OF assms(5)] by (rule rtranclp.rtrancl_into_rtrancl)
  have "terminal_state op" using op(2) by (simp add: terminal_state_def)
  then obtain op' where "op_at d3 ?key = Some (Some op')" "settled_core op' = settled_core op"
    using terminal_later[OF d1 d3 op(1)] by blast
  then show ?thesis using op(3) op3 core_eq(4)[of op' op] by simp
qed

text \<open>
  A negative end is permanent: once an operation is journaled as failed or as transferred, no
  later run of it returns an anchor.
\<close>

theorem negative_snapshot_is_permanent:
  assumes "snapshot_reachable e d" "map_of (sd_operations d) (sv_key e (ri_operation r)) = Some (Some op)"
    and "so_state op = ''failed'' \<or> so_state op = ''transferred''" "(snapshot_call e)\<^sup>*\<^sup>* d d2"
  shows "run e re d2 r \<noteq> (d3, Inr b)"
proof
  assume again: "run e re d2 r = (d3, Inr b)"
  let ?key = "sv_key e (ri_operation r)"
  have d2: "snapshot_reachable e d2" by (rule later_reachable[OF assms(4,1)])
  obtain op3 where op3: "op_at d3 ?key = Some (Some op3)" "so_state op3 = ''completed''"
    by (rule run_result[OF d2 again])
  have d3: "later e d d3" using assms(4) call_run[OF again] by (rule rtranclp.rtrancl_into_rtrancl)
  have "terminal_state op" using assms(3) by (auto simp: terminal_state_def)
  then obtain op' where "op_at d3 ?key = Some (Some op')" "settled_core op' = settled_core op"
    using terminal_later[OF assms(1) d3 assms(2)] by blast
  then show False using assms(3) op3 core_eq(2)[of op' op] by auto
qed

lemma valid_quiescence_parts:
  assumes "validateSnapshotQuiescence e q = None"
  shows "sq_version q = 2 \<Longrightarrow> validateSnapshotAppGroups e q = None" "sq_version q \<noteq> 2 \<Longrightarrow> sq_groups q = []"
    "sq_version q = 1 \<or> sq_version q = 2 \<Longrightarrow> c \<in> set (sq_controls q) \<Longrightarrow> check_control q c = None"
proof -
  have v: "check (sq_version q \<noteq> 2 \<and> sq_groups q \<noteq> []) GroupsNeedV2 = None"
    "(if sq_version q = 2 then validateSnapshotAppGroups e q else None) = None"
    "(if sq_version q = 1 \<or> sq_version q = 2
     then first_err (check (sq_version q = 1 \<and> length (sq_controls q) \<noteq> length (sq_containers q)) ControlSetIncomplete)
                    (first_err_list (check_control q) (sq_controls q))
     else None) = None"
    using assms unfolding validateSnapshotQuiescence_def first_err_None by blast+
  show "sq_version q = 2 \<Longrightarrow> validateSnapshotAppGroups e q = None" using v(2) by simp
  show "sq_version q \<noteq> 2 \<Longrightarrow> sq_groups q = []" using v(1) by (simp add: check_def split: if_splits)
  show "sq_version q = 1 \<or> sq_version q = 2 \<Longrightarrow> c \<in> set (sq_controls q) \<Longrightarrow> check_control q c = None"
    using v(3) by auto
qed

lemma claimed_groups_restored:
  "claim_groups e q ids gs = Inr ids' \<Longrightarrow> sq_phase q = ''restored'' \<Longrightarrow> g \<in> set gs \<Longrightarrow> AppGroupRestored g"
proof (induction gs arbitrary: ids)
  case (Cons h gs)
  obtain ids1 where "\<not> (sq_phase q = ''restored'' \<and> \<not> AppGroupRestored h)" "claim_groups e q ids1 gs = Inr ids'"
    using Cons.prems(1) by (auto simp: ebind_def split: sum.splits if_splits)
  then show ?case using Cons.IH Cons.prems by auto
qed simp

lemma restored_quiescence:
  assumes "validateRestoredSnapshotQuiescence e q = None"
  shows "sq_phase q = ''restored''" "\<And>g. g \<in> set (sq_groups q) \<Longrightarrow> AppGroupRestored g"
    "\<And>c. sq_version q = 1 \<or> sq_version q = 2 \<Longrightarrow> c \<in> set (sq_controls q) \<Longrightarrow> eff_state (rc_stop c) \<noteq> NoState \<Longrightarrow>
      eff_state (rc_start c) = ControlObserved"
    "sq_version q = 2 \<Longrightarrow> sq_groups q \<noteq> []"
proof -
  have v: "validateSnapshotQuiescence e q = None" and p: "sq_phase q = ''restored''"
    using assms by (simp_all add: validateRestoredSnapshotQuiescence_def check_def split: if_splits)
  note parts = valid_quiescence_parts[OF v]
  show "sq_phase q = ''restored''" by (fact p)
  have groups: "sq_groups q \<noteq> [] \<and> (\<exists>ids ids'. claim_groups e q ids (sq_groups q) = Inr ids')" if "sq_version q = 2"
    using parts(1)[OF that] by (auto simp: validateSnapshotAppGroups_def split: if_splits option.splits sum.splits)
  show "AppGroupRestored g" if g: "g \<in> set (sq_groups q)" for g
    using claimed_groups_restored[OF _ p g] groups parts(2) g by (cases "sq_version q = 2") auto
  show "eff_state (rc_start c) = ControlObserved"
    if "sq_version q = 1 \<or> sq_version q = 2" "c \<in> set (sq_controls q)" "eff_state (rc_stop c) \<noteq> NoState" for c
    using parts(3)[OF that(1,2)] that(3) by (simp add: check_control_def check_def p split: if_splits)
  show "sq_version q = 2 \<Longrightarrow> sq_groups q \<noteq> []" using groups by blast
qed

text \<open>
  C8. A snapshot that ended, with an anchor or as failed, left its writers running: in every
  reachable journal the quiescence of a completed or failed operation is in the phase restored, each
  of its app groups is restored, and each container stopped through the runtime was observed started
  again; the anchor of a completed operation verifies and carries exactly that evidence.
\<close>

theorem ended_snapshot_restored_writers:
  assumes "snapshot_reachable e d" "map_of (sd_operations d) key = Some (Some op)"
    and "so_state op = ''completed'' \<or> so_state op = ''failed''" "so_quiescence op = Some q"
  shows "sq_phase q = ''restored'' \<and> (\<forall>g \<in> set (sq_groups q). AppGroupRestored g) \<and>
    (sq_version q = 1 \<or> sq_version q = 2 \<longrightarrow>
      (\<forall>c \<in> set (sq_controls q). eff_state (rc_stop c) \<noteq> NoState \<longrightarrow> eff_state (rc_start c) = ControlObserved)) \<and>
    (so_state op = ''completed'' \<longrightarrow>
      (\<exists>a. so_anchor op = Some a \<and> VerifySnapshotAnchor e a = None \<and> sa_input a = so_input op \<and> sa_quiescence a = Some q))"
proof -
  have s: "sound_operation e key op" by (rule sound_at[OF snapshot_reachable_sound[OF assms(1)] assms(2)])
  have anchor: "\<exists>a. so_anchor op = Some a \<and> VerifySnapshotAnchor e a = None \<and> sa_input a = so_input op \<and> sa_quiescence a = Some q"
    if "so_state op = ''completed''" using s that assms(4) by (auto simp: sound_operation_def)
  have "validateRestoredSnapshotQuiescence e q = None"
    using assms(3)
  proof
    assume "so_state op = ''completed''"
    then obtain a where "VerifySnapshotAnchor e a = None" "sa_quiescence a = Some q" using anchor by blast
    then show ?thesis by (simp add: VerifySnapshotAnchor_def Let_def)
  next
    assume "so_state op = ''failed''"
    then show ?thesis using s assms(4) by (auto simp: sound_operation_def)
  qed
  then show ?thesis using restored_quiescence anchor by blast
qed

text \<open>
  C23. A transferred application was retired under authenticated evidence only: in every reachable
  journal a transferred operation holds the digest of the destination's outcome, the retired
  specification is the one that was prepared, it was retired after an activated target or aborted after a
  stopped one (the latter only in an abort operation), and where the retirement required a capability,
  the stored one decodes and is scoped to this operation, this outcome, this candidate and this Owner.
\<close>

theorem transfer_retires_only_with_evidence:
  assumes "snapshot_reachable e d" "map_of (sd_operations d) key = Some (Some op)" "so_state op = ''transferred''"
    and "inj (sv_key e)"
  shows "\<exists>q. so_quiescence op = Some q \<and> validDigest (sq_outcome_digest q) \<and> validDigest (sq_retired_spec q) \<and>
    sq_candidate q = sq_retired_spec q \<and>
    (sq_phase q = ''transfer-retired'' \<and> sq_outcome_state q = ''activated'' \<or>
     sq_phase q = ''transfer-aborted'' \<and> sq_outcome_state q = ''stopped'' \<and> abort_operation (oi_operation (so_input op))) \<and>
    (sq_requires_capability q \<longrightarrow>
      (\<exists>cap s. sv_decode e (sq_capability q) = Some cap \<and> cap_retirement cap = Some s \<and>
         rs_operation s = oi_operation (so_input op) \<and> rs_transfer s = sq_hold q \<and> rs_outcome s = sq_outcome_digest q \<and>
         rs_candidate s = sq_retired_spec q \<and> cap_owner cap = oi_owner (so_input op) \<and>
         rs_role s = (if abort_operation (oi_operation (so_input op)) then ''destination'' else ''source'')))"
proof -
  have s: "sound_operation e key op" by (rule sound_at[OF snapshot_reachable_sound[OF assms(1)] assms(2)])
  then obtain q where q: "so_quiescence op = Some q" "retired_soundly e key op q"
    using assms(3) by (auto simp: sound_operation_def)
  have key: "key = sv_key e (oi_operation (so_input op))" using s by (simp add: sound_operation_def)
  have abort: "abort_operation (oi_operation (so_input op))" if "key = sv_key e operation" "abort_operation operation" for operation
    using key that injD[OF assms(4)] by metis
  have auth: "validateApplicationTransferRetirementAuthorization e op = None" using q(2) by (simp add: retired_soundly_def)
  have cap: "\<exists>cap s. sv_decode e (sq_capability q) = Some cap \<and> cap_retirement cap = Some s \<and>
      rs_operation s = oi_operation (so_input op) \<and> rs_transfer s = sq_hold q \<and> rs_outcome s = sq_outcome_digest q \<and>
      rs_candidate s = sq_candidate q \<and> cap_owner cap = oi_owner (so_input op) \<and>
      rs_role s = (if abort_operation (oi_operation (so_input op)) then ''destination'' else ''source'')"
    if "sq_requires_capability q"
    using auth that unfolding validateApplicationTransferRetirementAuthorization_def q(1) option.case Let_def check_def
    by (simp split: option.splits if_splits)
  have r: "validDigest (sq_outcome_digest q)" "validDigest (sq_retired_spec q)" "sq_candidate q = sq_retired_spec q"
    "sq_phase q = ''transfer-retired'' \<and> sq_outcome_state q = ''activated'' \<or>
     sq_phase q = ''transfer-aborted'' \<and> sq_outcome_state q = ''stopped'' \<and>
      (\<exists>operation. key = sv_key e operation \<and> abort_operation operation)"
    using q(2) unfolding retired_soundly_def by blast+
  show ?thesis
    by (intro exI[of _ q] conjI impI) (use q(1) r abort cap in \<open>simp_all, blast+\<close>)
qed

section \<open>Admission of other mutations\<close>

text \<open>
  An operation left its writers alone, or brought them back. Protocol 2 stops app groups, protocol 1
  containers through journaled controls; protocol 0, the default of the runtime, stops the
  containers it lists without a control, so only the phase tells that they run again.
\<close>

definition writers_restored :: "'p snapshot_operation \<Rightarrow> bool" where
  "writers_restored op \<longleftrightarrow>
     (case so_quiescence op of
        None \<Rightarrow> True
      | Some q \<Rightarrow>
          if sq_version q = 2 then sq_phase q = ''restored'' \<and> (\<forall>g \<in> set (sq_groups q). AppGroupRestored g) \<and> all_closed op
          else if sq_version q = 1
          then sq_phase q = ''restored'' \<or>
               (\<forall>c \<in> set (sq_controls q). eff_state (rc_stop c) = NoState \<and> eff_state (rc_start c) = NoState)
          else sq_phase q = ''restored'' \<or> sq_containers q = [])"

definition undisturbed :: "'p snapshot_operation \<Rightarrow> bool" where
  "undisturbed op \<longleftrightarrow>
     (case so_quiescence op of None \<Rightarrow> True | Some q \<Rightarrow> sq_hold q = []) \<and> writers_restored op"

text \<open>The operations the gate looks at: those that journal their stops, and those that hold an application.\<close>

definition controlled :: "'p snapshot_operation \<Rightarrow> bool" where
  "controlled op \<longleftrightarrow>
     (case so_quiescence op of None \<Rightarrow> False | Some q \<Rightarrow> sq_version q \<noteq> 0 \<or> sq_hold q \<noteq> [])"

lemma key_known: "op_at d key = Some v \<Longrightarrow> key \<in> set (map fst (sd_operations d))"
  using map_of_SomeD by force

lemma settled_loads:
  assumes "RequireSettledRuntimeControls e d resume = None" "op_at d key = Some v"
  shows "\<exists>op. v = Some op \<and> check_operation e op = None \<and> blocks_mutation resume op = None"
proof -
  have "(case loadOperation e d key of Inl x \<Rightarrow> Some (Record x) | Inr op \<Rightarrow> blocks_mutation resume op) = None"
    using assms(1) key_known[OF assms(2)] unfolding RequireSettledRuntimeControls_def by auto
  then show ?thesis using assms(2) by (auto simp: loadOperation_def split: option.splits)
qed

lemma valid_closures:
  assumes "check_operation e op = None" "so_quiescence op = Some q" "sq_version q = 2"
  shows "sq_groups q \<noteq> []" "validateSnapshotQuiescence e q = None"
proof -
  have "validateSnapshotQuiescence e q = None"
    using assms(1,2) unfolding check_operation_def first_err_None by simp
  then show "validateSnapshotQuiescence e q = None" .
  from valid_quiescence_parts(1)[OF this assms(3)] show "sq_groups q \<noteq> []"
    by (simp add: validateSnapshotAppGroups_def split: if_splits)
qed

lemma settled_writers:
  assumes "sound_operation e key op" "check_operation e op = None" "\<not> pending_obligation op"
    and "so_quiescence op = Some q" "sq_version q = 0 \<Longrightarrow> sq_phase q = ''restored''"
  shows "writers_restored op"
proof -
  have "validateSnapshotQuiescence e q = None" using assms(2,4) by (simp add: check_operation_def)
  then have "sq_version q \<in> {0, 1, 2}" by (auto simp: validateSnapshotQuiescence_def check_def split: if_splits)
  then consider (two) "sq_version q = 2" | (one) "sq_version q = 1" | (zero) "sq_version q = 0" by blast
  then show ?thesis
  proof cases
    case two
    note v = valid_closures[OF assms(2,4) two]
    have r: "sq_phase q = ''restored''" "length (so_closures op) = length (sq_groups q)"
      using assms(3) v(1) by (simp_all add: pending_obligation_def assms(4) two split: if_splits)
    have "validateRestoredSnapshotQuiescence e q = None"
      using v(2) r(1) by (simp add: validateRestoredSnapshotQuiescence_def check_def)
    moreover have "all_closed op" using assms(1,4) r(2) v(1) by (auto simp: sound_operation_def)
    ultimately show ?thesis using restored_quiescence(2) r(1) by (auto simp: writers_restored_def assms(4) two)
  next
    case one
    then show ?thesis using assms(3) by (auto simp: writers_restored_def assms(4) pending_obligation_def list_ex_iff)
  next
    case zero
    then show ?thesis using assms(5) by (simp add: writers_restored_def assms(4))
  qed
qed

lemma settled_operation:
  assumes "sound_operation e key op" "check_operation e op = None" "blocks_mutation resume op = None"
    "oi_operation (so_input op) \<noteq> resume" "\<not> released op" "controlled op"
  shows "undisturbed op"
proof -
  obtain q where q: "so_quiescence op = Some q" "sq_version q \<noteq> 0 \<or> sq_hold q \<noteq> []"
    using assms(6) by (auto simp: controlled_def split: option.splits)
  have "sq_hold q = []" "\<not> pending_obligation op"
    using assms(3-5) by (auto simp: blocks_mutation_def q(1) check_def split: if_splits)
  then show ?thesis using settled_writers[OF assms(1,2) _ q(1)] q by (simp add: undisturbed_def)
qed

text \<open>
  The gate before an ordinary mutation lets it pass only when no controlled snapshot disturbs a
  writer: in every reachable journal, if the gate accepts for a caller that resumes no operation, each
  file of the directory is an authenticated operation that ended as a released transfer, or
  journals no control, or holds no transfer and left every app group restored and closed, and every
  journaled container restored or never touched.
\<close>

theorem settled_gate_excludes_disturbed_writers:
  assumes "snapshot_reachable e d" "RequireSettledRuntimeControls e d [] = None"
    and "map_of (sd_operations d) key = Some v"
  shows "\<exists>op. v = Some op \<and> check_operation e op = None \<and> (released op \<or> undisturbed op \<or> \<not> controlled op)"
proof -
  obtain op where op: "v = Some op" "check_operation e op = None" "blocks_mutation [] op = None"
    using settled_loads[OF assms(2,3)] by blast
  have s: "sound_operation e key op" using sound_at[OF snapshot_reachable_sound[OF assms(1)]] assms(3) op(1) by simp
  then have "oi_operation (so_input op) \<noteq> []" by (auto simp: sound_operation_def validOperationID_def)
  then show ?thesis using op settled_operation[OF s op(2,3)] by blast
qed

lemma disturbed_not_settled:
  assumes "snapshot_reachable e d" "op_at d key = Some (Some op)" "oi_operation (so_input op) \<noteq> resume"
    "\<not> released op" "\<not> undisturbed op" "controlled op"
  shows "RequireSettledRuntimeControls e d resume \<noteq> None"
proof
  assume "RequireSettledRuntimeControls e d resume = None"
  from settled_loads[OF this assms(2)] have "check_operation e op = None" "blocks_mutation resume op = None" by auto
  with settled_operation[OF sound_at[OF snapshot_reachable_sound[OF assms(1)] assms(2)]] assms(3-6) show False by blast
qed

text \<open>
  An operation of protocol 0 that holds no application never stops the gate, whatever its phase:
  while its containers are stopped, ordinary mutations are admitted.
\<close>

lemma uncontrolled_passes_gate:
  assumes "\<not> controlled op"
  shows "blocks_mutation resume op = None"
  using assms by (auto simp: controlled_def blocks_mutation_def pending_obligation_def check_def split: option.splits)

text \<open>A temporary file that a failed write of an operation leaves in the directory stops the gate for good.\<close>

lemma abandoned_write_blocks_gate:
  assumes "write_operation e FileAbandoned d key op = (d', x)" "signSnapshotOperation e op \<noteq> None"
  shows "RequireSettledRuntimeControls e d' resume \<noteq> None"
proof -
  have "sd_foreign d'"
    using assms by (auto simp: write_operation_def writeSnapshotOperation_def put_operation_def split: option.splits)
  then show ?thesis by (simp add: RequireSettledRuntimeControls_def check_def first_err_None)
qed

section \<open>Damaged records\<close>

lemma transfer_calls_elsewhere:
  assumes "sv_key e operation \<noteq> key"
  shows "op_at (fst (RecordApplicationTransferOutcome e out d operation transfer outcome state)) key = op_at d key"
    "op_at (fst (PrepareApplicationTransferRetirement e out d operation transfer candidate require)) key = op_at d key"
    "op_at (fst (RecordApplicationTransferRetirementAuthorization e out d operation transfer raw)) key = op_at d key"
    "op_at (fst (CompleteApplicationTransferRetirement e out d operation transfer retired)) key = op_at d key"
    "op_at (fst (CompleteApplicationTransferAbortRetirement e out d operation transfer retired)) key = op_at d key"
proof -
  have elsewhere: "op_at (fst (write_operation e out d (sv_key e operation) op)) key = op_at d key" for out d op
    using op_at_write(1)[OF surjective_pairing] assms by metis
  show "op_at (fst (RecordApplicationTransferOutcome e out d operation transfer outcome state)) key = op_at d key"
    "op_at (fst (PrepareApplicationTransferRetirement e out d operation transfer candidate require)) key = op_at d key"
    "op_at (fst (RecordApplicationTransferRetirementAuthorization e out d operation transfer raw)) key = op_at d key"
    "op_at (fst (CompleteApplicationTransferRetirement e out d operation transfer retired)) key = op_at d key"
    "op_at (fst (CompleteApplicationTransferAbortRetirement e out d operation transfer retired)) key = op_at d key"
    by (auto simp: RecordApplicationTransferOutcome_def PrepareApplicationTransferRetirement_def
        RecordApplicationTransferRetirementAuthorization_def CompleteApplicationTransferRetirement_def
        CompleteApplicationTransferAbortRetirement_def complete_retirement_def elsewhere Let_def
        split: sum.splits option.splits)
qed

lemma transfer_calls_damaged:
  assumes "loadOperation e d (sv_key e operation) = Inl x"
  shows "fst (RecordApplicationTransferOutcome e out d operation transfer outcome state) = d"
    "fst (PrepareApplicationTransferRetirement e out d operation transfer candidate require) = d"
    "fst (RecordApplicationTransferRetirementAuthorization e out d operation transfer raw) = d"
    "fst (CompleteApplicationTransferRetirement e out d operation transfer retired) = d"
    "fst (CompleteApplicationTransferAbortRetirement e out d operation transfer retired) = d"
  using assms
  by (auto simp: RecordApplicationTransferOutcome_def PrepareApplicationTransferRetirement_def
      RecordApplicationTransferRetirementAuthorization_def CompleteApplicationTransferRetirement_def
      CompleteApplicationTransferAbortRetirement_def complete_retirement_def)

text \<open>A file that does not load, however it came to be: unreadable, tampered with, or left by another version.\<close>

definition damaged :: "'p snapshot_env \<Rightarrow> 'p snapshot_disk \<Rightarrow> string \<Rightarrow> bool" where
  "damaged e d key \<longleftrightarrow> op_at d key \<noteq> None \<and> (\<exists>x. loadOperation e d key = Inl x)"

lemma damaged_gate: "damaged e d key \<Longrightarrow> RequireSettledRuntimeControls e d resume \<noteq> None"
  using settled_loads[of e d resume key] by (fastforce simp: damaged_def loadOperation_def)

lemma damaged_run: "damaged e d key \<Longrightarrow> \<exists>y. run e re d r = (d, Inl y)"
  using damaged_gate[of e d key "ri_operation r"] by (auto simp: run_def)

lemma damaged_kept:
  assumes "damaged e d key" "snapshot_call e d d'"
  shows "op_at d' key = op_at d key"
proof -
  obtain x where x: "loadOperation e d key = Inl x" using assms(1) by (auto simp: damaged_def)
  note keep = transfer_calls_elsewhere[of e _ key] transfer_calls_damaged[of e d]
  from assms(2) show ?thesis
  proof (cases rule: snapshot_call.cases)
    case (call_run re r y)
    then show ?thesis using damaged_run[OF assms(1), of re r] by auto
  next
    case (call_outcome out operation transfer outcome state y)
    then show ?thesis using keep(1,6) x by (metis fst_conv)
  next
    case (call_prepare out operation transfer candidate require y)
    then show ?thesis using keep(2,7) x by (metis fst_conv)
  next
    case (call_authorize out operation transfer raw y)
    then show ?thesis using keep(3,8) x by (metis fst_conv)
  next
    case (call_retire out operation transfer retired y)
    then show ?thesis using keep(4,9) x by (metis fst_conv)
  next
    case (call_abort out operation transfer retired y)
    then show ?thesis using keep(5,10) x by (metis fst_conv)
  qed
qed

lemma damaged_stays:
  assumes "(snapshot_call e)\<^sup>*\<^sup>* d d'" "damaged e d key"
  shows "op_at d' key = op_at d key \<and> damaged e d' key"
  using assms(1)
proof (induction rule: rtranclp_induct)
  case (step d1 d2)
  have kept: "op_at d2 key = op_at d1 key" using damaged_kept step.IH step.hyps(2) by blast
  then have "damaged e d2 key \<longleftrightarrow> damaged e d1 key" by (simp add: damaged_def loadOperation_def)
  with kept step.IH show ?case by simp
qed (use assms(2) in simp)

text \<open>
  C26. A damaged record stops everything and is kept: whatever disk a host is found with, if a file of
  its operation directory does not load (it is unreadable, fails validation or its signature), then after
  any calls the file is as it was, the gate refuses every caller, and a run changes nothing and returns
  an error.
\<close>

theorem damaged_record_stops_everything:
  assumes "map_of (sd_operations d) key = Some v" "loadOperation e d key = Inl x" "(snapshot_call e)\<^sup>*\<^sup>* d d'"
  shows "map_of (sd_operations d') key = Some v \<and> RequireSettledRuntimeControls e d' resume \<noteq> None \<and>
    (\<exists>y. run e re d' r = (d', Inl y))"
proof -
  have "damaged e d key" using assms(1,2) by (simp add: damaged_def)
  from damaged_stays[OF assms(3) this] show ?thesis using assms(1) damaged_gate damaged_run by metis
qed

section \<open>The history of the stopped groups\<close>

definition history_kept :: "app_group_control \<Rightarrow> app_group_control \<Rightarrow> bool" where
  "history_kept g h \<longleftrightarrow>
     ag_binding h = ag_binding g \<and> ag_original h = ag_original g \<and> length (ag_effects g) \<le> length (ag_effects h) \<and>
     (\<forall>k < length (ag_effects g). groupEffectSettled (ag_effects g ! k) \<longrightarrow> ag_effects h ! k = ag_effects g ! k)"

lemma history_kept_refl [simp]: "history_kept g g"
  by (simp add: history_kept_def)

lemma history_kept_trans: "history_kept g h \<Longrightarrow> history_kept h k \<Longrightarrow> history_kept g k"
  by (auto simp: history_kept_def)

lemma group_changes_kept:
  assumes "group_changes g h = Some n" shows "history_kept g h"
proof -
  note some = group_changes_Some[OF assms]
  have "ag_effects h ! k = ag_effects g ! k" if "k < length (ag_effects g)" "groupEffectSettled (ag_effects g ! k)" for k
  proof -
    have "ag_effects g ! k = ag_effects h ! k \<or> effect_change_ok (ag_effects g ! k) (ag_effects h ! k)"
      using some(3,4) that(1) by (auto simp: list_all_length)
    then show ?thesis
      using settled_no_change[OF that(2)] group_rank_bound[of "ge_state (ag_effects h ! k)"] by auto
  qed
  then show ?thesis using some(1,3) by (auto simp: history_kept_def)
qed

lemma total_changes_kept:
  "total_changes (zip gs hs) = Some n \<Longrightarrow> length gs = length hs \<Longrightarrow> list_all2 history_kept gs hs"
  by (induction gs hs arbitrary: n rule: list_induct2') (auto intro: group_changes_kept split: option.splits)

lemma histories_trans:
  "list_all2 history_kept as bs \<Longrightarrow> list_all2 history_kept bs cs \<Longrightarrow> list_all2 history_kept as cs"
  by (rule list_all2_trans[OF history_kept_trans])

lemma histories_refl [simp]: "list_all2 history_kept gs gs"
  by (rule list.rel_refl) simp

definition groups_kept :: "string \<Rightarrow> 'p snapshot_disk \<Rightarrow> 'p snapshot_disk \<Rightarrow> bool" where
  "groups_kept key d d' \<longleftrightarrow>
     (\<forall>op q. op_at d key = Some (Some op) \<and> so_quiescence op = Some q \<and> sq_groups q \<noteq> [] \<longrightarrow>
        (\<exists>op' q'. op_at d' key = Some (Some op') \<and> so_quiescence op' = Some q' \<and>
                  list_all2 history_kept (sq_groups q) (sq_groups q')))"

lemma groups_kept_refl [simp]: "groups_kept key d d"
  by (auto simp: groups_kept_def)

lemma groups_kept_same: "op_at d' key = op_at d key \<Longrightarrow> groups_kept key d d'"
  by (auto simp: groups_kept_def)

lemma groups_kept_trans:
  assumes "groups_kept key d d1" "groups_kept key d1 d2" shows "groups_kept key d d2"
  unfolding groups_kept_def
proof (intro allI impI)
  fix op q assume a: "op_at d key = Some (Some op) \<and> so_quiescence op = Some q \<and> sq_groups q \<noteq> []"
  then obtain op1 q1 where 1: "op_at d1 key = Some (Some op1)" "so_quiescence op1 = Some q1"
    "list_all2 history_kept (sq_groups q) (sq_groups q1)" using assms(1) unfolding groups_kept_def by blast
  moreover from 1(3) a have "sq_groups q1 \<noteq> []" by auto
  ultimately obtain op2 q2 where "op_at d2 key = Some (Some op2)" "so_quiescence op2 = Some q2"
    "list_all2 history_kept (sq_groups q1) (sq_groups q2)" using assms(2) unfolding groups_kept_def by blast
  then show "\<exists>op' q'. op_at d2 key = Some (Some op') \<and> so_quiescence op' = Some q' \<and>
      list_all2 history_kept (sq_groups q) (sq_groups q')" using histories_trans[OF 1(3)] by blast
qed

lemma write_groups_kept:
  assumes w: "write_operation e out d key op = (d', x)"
    and kept: "\<And>old q. op_at d key = Some (Some old) \<Longrightarrow> so_quiescence old = Some q \<Longrightarrow> sq_groups q \<noteq> [] \<Longrightarrow>
      \<exists>q'. so_quiescence op = Some q' \<and> list_all2 history_kept (sq_groups q) (sq_groups q')"
  shows "groups_kept key d d'"
  using op_at_write(2)[OF w]
proof
  assume "\<exists>s. op_at d' key = Some (Some (op\<lparr>so_signature := s\<rparr>))"
  then show ?thesis using kept by (fastforce simp: groups_kept_def)
qed (rule groups_kept_same)

lemma clone_groups [simp]: "sq_groups (cloneSnapshotQuiescence q) = sq_groups q"
  by (simp add: cloneSnapshotQuiescence_def)

lemma persist_groups_kept:
  assumes run: "persistSnapshotQuiescence e out d key i q = (d', x)" and v2: "sq_version q = 2"
  shows "groups_kept key d d'"
proof (cases "group_write_refused e d key i q")
  case (Some y)
  then show ?thesis using run v2 by (auto simp: persistSnapshotQuiescence_def first_err_def split: option.splits)
next
  case None
  obtain old where old: "loadOperation e d key = Inr old"
    using None by (auto simp: group_write_refused_def split: if_splits sum.splits)
  have kept: "list_all2 history_kept (sq_groups q0) (sq_groups q)" if "so_quiescence old = Some q0" "sq_groups q0 \<noteq> []" for q0
  proof -
    have "sq_groups q0 = sq_groups q \<or> ValidAppGroupTransition (sv_group_digest e) (sq_groups q0) (sq_groups q)"
      using None old that by (auto simp: group_write_refused_def check_def split: if_splits option.splits)
    then show ?thesis by (auto simp: ValidAppGroupTransition_def intro: total_changes_kept)
  qed
  show ?thesis
  proof (cases "d' = d")
    case False
    then have "write_operation e out d key (pending_operation i (Some (cloneSnapshotQuiescence q))) = (d', x)"
      using run by (auto simp: persistSnapshotQuiescence_def split: option.splits)
    then show ?thesis
      by (rule write_groups_kept) (use kept load_operation_at[OF old] in auto)
  qed simp
qed

lemma persist_all_groups_kept:
  "\<forall>(q, out) \<in> set ps. sq_version q = 2 \<Longrightarrow> groups_kept key d (persist_all e key i ps d)"
proof (induction ps arbitrary: d)
  case (Cons p ps)
  obtain q out where p: "p = (q, out)" by (cases p)
  obtain d1 x where d1: "persistSnapshotQuiescence e out d key i q = (d1, x)" by fastforce
  have "groups_kept key d d1" using persist_groups_kept[OF d1] Cons.prems p by simp
  moreover have "groups_kept key d1 (persist_all e key i ps d1)" using Cons.IH Cons.prems by simp
  ultimately show ?case using groups_kept_trans by (simp add: p d1) blast
qed simp

lemma close_groups_kept:
  "closeCompletedSnapshotGroups e c out d key op = (d', x) \<Longrightarrow> op_at d key = Some (Some op') \<Longrightarrow>
     so_quiescence op' = so_quiescence op \<Longrightarrow> groups_kept key d d'"
  "closeFailedSnapshotGroups e c out d key op = (d', x) \<Longrightarrow> op_at d key = Some (Some op') \<Longrightarrow>
     so_quiescence op' = so_quiescence op \<Longrightarrow> groups_kept key d d'"
  by (auto simp: closeCompletedSnapshotGroups_def closeFailedSnapshotGroups_def split: option.splits if_splits
      elim!: write_groups_kept)

lemma settle_groups_kept:
  assumes run: "settleFailedSnapshot e c out1 out2 d key i = (d', x)"
  shows "groups_kept key d d'"
proof (cases "d' = d")
  case False
  obtain op q where op: "loadOperation e d key = Inr op" and q: "so_quiescence op = Some q"
    using run False by (auto simp: settleFailedSnapshot_def split: sum.splits option.splits if_splits)
  let ?op = "op\<lparr>so_state := ''failed'', so_failure := failed_after_settlement\<rparr>"
  obtain d1 y where w: "write_operation e out1 d key ?op = (d1, y)" by fastforce
  have k1: "groups_kept key d d1"
    by (rule write_groups_kept[OF w]) (use load_operation_at[OF op] q in auto)
  show ?thesis
  proof (cases y)
    case (Some z)
    then show ?thesis using run op q w k1 False by (auto simp: settleFailedSnapshot_def split: option.splits if_splits)
  next
    case None
    then have c: "closeFailedSnapshotGroups e c out2 d1 key ?op = (d', x)"
      using run op q w False by (auto simp: settleFailedSnapshot_def split: option.splits if_splits)
    obtain s where "op_at d1 key = Some (Some (?op\<lparr>so_signature := s\<rparr>))" using op_at_write(3)[OF w None] by blast
    then have "groups_kept key d1 d'" by (rule close_groups_kept(2)[OF c]) simp
    then show ?thesis by (rule groups_kept_trans[OF k1])
  qed
qed simp

lemma journal_completion_groups_kept:
  assumes run: "journal_completion e c out1 out2 d key i q a = (d', x)"
    and kept: "\<And>old q0. op_at d key = Some (Some old) \<Longrightarrow> so_quiescence old = Some q0 \<Longrightarrow>
      \<exists>q'. q = Some q' \<and> sq_groups q' = sq_groups q0"
  shows "groups_kept key d d'"
proof -
  obtain d1 y where w: "write_operation e out1 d key (completed_operation i q a) = (d1, y)" by fastforce
  have k1: "groups_kept key d d1" by (rule write_groups_kept[OF w]) (use kept in fastforce)
  show ?thesis
  proof (cases "y = None \<and> (\<exists>op. loadOperation e d1 key = Inr op)")
    case False
    then have "d' = d1" using run w by (auto simp: journal_completion_def split: option.splits sum.splits)
    then show ?thesis using k1 by simp
  next
    case True
    then obtain op where y: "y = None" and load: "loadOperation e d1 key = Inr op" by blast
    obtain d2 z where c: "closeCompletedSnapshotGroups e c out2 d1 key op = (d2, z)" by fastforce
    have "d' = d2" using run by (auto simp: journal_completion_def w y load c split: option.splits)
    moreover have "groups_kept key d1 d2" by (rule close_groups_kept(1)[OF c]) (use load_operation_at[OF load] in auto)
    ultimately show ?thesis using groups_kept_trans[OF k1] by simp
  qed
qed

lemma complete_groups_kept:
  assumes run: "completeSnapshot e c out1 out2 out3 d key i repository snapshot restored = (d', x)"
  shows "groups_kept key d d'"
proof (cases "sd_operations d' = sd_operations d")
  case False
  then obtain op where op: "loadOperation e d key = Inr op"
    using run by (auto simp: completeSnapshot_def split: sum.splits)
  obtain q a d1 where q: "restored_evidence e restored op = Inr q" and d1: "sd_operations d1 = sd_operations d"
    and j: "journal_completion e c out2 out3 d1 key i q a = (d', x)"
    using run False op store_anchor_operations
    by (fastforce simp: completeSnapshot_def split: sum.splits if_splits option.splits prod.splits)
  have "\<exists>q'. q = Some q' \<and> sq_groups q' = sq_groups q0" if "so_quiescence op = Some q0" for q0
    using q that by (auto simp: restored_evidence_def split: option.splits)
  then have "groups_kept key d1 d'"
    by (intro journal_completion_groups_kept[OF j]) (use load_operation_at[OF op] d1 in auto)
  then show ?thesis using d1 by (simp add: groups_kept_def)
qed (simp add: groups_kept_same)

lemma finish_groups_kept:
  "finish_run e re d key i repository request receipt restored = (d', x) \<Longrightarrow> groups_kept key d d'"
  by (auto simp: finish_run_def split: option.splits if_splits prod.splits intro: settle_groups_kept complete_groups_kept)

lemma create_groups_kept:
  assumes "create_run e re d key i repository request = (d', x)" "\<forall>(q, out) \<in> set (an_persists (re_answer re)). sq_version q = 2"
  shows "groups_kept key d d'"
  using assms persist_all_groups_kept[OF assms(2)] finish_groups_kept groups_kept_trans
  by (auto simp: create_run_def quiesced_run_def split: if_splits) blast+

lemma resumed_groups_kept:
  assumes "resumed_run e re d key i repository request op = (d', x)" "\<forall>(q, out) \<in> set (an_persists (re_answer re)). sq_version q = 2"
  shows "groups_kept key d d'"
proof -
  have "groups_kept key d d''" if "quiesced_run e re d key i repository request = (d'', y)" for d'' y
    using that finish_groups_kept persist_all_groups_kept[OF assms(2)] groups_kept_trans
    unfolding quiesced_run_def by blast
  then show ?thesis
    using assms create_groups_kept[OF _ assms(2)] finish_groups_kept
    by (fastforce simp: resumed_run_def split: if_splits option.splits)
qed

lemma run_journaled_groups_kept:
  assumes run: "run_journaled e re d key i repository op = (d', x)" and at: "op_at d key = Some (Some op)"
    and v2: "\<forall>(q, out) \<in> set (an_persists (re_answer re)). sq_version q = 2"
  shows "groups_kept key d d'"
  using run resumed_groups_kept[OF _ v2] close_groups_kept[OF _ at refl]
  by (auto simp: run_journaled_def replay_completed_def replay_failed_def
      split: if_splits option.splits sum.splits prod.splits)

text \<open>
  C30. A run of a snapshot only appends to the history of the app groups it stops: if the runtime
  persists values of protocol version 2, whatever it reports, and however the run ends, the groups
  that were journaled before are journaled afterwards, in the same order, with the same custody and
  original graph, and each effect that was settled is still there unchanged.
\<close>

theorem run_keeps_group_history:
  assumes "snapshot_reachable e d" "run e re d r = (d', x)"
    and "\<forall>(q, out) \<in> set (an_persists (re_answer re)). sq_version q = 2"
    and "map_of (sd_operations d) key = Some (Some op)" "so_quiescence op = Some q" "sq_groups q \<noteq> []"
  shows "\<exists>op' q'. map_of (sd_operations d') key = Some (Some op') \<and> so_quiescence op' = Some q' \<and>
    list_all2 history_kept (sq_groups q) (sq_groups q')"
proof -
  have "groups_kept key d d'"
  proof (cases "key = sv_key e (ri_operation r)")
    case False
    then have "op_at d' key = op_at d key"
      using run_evolves[OF assms(2) snapshot_reachable_sound[OF assms(1)]] by (simp add: evolves_def)
    then show ?thesis by (rule groups_kept_same)
  next
    case True
    show ?thesis
    proof (cases "loadOperation e d key")
      case (Inl y)
      then have "y \<noteq> OperationMissing" using load_operation_missing[of e d key] assms(4) by auto
      then have "d' = d"
        using assms(2) Inl True
        by (auto simp: run_def Let_def split: option.splits if_splits record_error.splits)
      then show ?thesis by simp
    next
      case (Inr o1)
      have at: "op_at d key = Some (Some o1)" using load_operation_at[OF Inr] by simp
      show ?thesis
        using assms(2) Inr True run_journaled_groups_kept[OF _ at assms(3)]
        by (auto simp: run_def Let_def split: option.splits if_splits)
    qed
  qed
  then show ?thesis using assms(4-6) unfolding groups_kept_def by blast
qed

section \<open>Concrete journals\<close>

definition sample_snapshot_env :: "unit snapshot_env" where
  "sample_snapshot_env = \<lparr>sv_decode = (\<lambda>_. None), sv_group_digest = sample_digest_of, sv_container_digest = qc_id,
     sv_lineage_digest = (\<lambda>_. []), sv_source_digest = (\<lambda>_. Some (sample_digest CHR ''5'')), sv_key = (\<lambda>k. k),
     sv_sign = (\<lambda>op. Some \<lparr>sg_owner = oi_owner (so_input op), sg_value = []\<rparr>), sv_verify = (\<lambda>_ _. True),
     sv_policy_ok = (\<lambda>_. True), sv_source_path = (\<lambda>_. ''/data''), sv_excludes = (\<lambda>_. []),
     sv_sources = (\<lambda>_ _. Some []), sv_configuration_id = (\<lambda>_. sample_digest CHR ''c''), sv_configuration_digest = (\<lambda>_. []),
     sv_request_digest = (\<lambda>_. []), sv_anchor_digest = (\<lambda>_. sample_digest CHR ''1''), sv_sign_anchor = (\<lambda>_. Some []),
     sv_verify_anchor = (\<lambda>_. True)\<rparr>"

definition sample_full_lineage :: authority_lineage where
  "sample_full_lineage = \<lparr>al_binding = \<lparr>pb_plan_hash = sample_digest CHR ''1'', pb_spec_hash = sample_digest CHR ''2'',
       pb_inventory_hash = sample_digest CHR ''3'', pb_definition_hash = sample_digest CHR ''4'', pb_compiler_version = ''1'',
       pb_renderer = \<lparr>renderer_id = ''r'', renderer_version = ''1''\<rparr>,
       pb_authority = \<lparr>pa_class = ''product'', pa_document = ''catalog'', pa_graduation_eligible = True,
         pa_issuer = ''i'', pa_authority_fingerprint = sample_digest CHR ''5'', pa_catalog_hash = sample_digest CHR ''6''\<rparr>\<rparr>,
     al_manifest_hash = sample_digest CHR ''7'', al_generation_receipt_hash = sample_digest CHR ''8'',
     al_apply_result_hash = sample_digest CHR ''9'', al_apply_receipt_hash = sample_digest CHR ''a'',
     al_owner_binding_digest = sample_digest CHR ''b'', al_pocket_id_subject = ''s''\<rparr>"

definition sample_repository :: repository_receipt where
  "sample_repository = \<lparr>rr_api = ''stackkit.local-backup-repository-receipt/v1'', rr_repository = ''r'', rr_backend = ''kopia'',
     rr_configuration = []\<rparr>"

definition sample_configuration :: "authority_lineage \<Rightarrow> unit configuration" where
  "sample_configuration l = \<lparr>cf_owner = ''o'', cf_authority = ''a'', cf_lineage = l, cf_policy_digest = sample_digest CHR ''c'',
     cf_policy = (), cf_repository = sample_repository\<rparr>"

definition sample_run_input :: run_input where
  "sample_run_input = \<lparr>ri_operation = ''op'', ri_protect = False, ri_workloads = []\<rparr>"

definition sample_snapshot_receipt :: snapshot_receipt where
  "sample_snapshot_receipt = \<lparr>sr_api = ''stackkit.local-backup-repository-snapshot/v1'', sr_repository = ''r'', sr_snapshot = ''k'',
     sr_operation = ''op'', sr_request = [], sr_content = sample_digest CHR ''d'', sr_consistency = ''crash-consistent'',
     sr_created = 1\<rparr>"

definition sample_run_env :: "authority_lineage \<Rightarrow> snapshot_quiescence list \<Rightarrow> snapshot_receipt option \<Rightarrow> unit run_env" where
  "sample_run_env l qs receipt = \<lparr>re_configuration = Some (sample_configuration l), re_retention = True, re_ready = True,
     re_quiesces = (qs \<noteq> []), re_lookup = Some None,
     re_answer = \<lparr>an_persists = map (\<lambda>q. (q, FileWritten)) qs, an_receipt = receipt\<rparr>, re_closer = CloserCloses,
     re_begin = FileWritten, re_anchor_write = FileWritten, re_end = FileWritten, re_close = FileWritten\<rparr>"

text \<open>Version 2 with one stopped group, and the hold of a transfer.\<close>

definition sample_quiescence :: "string \<Rightarrow> app_group_control \<Rightarrow> snapshot_quiescence" where
  "sample_quiescence phase g = \<lparr>sq_requires_capability = False, sq_capability = [], sq_workloads = [], sq_hold = [],
     sq_outcome_digest = [], sq_outcome_state = [], sq_retired_spec = [], sq_candidate = [], sq_version = 2,
     sq_groups = [g], sq_controls = [], sq_phase = phase, sq_graph = sample_digest CHR ''e'', sq_capture = None,
     sq_containers = [sample_container]\<rparr>"

definition sample_hold :: snapshot_quiescence where
  "sample_hold = (sample_quiescence ''snapshot-created'' sample_group)\<lparr>sq_version := 0, sq_groups := [], sq_graph := [],
     sq_hold := sample_digest CHR ''f'', sq_containers := []\<rparr>"

definition sample_anchored_run :: "unit snapshot_disk \<times> (snapshot_error + unit snapshot_anchor)" where
  "sample_anchored_run =
     run sample_snapshot_env (sample_run_env sample_full_lineage [] (Some sample_snapshot_receipt)) empty_disk sample_run_input"

definition sample_failed_run :: "unit snapshot_disk \<times> (snapshot_error + unit snapshot_anchor)" where
  "sample_failed_run =
     run sample_snapshot_env (sample_run_env sample_lineage [sample_quiescence ''restored'' sample_group] None) empty_disk sample_run_input"

definition sample_stopping_run :: "unit snapshot_disk \<times> (snapshot_error + unit snapshot_anchor)" where
  "sample_stopping_run =
     run sample_snapshot_env (sample_run_env sample_lineage [sample_quiescence ''prepared'' sample_group] None) empty_disk sample_run_input"

definition sample_held_run :: "unit snapshot_disk \<times> (snapshot_error + unit snapshot_anchor)" where
  "sample_held_run = run sample_snapshot_env (sample_run_env sample_lineage [sample_hold] None) empty_disk sample_run_input"

definition sample_outcome_disk :: "unit snapshot_disk" where
  "sample_outcome_disk = fst (RecordApplicationTransferOutcome sample_snapshot_env FileWritten (fst sample_held_run) ''op''
     (sample_digest CHR ''f'') (sample_digest CHR ''1'') ''activated'')"

definition sample_prepared_disk :: "unit snapshot_disk" where
  "sample_prepared_disk = fst (PrepareApplicationTransferRetirement sample_snapshot_env FileWritten sample_outcome_disk ''op''
     (sample_digest CHR ''f'') (sample_digest CHR ''2'') False)"

definition sample_retired_disk :: "unit snapshot_disk" where
  "sample_retired_disk = fst (CompleteApplicationTransferRetirement sample_snapshot_env FileWritten sample_prepared_disk ''op''
     (sample_digest CHR ''f'') (sample_digest CHR ''2''))"

definition op_check :: "('p snapshot_operation \<Rightarrow> bool) \<Rightarrow> 'p snapshot_disk \<Rightarrow> string \<Rightarrow> bool" where
  "op_check P d key = (case map_of (sd_operations d) key of Some (Some op) \<Rightarrow> P op | _ \<Rightarrow> False)"

lemma op_checkE:
  assumes "op_check P d key" obtains op where "map_of (sd_operations d) key = Some (Some op)" "P op"
  using assms by (auto simp: op_check_def split: option.splits)

lemma sample_anchored: "case snd sample_anchored_run of Inl _ \<Rightarrow> False | Inr _ \<Rightarrow> True"
  by code_simp

lemma sample_failed:
  "op_check (\<lambda>op. so_state op = ''failed'' \<and> (case so_quiescence op of None \<Rightarrow> False | Some q \<Rightarrow> sq_version q = 2))
     (fst sample_failed_run) ''op''"
  by code_simp

lemma sample_failed_settled: "RequireSettledRuntimeControls sample_snapshot_env (fst sample_failed_run) [] = None"
  by code_simp

lemma sample_stopping:
  "op_check (\<lambda>op. so_state op = ''pending'' \<and> (case so_quiescence op of None \<Rightarrow> False | Some q \<Rightarrow> \<not> List.null (sq_groups q)))
     (fst sample_stopping_run) ''op''"
  by code_simp

lemma sample_disturbed:
  "op_check (\<lambda>op. \<not> released op \<and> \<not> undisturbed op \<and> controlled op \<and> oi_operation (so_input op) \<noteq> []) (fst sample_stopping_run) ''op''"
  by code_simp

text \<open>
  A snapshot of protocol 0 whose runtime stopped after its containers did: the journal is pending, its
  container is stopped, and the gate lets every other mutation pass.
\<close>

definition sample_plain_run :: "unit snapshot_disk \<times> (snapshot_error + unit snapshot_anchor)" where
  "sample_plain_run = run sample_snapshot_env (sample_run_env sample_lineage
     [(sample_quiescence ''stopped'' sample_group)\<lparr>sq_version := 0, sq_groups := []\<rparr>] None) empty_disk sample_run_input"

lemma sample_plain_admits:
  "op_check (\<lambda>op. so_state op = ''pending'' \<and> \<not> released op \<and> \<not> undisturbed op) (fst sample_plain_run) ''op''"
  "RequireSettledRuntimeControls sample_snapshot_env (fst sample_plain_run) [] = None"
  by code_simp+

lemma sample_retired: "op_check (\<lambda>op. so_state op = ''transferred'') sample_retired_disk ''op''"
  by code_simp

lemma sample_reachable:
  "snapshot_reachable sample_snapshot_env (fst sample_anchored_run)" "snapshot_reachable sample_snapshot_env (fst sample_failed_run)"
  "snapshot_reachable sample_snapshot_env (fst sample_stopping_run)" "snapshot_reachable sample_snapshot_env (fst sample_held_run)"
  unfolding sample_anchored_run_def sample_failed_run_def sample_stopping_run_def sample_held_run_def
  by (rule reach_call[OF reach_empty], rule call_run, rule surjective_pairing)+

lemma sample_retired_reachable: "snapshot_reachable sample_snapshot_env sample_retired_disk"
proof -
  have "snapshot_call sample_snapshot_env (fst sample_held_run) sample_outcome_disk"
    unfolding sample_outcome_disk_def by (rule call_outcome, rule surjective_pairing)
  moreover have "snapshot_call sample_snapshot_env sample_outcome_disk sample_prepared_disk"
    unfolding sample_prepared_disk_def by (rule call_prepare, rule surjective_pairing)
  moreover have "snapshot_call sample_snapshot_env sample_prepared_disk sample_retired_disk"
    unfolding sample_retired_disk_def by (rule call_retire, rule surjective_pairing)
  ultimately show ?thesis using sample_reachable(4) by (meson reach_call)
qed

lemma sample_again:
  "snapshot_call sample_snapshot_env d (fst (run sample_snapshot_env (sample_run_env l qs receipt) d sample_run_input))"
  by (rule call_run, rule surjective_pairing)

theorem terminal_snapshot_is_final_witness:
  "\<exists>op op'. map_of (sd_operations (fst sample_failed_run)) ''op'' = Some (Some op) \<and> so_state op = ''failed'' \<and>
     map_of (sd_operations (fst (run sample_snapshot_env (sample_run_env sample_full_lineage [] (Some sample_snapshot_receipt))
       (fst sample_failed_run) sample_run_input))) ''op'' = Some (Some op') \<and> settled_core op' = settled_core op"
proof -
  obtain op where op: "map_of (sd_operations (fst sample_failed_run)) ''op'' = Some (Some op)" "so_state op = ''failed''"
    using op_checkE[OF sample_failed] by blast
  have "so_state op \<noteq> ''pending''" using op(2) by simp
  from terminal_snapshot_is_final[OF sample_reachable(2) r_into_rtranclp[where r = "snapshot_call sample_snapshot_env",
        OF sample_again] op(1) this]
  show ?thesis using op by blast
qed

theorem snapshot_result_is_unique_witness:
  "\<exists>a. snd sample_anchored_run = Inr a \<and>
     (\<forall>b. snd (run sample_snapshot_env (sample_run_env sample_full_lineage [] None) (fst sample_anchored_run) sample_run_input) = Inr b
       \<longrightarrow> b = a) \<and>
     (case snd (run sample_snapshot_env (sample_run_env sample_full_lineage [] None) (fst sample_anchored_run) sample_run_input) of
        Inl _ \<Rightarrow> False | Inr _ \<Rightarrow> True)"
proof -
  obtain a where a: "snd sample_anchored_run = Inr a" using sample_anchored by (auto split: sum.splits)
  have first: "run sample_snapshot_env (sample_run_env sample_full_lineage [] (Some sample_snapshot_receipt)) empty_disk sample_run_input
      = (fst sample_anchored_run, Inr a)"
    using a unfolding sample_anchored_run_def by (metis prod.collapse)
  have "b = a" if "snd (run sample_snapshot_env (sample_run_env sample_full_lineage [] None) (fst sample_anchored_run) sample_run_input) = Inr b" for b
    using that snapshot_result_is_unique[OF reach_empty first rtranclp.rtrancl_refl refl] by (metis prod.collapse)
  moreover have "case snd (run sample_snapshot_env (sample_run_env sample_full_lineage [] None) (fst sample_anchored_run) sample_run_input) of
        Inl _ \<Rightarrow> False | Inr _ \<Rightarrow> True" by code_simp
  ultimately show ?thesis using a by blast
qed

theorem negative_snapshot_is_permanent_witness:
  "\<forall>b. snd (run sample_snapshot_env (sample_run_env sample_lineage [] (Some sample_snapshot_receipt)) (fst sample_failed_run)
     sample_run_input) \<noteq> Inr b"
proof
  fix b
  obtain op where op: "map_of (sd_operations (fst sample_failed_run)) ''op'' = Some (Some op)" "so_state op = ''failed''"
    using op_checkE[OF sample_failed] by blast
  have "map_of (sd_operations (fst sample_failed_run)) (sv_key sample_snapshot_env (ri_operation sample_run_input)) = Some (Some op)"
    using op(1) by (simp add: sample_snapshot_env_def sample_run_input_def)
  from negative_snapshot_is_permanent[OF sample_reachable(2) this disjI1[OF op(2)] rtranclp.rtrancl_refl]
  show "snd (run sample_snapshot_env (sample_run_env sample_lineage [] (Some sample_snapshot_receipt)) (fst sample_failed_run)
     sample_run_input) \<noteq> Inr b"
    by (metis prod.collapse)
qed

theorem ended_snapshot_restored_writers_witness:
  "\<exists>op q. map_of (sd_operations (fst sample_failed_run)) ''op'' = Some (Some op) \<and> so_quiescence op = Some q \<and>
     sq_version q = 2 \<and> sq_phase q = ''restored'' \<and> (\<forall>g \<in> set (sq_groups q). AppGroupRestored g)"
proof -
  obtain op where op: "map_of (sd_operations (fst sample_failed_run)) ''op'' = Some (Some op)" "so_state op = ''failed''"
    "case so_quiescence op of None \<Rightarrow> False | Some q \<Rightarrow> sq_version q = 2"
    using op_checkE[OF sample_failed] by blast
  then obtain q where q: "so_quiescence op = Some q" "sq_version q = 2" by (auto split: option.splits)
  from ended_snapshot_restored_writers[OF sample_reachable(2) op(1) disjI2[OF op(2)] q(1)] show ?thesis
    using op(1) q by blast
qed

theorem transfer_retires_only_with_evidence_witness:
  "\<exists>op q. map_of (sd_operations sample_retired_disk) ''op'' = Some (Some op) \<and> so_quiescence op = Some q \<and>
     validDigest (sq_outcome_digest q) \<and> sq_candidate q = sq_retired_spec q"
proof -
  obtain op where op: "map_of (sd_operations sample_retired_disk) ''op'' = Some (Some op)" "so_state op = ''transferred''"
    using op_checkE[OF sample_retired] by blast
  have "inj (sv_key sample_snapshot_env)" by (simp add: sample_snapshot_env_def)
  from transfer_retires_only_with_evidence[OF sample_retired_reachable op this] op(1) show ?thesis by blast
qed

theorem settled_gate_excludes_disturbed_writers_witness:
  "\<exists>op. map_of (sd_operations (fst sample_failed_run)) ''op'' = Some (Some op) \<and>
     (released op \<or> undisturbed op \<or> \<not> controlled op)"
proof -
  obtain op where op: "map_of (sd_operations (fst sample_failed_run)) ''op'' = Some (Some op)"
    using op_checkE[OF sample_failed] by blast
  from settled_gate_excludes_disturbed_writers[OF sample_reachable(2) sample_failed_settled op] op show ?thesis by simp
qed

text \<open>A host whose journaled operation was changed after it was signed, and one whose file became unreadable.\<close>

definition sample_tampered_disk :: "unit snapshot_disk" where
  "sample_tampered_disk = (fst sample_anchored_run)\<lparr>sd_operations :=
     map (\<lambda>(key, op). (key, map_option (\<lambda>op. op\<lparr>so_failure := ''none''\<rparr>) op)) (sd_operations (fst sample_anchored_run))\<rparr>"

definition sample_unreadable_disk :: "unit snapshot_disk" where
  "sample_unreadable_disk = (fst sample_anchored_run)\<lparr>sd_operations := [(''op'', None)]\<rparr>"

lemma sample_tampered:
  "op_check (\<lambda>_. True) sample_tampered_disk ''op''"
  "case loadOperation sample_snapshot_env sample_tampered_disk ''op'' of Inl _ \<Rightarrow> True | Inr _ \<Rightarrow> False"
  by code_simp+

theorem damaged_record_stops_everything_witness:
  "(\<exists>y. run sample_snapshot_env (sample_run_env sample_full_lineage [] (Some sample_snapshot_receipt)) sample_tampered_disk
     sample_run_input = (sample_tampered_disk, Inl y)) \<and>
   RequireSettledRuntimeControls sample_snapshot_env
     (fst (run sample_snapshot_env (sample_run_env sample_full_lineage [] None) sample_unreadable_disk sample_run_input)) [] \<noteq> None"
proof
  obtain op where op: "map_of (sd_operations sample_tampered_disk) ''op'' = Some (Some op)"
    using op_checkE[OF sample_tampered(1)] by blast
  obtain x where x: "loadOperation sample_snapshot_env sample_tampered_disk ''op'' = Inl x"
    using sample_tampered(2) by (auto split: sum.splits)
  from damaged_record_stops_everything[OF op x rtranclp.rtrancl_refl]
  show "\<exists>y. run sample_snapshot_env (sample_run_env sample_full_lineage [] (Some sample_snapshot_receipt)) sample_tampered_disk
     sample_run_input = (sample_tampered_disk, Inl y)" by blast
  have "map_of (sd_operations sample_unreadable_disk) ''op'' = Some None"
    "loadOperation sample_snapshot_env sample_unreadable_disk ''op'' = Inl OperationUnreadable"
    by (simp_all add: sample_unreadable_disk_def loadOperation_def)
  from damaged_record_stops_everything[OF this r_into_rtranclp[where r = "snapshot_call sample_snapshot_env", OF sample_again]]
  show "RequireSettledRuntimeControls sample_snapshot_env
     (fst (run sample_snapshot_env (sample_run_env sample_full_lineage [] None) sample_unreadable_disk sample_run_input)) [] \<noteq> None"
    by blast
qed

definition sample_next_groups :: snapshot_quiescence where
  "sample_next_groups = sample_quiescence ''prepared'' (put_fresh sample_group Stop ControlPreparing [])"

theorem run_keeps_group_history_witness:
  "\<exists>op q op' q'. map_of (sd_operations (fst sample_stopping_run)) ''op'' = Some (Some op) \<and> so_quiescence op = Some q \<and>
     map_of (sd_operations (fst (run sample_snapshot_env (sample_run_env sample_lineage [sample_next_groups] None)
       (fst sample_stopping_run) sample_run_input))) ''op'' = Some (Some op') \<and> so_quiescence op' = Some q' \<and>
     list_all2 history_kept (sq_groups q) (sq_groups q')"
proof -
  obtain op where op: "map_of (sd_operations (fst sample_stopping_run)) ''op'' = Some (Some op)"
    "case so_quiescence op of None \<Rightarrow> False | Some q \<Rightarrow> \<not> List.null (sq_groups q)"
    using op_checkE[OF sample_stopping] by blast
  then obtain q where q: "so_quiescence op = Some q" "sq_groups q \<noteq> []" by (auto split: option.splits)
  have "\<forall>(q, out) \<in> set (an_persists (re_answer (sample_run_env sample_lineage [sample_next_groups] None))). sq_version q = 2"
    by (simp add: sample_run_env_def sample_next_groups_def sample_quiescence_def)
  from run_keeps_group_history[OF sample_reachable(3) surjective_pairing this op(1) q] show ?thesis using op(1) q(1) by blast
qed

end
