(* ===== verification/RestoreOutcomes.thy ===== *)
theory RestoreOutcomes
  imports RestoreJournal SnapshotOutcomes
begin

text \<open>
  What the backup calls guarantee: final and unique outcomes of restores, verification within the
  approval, snapshots that wait for restores, restores that wait for disturbed writers, and configurations
  that read back and never change repository. At the end, a concrete host and the witnesses.
\<close>

section \<open>Restores\<close>

lemma open_or_ended: "open_state op \<longleftrightarrow> rj_state op \<in> {''pending'', ''staged''}"
  by (auto simp: open_state_def)

lemma ended_restore_step:
  assumes "sound_backup v d" "restore_at d key = Some (Some op)" "\<not> open_state op" "backup_call v d d'"
  shows "restore_at d' key = Some (Some op)"
proof -
  have "restore_file_step (restore_at d key) (restore_at d' key)"
    using backup_call_sound[OF assms(4,1)] by (simp add: restores_kept_def)
  then show ?thesis using assms(2,3) by (auto simp: restore_file_step_def)
qed

interpretation ended_restore: guarded_steps
  "\<lambda>d. sound_backup v d \<and> restore_at d key = Some (Some op) \<and> \<not> open_state op" "backup_call v" for v key op
  by unfold_locales (use ended_restore_step backup_call_sound in blast)

lemma next_call: "(backup_call v)\<^sup>*\<^sup>* d0 d \<Longrightarrow> backup_call v d d' \<Longrightarrow> (backup_call v)\<^sup>*\<^sup>* d0 d'"
  by (rule rtranclp.rtrancl_into_rtrancl)

lemma reached_later: "(backup_call v)\<^sup>*\<^sup>* empty_backup d \<Longrightarrow> backup_later v d d' \<Longrightarrow> (backup_call v)\<^sup>*\<^sup>* empty_backup d'"
  by (rule rtranclp_trans)

lemmas reached_sound = backup_calls.reached_valid

text \<open>
  C18. The restore journal is well formed: every file that the calls leave behind, whatever failed
  between them, is readable, lies at the key of its signed operation, repeats its recovery anchor and
  the anchor's own file, and carries exactly the evidence of its state.
\<close>

theorem restore_records_well_formed:
  assumes "(backup_call v)\<^sup>*\<^sup>* empty_backup d" "map_of (bd_restores d) key = Some x"
  shows "\<exists>op. x = Some op \<and> sound_restore v d key op"
  by (rule sound_at_key[OF reached_sound[OF assms(1)] assms(2)])

lemma ended_restore_kept:
  assumes "(backup_call v)\<^sup>*\<^sup>* empty_backup d" "restore_at d key = Some (Some op)" "\<not> open_state op" "backup_later v d d'"
  shows "restore_at d' key = Some (Some op)"
  using ended_restore.run_valid[OF assms(4)] reached_sound[OF assms(1)] assms(2,3) by blast

text \<open>
  A completed or abandoned restore is final: no later call changes its file.
\<close>

theorem ended_restore_is_final:
  assumes "(backup_call v)\<^sup>*\<^sup>* empty_backup d" "map_of (bd_restores d) key = Some (Some op)"
    and "rj_state op \<noteq> ''pending''" "rj_state op \<noteq> ''staged''" "(backup_call v)\<^sup>*\<^sup>* d d'"
  shows "map_of (bd_restores d') key = Some (Some op)"
  by (rule ended_restore_kept[OF assms(1,2) _ assms(5)]) (use assms(3,4) in \<open>simp add: open_state_def\<close>)

lemma verified_result:
  assumes "VerifyRestoreResult v z = None"
  shows "restoreApprovalCurrent (rz_recovery z) (rt_completed (rz_receipt z)) \<and>
    restoreApprovalCurrent (rz_recovery z) (vf_at (rz_verification z)) \<and>
    rt_completed (rz_receipt z) \<le> vf_at (rz_verification z) \<and>
    ry_expires (rz_recovery z) \<le> ry_approved (rz_recovery z) + day \<and> vf_services (rz_verification z) \<and>
    rt_verified (rz_receipt z) \<and> rt_content (rz_receipt z) = ry_content (rz_recovery z) \<and>
    rt_snapshot (rz_receipt z) = ry_snapshot (rz_recovery z)"
  using assms unfolding VerifyRestoreResult_def VerifyRestoreRecoveryAnchor_def validateRestoreReceipt_def Let_def
  by (simp add: not_less)

text \<open>
  C9. A completed restore happened within its Owner's approval: its stored result shows that the
  approved snapshot's content was staged and verified, then the platform was verified, both after the
  approval and before its expiry, which is at most 24 hours later, however often the restore was resumed.
\<close>

theorem restore_completes_within_approval:
  assumes "(backup_call v)\<^sup>*\<^sup>* empty_backup d" "map_of (bd_restores d) key = Some (Some op)" "rj_state op = ''completed''"
  shows "\<exists>z. rj_result op = Some z \<and> map_of (bd_results d) (drop 7 (rz_id z)) = Some (Some z) \<and>
    rt_verified (rz_receipt z) \<and> rt_content (rz_receipt z) = ry_content (rj_recovery op) \<and>
    vf_services (rz_verification z) \<and>
    ry_approved (rj_recovery op) \<le> rt_completed (rz_receipt z) \<and>
    rt_completed (rz_receipt z) \<le> vf_at (rz_verification z) \<and>
    vf_at (rz_verification z) < ry_expires (rj_recovery op) \<and>
    ry_expires (rj_recovery op) \<le> ry_approved (rj_recovery op) + day"
proof -
  have "sound_restore v d key op" using sound_at_key[OF reached_sound[OF assms(1)] assms(2)] by blast
  then obtain z where z: "completion_evidence v d op z"
    using assms(3) by (auto simp: sound_restore_def restore_state_sound_def)
  then have "rj_result op = Some z" by (metis completion_evidence_def completed_restore_simps(6))
  then show ?thesis using z verified_result[of v z]
    by (auto simp: completion_evidence_def restoreApprovalCurrent_def)
qed

lemma restored_result:
  assumes "(backup_call v)\<^sup>*\<^sup>* empty_backup d" "Restore v w d n = (d', Inr z)"
  obtains op where "restore_at d' (sv_key (bv_snapshot v) (rn_operation n)) = Some (Some op)" "rj_state op = ''completed''"
    "rj_result op = Some z"
  using restore_result_at[OF assms(2) reached_sound[OF assms(1)]] by blast

text \<open>
  C13. A restore has one outcome: once a restore returned a result, every later restore of the same
  operation, in whatever state of the runtime and however approvals, clocks and writes turned out, returns
  that result or an error.
\<close>

theorem restore_result_is_unique:
  assumes "(backup_call v)\<^sup>*\<^sup>* empty_backup d" "Restore v w d n = (d1, Inr z)" "(backup_call v)\<^sup>*\<^sup>* d1 d2"
    and "Restore v w' d2 n' = (d3, Inr z')" "rn_operation n' = rn_operation n"
  shows "z' = z"
proof -
  have d1: "(backup_call v)\<^sup>*\<^sup>* empty_backup d1" by (rule next_call[OF assms(1) call_restore[OF assms(2)]])
  have d13: "backup_later v d1 d3" by (rule next_call[OF assms(3) call_restore[OF assms(4)]])
  obtain op where op: "restore_at d1 (sv_key (bv_snapshot v) (rn_operation n)) = Some (Some op)" "rj_state op = ''completed''"
    "rj_result op = Some z" by (rule restored_result[OF assms(1,2)])
  have "restore_at d3 (sv_key (bv_snapshot v) (rn_operation n)) = Some (Some op)"
    by (rule ended_restore_kept[OF d1 op(1) _ d13]) (simp add: open_state_def op(2))
  moreover obtain op' where "restore_at d3 (sv_key (bv_snapshot v) (rn_operation n)) = Some (Some op')" "rj_result op' = Some z'"
    using restored_result[OF reached_later[OF d1 assms(3)] assms(4)] assms(5) by metis
  ultimately show ?thesis using op(3) by simp
qed

text \<open>
  C14. An abandoned restore never completes: after the Owner's abandonment is journaled, no restore of the
  operation returns a result.
\<close>

theorem abandoned_restore_never_completes:
  assumes "(backup_call v)\<^sup>*\<^sup>* empty_backup d" "AbandonRestore v out now cancelled d n = (d1, Inr b)" "(backup_call v)\<^sup>*\<^sup>* d1 d2"
    and "rn_operation m = ai_operation n"
  shows "Restore v w d2 m \<noteq> (d3, Inr z)"
proof
  assume again: "Restore v w d2 m = (d3, Inr z)"
  have d1: "(backup_call v)\<^sup>*\<^sup>* empty_backup d1" by (rule next_call[OF assms(1) call_abandon[OF assms(2)]])
  have d13: "backup_later v d1 d3" by (rule next_call[OF assms(3) call_restore[OF again]])
  obtain op where op: "restore_at d1 (sv_key (bv_snapshot v) (ai_operation n)) = Some (Some op)" "rj_state op = ''abandoned''"
    using abandon_result[OF assms(2) reached_sound[OF assms(1)]] by blast
  have "restore_at d3 (sv_key (bv_snapshot v) (ai_operation n)) = Some (Some op)"
    by (rule ended_restore_kept[OF d1 op(1) _ d13]) (simp add: open_state_def op(2))
  then show False using restored_result[OF reached_later[OF d1 assms(3)] again] assms(4) op(2) by fastforce
qed

lemma receipt_update:
  "rw_status (w\<lparr>rw_receipt := x\<rparr>) = rw_status w" "rw_approve (w\<lparr>rw_receipt := x\<rparr>) = rw_approve w"
  "rw_start (w\<lparr>rw_receipt := x\<rparr>) = rw_start w" "rw_finish (w\<lparr>rw_receipt := x\<rparr>) = rw_finish w"
  "rw_verification (w\<lparr>rw_receipt := x\<rparr>) = rw_verification w" "rw_cancelled (w\<lparr>rw_receipt := x\<rparr>) = rw_cancelled w"
  "rw_write_recovery (w\<lparr>rw_receipt := x\<rparr>) = rw_write_recovery w" "rw_write_pending (w\<lparr>rw_receipt := x\<rparr>) = rw_write_pending w"
  "rw_write_result (w\<lparr>rw_receipt := x\<rparr>) = rw_write_result w" "rw_write_completed (w\<lparr>rw_receipt := x\<rparr>) = rw_write_completed w"
  by simp_all

lemma restore_ignores_receipt:
  "admit_restore v (w\<lparr>rw_receipt := x\<rparr>) d n = admit_restore v w d n"
  "prepareRestoreOperation v (w\<lparr>rw_receipt := x\<rparr>) d key i c a = prepareRestoreOperation v w d key i c a"
  "verify_and_complete v (w\<lparr>rw_receipt := x\<rparr>) d key c r a t = verify_and_complete v w d key c r a t"
  unfolding admit_restore_def prepareRestoreOperation_def verify_and_complete_def completeRestore_def receipt_update
  by (rule refl)+

lemma status_update:
  "rw_receipt (w\<lparr>rw_status := x\<rparr>) = rw_receipt w" "rw_approve (w\<lparr>rw_status := x\<rparr>) = rw_approve w"
  "rw_start (w\<lparr>rw_status := x\<rparr>) = rw_start w" "rw_finish (w\<lparr>rw_status := x\<rparr>) = rw_finish w"
  "rw_verification (w\<lparr>rw_status := x\<rparr>) = rw_verification w" "rw_cancelled (w\<lparr>rw_status := x\<rparr>) = rw_cancelled w"
  "rw_write_recovery (w\<lparr>rw_status := x\<rparr>) = rw_write_recovery w" "rw_write_pending (w\<lparr>rw_status := x\<rparr>) = rw_write_pending w"
  "rw_stage (w\<lparr>rw_status := x\<rparr>) = rw_stage w" "rw_staged (w\<lparr>rw_status := x\<rparr>) = rw_staged w"
  "rw_write_staged (w\<lparr>rw_status := x\<rparr>) = rw_write_staged w"
  "rw_write_result (w\<lparr>rw_status := x\<rparr>) = rw_write_result w" "rw_write_completed (w\<lparr>rw_status := x\<rparr>) = rw_write_completed w"
  by simp_all

lemma restore_ignores_status:
  "prepareRestoreOperation v (w\<lparr>rw_status := x\<rparr>) d key i c a = prepareRestoreOperation v w d key i c a"
  "verify_and_complete v (w\<lparr>rw_status := x\<rparr>) d key c r a t = verify_and_complete v w d key c r a t"
  "stage_restore v (w\<lparr>rw_status := x\<rparr>) d key i r q = stage_restore v w d key i r q"
  unfolding prepareRestoreOperation_def verify_and_complete_def completeRestore_def stage_restore_def status_update by (rule refl)+

lemma admitted_parts:
  assumes "admit_restore v w d n = Inr ca"
  shows "boundConfiguration v d (rn_binding n) = Inr (fst ca)" "load_snapshot_anchor v d (rn_anchor n) = Inr (snd ca)"
  using assms by (auto simp: admit_restore_def split: option.splits if_splits)

lemma admitted_same: "admit_restore v w d n = Inr ca \<Longrightarrow> admit_restore v w' d n = Inr ca' \<Longrightarrow> ca' = ca"
  using admitted_parts[of v w d n ca] admitted_parts[of v w' d n ca'] by (auto intro: prod_eqI)

lemma status_only_admits:
  assumes "admit_restore v w d n = Inr ca"
  shows "Restore v (w\<lparr>rw_status := status\<rparr>) d n =
    (case admit_restore v (w\<lparr>rw_status := status\<rparr>) d n of Inl x \<Rightarrow> (d, Inl (Backup x)) | Inr _ \<Rightarrow> Restore v w d n)"
proof (cases "admit_restore v (w\<lparr>rw_status := status\<rparr>) d n")
  case (Inl x)
  then show ?thesis by (simp add: Restore_def)
next
  case (Inr ca')
  then have "admit_restore v (w\<lparr>rw_status := status\<rparr>) d n = admit_restore v w d n"
    using admitted_same[OF assms] assms by simp
  then have "Restore v (w\<lparr>rw_status := status\<rparr>) d n = Restore v w d n"
    unfolding Restore_def restore_ignores_status by (rule ssubst) (rule refl)
  then show ?thesis using Inr by simp
qed

lemma journaled_staging_ignored:
  assumes "(backup_call v)\<^sup>*\<^sup>* empty_backup d" "rj_receipt op \<noteq> None"
    and "restore_at d (sv_key (bv_snapshot v) (rn_operation n)) = Some (Some op)"
  shows "Restore v (w\<lparr>rw_receipt := answer\<rparr>) d n = Restore v w d n"
proof (cases "admit_restore v w d n")
  case (Inl x)
  then show ?thesis by (simp add: Restore_def restore_ignores_receipt)
next
  case (Inr ca)
  obtain c a where ca: "ca = (c, a)" by fastforce
  let ?i = "restore_intent_of c a (rn_operation n)" and ?key = "sv_key (bv_snapshot v) (rn_operation n)"
  obtain d1 y where prepare: "prepareRestoreOperation v w d ?key ?i c a = (d1, y)" by fastforce
  have "d1 = d" using prepare assms(3)
    by (auto simp: prepareRestoreOperation_def loadRestoreOperation_def split: if_splits)
  moreover have "\<forall>z. y = Inr z \<longrightarrow> resumed_at d1 ?key ?i z"
    using prepare_result[OF prepare reached_sound[OF assms(1)] refl refl] by blast
  ultimately have "y \<noteq> Inr (Fresh r)" for r using assms(2,3) by (auto simp: resumed_at_def)
  then show ?thesis
    by (cases y; cases "projr y")
      (simp_all add: Restore_def restore_ignores_receipt Inr ca prepare Let_def cong: option.case_cong)
qed

text \<open>
  C31. The repository is asked to stage a restore at most once. When the receipt of a staging is journaled,
  the repository can influence a further call in one way only: by a status that does not admit it,
  which changes no file and returns that reason. Every admitted call gives the files and the
  result it would give for any other answer to a staging and any other admitting status.
\<close>

theorem staged_restore_is_not_staged_again:
  assumes "(backup_call v)\<^sup>*\<^sup>* empty_backup d" "rj_receipt op \<noteq> None"
    and "map_of (bd_restores d) (sv_key (bv_snapshot v) (rn_operation n)) = Some (Some op)"
    and "admit_restore v w d n = Inr ca"
  shows "Restore v (w\<lparr>rw_status := status, rw_receipt := answer\<rparr>) d n =
    (case admit_restore v (w\<lparr>rw_status := status\<rparr>) d n of Inl x \<Rightarrow> (d, Inl (Backup x)) | Inr _ \<Rightarrow> Restore v w d n)"
  by (rule trans[OF journaled_staging_ignored[OF assms(1-3)] status_only_admits[OF assms(4)]])

section \<open>Retention\<close>

lemma drop_prefix [simp]: "drop 7 (''sha256:'' @ key) = key" "drop 7 (CHR ''s'' # CHR ''h'' # CHR ''a'' # CHR ''2'' # CHR ''5'' # CHR ''6'' # CHR '':'' # key) = key"
  by simp_all








section \<open>Configurations\<close>

lemma settled_or_refused:
  assumes "RequireSettledRuntimeControls (bv_snapshot v) (bd_snapshots d) [] = Some x"
  shows "Configure v co d i = (d, Inl (BackupGate x)) \<and> Rebind v co d i = (d, Inl (BackupGate x)) \<and>
    Restore v w d n = (d, Inl (Backup (BackupGate x)))"
  using assms by (simp add: Configure_def Rebind_def Restore_def admit_restore_def)

lemma configure_stored:
  assumes "configure v co d owner b expected = (d', Inr c)"
  shows "\<exists>r. c = configured b owner r \<and>
    bd_configuration d' = Some (Some \<lparr>cs_api = configuration_api,
      cs_operation = configurationOperationID (bv_snapshot v) (repository_configuration_of c []), cs_bound = c\<rparr>) \<and>
    validateRepositoryReceipt (bv_snapshot v) r (identified (bv_snapshot v) (repository_configuration_of c [])) \<and>
    (\<forall>p. expected = Some p \<longrightarrow> rr_repository r = rr_repository p \<and> rr_backend r = rr_backend p)"
proof -
  obtain r where r: "co_answer co = Some r" "c = configured b owner r" "co_write co = FileWritten"
    using assms by (auto simp: configure_def Let_def split: option.splits prod.splits if_splits)
  have "repository_configuration_of c [] = \<lparr>pc_owner = owner, pc_authority = nb_authority b, pc_lineage = nb_lineage b,
      pc_policy_digest = nb_policy_digest b, pc_operation = [], pc_policy = nb_policy b\<rparr>"
    by (simp add: r repository_configuration_of_def configured_def)
  then show ?thesis using assms r
    by (auto simp: configure_def Let_def identified_def configurationOperationID_def split: prod.splits option.splits if_splits)
qed

lemma configure_bound:
  assumes "configure v co d (ci_owner i) b expected = (d', Inr c)"
    and "validateBinding v (ci_owner i) (ci_authority i) = None" "normalizeBinding v i = Inr b"
    and "\<And>x. validDigest (bv_digest v x)" "\<And>x. validDigest (sv_configuration_id (bv_snapshot v) x)"
    and "\<And>x p. bv_decode_policy v x = Some p \<Longrightarrow> sv_policy_ok (bv_snapshot v) p"
  shows "boundConfiguration v d' i = Inr c"
proof -
  obtain r where r: "c = configured b (ci_owner i) r"
    "bd_configuration d' = Some (Some \<lparr>cs_api = configuration_api,
      cs_operation = configurationOperationID (bv_snapshot v) (repository_configuration_of c []), cs_bound = c\<rparr>)"
    "validateRepositoryReceipt (bv_snapshot v) r (identified (bv_snapshot v) (repository_configuration_of c []))"
    using configure_stored[OF assms(1)] by blast
  have b: "lineage_complete (nb_lineage b)" "nb_owner b = ci_owner i" "validDigest (nb_policy_digest b)"
    "sv_policy_ok (bv_snapshot v) (nb_policy b)"
    using assms(3,4,6) by (auto simp: normalizeBinding_def split: if_splits option.splits)
  have c: "cf_repository c = r" "cf_lineage c = nb_lineage b" "cf_policy_digest c = nb_policy_digest b" "cf_policy c = nb_policy b"
    by (simp_all add: r(1) configured_def)
  have same: "repository_configuration_of c (configurationOperationID (bv_snapshot v) (repository_configuration_of c [])) =
      identified (bv_snapshot v) (repository_configuration_of c [])"
    by (simp add: repository_configuration_of_def identified_def)
  have digest: "validDigest (configurationOperationID (bv_snapshot v) x)" for x
    by (simp add: configurationOperationID_def assms(5))
  have operation: "configurationOperationID (bv_snapshot v) (identified (bv_snapshot v) x) =
      configurationOperationID (bv_snapshot v) x" for x
    by (simp add: identified_def configurationOperationID_def)
  have "loadConfiguration v d' = Inr c"
    by (simp add: loadConfiguration_def Let_def r(2) same digest operation c b r(3))
  moreover have "configurationBindingIssue v c b = None"
    using b(2) by (simp add: r(1) configured_def configurationBindingIssue_def lineagesEqual_def)
  ultimately show ?thesis using assms(2,3) by (simp add: boundConfiguration_def)
qed

text \<open>
  C32. A configuration reads back: after Configure succeeded, the same Owner, authority, lineage and policy
  are bound to exactly the configuration it returned. The digests are SHA-256 digests, and a policy that
  decodes is valid.
\<close>

theorem configuration_round_trip:
  assumes "Configure v co d i = (d', Inr c)"
    and "\<And>x. validDigest (bv_digest v x)" "\<And>x. validDigest (sv_configuration_id (bv_snapshot v) x)"
    and "\<And>x p. bv_decode_policy v x = Some p \<Longrightarrow> sv_policy_ok (bv_snapshot v) p"
  shows "boundConfiguration v d' i = Inr c"
proof -
  obtain b where "validateBinding v (ci_owner i) (ci_authority i) = None" "normalizeBinding v i = Inr b"
    "configure v co d (ci_owner i) b None = (d', Inr c)"
    using assms(1) by (auto simp: Configure_def split: option.splits sum.splits if_splits)
  then show ?thesis using configure_bound assms(2-4) by metis
qed

text \<open>
  Moving the configuration never moves the backups: a rebind keeps the Owner, the human authority, the
  repository and its backend of the configuration it replaces.
\<close>

theorem rebind_keeps_repository:
  assumes "Rebind v co d i = (d', Inr (c, changed))"
  shows "\<exists>previous. loadConfiguration v d = Inr previous \<and> cf_owner c = cf_owner previous \<and>
    cf_authority c = cf_authority previous \<and> rr_repository (cf_repository c) = rr_repository (cf_repository previous) \<and>
    rr_backend (cf_repository c) = rr_backend (cf_repository previous)"
proof -
  obtain previous b where p: "loadConfiguration v d = Inr previous" "normalizeBinding v i = Inr b"
    "cf_owner previous = ci_owner i" "cf_authority previous = ci_authority i"
    "c = previous \<or> configure v co d (ci_owner i) b (Some (cf_repository previous)) = (d', Inr c)"
    using assms by (auto simp: Rebind_def split: option.splits sum.splits if_splits prod.splits)
  have "nb_authority b = ci_authority i" using p(2) by (auto simp: normalizeBinding_def split: if_splits option.splits)
  with p show ?thesis using configure_stored[of v co d "ci_owner i" b "Some (cf_repository previous)" d' c]
    by (auto simp: configured_def)
qed

lemma backup_call_snapshots:
  assumes "backup_call v d d'" "snapshot_reachable (bv_snapshot v) (bd_snapshots d)"
  shows "snapshot_reachable (bv_snapshot v) (bd_snapshots d')"
  using assms(1)
proof cases
  case (call_configure co i x)
  then show ?thesis using Configure_files assms(2) by metis
next
  case (call_rebind co i x)
  then show ?thesis using Rebind_files assms(2) by metis
next
  case (call_Run now answer re i r x)
  then show ?thesis using Run_snapshot_call reach_call[OF assms(2)] by blast
next
  case (call_restore w n x)
  then show ?thesis using restore_result_snapshots assms(2) by metis
next
  case (call_abandon out now cancelled n x)
  then show ?thesis using abandon_snapshots assms(2) by metis
next
  case (call_transfer s)
  then show ?thesis using reach_call[OF assms(2)] by simp
qed

interpretation snapshot_part: started_steps "\<lambda>d. snapshot_reachable (bv_snapshot v) (bd_snapshots d)" "backup_call v" empty_backup for v
  by unfold_locales (use backup_call_snapshots in blast, simp add: empty_backup_def reach_empty)

text \<open>
  C19. Nothing is reconfigured or restored while a controlled snapshot left writers disturbed: as long as
  a journaled snapshot holds an application for a transfer, an app group it stopped is not restored and
  closed, or a container it stopped through a journaled control does not run again, configuring, moving
  the configuration and restoring change no file and return that reason. Snapshots of protocol 0,
  which journal no control, are not covered: the gate lets them pass in any phase.
\<close>

theorem backup_calls_wait_for_writers:
  assumes "(backup_call v)\<^sup>*\<^sup>* empty_backup d" "map_of (sd_operations (bd_snapshots d)) key = Some (Some op)"
    and "\<not> released op" "\<not> undisturbed op" "controlled op"
  shows "\<exists>x. \<forall>co i w n. Configure v co d i = (d, Inl (BackupGate x)) \<and> Rebind v co d i = (d, Inl (BackupGate x)) \<and>
    Restore v w d n = (d, Inl (Backup (BackupGate x)))"
proof -
  have reach: "snapshot_reachable (bv_snapshot v) (bd_snapshots d)" by (rule snapshot_part.reached_valid[OF assms(1)])
  have "oi_operation (so_input op) \<noteq> []"
    using sound_at[OF snapshot_reachable_sound[OF reach] assms(2)] by (auto simp: sound_operation_def validOperationID_def)
  from disturbed_not_settled[OF reach assms(2) this assms(3-5)] settled_or_refused show ?thesis by blast
qed

section \<open>Concrete backups\<close>

definition sample_backup_env :: "unit backup_env" where
  "sample_backup_env =
     \<lparr>bv_snapshot = sample_snapshot_env\<lparr>sv_key := (\<lambda>k. sample_hex (last k)),
        sv_configuration_id := (\<lambda>r. if pc_policy_digest r = sample_digest CHR ''c'' then sample_digest CHR ''c'' else sample_digest CHR ''d'')\<rparr>, bv_custody = Some (''o'', ''a''),
      bv_decode_policy = (\<lambda>_. Some ()), bv_digest = (\<lambda>x. sample_digest (if x = ''p'' then CHR ''c'' else CHR ''d'')), bv_stack = (\<lambda>_. ''s''),
      bv_target = (\<lambda>_. \<lparr>tg_site = ''s'', tg_node = ''n'', tg_daemon = [], tg_engine = [], tg_socket = [], tg_scope = []\<rparr>),
      bv_restore_digest = (\<lambda>_. Some (sample_digest CHR ''5'')), bv_topology_digest = (\<lambda>_. Some ''t''),
      bv_coverage = (\<lambda>_. True), bv_retains = (\<lambda>_. True), bv_request_digest = (\<lambda>_. []),
      bv_recovery_digest = (\<lambda>_. sample_digest CHR ''2''), bv_sign_recovery = (\<lambda>_. Some []), bv_verify_recovery = (\<lambda>_. True),
      bv_result_digest = (\<lambda>_. sample_digest CHR ''3''), bv_sign_result = (\<lambda>_. Some []), bv_verify_result = (\<lambda>_. True),
      bv_abandonment_digest = (\<lambda>_. sample_digest CHR ''4''), bv_sign_abandonment = (\<lambda>_. Some []),
      bv_verify_abandonment = (\<lambda>_. True)\<rparr>"

definition sample_backup_binding :: configure_input where
  "sample_backup_binding = \<lparr>ci_owner = ''o'', ci_authority = ''a'', ci_lineage = sample_full_lineage, ci_artifact = ''p''\<rparr>"

definition sample_status :: "repository_status option" where
  "sample_status = Some \<lparr>st_repository = ''r'', st_ready = True, st_consistency = crash_consistent\<rparr>"

definition sample_configure_env :: configure_env where
  "sample_configure_env = \<lparr>co_intent = FileWritten, co_answer = Some sample_repository, co_write = FileWritten\<rparr>"

definition sample_configured :: "unit backup_disk \<times> (backup_error + unit configuration)" where
  "sample_configured = Configure sample_backup_env sample_configure_env empty_backup sample_backup_binding"

definition sample_backup_run :: "int \<Rightarrow> unit backup_disk \<Rightarrow> string \<Rightarrow> unit backup_disk \<times> (snapshot_error + unit snapshot_anchor)" where
  "sample_backup_run now d operation = Run sample_backup_env now sample_status
     (sample_run_env sample_full_lineage [] (Some sample_snapshot_receipt)) d sample_backup_binding
     \<lparr>ri_operation = operation, ri_protect = False, ri_workloads = []\<rparr>"

definition sample_restore_receipt :: "string \<Rightarrow> restore_receipt" where
  "sample_restore_receipt operation = \<lparr>rt_api = ''stackkit.local-backup-repository-restore/v1'', rt_repository = ''r'',
     rt_snapshot = ''k'', rt_operation = operation, rt_request = [], rt_staging = RestoreStagingPath sample_backup_env operation,
     rt_content = sample_digest CHR ''d'', rt_verified = True, rt_completed = 3\<rparr>"

definition sample_verification :: restore_verification where
  "sample_verification = \<lparr>vf_api = restore_verification_api, vf_owner = ''o'', vf_owner_binding = sample_digest CHR ''b'',
     vf_subject = ''s'', vf_plan = sample_digest CHR ''1'', vf_services = True, vf_at = 4, vf_readback = None\<rparr>"

definition sample_restore_world :: "int \<Rightarrow> restore_receipt option \<Rightarrow> restore_world" where
  "sample_restore_world now receipt = \<lparr>rw_status = sample_status, rw_approve = now, rw_stage = 3, rw_staged = 3, rw_start = 4,
     rw_finish = 5, rw_receipt = receipt, rw_verification = Some sample_verification, rw_cancelled = False,
     rw_write_recovery = FileWritten, rw_write_pending = FileWritten, rw_write_staged = FileWritten,
     rw_write_result = FileWritten, rw_write_completed = FileWritten\<rparr>"

definition sample_restore_input :: "string \<Rightarrow> restore_input" where
  "sample_restore_input operation = \<lparr>rn_binding = sample_backup_binding, rn_anchor = sample_digest CHR ''1'', rn_operation = operation,
     rn_approved = True, rn_verifier = True\<rparr>"

definition sample_restore :: "int \<Rightarrow> bool \<Rightarrow> unit backup_disk \<Rightarrow> string \<Rightarrow> unit backup_disk \<times> (restore_error + restore_result)" where
  "sample_restore now answers d operation = Restore sample_backup_env
     (sample_restore_world now (if answers then Some (sample_restore_receipt operation) else None)) d (sample_restore_input operation)"

text \<open>
  A configured host, a snapshot on it, a restore \<open>restore-a\<close> whose staging fails, and a later
  approved restore \<open>restore-b\<close> of the same snapshot that completes.
\<close>

definition sample_snapshot_disk :: "unit backup_disk" where
  "sample_snapshot_disk = fst (sample_backup_run 1 (fst sample_configured) ''op'')"

definition sample_pending_disk :: "unit backup_disk" where
  "sample_pending_disk = fst (sample_restore 1 False sample_snapshot_disk ''restore-a'')"

definition sample_restored_disk :: "unit backup_disk" where
  "sample_restored_disk = fst (sample_restore 2 True sample_pending_disk ''restore-b'')"

definition restore_check :: "(restore_operation \<Rightarrow> bool) \<Rightarrow> 'p backup_disk \<Rightarrow> string \<Rightarrow> bool" where
  "restore_check P d key = (case map_of (bd_restores d) key of Some (Some op) \<Rightarrow> P op | _ \<Rightarrow> False)"

definition returned :: "'e + 'a \<Rightarrow> bool" where
  "returned x = (case x of Inl _ \<Rightarrow> False | Inr _ \<Rightarrow> True)"

definition sample_abandon :: "unit backup_disk \<Rightarrow> unit backup_disk \<times> (restore_error + restore_abandonment)" where
  "sample_abandon d = AbandonRestore sample_backup_env FileWritten 7 False d
     \<lparr>ai_binding = sample_backup_binding, ai_operation = ''restore-a'', ai_approved = True\<rparr>"

text \<open>What the witnesses read off the host after both restores.\<close>

definition sample_history :: "unit backup_disk \<Rightarrow> bool" where
  "sample_history d \<longleftrightarrow>
     restore_check (\<lambda>op. rj_state op = ''pending'' \<and> ry_owner (rj_recovery op) = ''o'' \<and> ry_repository (rj_recovery op) = ''r'' \<and>
       ry_anchor (rj_recovery op) = sample_digest CHR ''1'') d (sample_hex CHR ''a'') \<and>
     restore_check (\<lambda>op. rj_state op = ''completed'') d (sample_hex CHR ''b'') \<and>
     (case boundConfiguration sample_backup_env d sample_backup_binding of
        Inl _ \<Rightarrow> False | Inr c \<Rightarrow> cf_owner c = ''o'' \<and> rr_repository (cf_repository c) = ''r'') \<and>
     (case load_snapshot_anchor sample_backup_env d (sample_digest CHR ''1'') of Inl _ \<Rightarrow> False | Inr a \<Rightarrow> \<not> oi_protect (sa_input a)) \<and>
     map_of (sd_operations (bd_snapshots d)) (sample_hex CHR ''q'') = None \<and>
     op_check (\<lambda>_. True) (bd_snapshots (fst (sample_backup_run 6 d ''oq''))) (sample_hex CHR ''q'') \<and>
     returned (snd (sample_restore 8 False d ''restore-b'')) \<and> returned (snd (sample_abandon d))"

section \<open>Evaluating the concrete host\<close>

text \<open>
  The definitions, and digests and lineage as values with known properties, so that the simplifier
  evaluates whole calls without spelling digests out.
\<close>

named_theorems host

lemma sample_hex_eq [host]: "sample_hex a = sample_hex b \<longleftrightarrow> a = b"
  by (simp add: sample_hex_def)

lemma sample_digest_eq [host]: "sample_digest a = sample_digest b \<longleftrightarrow> a = b"
  by (simp add: sample_digest_def sample_hex_eq)

lemma sample_digest_Nil [host]: "sample_digest a \<noteq> []" "sample_digest a @ x \<noteq> []"
  by (simp_all add: sample_digest_def sha256_prefix_def)

lemma sample_drop [host]: "drop 7 (sample_digest a) = sample_hex a"
  by (simp add: sample_digest_def)

lemma sample_valid [host]: "is_hex a \<Longrightarrow> validDigest (sample_digest a)"
  by (auto simp: validDigest_def sample_digest_def sample_hex_def has_prefix_def list_all_iff)

lemma sample_hexes [host]: "list_all is_hex ''0123456789abcdef''"
  by code_simp

lemma sample_lineage_complete [host]: "lineage_complete sample_full_lineage" by code_simp

lemma sample_fields: "al_owner_binding_digest sample_full_lineage = sample_digest CHR ''b''"
  "al_pocket_id_subject sample_full_lineage = ''s''" "pb_plan_hash (al_binding sample_full_lineage) = sample_digest CHR ''1''"
  by (simp_all add: sample_full_lineage_def)

lemmas [host] = sample_fields sample_hexes[simplified]

lemmas [host] = sample_configured_def Configure_def sample_backup_env_def sample_configure_env_def empty_backup_def
  sample_backup_binding_def RequireSettledRuntimeControls_def empty_disk_def validateBinding_def normalizeBinding_def
  loadConfiguration_def configure_def identified_def configurationOperationID_def sample_snapshot_env_def
  ensureConfigurationIntent_def sample_repository_def validateRepositoryReceipt_def configured_def put_file_def
  check_def Let_def

lemmas [host] = validateBinding_def normalizeBinding_def lineagesEqual_def configurationBindingIssue_def
  CarryForwardable_def put_file_def write_failed_def configuration_api_def repository_configuration_of_def
  loadConfiguration_def boundConfiguration_def repositoryConfigurationsEqual_def configuration_intent_api_def
  ensureConfigurationIntent_def configured_def configure_def Configure_def Rebind_def repositoryStatus_def Status_def
  repository_ready_def restoreDataTopologyCompatible_def restoreTargetsCompatible_def validateRestoreSource_def
  RestoreStagingPath_def day_def VerifyRestoreRecoveryAnchor_def validateRestoreRecoveryBinding_def
  repositoryRestoreRequest_def repositoryRestoreRequestFromRecovery_def validateRestoreReceipt_def
  restore_verification_api_def validateRestoreVerification_def restoreApprovalCurrent_def
  validateFreshRestoreVerification_def VerifyRestoreResult_def restore_operation_api_def loadRestoreOperation_def
  LoadRestoreResult_def load_snapshot_anchor_def VerifyRestoreAbandonment_def validateRestoreAbandonmentBinding_def
  validateRestoreAbandonmentCurrentBinding_def check_receipt_def state_invalid_def check_abandoned_def
  pending_shape_def staged_shape_def resume_restore_def make_recovery_def put_restore_def pending_restore_def
  staged_restore_def intent_of_def completed_restore_def prepareRestoreOperation_def make_result_def store_result_def
  completeRestore_def verify_and_complete_def stage_restore_def admit_restore_def restore_intent_of_def Restore_def
  make_abandonment_def validateRestoreRetentionRecoveryBinding_def abandoned_restore_def load_abandonable_def
  close_restore_def AbandonRestore_def evidence_files_def historyIDs_def restoreOperationUsesRetentionScope_def
  restoreRetentionJournalError_def validateRestoreRetentionResult_def open_state_def retention_state_issue_def
  validateRestoreRetentionOperation_def retention_lease_def completed_source_issue_def later_approval_def
  completedRestoreRetentionSources_def lease_issue_def admitSnapshotRetention_def run_surroundings_def Run_def
  empty_backup_def sample_backup_env_def sample_backup_binding_def sample_status_def sample_configure_env_def
  sample_configured_def sample_backup_run_def sample_restore_receipt_def sample_verification_def
  sample_restore_world_def sample_restore_input_def sample_restore_def sample_snapshot_disk_def
  sample_pending_disk_def sample_restored_disk_def restore_check_def returned_def sample_abandon_def
  sample_run_env_def sample_snapshot_receipt_def run_def loadOperation_def bound_input_def admit_run_def
  snapshotRequest_def first_run_def write_operation_def writeSnapshotOperation_def signSnapshotOperation_def
  unsigned_op_def put_operation_def pending_operation_def create_run_def finish_run_def validateSnapshotReceipt_def
  completeSnapshot_def check_operation_def verifySnapshotOperation_def make_anchor_def VerifySnapshotAnchor_def
  anchor_configuration_def store_anchor_def load_anchor_def restored_evidence_def journal_completion_def
  completed_operation_def closeCompletedSnapshotGroups_def group_ids_def validateSnapshotGroupClosures_def
  operationInputsEqual_def crash_consistent_def loadStoredSnapshotAnchor_def blocks_mutation_def released_def
  pending_obligation_def snapshot_operation_api_def failed_after_settlement_def op_check_def

lemma ops_ok: "validOperationID ''op''" "validOperationID ''oq''" "validOperationID ''k''" "validOperationID ''restore-a''" "validOperationID ''restore-b''"
  "\<not> blank ''restore-a''" "\<not> blank ''restore-b''"
  by code_simp+

lemma prefix_digest: "CHR ''s'' # CHR ''h'' # CHR ''a'' # CHR ''2'' # CHR ''5'' # CHR ''6'' # CHR '':'' # sample_hex c = sample_digest c"
  by (simp add: sample_digest_def sha256_prefix_def)

lemmas [host] = ops_ok prefix_digest

lemma sample_history_holds: "sample_history sample_restored_disk"
  by (simp add: host sample_history_def)

section \<open>Witnesses\<close>

lemma sample_reached:
  "(backup_call sample_backup_env)\<^sup>*\<^sup>* empty_backup (fst sample_configured)"
  "(backup_call sample_backup_env)\<^sup>*\<^sup>* empty_backup sample_restored_disk"
proof -
  have configured: "backup_call sample_backup_env empty_backup (fst sample_configured)"
    unfolding sample_configured_def by (rule call_configure, rule surjective_pairing)
  have ran: "backup_call sample_backup_env (fst sample_configured) sample_snapshot_disk"
    unfolding sample_snapshot_disk_def sample_backup_run_def by (rule call_Run, rule surjective_pairing)
  have pending: "backup_call sample_backup_env sample_snapshot_disk sample_pending_disk"
    unfolding sample_pending_disk_def sample_restore_def by (rule call_restore, rule surjective_pairing)
  have restored: "backup_call sample_backup_env sample_pending_disk sample_restored_disk"
    unfolding sample_restored_disk_def sample_restore_def by (rule call_restore, rule surjective_pairing)
  show first: "(backup_call sample_backup_env)\<^sup>*\<^sup>* empty_backup (fst sample_configured)"
    by (rule next_call[OF rtranclp.rtrancl_refl configured])
  show "(backup_call sample_backup_env)\<^sup>*\<^sup>* empty_backup sample_restored_disk"
    by (rule next_call[OF next_call[OF next_call[OF first ran] pending] restored])
qed

lemma restore_checkE:
  assumes "restore_check P d key" obtains op where "map_of (bd_restores d) key = Some (Some op)" "P op"
  using assms by (auto simp: restore_check_def split: option.splits)

lemma sample_history_parts:
  "restore_check (\<lambda>op. rj_state op = ''pending'' \<and> ry_owner (rj_recovery op) = ''o'' \<and> ry_repository (rj_recovery op) = ''r'' \<and>
     ry_anchor (rj_recovery op) = sample_digest CHR ''1'') sample_restored_disk (sample_hex CHR ''a'')"
  "restore_check (\<lambda>op. rj_state op = ''completed'') sample_restored_disk (sample_hex CHR ''b'')"
  "case boundConfiguration sample_backup_env sample_restored_disk sample_backup_binding of
     Inl _ \<Rightarrow> False | Inr c \<Rightarrow> cf_owner c = ''o'' \<and> rr_repository (cf_repository c) = ''r''"
  "case load_snapshot_anchor sample_backup_env sample_restored_disk (sample_digest CHR ''1'') of
     Inl _ \<Rightarrow> False | Inr a \<Rightarrow> \<not> oi_protect (sa_input a)"
  "map_of (sd_operations (bd_snapshots sample_restored_disk)) (sample_hex CHR ''q'') = None"
  "op_check (\<lambda>_. True) (bd_snapshots (fst (sample_backup_run 6 sample_restored_disk ''oq''))) (sample_hex CHR ''q'')"
  "returned (snd (sample_restore 8 False sample_restored_disk ''restore-b''))"
  "returned (snd (sample_abandon sample_restored_disk))"
  using sample_history_holds unfolding sample_history_def by - (elim conjE, assumption)+

lemma sample_completed:
  obtains op where "map_of (bd_restores sample_restored_disk) (sample_hex CHR ''b'') = Some (Some op)" "rj_state op = ''completed''"
  by (rule restore_checkE[OF sample_history_parts(2)])

lemma outcome: "snd p = x \<Longrightarrow> p = (fst p, x)"
  by auto

lemma returnedE: assumes "returned x" obtains a where "x = Inr a"
  using assms by (auto simp: returned_def split: sum.splits)

theorem restore_records_well_formed_witness:
  "\<exists>op. map_of (bd_restores sample_restored_disk) (sample_hex CHR ''b'') = Some (Some op) \<and>
     sound_restore sample_backup_env sample_restored_disk (sample_hex CHR ''b'') op"
proof -
  obtain op where "map_of (bd_restores sample_restored_disk) (sample_hex CHR ''b'') = Some (Some op)" by (rule sample_completed)
  with restore_records_well_formed[OF sample_reached(2) this] show ?thesis by blast
qed

theorem ended_restore_is_final_witness:
  "\<exists>op. map_of (bd_restores (fst (sample_restore 8 False sample_restored_disk ''restore-b''))) (sample_hex CHR ''b'') = Some (Some op) \<and>
     rj_state op = ''completed''"
proof -
  obtain op where op: "map_of (bd_restores sample_restored_disk) (sample_hex CHR ''b'') = Some (Some op)" "rj_state op = ''completed''"
    by (rule sample_completed)
  have "(backup_call sample_backup_env)\<^sup>*\<^sup>* sample_restored_disk (fst (sample_restore 8 False sample_restored_disk ''restore-b''))"
    unfolding sample_restore_def by (rule r_into_rtranclp, rule call_restore, rule surjective_pairing)
  from ended_restore_is_final[OF sample_reached(2) op(1) _ _ this] op(2) show ?thesis by simp
qed

theorem restore_completes_within_approval_witness:
  "\<exists>op z. map_of (bd_restores sample_restored_disk) (sample_hex CHR ''b'') = Some (Some op) \<and> rj_result op = Some z \<and>
     ry_approved (rj_recovery op) \<le> rt_completed (rz_receipt z) \<and> vf_at (rz_verification z) < ry_expires (rj_recovery op)"
proof -
  obtain op where op: "map_of (bd_restores sample_restored_disk) (sample_hex CHR ''b'') = Some (Some op)" "rj_state op = ''completed''"
    by (rule sample_completed)
  from restore_completes_within_approval[OF sample_reached(2) op] op(1) show ?thesis by blast
qed

theorem restore_result_is_unique_witness:
  "\<exists>z. \<forall>z'. snd (sample_restore 9 True (fst (sample_restore 8 False sample_restored_disk ''restore-b'')) ''restore-b'') = Inr z' \<longrightarrow> z' = z"
proof -
  obtain z where "snd (sample_restore 8 False sample_restored_disk ''restore-b'') = Inr z"
    by (rule returnedE[OF sample_history_parts(7)])
  then have first: "sample_restore 8 False sample_restored_disk ''restore-b'' =
      (fst (sample_restore 8 False sample_restored_disk ''restore-b''), Inr z)" by (rule outcome)
  have "z' = z" if "snd (sample_restore 9 True (fst (sample_restore 8 False sample_restored_disk ''restore-b'')) ''restore-b'') = Inr z'" for z'
  proof -
    have again: "sample_restore 9 True (fst (sample_restore 8 False sample_restored_disk ''restore-b'')) ''restore-b'' =
        (fst (sample_restore 9 True (fst (sample_restore 8 False sample_restored_disk ''restore-b'')) ''restore-b''), Inr z')"
      by (rule outcome[OF that])
    show ?thesis
      by (rule restore_result_is_unique[OF sample_reached(2) first[unfolded sample_restore_def] rtranclp.rtrancl_refl
            again[unfolded sample_restore_def] refl])
  qed
  then show ?thesis by blast
qed

theorem abandoned_restore_never_completes_witness:
  "\<forall>z. snd (sample_restore 8 True (fst (sample_abandon sample_restored_disk)) ''restore-a'') \<noteq> Inr z"
proof
  fix z
  obtain b where "snd (sample_abandon sample_restored_disk) = Inr b"
    by (rule returnedE[OF sample_history_parts(8)])
  then have closed: "sample_abandon sample_restored_disk = (fst (sample_abandon sample_restored_disk), Inr b)"
    by (rule outcome)
  have same: "rn_operation (sample_restore_input ''restore-a'') =
      ai_operation \<lparr>ai_binding = sample_backup_binding, ai_operation = ''restore-a'', ai_approved = True\<rparr>"
    by (simp add: sample_restore_input_def)
  show "snd (sample_restore 8 True (fst (sample_abandon sample_restored_disk)) ''restore-a'') \<noteq> Inr z"
  proof
    assume "snd (sample_restore 8 True (fst (sample_abandon sample_restored_disk)) ''restore-a'') = Inr z"
    from outcome[OF this] show False
      using abandoned_restore_never_completes[OF sample_reached(2) closed[unfolded sample_abandon_def] rtranclp.rtrancl_refl same]
      unfolding sample_restore_def sample_abandon_def by blast
  qed
qed

text \<open>A restore whose receipt is journaled, and whose verification is still missing.\<close>

definition sample_staged_disk :: "unit backup_disk" where
  "sample_staged_disk = fst (Restore sample_backup_env
     ((sample_restore_world 2 (Some (sample_restore_receipt ''restore-b'')))\<lparr>rw_verification := None\<rparr>)
     sample_snapshot_disk (sample_restore_input ''restore-b''))"

lemma sample_staged_reached: "(backup_call sample_backup_env)\<^sup>*\<^sup>* empty_backup sample_staged_disk"
proof -
  have ran: "backup_call sample_backup_env (fst sample_configured) sample_snapshot_disk"
    unfolding sample_snapshot_disk_def sample_backup_run_def by (rule call_Run, rule surjective_pairing)
  have "backup_call sample_backup_env sample_snapshot_disk sample_staged_disk"
    unfolding sample_staged_disk_def by (rule call_restore, rule surjective_pairing)
  then show ?thesis using next_call[OF sample_reached(1) ran] next_call by blast
qed

lemma sample_staged:
  "restore_check (\<lambda>op. rj_state op = ''staged'' \<and> rj_receipt op \<noteq> None) sample_staged_disk (sample_hex CHR ''b'') \<and>
   returned (admit_restore sample_backup_env (sample_restore_world 8 None) sample_staged_disk (sample_restore_input ''restore-b'')) \<and>
   returned (snd (sample_restore 8 False sample_staged_disk ''restore-b'')) \<and>
   admit_restore sample_backup_env ((sample_restore_world 8 None)\<lparr>rw_status := None\<rparr>) sample_staged_disk
     (sample_restore_input ''restore-b'') = Inl StatusUnavailable"
  by (simp add: host sample_staged_disk_def)

theorem staged_restore_is_not_staged_again_witness:
  "\<exists>z. snd (sample_restore 8 True sample_staged_disk ''restore-b'') = Inr z \<and>
     sample_restore 8 True sample_staged_disk ''restore-b'' = sample_restore 8 False sample_staged_disk ''restore-b'' \<and>
     Restore sample_backup_env ((sample_restore_world 8 None)\<lparr>rw_status := None, rw_receipt := None\<rparr>) sample_staged_disk
       (sample_restore_input ''restore-b'') = (sample_staged_disk, Inl (Backup StatusUnavailable))"
proof -
  let ?n = "sample_restore_input ''restore-b''" and ?w = "sample_restore_world 8 None"
  obtain op where op: "map_of (bd_restores sample_staged_disk) (sample_hex CHR ''b'') = Some (Some op)" "rj_receipt op \<noteq> None"
    using sample_staged restore_checkE by blast
  obtain ca where ca: "admit_restore sample_backup_env ?w sample_staged_disk ?n = Inr ca"
    using sample_staged returnedE by blast
  have key: "map_of (bd_restores sample_staged_disk) (sv_key (bv_snapshot sample_backup_env) (rn_operation ?n)) = Some (Some op)"
    using op(1) by (simp add: sample_backup_env_def sample_restore_input_def)
  note s = staged_restore_is_not_staged_again[OF sample_staged_reached op(2) key ca]
  have status: "?w\<lparr>rw_status := sample_status\<rparr> = ?w" by (simp add: sample_restore_world_def)
  have answered: "?w\<lparr>rw_receipt := answer\<rparr> = sample_restore_world 8 answer" for answer by (simp add: sample_restore_world_def)
  from s[where status = sample_status and answer = "Some (sample_restore_receipt ''restore-b'')", unfolded status ca]
  have same: "sample_restore 8 True sample_staged_disk ''restore-b'' = sample_restore 8 False sample_staged_disk ''restore-b''"
    by (simp add: sample_restore_def answered)
  have refused: "Restore sample_backup_env (?w\<lparr>rw_status := None, rw_receipt := None\<rparr>) sample_staged_disk ?n =
      (sample_staged_disk, Inl (Backup StatusUnavailable))"
    using s[where status = None and answer = None] sample_staged by simp
  obtain z where "snd (sample_restore 8 False sample_staged_disk ''restore-b'') = Inr z" using sample_staged returnedE by blast
  then show ?thesis using same refused by metis
qed


theorem backup_calls_wait_for_writers_witness:
  "\<exists>x. Restore (sample_backup_env\<lparr>bv_snapshot := sample_snapshot_env\<rparr>) (sample_restore_world 1 None)
     (empty_backup\<lparr>bd_snapshots := fst sample_stopping_run\<rparr>) (sample_restore_input ''restore-a'') =
     (empty_backup\<lparr>bd_snapshots := fst sample_stopping_run\<rparr>, Inl (Backup (BackupGate x)))"
proof -
  let ?v = "sample_backup_env\<lparr>bv_snapshot := sample_snapshot_env\<rparr>"
  let ?d = "empty_backup\<lparr>bd_snapshots := fst sample_stopping_run\<rparr>"
  have "snapshot_call sample_snapshot_env empty_disk (fst sample_stopping_run)"
    unfolding sample_stopping_run_def by (rule call_run, rule surjective_pairing)
  then have "backup_call ?v empty_backup ?d" by (intro call_transfer) (simp add: empty_backup_def)
  then have reached: "(backup_call ?v)\<^sup>*\<^sup>* empty_backup ?d" by blast
  obtain op where op: "map_of (sd_operations (bd_snapshots ?d)) ''op'' = Some (Some op)" "\<not> released op" "\<not> undisturbed op"
    "controlled op"
    using op_checkE[OF sample_disturbed] by auto
  from backup_calls_wait_for_writers[OF reached op] show ?thesis by blast
qed

theorem configuration_round_trip_witness:
  "\<exists>c. snd sample_configured = Inr c \<and> boundConfiguration sample_backup_env (fst sample_configured) sample_backup_binding = Inr c"
proof -
  obtain c where c: "snd sample_configured = Inr c"
  proof -
    have "returned (snd sample_configured)" by (simp add: host)
    then show thesis using that by (rule returnedE)
  qed
  have "boundConfiguration sample_backup_env (fst sample_configured) sample_backup_binding = Inr c"
  proof (rule configuration_round_trip)
    show "Configure sample_backup_env sample_configure_env empty_backup sample_backup_binding = (fst sample_configured, Inr c)"
      using outcome[OF c] by (simp only: sample_configured_def)
  qed (simp_all add: host split: if_splits)
  then show ?thesis using c by simp
qed

definition sample_rebound :: "unit backup_disk \<times> (backup_error + unit configuration \<times> bool)" where
  "sample_rebound = Rebind sample_backup_env sample_configure_env (fst sample_configured) (sample_backup_binding\<lparr>ci_artifact := ''q''\<rparr>)"

theorem rebind_keeps_repository_witness:
  "\<exists>c previous. snd sample_rebound = Inr (c, True) \<and> loadConfiguration sample_backup_env (fst sample_configured) = Inr previous \<and>
     cf_policy_digest c \<noteq> cf_policy_digest previous \<and> rr_repository (cf_repository c) = rr_repository (cf_repository previous)"
proof -
  have "case snd sample_rebound of Inl _ \<Rightarrow> False | Inr (c, changed) \<Rightarrow> changed \<and> cf_policy_digest c = sample_digest CHR ''d''"
    by (simp add: host sample_rebound_def Rebind_def)
  then obtain c where c: "snd sample_rebound = Inr (c, True)" "cf_policy_digest c = sample_digest CHR ''d''"
    by (auto split: sum.splits)
  have moved: "Rebind sample_backup_env sample_configure_env (fst sample_configured) (sample_backup_binding\<lparr>ci_artifact := ''q''\<rparr>) =
      (fst sample_rebound, Inr (c, True))"
    using outcome[OF c(1)] by (simp only: sample_rebound_def)
  have "case loadConfiguration sample_backup_env (fst sample_configured) of Inl _ \<Rightarrow> False | Inr p \<Rightarrow> cf_policy_digest p = sample_digest CHR ''c''"
    by (simp add: host)
  with rebind_keeps_repository[OF moved] c show ?thesis by (auto simp: sample_digest_eq)
qed

end
