(* ===== verification/RecoveryEvidence.thy ===== *)
theory RecoveryEvidence
  imports RestoreOutcomes "HOL-Library.Multiset"
begin

text \<open>
  What a host reports of its backups: the history of a configuration (\<open>internal/backuplifecycle/history.go\<close>),
  whether its latest snapshot is still retained (\<open>snapshot_availability.go\<close>), how that compares with the
  recovery objectives of the policy (\<open>recovery_objective_assessment.go\<close>), and the inspection of one
  snapshot operation (\<open>snapshot_operation_inspection.go\<close>). All of them only read; the constant scope and
  basis texts of the reports and cancellation between files are left out.
\<close>

section \<open>Ages of evidence\<close>

text \<open>
  Times are nanoseconds; the difference of two of them saturates at the bounds of a 64-bit duration
  (\<open>time.Time.Sub\<close>).
\<close>

definition max_duration :: int where
  "max_duration = 2 ^ 63 - 1"

definition time_sub :: "int \<Rightarrow> int \<Rightarrow> int" where
  "time_sub t u = max (- (2 ^ 63)) (min max_duration (t - u))"

definition second :: int where
  "second = 1000000000"

record evidence_age =
  ea_state :: string
  ea_id :: string
  ea_plan :: string
  ea_current :: bool
  ea_recorded :: "int option"
  ea_capture :: "int option"
  ea_seconds :: "int option"

definition no_evidence :: evidence_age where
  "no_evidence = \<lparr>ea_state = [], ea_id = [], ea_plan = [], ea_current = False, ea_recorded = None, ea_capture = None,
     ea_seconds = None\<rparr>"

definition newerEvidence :: "evidence_age \<Rightarrow> string \<Rightarrow> string \<Rightarrow> int \<Rightarrow> int \<Rightarrow> evidence_age" where
  "newerEvidence previous eid plan recorded now =
     (if (case ea_recorded previous of None \<Rightarrow> False | Some t \<Rightarrow> \<not> recorded > t) then previous
      else let r = no_evidence\<lparr>ea_state := ''recorded'', ea_id := eid, ea_plan := plan, ea_recorded := Some recorded\<rparr> in
        if recorded > now then r\<lparr>ea_state := ''clock-skew''\<rparr>
        else r\<lparr>ea_seconds := Some (time_sub now recorded div second)\<rparr>)"

section \<open>Objectives and availability\<close>

record recovery_objective =
  ob_binding :: string
  ob_workloads :: "string list"
  ob_data_loss :: int
  ob_recovery_time :: int

record objective_check =
  oc_state :: string
  oc_limit :: int
  oc_observed :: "int option"
  oc_evidence :: string
  oc_reason :: string

record objective_assessment =
  oa_binding :: string
  oa_workloads :: "string list"
  oa_data_loss :: objective_check
  oa_recovery_time :: objective_check

record availability =
  av_state :: string
  av_reason :: string
  av_observed :: int
  av_evidence :: string
  av_snapshot :: string

text \<open>The latest evidence whose writers' stop is known, still retained, and not from the future.\<close>

definition observed_capture :: "availability \<Rightarrow> evidence_age \<Rightarrow> int option" where
  "observed_capture a s =
     (if av_state a = ''present'' \<and> ea_state s = ''recorded'' \<and> av_evidence a = ea_id s
      then (case ea_capture s of None \<Rightarrow> None | Some t \<Rightarrow> if t > av_observed a then None else Some t)
      else None)"

text \<open>Whole seconds, rounded up.\<close>

definition elapsed_seconds :: "int \<Rightarrow> int" where
  "elapsed_seconds elapsed = elapsed div second + (if elapsed mod second \<noteq> 0 then 1 else 0)"

definition assess_objective :: "availability \<Rightarrow> evidence_age \<Rightarrow> recovery_objective \<Rightarrow> objective_assessment" where
  "assess_objective a s ob =
     \<lparr>oa_binding = ob_binding ob, oa_workloads = ob_workloads ob,
      oa_data_loss =
        (case observed_capture a s of
           None \<Rightarrow> \<lparr>oc_state = ''unverified'', oc_limit = ob_data_loss ob, oc_observed = None, oc_evidence = [],
                    oc_reason = ''current-snapshot-capture-unverified''\<rparr>
         | Some t \<Rightarrow>
            (let age = elapsed_seconds (time_sub (av_observed a) t) in
             if age > ob_data_loss ob
             then \<lparr>oc_state = ''breached'', oc_limit = ob_data_loss ob, oc_observed = Some age, oc_evidence = ea_id s,
                   oc_reason = ''retained-snapshot-too-old''\<rparr>
             else \<lparr>oc_state = ''within-objective'', oc_limit = ob_data_loss ob, oc_observed = Some age,
                   oc_evidence = ea_id s, oc_reason = []\<rparr>)),
      oa_recovery_time = \<lparr>oc_state = ''unverified'', oc_limit = ob_recovery_time ob, oc_observed = None, oc_evidence = [],
        oc_reason = ''functional-recovery-not-verified''\<rparr>\<rparr>"

definition assessRecoveryObjectives :: "recovery_objective list \<Rightarrow> availability \<Rightarrow> evidence_age \<Rightarrow> objective_assessment list" where
  "assessRecoveryObjectives obs a s = map (assess_objective a s) obs"

text \<open>
  The runtime's answer to a lookup: an error, nothing, or a receipt, with the clock read after it.
\<close>

record lookup_answer =
  la_at :: int
  la_receipt :: "snapshot_receipt option option"

definition snapshotAvailability ::
  "'p backup_env \<Rightarrow> lookup_answer \<Rightarrow> 'p backup_disk \<Rightarrow> 'p configuration \<Rightarrow> evidence_age \<Rightarrow> int \<Rightarrow> bool \<Rightarrow> availability" where
  "snapshotAvailability v la d c latest started ready =
     (let e = bv_snapshot v;
          unverified = (\<lambda>observed reason. \<lparr>av_state = ''unverified'', av_reason = reason, av_observed = observed,
                          av_evidence = ea_id latest, av_snapshot = []\<rparr>) in
      if \<not> ready then unverified started ''repository-not-ready''
      else if ea_id latest = [] \<or> ea_state latest \<noteq> ''recorded'' \<or> \<not> ea_current latest
      then unverified started ''current-snapshot-receipt-unavailable''
      else case load_snapshot_anchor v d (ea_id latest) of
        Inl _ \<Rightarrow> unverified started ''snapshot-receipt-not-authenticated''
      | Inr a \<Rightarrow>
          if oi_workloads (sa_input a) \<noteq> [] then unverified started ''application-scoped-snapshot-is-not-node-backup''
          else if oi_owner (sa_input a) \<noteq> cf_owner c \<or> oi_authority (sa_input a) \<noteq> cf_authority c \<or>
                  oi_policy_digest (sa_input a) \<noteq> cf_policy_digest c \<or>
                  rr_repository (sa_repository a) \<noteq> rr_repository (cf_repository c) \<or> oi_lineage (sa_input a) \<noteq> cf_lineage c
          then unverified started ''snapshot-authority-changed''
          else case snapshotRequest e (sa_input a) (rr_repository (sa_repository a)) of
            None \<Rightarrow> unverified started ''snapshot-source-selection-invalid''
          | Some q \<Rightarrow>
              if la_at la < started \<or> sr_created (sa_snapshot a) > la_at la then unverified (la_at la) ''clock-skew''
              else case la_receipt la of
                None \<Rightarrow> unverified (la_at la) ''snapshot-lookup-unavailable''
              | Some None \<Rightarrow> (unverified (la_at la) ''snapshot-not-retained'')\<lparr>av_state := ''missing''\<rparr>
              | Some (Some r) \<Rightarrow>
                  if \<not> validateSnapshotReceipt e r q \<or> r \<noteq> sa_snapshot a
                  then unverified (la_at la) ''snapshot-receipt-mismatch''
                  else \<lparr>av_state = ''present'', av_reason = [], av_observed = la_at la, av_evidence = ea_id latest,
                        av_snapshot = sr_snapshot r\<rparr>)"

section \<open>The history of a configuration\<close>

text \<open>The digest of a policy's source projection and the objectives of a policy are the policy's own.\<close>

record 'p policy_view =
  pv_digest :: "'p \<Rightarrow> string option"
  pv_objectives :: "'p \<Rightarrow> recovery_objective list"

record backup_history =
  hi_issue :: string
  hi_snapshot :: evidence_age
  hi_points :: "evidence_age list"
  hi_restore :: evidence_age

definition capture_start :: "'p snapshot_anchor \<Rightarrow> int option" where
  "capture_start a = Option.bind (sa_quiescence a) sq_capture"

definition anchor_plan :: "'p snapshot_anchor \<Rightarrow> string" where
  "anchor_plan a = pb_plan_hash (al_binding (oi_lineage (sa_input a)))"

text \<open>Whether an anchor is a backup of the configured source; an error leaves the history incomplete.\<close>

definition anchor_relevance ::
  "'p policy_view \<Rightarrow> 'p configuration \<Rightarrow> string \<Rightarrow> 'p snapshot_anchor \<Rightarrow> bool option" where
  "anchor_relevance pv c current a =
     (if oi_workloads (sa_input a) \<noteq> [] then Some False
      else case pv_digest pv (oi_policy (sa_input a)) of
        None \<Rightarrow> None
      | Some source \<Rightarrow> Some (oi_owner (sa_input a) = cf_owner c \<and> oi_authority (sa_input a) = cf_authority c \<and>
          oi_policy_digest (sa_input a) = cf_policy_digest c \<and> source = current \<and>
          rr_repository (sa_repository a) = rr_repository (cf_repository c)))"

definition recovery_point :: "'p configuration \<Rightarrow> int \<Rightarrow> string \<Rightarrow> 'p snapshot_anchor \<Rightarrow> evidence_age" where
  "recovery_point c now aid a =
     (newerEvidence no_evidence aid (anchor_plan a) (sr_created (sa_snapshot a)) now)
       \<lparr>ea_current := (anchor_plan a = pb_plan_hash (al_binding (cf_lineage c))), ea_capture := capture_start a\<rparr>"

definition latest_snapshot :: "int \<Rightarrow> string \<Rightarrow> 'p snapshot_anchor \<Rightarrow> evidence_age \<Rightarrow> evidence_age" where
  "latest_snapshot now aid a previous =
     (let s = newerEvidence previous aid (anchor_plan a) (sr_created (sa_snapshot a)) now in
      if ea_id s = aid \<and> capture_start a \<noteq> None then s\<lparr>ea_capture := capture_start a\<rparr> else s)"

definition history_anchor ::
  "'p backup_env \<Rightarrow> 'p policy_view \<Rightarrow> 'p backup_disk \<Rightarrow> 'p configuration \<Rightarrow> int \<Rightarrow> string \<Rightarrow> backup_history \<Rightarrow> string \<Rightarrow> backup_history" where
  "history_anchor v pv d c now current h aid =
     (case load_snapshot_anchor v d aid of
        Inl _ \<Rightarrow> h\<lparr>hi_issue := ''history-incomplete''\<rparr>
      | Inr a \<Rightarrow>
         (case anchor_relevance pv c current a of
            None \<Rightarrow> h\<lparr>hi_issue := ''history-incomplete''\<rparr>
          | Some relevant \<Rightarrow>
              if \<not> relevant then h
              else h\<lparr>hi_snapshot := latest_snapshot now aid a (hi_snapshot h),
                     hi_points := hi_points h @ [recovery_point c now aid a]\<rparr>))"

definition history_restore ::
  "'p backup_env \<Rightarrow> 'p backup_disk \<Rightarrow> 'p configuration \<Rightarrow> int \<Rightarrow> string \<Rightarrow> backup_history \<Rightarrow> string \<Rightarrow> backup_history" where
  "history_restore v d c now current h rid =
     (case LoadRestoreResult v d rid of
        Inl _ \<Rightarrow> h\<lparr>hi_issue := ''history-incomplete''\<rparr>
      | Inr z \<Rightarrow>
          if rz_owner z \<noteq> cf_owner c \<or> rz_authority z \<noteq> cf_authority c \<or> rq_policy_digest (rz_request z) \<noteq> cf_policy_digest c \<or>
             rt_repository (rz_receipt z) \<noteq> rr_repository (cf_repository c) then h
          else (case load_snapshot_anchor v d (rz_anchor z) of
            Inl _ \<Rightarrow> h\<lparr>hi_issue := ''history-incomplete''\<rparr>
          | Inr a \<Rightarrow>
              if validateRestoreSource v c a \<noteq> None then h
              else if rq_source_digest (rz_request z) \<noteq> [] \<and> rq_source_digest (rz_request z) \<noteq> current then h
              else h\<lparr>hi_restore := newerEvidence (hi_restore h) rid (pb_plan_hash (al_binding (rz_lineage z)))
                     (vf_at (rz_verification z)) now\<rparr>))"

text \<open>Latest first, and by name where two were recorded at the same time.\<close>

definition sort_points :: "evidence_age list \<Rightarrow> evidence_age list" where
  "sort_points ps = sort_key (\<lambda>p. - the (ea_recorded p)) (sort_key ea_id ps)"

definition mark_current :: "'p configuration \<Rightarrow> evidence_age \<Rightarrow> evidence_age" where
  "mark_current c s = s\<lparr>ea_current := (ea_plan s \<noteq> [] \<and> ea_plan s = pb_plan_hash (al_binding (cf_lineage c)))\<rparr>"

definition unverified_history :: backup_history where
  "unverified_history = \<lparr>hi_issue = [], hi_snapshot = no_evidence\<lparr>ea_state := ''unverified''\<rparr>, hi_points = [],
     hi_restore = no_evidence\<lparr>ea_state := ''unverified''\<rparr>\<rparr>"

definition history ::
  "'p backup_env \<Rightarrow> 'p policy_view \<Rightarrow> lookup_answer \<Rightarrow> 'p backup_disk \<Rightarrow> 'p configuration \<Rightarrow> int \<Rightarrow> bool \<Rightarrow>
   restore_error + backup_history \<times> availability \<times> objective_assessment list" where
  "history v pv la d c now ready =
     (case pv_digest pv (cf_policy c) of
        None \<Rightarrow> Inl (Backup PolicyUndecodable)
      | Some current \<Rightarrow>
          ebind (evidence_files (sd_stray_anchors (bd_snapshots d)) (sd_anchors (bd_snapshots d))) (\<lambda>anchors.
          ebind (evidence_files (bd_stray_results d) (bd_results d)) (\<lambda>results.
            let h = foldl (history_restore v d c now current)
                      (foldl (history_anchor v pv d c now current) unverified_history anchors) results;
                h' = h\<lparr>hi_snapshot := mark_current c (hi_snapshot h), hi_points := sort_points (hi_points h),
                       hi_restore := mark_current c (hi_restore h)\<rparr>;
                a = snapshotAvailability v la d c (hi_snapshot h') now ready in
            Inr (h', a, assessRecoveryObjectives (pv_objectives pv (cf_policy c)) a (hi_snapshot h')))))"

section \<open>Inspecting one operation\<close>

record inspection =
  si_found :: bool
  si_operation :: string
  si_state :: string
  si_owner :: string
  si_authority :: string
  si_lineage :: "authority_lineage option"
  si_policy_digest :: string
  si_phase :: string
  si_hold_pending :: bool
  si_authenticated :: bool
  si_anchor :: string
  si_verified :: bool

definition nothing_found :: "string \<Rightarrow> inspection" where
  "nothing_found operation = \<lparr>si_found = False, si_operation = operation, si_state = [], si_owner = [], si_authority = [],
     si_lineage = None, si_policy_digest = [], si_phase = [], si_hold_pending = False, si_authenticated = False,
     si_anchor = [], si_verified = False\<rparr>"

definition found_operation :: "string \<Rightarrow> 'p snapshot_operation \<Rightarrow> inspection" where
  "found_operation operation op =
     (let i = so_input op; q = so_quiescence op in
      \<lparr>si_found = True, si_operation = operation, si_state = so_state op, si_owner = oi_owner i, si_authority = oi_authority i,
       si_lineage = Some (oi_lineage i), si_policy_digest = oi_policy_digest i,
       si_phase = (case q of None \<Rightarrow> [] | Some x \<Rightarrow> sq_phase x),
       si_hold_pending = (case q of None \<Rightarrow> False
         | Some x \<Rightarrow> sq_version x = 2 \<and> length (so_closures op) \<noteq> length (sq_groups x)),
       si_authenticated = (q \<noteq> None), si_anchor = [], si_verified = False\<rparr>)"

datatype inspection_error =
    InspectionIdInvalid | InspectionRecord record_error | InspectionInputInvalid | InspectionPolicyInvalid
  | InspectionNotSettled | InspectionPendingAnchor | InspectionAnchorMissing | InspectionAnchorDiffers
  | InspectionAnchorInvalid snapshot_error | InspectionStateMalformed

definition inspect_state ::
  "'p snapshot_env \<Rightarrow> 'p snapshot_disk \<Rightarrow> string \<Rightarrow> 'p snapshot_operation \<Rightarrow> inspection_error + inspection" where
  "inspect_state e d operation op =
     (let i = found_operation operation op in
      if so_state op = ''failed''
      then if so_failure op \<noteq> failed_after_settlement \<or> so_anchor op \<noteq> None \<or>
              (case so_quiescence op of None \<Rightarrow> True
               | Some q \<Rightarrow> sq_version q \<noteq> 2 \<or> validateRestoredSnapshotQuiescence e q \<noteq> None)
           then Inl InspectionNotSettled else Inr i
      else if so_state op = ''pending'' then if so_anchor op \<noteq> None then Inl InspectionPendingAnchor else Inr i
      else if so_state op = ''completed''
      then (case so_anchor op of
              None \<Rightarrow> Inl InspectionAnchorMissing
            | Some a \<Rightarrow>
                if oi_operation (sa_input a) \<noteq> operation then Inl InspectionAnchorMissing
                else if \<not> anchorMatchesOperation e a op then Inl InspectionAnchorDiffers
                else (case VerifySnapshotAnchor e a of
                  Some x \<Rightarrow> Inl (InspectionAnchorInvalid (Anchor x))
                | None \<Rightarrow>
                   (case loadStoredSnapshotAnchor e d (sa_id a) of
                      Inl x \<Rightarrow> Inl (InspectionAnchorInvalid x)
                    | Inr stored \<Rightarrow>
                        if stored \<noteq> a then Inl InspectionAnchorDiffers
                        else Inr (i\<lparr>si_anchor := sa_id a, si_verified := True\<rparr>))))
      else Inl InspectionStateMalformed)"

definition InspectSnapshotOperation ::
  "'p snapshot_env \<Rightarrow> 'p snapshot_disk \<Rightarrow> string \<Rightarrow> inspection_error + inspection" where
  "InspectSnapshotOperation e d operation =
     (if \<not> validOperationID operation then Inl InspectionIdInvalid
      else case loadOperation e d (sv_key e operation) of
        Inl x \<Rightarrow> if x = OperationMissing then Inr (nothing_found operation) else Inl (InspectionRecord x)
      | Inr op \<Rightarrow>
          if oi_operation (so_input op) \<noteq> operation \<or> oi_owner (so_input op) = [] \<or> oi_authority (so_input op) = [] \<or>
             \<not> validDigest (oi_policy_digest (so_input op)) \<or> \<not> lineage_complete (oi_lineage (so_input op))
          then Inl InspectionInputInvalid
          else if \<not> sv_policy_ok e (oi_policy (so_input op)) then Inl InspectionPolicyInvalid
          else inspect_state e d operation op)"

definition SafeForAuthorityReplacement :: "inspection \<Rightarrow> bool" where
  "SafeForAuthorityReplacement i \<longleftrightarrow>
     \<not> si_hold_pending i \<and>
     (\<not> si_found i \<or> si_authenticated i \<and> si_phase i = ''restored'' \<or>
      si_state i = ''completed'' \<and> si_verified i \<and> (\<not> si_authenticated i \<or> si_phase i = ''restored''))"

section \<open>What a history reports\<close>

text \<open>The backups of the configured source: the anchors that load and are relevant, by name.\<close>

definition backup_of ::
  "'p backup_env \<Rightarrow> 'p policy_view \<Rightarrow> 'p backup_disk \<Rightarrow> 'p configuration \<Rightarrow> string \<Rightarrow> string \<Rightarrow> 'p snapshot_anchor option" where
  "backup_of v pv d c current aid =
     (case load_snapshot_anchor v d aid of
        Inl _ \<Rightarrow> None
      | Inr a \<Rightarrow> if anchor_relevance pv c current a = Some True then Some a else None)"

definition backups ::
  "'p backup_env \<Rightarrow> 'p policy_view \<Rightarrow> 'p backup_disk \<Rightarrow> 'p configuration \<Rightarrow> string \<Rightarrow> string list \<Rightarrow> (string \<times> 'p snapshot_anchor) list" where
  "backups v pv d c current names =
     List.map_filter (\<lambda>aid. map_option (Pair aid) (backup_of v pv d c current aid)) names"

definition created :: "'p snapshot_anchor \<Rightarrow> int" where
  "created a = sr_created (sa_snapshot a)"

lemma history_anchor_step:
  "hi_points (history_anchor v pv d c now current h aid) = hi_points h @
     (case backup_of v pv d c current aid of None \<Rightarrow> [] | Some a \<Rightarrow> [recovery_point c now aid a])"
  "hi_snapshot (history_anchor v pv d c now current h aid) =
     (case backup_of v pv d c current aid of None \<Rightarrow> hi_snapshot h | Some a \<Rightarrow> latest_snapshot now aid a (hi_snapshot h))"
  by (auto simp: history_anchor_def backup_of_def split: sum.splits option.splits)

lemma history_restore_step:
  "hi_points (history_restore v d c now current h rid) = hi_points h"
  "hi_snapshot (history_restore v d c now current h rid) = hi_snapshot h"
  by (auto simp: history_restore_def split: sum.splits)

lemma history_restores:
  "hi_points (foldl (history_restore v d c now current) h rids) = hi_points h \<and>
   hi_snapshot (foldl (history_restore v d c now current) h rids) = hi_snapshot h"
  by (induction rids arbitrary: h) (simp_all add: history_restore_step)

lemma backups_Cons:
  "backups v pv d c current (aid # names) =
     (case backup_of v pv d c current aid of None \<Rightarrow> [] | Some a \<Rightarrow> [(aid, a)]) @ backups v pv d c current names"
  by (simp add: backups_def map_filter_simps split: option.splits)

lemma history_points:
  "hi_points (foldl (history_anchor v pv d c now current) h names) =
     hi_points h @ map (\<lambda>(aid, a). recovery_point c now aid a) (backups v pv d c current names)"
  by (induction names arbitrary: h) (auto simp: history_anchor_step backups_Cons backups_def[of _ _ _ _ _ "[]"] map_filter_simps split: option.splits)

text \<open>The latest among the backups seen so far.\<close>

definition latest_of :: "(string \<times> 'p snapshot_anchor) list \<Rightarrow> evidence_age \<Rightarrow> bool" where
  "latest_of bs s \<longleftrightarrow>
     (if bs = [] then s = no_evidence\<lparr>ea_state := ''unverified''\<rparr>
      else \<exists>a. (ea_id s, a) \<in> set bs \<and> ea_recorded s = Some (created a) \<and> ea_plan s = anchor_plan a \<and>
             ea_capture s = capture_start a \<and> (\<forall>b \<in> set bs. created (snd b) \<le> created a))"

lemma newer_cases:
  "newerEvidence s aid plan t now = s \<and> (\<exists>u. ea_recorded s = Some u \<and> t \<le> u) \<or>
   ea_id (newerEvidence s aid plan t now) = aid \<and> ea_plan (newerEvidence s aid plan t now) = plan \<and>
   ea_recorded (newerEvidence s aid plan t now) = Some t \<and> ea_capture (newerEvidence s aid plan t now) = None \<and>
   (\<forall>u. ea_recorded s = Some u \<longrightarrow> u < t)"
  by (auto simp: newerEvidence_def no_evidence_def Let_def split: option.splits)

lemma latest_step:
  assumes "latest_of bs s" "\<And>b. (aid, b) \<in> set bs \<Longrightarrow> b = a"
  shows "latest_of (bs @ [(aid, a)]) (latest_snapshot now aid a s)"
proof -
  let ?n = "newerEvidence s aid (anchor_plan a) (created a) now"
  have l: "latest_snapshot now aid a s = (if ea_id ?n = aid \<and> capture_start a \<noteq> None then ?n\<lparr>ea_capture := capture_start a\<rparr> else ?n)"
    by (auto simp: latest_snapshot_def created_def Let_def)
  from newer_cases[of s aid "anchor_plan a" "created a" now] show ?thesis
  proof
    assume kept: "?n = s \<and> (\<exists>u. ea_recorded s = Some u \<and> created a \<le> u)"
    then have "bs \<noteq> []" using assms(1) by (auto simp: latest_of_def no_evidence_def)
    then obtain b where b: "(ea_id s, b) \<in> set bs" "ea_recorded s = Some (created b)" "ea_plan s = anchor_plan b"
      "ea_capture s = capture_start b" "\<forall>x \<in> set bs. created (snd x) \<le> created b"
      using assms(1) by (auto simp: latest_of_def)
    have "ea_capture (latest_snapshot now aid a s) = capture_start b"
      using kept b(1,4) assms(2)[of b] unfolding l by auto
    then show ?thesis using kept b unfolding latest_of_def l by (auto split: if_splits)
  next
    assume new: "ea_id ?n = aid \<and> ea_plan ?n = anchor_plan a \<and> ea_recorded ?n = Some (created a) \<and> ea_capture ?n = None \<and>
      (\<forall>u. ea_recorded s = Some u \<longrightarrow> u < created a)"
    then have "created (snd x) \<le> created a" if "x \<in> set bs" for x
      using assms(1) that by (auto simp: latest_of_def split: if_splits)
    then show ?thesis using new unfolding latest_of_def l by (auto split: if_splits)
  qed
qed

lemma backup_unique: "(aid, a) \<in> set (backups v pv d c current names) \<Longrightarrow> backup_of v pv d c current aid = Some a"
  by (induction names) (auto simp: backups_Cons backups_def[of _ _ _ _ _ "[]"] map_filter_simps split: option.splits)

lemma history_latest_from:
  assumes "latest_of bs (hi_snapshot h)" "\<And>aid a. (aid, a) \<in> set bs \<Longrightarrow> backup_of v pv d c current aid = Some a"
  shows "latest_of (bs @ backups v pv d c current names) (hi_snapshot (foldl (history_anchor v pv d c now current) h names))"
  using assms
proof (induction names arbitrary: bs h)
  case Nil
  then show ?case by (simp add: backups_def map_filter_simps)
next
  case (Cons aid names)
  show ?case
  proof (cases "backup_of v pv d c current aid")
    case None
    then show ?thesis using Cons.IH[of bs "history_anchor v pv d c now current h aid"] Cons.prems
      by (simp add: backups_Cons history_anchor_step)
  next
    case (Some a)
    have "latest_of (bs @ [(aid, a)]) (latest_snapshot now aid a (hi_snapshot h))"
      by (rule latest_step[OF Cons.prems(1)]) (use Cons.prems(2) Some in fastforce)
    then have "latest_of ((bs @ [(aid, a)]) @ backups v pv d c current names)
        (hi_snapshot (foldl (history_anchor v pv d c now current) (history_anchor v pv d c now current h aid) names))"
      by (intro Cons.IH) (use Cons.prems(2) Some in \<open>auto simp: history_anchor_step\<close>)
    then show ?thesis by (simp add: backups_Cons Some)
  qed
qed

lemma history_parts:
  assumes "history v pv la d c now ready = Inr (h, a, os)"
  obtains current names where "pv_digest pv (cf_policy c) = Some current" "historyIDs (sd_anchors (bd_snapshots d)) = Inr names"
    "hi_points h = sort_points (map (\<lambda>(aid, a). recovery_point c now aid a) (backups v pv d c current names))"
    "\<exists>s. hi_snapshot h = mark_current c s \<and> latest_of (backups v pv d c current names) s"
    "a = snapshotAvailability v la d c (hi_snapshot h) now ready"
    "os = map (assess_objective a (hi_snapshot h)) (pv_objectives pv (cf_policy c))"
proof -
  obtain current names results where n: "pv_digest pv (cf_policy c) = Some current"
    "historyIDs (sd_anchors (bd_snapshots d)) = Inr names" "historyIDs (bd_results d) = Inr results"
    using assms by (auto simp: history_def split: option.splits)
  let ?h = "foldl (history_anchor v pv d c now current) unverified_history names"
  have start: "latest_of [] (hi_snapshot unverified_history)" "hi_points unverified_history = []"
    by (simp_all add: latest_of_def unverified_history_def)
  have "latest_of (backups v pv d c current names) (hi_snapshot ?h)"
    using history_latest_from[OF start(1), where names = names] by simp
  moreover have "hi_points ?h = map (\<lambda>(aid, a). recovery_point c now aid a) (backups v pv d c current names)"
    by (simp add: history_points start(2))
  moreover have "h = (foldl (history_restore v d c now current) ?h results)\<lparr>hi_snapshot := mark_current c (hi_snapshot ?h),
      hi_points := sort_points (hi_points ?h),
      hi_restore := mark_current c (hi_restore (foldl (history_restore v d c now current) ?h results))\<rparr>"
    "a = snapshotAvailability v la d c (mark_current c (hi_snapshot ?h)) now ready"
    "os = map (assess_objective a (mark_current c (hi_snapshot ?h))) (pv_objectives pv (cf_policy c))"
    using assms n history_restores[of v d c now current ?h results]
    by (auto simp: history_def Let_def assessRecoveryObjectives_def)
  ultimately show thesis by (intro that[OF n(1,2)]) (simp_all, blast)
qed

definition before :: "evidence_age \<Rightarrow> evidence_age \<Rightarrow> bool" where
  "before p q \<longleftrightarrow> the (ea_recorded q) < the (ea_recorded p) \<or> ea_recorded p = ea_recorded q \<and> ea_id p \<le> ea_id q"

lemma sorted_wrt_classes:
  "sorted_wrt (\<lambda>x y. f x = f y \<longrightarrow> R x y) xs \<longleftrightarrow> (\<forall>k. sorted_wrt R (filter (\<lambda>x. f x = k) xs))"
  by (induction xs) auto

lemma sorted_sort_points:
  assumes "\<And>p. p \<in> set ps \<Longrightarrow> ea_recorded p \<noteq> None"
  shows "sorted_wrt before (sort_points ps)"
proof -
  let ?f = "\<lambda>p. - the (ea_recorded p)" and ?ys = "sort_key ea_id ps"
  have "sorted_wrt (\<lambda>x y. ea_id x \<le> ea_id y) (filter (\<lambda>x. ?f x = k) ?ys)" for k
    by (rule sorted_wrt_filter) (use sorted_sort_key[of ea_id ps] in \<open>simp add: sorted_map\<close>)
  then have "sorted_wrt (\<lambda>x y. ea_id x \<le> ea_id y) (filter (\<lambda>x. ?f x = k) (sort_points ps))" for k
    by (simp add: sort_points_def sort_key_stable)
  then have ties: "sorted_wrt (\<lambda>x y. ?f x = ?f y \<longrightarrow> ea_id x \<le> ea_id y) (sort_points ps)"
    using sorted_wrt_classes[of ?f "\<lambda>x y. ea_id x \<le> ea_id y" "sort_points ps"] by blast
  have latest: "sorted_wrt (\<lambda>x y. ?f x \<le> ?f y) (sort_points ps)"
    using sorted_sort_key[of ?f ?ys] unfolding sort_points_def by (simp only: sorted_map)
  have both: "sorted_wrt (\<lambda>x y. ?f x \<le> ?f y \<and> (?f x = ?f y \<longrightarrow> ea_id x \<le> ea_id y)) (sort_points ps)"
    using ties latest by (simp add: sorted_wrt_iff_nth_less)
  show ?thesis
  proof (rule sorted_wrt_mono_rel[OF _ both])
    fix x y assume xy: "x \<in> set (sort_points ps)" "y \<in> set (sort_points ps)"
      "?f x \<le> ?f y \<and> (?f x = ?f y \<longrightarrow> ea_id x \<le> ea_id y)"
    then obtain t u where "ea_recorded x = Some t" "ea_recorded y = Some u"
      using assms[of x] assms[of y] by (auto simp: sort_points_def)
    then show "before x y" using xy(3) by (auto simp: before_def)
  qed
qed

lemma recovery_point_recorded [simp]:
  "ea_recorded (recovery_point c now aid a) = Some (created a)"
  "ea_id (recovery_point c now aid a) = aid"
  by (simp_all add: recovery_point_def newerEvidence_def no_evidence_def created_def Let_def)

lemma mark_current_simps [simp]:
  "ea_id (mark_current c s) = ea_id s" "ea_recorded (mark_current c s) = ea_recorded s"
  "ea_state (mark_current c s) = ea_state s" "ea_capture (mark_current c s) = ea_capture s"
  by (simp_all add: mark_current_def)

text \<open>
  C20. The history is exactly the record of the configured source: the recovery points are the
  authenticated snapshots of this Owner, policy, source and repository, each once per file, latest first and
  by name when recorded together, and the snapshot it reports is a latest one among them, or none exists.
\<close>

theorem history_reports_backups:
  assumes "history v pv la d c now ready = Inr (h, a, os)"
  shows "\<exists>current names. pv_digest pv (cf_policy c) = Some current \<and> historyIDs (sd_anchors (bd_snapshots d)) = Inr names \<and>
    (let bs = backups v pv d c current names in
      mset (hi_points h) = mset (map (\<lambda>(aid, b). recovery_point c now aid b) bs) \<and>
      sorted_wrt before (hi_points h) \<and>
      (if bs = [] then ea_recorded (hi_snapshot h) = None
       else \<exists>b. (ea_id (hi_snapshot h), b) \<in> set bs \<and> ea_recorded (hi_snapshot h) = Some (created b) \<and>
              (\<forall>x \<in> set bs. created (snd x) \<le> created b)))"
proof -
  obtain current names where n: "pv_digest pv (cf_policy c) = Some current" "historyIDs (sd_anchors (bd_snapshots d)) = Inr names"
    "hi_points h = sort_points (map (\<lambda>(aid, b). recovery_point c now aid b) (backups v pv d c current names))"
    and s: "\<exists>s. hi_snapshot h = mark_current c s \<and> latest_of (backups v pv d c current names) s"
    by (rule history_parts[OF assms])
  have "mset (hi_points h) = mset (map (\<lambda>(aid, b). recovery_point c now aid b) (backups v pv d c current names))"
    by (simp add: n(3) sort_points_def)
  moreover have "sorted_wrt before (hi_points h)"
    unfolding n(3) by (rule sorted_sort_points) auto
  moreover have "if backups v pv d c current names = [] then ea_recorded (hi_snapshot h) = None
       else \<exists>b. (ea_id (hi_snapshot h), b) \<in> set (backups v pv d c current names) \<and> ea_recorded (hi_snapshot h) = Some (created b) \<and>
              (\<forall>x \<in> set (backups v pv d c current names). created (snd x) \<le> created b)"
    using s by (auto simp: latest_of_def no_evidence_def split: if_splits)
  ultimately show ?thesis using n(1,2) unfolding Let_def by blast
qed

section \<open>Objectives\<close>

lemma elapsed_bound: "elapsed_seconds x \<le> n \<longleftrightarrow> x \<le> n * second"
proof -
  define q r where "q = x div second" and "r = x mod second"
  then have "x = q * second + r" "0 \<le> r" "r < second" "elapsed_seconds x = q + (if r \<noteq> 0 then 1 else 0)"
    by (simp_all add: second_def elapsed_seconds_def)
  then show ?thesis unfolding second_def by (cases "r = 0") (simp_all, linarith)
qed

lemma saturated_age:
  assumes "u \<le> t" "n < max_duration div second"
  shows "elapsed_seconds (time_sub t u) \<le> n \<longleftrightarrow> t - u \<le> n * second"
proof -
  have "n * second < max_duration" using assms(2) by (simp add: second_def max_duration_def)
  then show ?thesis using assms(1) by (auto simp: elapsed_bound time_sub_def max_duration_def)
qed

lemma availability_present:
  assumes "av_state (snapshotAvailability v la d c s now ready) = ''present''"
  obtains a where "load_snapshot_anchor v d (ea_id s) = Inr a" "la_receipt la = Some (Some (sa_snapshot a))"
    "av_observed (snapshotAvailability v la d c s now ready) = la_at la" "ready"
    "oi_lineage (sa_input a) = cf_lineage c" "oi_owner (sa_input a) = cf_owner c"
  using assms by (auto simp: snapshotAvailability_def Let_def split: if_splits sum.splits option.splits)

text \<open>
  C22. An assessed recovery objective is a fact about a snapshot that is there: when the data-loss check
  of an objective is anything but unverified, the signed snapshot it names is stored, belongs to the
  configured Owner and lineage, was just read back from a ready repository with exactly its receipt, and
  the check says within-objective precisely if no more than the allowed time passed between the first
  stop of its writers and that reading, to the nanosecond and without overflow for limits below 292 years.
\<close>

theorem assessed_objective_is_observed:
  assumes "history v pv la d c now ready = Inr (h, a, os)" "x \<in> set os" "oc_state (oa_data_loss x) \<noteq> ''unverified''"
    and "oc_limit (oa_data_loss x) < max_duration div second"
  shows "\<exists>b t. load_snapshot_anchor v d (oc_evidence (oa_data_loss x)) = Inr b \<and> oi_lineage (sa_input b) = cf_lineage c \<and>
    oi_owner (sa_input b) = cf_owner c \<and> ready \<and>
    la_receipt la = Some (Some (sa_snapshot b)) \<and> capture_start b = Some t \<and> t \<le> la_at la \<and>
    oc_state (oa_data_loss x) = (if la_at la - t \<le> oc_limit (oa_data_loss x) * second then ''within-objective'' else ''breached'')"
proof -
  obtain current names where s: "\<exists>s. hi_snapshot h = mark_current c s \<and> latest_of (backups v pv d c current names) s"
    and a: "a = snapshotAvailability v la d c (hi_snapshot h) now ready"
    and os: "os = map (assess_objective a (hi_snapshot h)) (pv_objectives pv (cf_policy c))"
    by (rule history_parts[OF assms(1)])
  obtain ob where x: "x = assess_objective a (hi_snapshot h) ob" using assms(2) os by auto
  obtain t where t: "observed_capture a (hi_snapshot h) = Some t"
    using assms(3) x by (cases "observed_capture a (hi_snapshot h)") (auto simp: assess_objective_def)
  then have c: "av_state a = ''present''" "ea_capture (hi_snapshot h) = Some t" "t \<le> av_observed a"
    by (auto simp: observed_capture_def split: if_splits option.splits)
  obtain b where b: "load_snapshot_anchor v d (ea_id (hi_snapshot h)) = Inr b" "la_receipt la = Some (Some (sa_snapshot b))"
    "av_observed a = la_at la" "ready" "oi_lineage (sa_input b) = cf_lineage c" "oi_owner (sa_input b) = cf_owner c"
    using availability_present[of v la d c "hi_snapshot h" now ready] c(1) unfolding a by metis
  obtain s where sn: "hi_snapshot h = mark_current c s" "latest_of (backups v pv d c current names) s" using s by blast
  then obtain b' where "(ea_id s, b') \<in> set (backups v pv d c current names)" "ea_capture s = capture_start b'"
    using c(2) by (auto simp: latest_of_def no_evidence_def split: if_splits)
  then have "backup_of v pv d c current (ea_id s) = Some b'" "ea_capture s = capture_start b'" using backup_unique by fast+
  then have capture: "capture_start b = Some t"
    using b(1) c(2) sn(1) by (auto simp: backup_of_def split: if_splits)
  have check: "oa_data_loss x = (let age = elapsed_seconds (time_sub (la_at la) t) in
      if age > ob_data_loss ob
      then \<lparr>oc_state = ''breached'', oc_limit = ob_data_loss ob, oc_observed = Some age, oc_evidence = ea_id (hi_snapshot h),
            oc_reason = ''retained-snapshot-too-old''\<rparr>
      else \<lparr>oc_state = ''within-objective'', oc_limit = ob_data_loss ob, oc_observed = Some age,
            oc_evidence = ea_id (hi_snapshot h), oc_reason = []\<rparr>)"
    by (simp add: x assess_objective_def t b(3))
  then have limit: "oc_limit (oa_data_loss x) = ob_data_loss ob" "oc_evidence (oa_data_loss x) = ea_id (hi_snapshot h)"
    by (simp_all add: Let_def)
  have "elapsed_seconds (time_sub (la_at la) t) \<le> ob_data_loss ob \<longleftrightarrow> la_at la - t \<le> ob_data_loss ob * second"
    by (rule saturated_age) (use c(3) b(3) assms(4) limit in simp_all)
  then have "oc_state (oa_data_loss x) =
      (if la_at la - t \<le> oc_limit (oa_data_loss x) * second then ''within-objective'' else ''breached'')"
    using check limit(1) by (auto simp: Let_def not_less)
  then show ?thesis using b capture limit(2) c(3) by auto
qed

section \<open>Inspection\<close>

lemma inspected_operation:
  assumes "InspectSnapshotOperation e d operation = Inr i" "si_found i"
  obtains op where "op_at d (sv_key e operation) = Some (Some op)" "check_operation e op = None"
    "inspect_state e d operation op = Inr i" "oi_operation (so_input op) = operation"
proof (cases "loadOperation e d (sv_key e operation)")
  case (Inl x)
  then show thesis using assms by (auto simp: InspectSnapshotOperation_def nothing_found_def split: if_splits)
next
  case (Inr op)
  then have "inspect_state e d operation op = Inr i" "oi_operation (so_input op) = operation"
    using assms by (auto simp: InspectSnapshotOperation_def split: if_splits)
  then show thesis using that load_operation_at[OF Inr] by blast
qed

lemma inspected_fields:
  assumes "inspect_state e d operation op = Inr i"
  shows "si_phase i = si_phase (found_operation operation op) \<and> si_hold_pending i = si_hold_pending (found_operation operation op) \<and>
    si_authenticated i = si_authenticated (found_operation operation op) \<and> si_state i = so_state op \<and> si_found i"
  using assms
  by (auto simp: inspect_state_def found_operation_def Let_def split: if_splits option.splits sum.splits)

text \<open>
  C21. What an inspection calls safe is settled: if the journal of an operation may be replaced by another
  authority according to its inspection, the operation either journaled no writer and completed, or
  its writers were brought back: its phase is restored, each app group it stopped is restored and
  closed, and so they are when the operation still holds an application for a transfer.
\<close>

theorem safe_inspection_is_undisturbed:
  assumes "snapshot_reachable e d" "InspectSnapshotOperation e d operation = Inr i" "si_found i" "SafeForAuthorityReplacement i"
  shows "\<exists>op. map_of (sd_operations d) (sv_key e operation) = Some (Some op) \<and> writers_restored op \<and>
    (case so_quiescence op of None \<Rightarrow> so_state op = ''completed'' | Some q \<Rightarrow> sq_phase q = ''restored'')"
proof -
  obtain op where op: "op_at d (sv_key e operation) = Some (Some op)" "check_operation e op = None"
    "inspect_state e d operation op = Inr i" "oi_operation (so_input op) = operation"
    by (rule inspected_operation[OF assms(2,3)])
  note f = inspected_fields[OF op(3)]
  have sound: "sound_operation e (sv_key e operation) op" by (rule sound_at[OF snapshot_reachable_sound[OF assms(1)] op(1)])
  have phase: "case so_quiescence op of None \<Rightarrow> so_state op = ''completed'' | Some q \<Rightarrow> sq_phase q = ''restored''"
    using assms(3,4) f by (auto simp: SafeForAuthorityReplacement_def found_operation_def Let_def split: option.splits)
  have clear: "\<not> pending_obligation op"
    using assms(3,4) f by (auto simp: SafeForAuthorityReplacement_def pending_obligation_def found_operation_def Let_def split: option.splits)
  have "writers_restored op"
    using settled_writers[OF sound op(2) clear] phase by (cases "so_quiescence op") (auto simp: writers_restored_def)
  then show ?thesis using op(1) phase by blast
qed

section \<open>A concrete history\<close>

text \<open>A snapshot whose runtime recorded when it began to stop writers, looked up three seconds later.\<close>

definition sample_capture :: snapshot_quiescence where
  "sample_capture = \<lparr>sq_requires_capability = False, sq_capability = [], sq_workloads = [], sq_hold = [],
     sq_outcome_digest = [], sq_outcome_state = [], sq_retired_spec = [], sq_candidate = [], sq_version = 1,
     sq_groups = [], sq_controls = [], sq_phase = ''restored'', sq_graph = [], sq_capture = Some 1, sq_containers = []\<rparr>"

definition sample_captured :: "unit backup_disk \<times> (snapshot_error + unit snapshot_anchor)" where
  "sample_captured = Run sample_backup_env 1 sample_status
     (sample_run_env sample_full_lineage [sample_capture] (Some sample_snapshot_receipt)) (fst sample_configured)
     sample_backup_binding sample_run_input"

definition sample_view :: "unit policy_view" where
  "sample_view = \<lparr>pv_digest = (\<lambda>_. Some (sample_digest CHR ''5'')),
     pv_objectives = (\<lambda>_. [\<lparr>ob_binding = ''b'', ob_workloads = [], ob_data_loss = 3, ob_recovery_time = 60\<rparr>,
                          \<lparr>ob_binding = ''c'', ob_workloads = [], ob_data_loss = 2, ob_recovery_time = 60\<rparr>])\<rparr>"

definition sample_lookup :: lookup_answer where
  "sample_lookup = \<lparr>la_at = 3000000001, la_receipt = Some (Some sample_snapshot_receipt)\<rparr>"

definition sample_report where
  "sample_report = history sample_backup_env sample_view sample_lookup (fst sample_captured) (sample_configuration sample_full_lineage) 2 True"

lemmas [host] = sample_capture_def sample_captured_def sample_view_def sample_lookup_def sample_report_def sample_configuration_def
  history_def newerEvidence_def no_evidence_def mark_current_def sort_points_def unverified_history_def history_anchor_def
  history_restore_def latest_snapshot_def recovery_point_def anchor_relevance_def anchor_plan_def capture_start_def
  snapshotAvailability_def assessRecoveryObjectives_def assess_objective_def observed_capture_def elapsed_seconds_def
  time_sub_def max_duration_def second_def sample_run_input_def quiesced_run_def persistSnapshotQuiescence_def
  validateSnapshotQuiescence_def validateApplicationTransferRetirementRecordShape_def ValidateRuntimeControls_def
  check_phase_def cloneSnapshotQuiescence_def validateRestoredSnapshotQuiescence_def anchorMatchesOperation_def

definition sample_age :: "bool \<Rightarrow> evidence_age" where
  "sample_age current = \<lparr>ea_state = ''recorded'', ea_id = sample_digest CHR ''1'', ea_plan = sample_digest CHR ''1'',
     ea_current = current, ea_recorded = Some 1, ea_capture = Some 1, ea_seconds = Some 0\<rparr>"

definition sample_availability :: availability where
  "sample_availability = \<lparr>av_state = ''present'', av_reason = [], av_observed = 3000000001,
     av_evidence = sample_digest CHR ''1'', av_snapshot = ''k''\<rparr>"

lemma sample_names:
  "historyIDs (sd_anchors (bd_snapshots (fst sample_captured))) = Inr [sample_digest CHR ''1'']"
  "historyIDs (bd_results (fst sample_captured)) = Inr []"
  "\<not> sd_stray_anchors (bd_snapshots (fst sample_captured))" "\<not> bd_stray_results (fst sample_captured)"
  by (simp_all add: host)

lemma sample_first_anchor:
  "history_anchor sample_backup_env sample_view (fst sample_captured) (sample_configuration sample_full_lineage) 2
     (sample_digest CHR ''5'') unverified_history (sample_digest CHR ''1'') =
   unverified_history\<lparr>hi_snapshot := sample_age False, hi_points := [sample_age True]\<rparr>"
  by (simp add: host sample_age_def)

lemma sample_present:
  "snapshotAvailability sample_backup_env sample_lookup (fst sample_captured) (sample_configuration sample_full_lineage)
     (sample_age True) 2 True = sample_availability"
  by (simp add: host sample_age_def sample_availability_def)

lemma sample_marked: "mark_current (sample_configuration sample_full_lineage) (sample_age b) = sample_age True"
  by (simp add: host sample_age_def)

lemma sample_report_is:
  "sample_report = Inr (unverified_history\<lparr>hi_snapshot := sample_age True, hi_points := [sample_age True]\<rparr>,
     sample_availability, assessRecoveryObjectives (pv_objectives sample_view ()) sample_availability (sample_age True))"
proof -
  have "pv_digest sample_view p = Some (sample_digest CHR ''5'')" for p by (simp add: sample_view_def)
  moreover have "cf_policy (sample_configuration sample_full_lineage) = ()" by simp
  moreover have "mark_current (sample_configuration sample_full_lineage) (no_evidence\<lparr>ea_state := ''unverified''\<rparr>) =
      no_evidence\<lparr>ea_state := ''unverified''\<rparr>"
    by (simp add: mark_current_def no_evidence_def)
  moreover have "sort_points [p] = [p]" for p by (simp add: sort_points_def)
  ultimately show ?thesis
    unfolding sample_report_def history_def
    by (simp add: evidence_files_def sample_names sample_first_anchor sample_marked sample_present Let_def)
       (simp add: unverified_history_def)
qed

lemma sample_inspection_holds:
  "case InspectSnapshotOperation (bv_snapshot sample_backup_env) (bd_snapshots (fst sample_captured)) ''op'' of
     Inl _ \<Rightarrow> False | Inr i \<Rightarrow> si_found i \<and> SafeForAuthorityReplacement i"
  by (simp add: host InspectSnapshotOperation_def inspect_state_def found_operation_def SafeForAuthorityReplacement_def)

theorem history_reports_backups_witness:
  "\<exists>h a os b. sample_report = Inr (h, a, os) \<and> sorted_wrt before (hi_points h) \<and> hi_points h \<noteq> [] \<and>
     ea_recorded (hi_snapshot h) = Some (created (b :: unit snapshot_anchor))"
proof -
  let ?h = "unverified_history\<lparr>hi_snapshot := sample_age True, hi_points := [sample_age True]\<rparr>"
  have recorded: "ea_recorded (hi_snapshot ?h) \<noteq> None" by (simp add: sample_age_def)
  note r = history_reports_backups[OF sample_report_is[unfolded sample_report_def], unfolded Let_def]
  have "\<exists>b. ea_recorded (hi_snapshot ?h) = Some (created (b :: unit snapshot_anchor))"
    using r recorded by (elim exE conjE) (simp only: split: if_splits, blast)
  moreover have "sorted_wrt before (hi_points ?h)" using r by (elim exE conjE)
  moreover have "hi_points ?h \<noteq> []" by simp
  ultimately obtain b where "sorted_wrt before (hi_points ?h)" "hi_points ?h \<noteq> []"
    "ea_recorded (hi_snapshot ?h) = Some (created (b :: unit snapshot_anchor))" by blast
  then show ?thesis by (intro exI conjI) (rule sample_report_is, assumption+)
qed

theorem assessed_objective_is_observed_witness:
  "\<exists>h a os b t. sample_report = Inr (h, a, os) \<and> map (\<lambda>x. oc_state (oa_data_loss x)) os = [''within-objective'', ''breached''] \<and>
     load_snapshot_anchor sample_backup_env (fst sample_captured) (sample_digest CHR ''1'') = Inr b \<and> capture_start b = Some t \<and>
     la_at sample_lookup - t \<le> 3 * second"
proof -
  let ?ob = "\<lparr>ob_binding = ''b'', ob_workloads = [], ob_data_loss = 3, ob_recovery_time = 60\<rparr>"
  let ?x = "assess_objective sample_availability (sample_age True) ?ob"
  let ?os = "assessRecoveryObjectives (pv_objectives sample_view ()) sample_availability (sample_age True)"
  have states: "map (\<lambda>x. oc_state (oa_data_loss x)) ?os = [''within-objective'', ''breached'']"
    by (simp add: sample_view_def assessRecoveryObjectives_def assess_objective_def observed_capture_def sample_age_def
        sample_availability_def elapsed_seconds_def time_sub_def max_duration_def second_def)
  have x: "?x \<in> set ?os" "oc_state (oa_data_loss ?x) = ''within-objective''" "oc_limit (oa_data_loss ?x) = 3"
    "oc_evidence (oa_data_loss ?x) = sample_digest CHR ''1''"
    by (simp_all add: sample_view_def assessRecoveryObjectives_def assess_objective_def observed_capture_def sample_age_def
        sample_availability_def elapsed_seconds_def time_sub_def max_duration_def second_def)
  have "oc_state (oa_data_loss ?x) \<noteq> ''unverified''" "oc_limit (oa_data_loss ?x) < max_duration div second"
    using x by (simp_all add: max_duration_def second_def)
  from assessed_objective_is_observed[OF sample_report_is[unfolded sample_report_def] x(1) this] x(2-4)
  obtain b t where "load_snapshot_anchor sample_backup_env (fst sample_captured) (sample_digest CHR ''1'') = Inr b"
    "capture_start b = Some t" "la_at sample_lookup - t \<le> 3 * second"
    by (auto split: if_splits)
  then show ?thesis
    by (intro exI conjI) (rule sample_report_is, rule states, assumption+)
qed

theorem safe_inspection_is_undisturbed_witness:
  "\<exists>op. map_of (sd_operations (bd_snapshots (fst sample_captured))) (sample_hex CHR ''p'') = Some (Some op) \<and>
     writers_restored op \<and>
     (case so_quiescence op of None \<Rightarrow> so_state op = ''completed'' | Some q \<Rightarrow> sq_phase q = ''restored'')"
proof -
  have "backup_call sample_backup_env (fst sample_configured) (fst sample_captured)"
    unfolding sample_captured_def by (rule call_Run, rule surjective_pairing)
  from snapshot_part.reached_valid[OF next_call[OF sample_reached(1) this]]
  have reach: "snapshot_reachable (bv_snapshot sample_backup_env) (bd_snapshots (fst sample_captured))" .
  obtain i where i: "InspectSnapshotOperation (bv_snapshot sample_backup_env) (bd_snapshots (fst sample_captured)) ''op'' = Inr i"
    "si_found i" "SafeForAuthorityReplacement i"
    using sample_inspection_holds by (auto split: sum.splits)
  have "sv_key (bv_snapshot sample_backup_env) ''op'' = sample_hex CHR ''p''" by (simp add: sample_backup_env_def)
  with safe_inspection_is_undisturbed[OF reach i] show ?thesis by simp
qed

end
