(* ===== verification/Spec2Isabelle.thy ===== *)
theory Spec2Isabelle
  imports SynchronousControl LifecycleOutcomes CompositionPlan RecoveryEvidence
begin

text \<open>
  The lifecycle core of StackKits, a Go program that composes self-hosted stacks from modules, applies
  them to a host, and upgrades, backs up and restores them. This development models the parts that
  decide: what is installed and in which order, who may change a host, and how an interrupted upgrade,
  snapshot or restore is continued. Every definition is a translation of the Go source; file names
  below are under \<open>src/internal/\<close>.

  \<^bold>\<open>The program.\<close> Three subsystems are covered.

  \<^item> \<open>composition\<close> turns module contracts, a kit and the user's spec into an ordered list of modules
    with settings, identity configuration and placement.
  \<^item> \<open>lifecyclemutation\<close> keeps a signed journal per host. Every upgrade and restore activation is a
    history of records, one per phase; a lock, recovery custody and one-use joins decide which process
    and which child may act; every other mutation of the host asks for an idle journal.
  \<^item> \<open>backuplifecycle\<close> takes snapshots and stages restores. A snapshot stops the writers of the data
    through journaled controls (one container) and app groups (a compose project) and starts them again;
    configurations, snapshots and restores are files signed by the Owner.

  The subsystems meet in two places. A restore activation journals the same controls and groups as a
  snapshot, in a record of the lifecycle journal; and an ordinary mutation, a joined child, a snapshot, a
  configuration and a restore all wait until no other snapshot holds a writer
  (\<open>RequireSettledRuntimeControls\<close>).

  \<^bold>\<open>Theories.\<close> State is explicit: a Go struct is a record with the source's fields, a directory is an
  association list from file names to contents, a call returns the new state and its error.

  \<^item> \<open>Prelude\<close>: Go's error style and byte strings; the locales \<open>guarded_steps\<close> and \<open>started_steps\<close>, which
    carry an invariant along a step relation and are interpreted on each journal below.
  \<^item> \<open>RuntimeControls\<close>, \<open>SynchronousControl\<close>: \<open>backuplifecycle/runtime_control.go\<close>. A control with its
    four effects, \<open>AdvanceRuntimeControl\<close>, \<open>SettleRuntimeControl\<close> and the synchronous driver. The manager's
    contract is the locale \<open>manager_driver\<close>, interpreted on that driver.
  \<^item> \<open>AppGroups\<close>: \<open>backuplifecycle/app_group_control.go\<close>. A group and its history, its validation, the
    admitted transitions, \<open>AdvanceAppGroup\<close> and \<open>SettleAppGroup\<close>.
  \<^item> \<open>MutationPhases\<close>, \<open>MutationRecord\<close>: the phases and transition tables, the record and \<open>validateRecord\<close>
    (\<open>lifecyclemutation/journal.go\<close>), the state of an upgrade's data activation
    (\<open>upgrade_data_activation.go\<close>) and the obligations of a restore (\<open>restore_controls.go\<close>,
    \<open>restore_app_groups.go\<close>, \<open>restore_group_closures.go\<close>).
  \<^item> \<open>MutationJournal\<close>: the files of the journal (\<open>journal.go\<close>): decoding, the immutable history of an
    operation, the active pointer, \<open>persistRecord\<close> and the repair of a stale pointer, over the outcomes
    of an atomic write (\<open>confinedfs/atomic.go\<close>).
  \<^item> \<open>MutationSession\<close>: what a session calls (\<open>journal.go\<close>, \<open>upgrade_recovery.go\<close>): \<open>Begin\<close>, recovery,
    \<open>Transition\<close>, \<open>Complete\<close>, reconciliation, joins and \<open>withIdleMutation\<close>.
  \<^item> \<open>LifecycleSystem\<close>, \<open>LifecycleOutcomes\<close>: the processes around one journal as a step relation, its
    invariant, and what the outcomes of an operation mean.
  \<^item> \<open>CompositionGraph\<close>, \<open>CompositionEngine\<close>, \<open>CompositionPlan\<close>: \<open>composition/graph.go\<close>,
    \<open>composition/engine.go\<close> with \<open>cue/module.go\<close>, \<open>cue/mode_matrix.go\<close> and \<open>placement/placement.go\<close>, and
    the guarantees of \<open>Resolve\<close>.
  \<^item> \<open>SnapshotRecord\<close>, \<open>SnapshotOperations\<close>: the operation file of a snapshot and its checks, \<open>run\<close> and
    \<open>completeSnapshot\<close> (\<open>backuplifecycle/service.go\<close>, \<open>snapshot_app_groups.go\<close>), the transfer hold
    (\<open>application_transfer_hold.go\<close>), the closing of native groups (\<open>app_group_authority.go\<close>) and the gate
    (\<open>pending_controls.go\<close>). \<open>SnapshotJournal\<close> has the invariant, \<open>SnapshotOutcomes\<close> the guarantees.
  \<^item> \<open>BackupConfiguration\<close>, \<open>RestoreOperations\<close>: \<open>Configure\<close>, \<open>Rebind\<close>, \<open>Status\<close>, \<open>Restore\<close>, \<open>Run\<close>
    (\<open>service.go\<close>), abandonment (\<open>restore_abandonment.go\<close>), the time of a verification
    (\<open>restore_verification_time.go\<close>) and retention (\<open>retention_admission.go\<close>). \<open>RestoreJournal\<close> has the
    invariant, \<open>RestoreOutcomes\<close> the guarantees.
  \<^item> \<open>RecoveryEvidence\<close>: \<open>history.go\<close>, \<open>snapshot_availability.go\<close>, \<open>recovery_objective_assessment.go\<close> and
    \<open>snapshot_operation_inspection.go\<close>.
  \<^item> This theory: the property that joins the lifecycle journal to the snapshots.

  \<^bold>\<open>What the lemmas show.\<close> The properties are marked C1 to C40 where they stand.

  \<^item> Controls and groups: an effect is dispatched at most once and only after its intent is durable; what
    is written is one admitted transition (C3, C7, C34).
  \<^item> The lifecycle journal: a write is atomic up to recovery (C4), an accepted history is linear (C29), the
    pointer cannot be replayed (C24), every reachable history is authorised (C1), custody and children
    exclude each other (C5), a join is used once (C15), what success and recovery imply (C16, C27), a
    restore activation ends (C28), an authorised transition succeeds (C35).
  \<^item> Snapshots: unique results and final ends (C12, C17), restored writers (C8), evidence for a retirement
    (C23), append-only groups (C30), a gate that a disturbed writer or a damaged record closes
    (C6, C19, C26).
  \<^item> Restores and configurations: well-formed files (C18), unique results (C13), abandonment (C14),
    completion within the approval (C9), no second staging (C31), retention (C10), configurations that
    read back (C32); and the reports over them (C20, C21, C22).
  \<^item> Composition: the closure and the order against a reference (C2, C11), sort failure as cyclicity (C33),
    sound resolutions (C25).
  \<^item> Faults of the code, proved of the model: C36, C37, C38, C39, C40, and the lemmas
    \<open>leftover_blocks_full_journal\<close>, \<open>abandoned_write_blocks_gate\<close>, \<open>uncontrolled_passes_gate\<close>.

  \<^bold>\<open>Bounds and termination.\<close> The sequence of a record is a \<open>64 word\<close>; a record has at most \<open>2 ^ 20\<close> bytes
  and a directory at most 256 files (the code counts the directory itself, 257), so the sequence of a
  journal that loads does not wrap. The difference of two times saturates at 64 bits. Nothing runs on fuel:
  Kahn's loop is measured by the queue and the degrees left, the two depth-first searches by the modules
  not yet visited, a pass of the expansion by the names not yet ranged over, the passes by the contracts
  not yet enabled, and the other recursions are structural or shorten a string. The phases of a restore
  activation over \<open>n\<close> volumes number at most \<open>6 n + 17\<close> (C28), by a measure on the volumes still to copy.

  \<^bold>\<open>What is left to the environment.\<close> An answer of other code is an argument, arbitrary unless a
  hypothesis restricts it.

  \<^item> \<open>'b wire\<close>: canonical JSON, SHA-256 and the Owner's signature of the lifecycle journal.
    \<open>lawful_wire\<close> is what is used of them: what is encoded decodes, what is signed verifies, a digest has
    the form of one, a truncated write is no longer than the whole.
  \<^item> \<open>write_outcome\<close>, \<open>file_write\<close>: how a write ends: done, failed before or after it took effect, with
    or without a temporary file left. A process that stops leaves the store of a failed step.
  \<^item> \<open>control_env\<close>: journal, observer and manager of a control, each a function of the events so far.
  \<^item> \<open>snapshot_env\<close>, \<open>backup_env\<close>: digests, signatures, the policy type with its projections, the
    capability decoder, the Owner's custody. \<open>run_env\<close>, \<open>configure_env\<close> and \<open>restore_world\<close>: the backup
    repository, the verifier, the clock and the file writes of one call.
  \<^item> \<open>composition_env\<close>: the order of each \<open>range\<close> over a map, the random source, Unicode's lower case.
  \<^item> \<open>session_env\<close>: writes, clock, nonce, custody and the process table of one lifecycle call.

  Protocol 0. A snapshot whose runtime announces no control protocol stops containers without
  journaling the stop, and the gate passes over it. \<open>undisturbed\<close> says of such a snapshot that it is
  restored or stopped nothing, so the properties of the gate (C6, C19) are stated of \<open>controlled\<close>
  snapshots: a protocol other than 0, or a transfer hold. \<open>sample_plain_admits\<close> is the admission of a
  mutation beside a stopped snapshot of protocol 0.

  \<^bold>\<open>Not modelled.\<close> Directory privacy checks, path confinement and read errors; operating-system locks
  beyond who holds them; cancellation, except after the last effect of a restore and of an abandonment;
  Docker, Kopia and systemd; the policy documents, the CUE contracts and the capability contracts, which
  are read by other packages; the application transfer and emergency archives; the executors, the command
  line, the API and the agents; the renderers of composition results.
\<close>

text \<open>
  C6. A controlled snapshot that still disturbs a writer keeps every other mutation of the host out:
  while its journal holds an application for a transfer, an app group it stopped is not restored and
  closed, or a container it stopped through a journaled control does not run again, no ordinary
  mutation and no joined child runs, except for the run of that same operation; the callback is not
  called and nothing changes. Snapshots of protocol 0, which journal no control, are not covered:
  the gate lets them pass in any phase.
\<close>

theorem mutation_waits_for_snapshots:
  assumes "snapshot_reachable e d" "map_of (sd_operations d) key = Some (Some op)"
    and "\<not> released op" "\<not> undisturbed op" "controlled op" "oi_operation (so_input op) \<noteq> resume"
    and "ev_settled ev \<longleftrightarrow> RequireSettledRuntimeControls e d resume = None"
  shows "\<exists>x. \<forall>execute. withIdleMutation W F ev w q execute = (w, Some x)"
proof -
  have off: "\<not> ev_settled ev" using disturbed_not_settled[OF assms(1,2,6,3,4,5)] assms(7) by simp
  have undo: "w\<lparr>wd_lock := False\<rparr> = w" if "\<not> wd_lock w" using that by simp
  show ?thesis
    using off undo by (auto simp: withIdleMutation_def openLocked_simp Close_new split: option.split prod.split)
qed

theorem mutation_waits_for_snapshots_witness:
  "\<forall>q. \<exists>x. \<forall>execute. withIdleMutation sample_wire sample_funs
     (sample_session_env\<lparr>ev_settled := (RequireSettledRuntimeControls sample_snapshot_env (fst sample_stopping_run) [] = None)\<rparr>)
     initial_world q execute = (initial_world, Some x)"
proof
  fix q
  obtain op where op: "map_of (sd_operations (fst sample_stopping_run)) ''op'' = Some (Some op)"
    "\<not> released op" "\<not> undisturbed op" "controlled op" "oi_operation (so_input op) \<noteq> []"
    using op_checkE[OF sample_disturbed] by blast
  show "\<exists>x. \<forall>execute. withIdleMutation sample_wire sample_funs
     (sample_session_env\<lparr>ev_settled := (RequireSettledRuntimeControls sample_snapshot_env (fst sample_stopping_run) [] = None)\<rparr>)
     initial_world q execute = (initial_world, Some x)"
    by (rule mutation_waits_for_snapshots[OF sample_reachable(3) op]) simp
qed

end
